(* ===== verification/Prelude.thy ===== *)
theory Prelude
  imports Main "HOL-Library.Word"
begin

text \<open>
  Shared vocabulary of the development: machine integers, the outcome of a C function
  that may abort, little-endian views of byte buffers, and the generic lemmas on lists
  and words that the component theories use.

  A C function that can stop the node is modelled by a value of \<open>'a res\<close>: \<open>Inr\<close>
  carries the result, \<open>Inl\<close> says how the node stopped: a failed \<open>assert\<close>, a call of
  \<open>rtems_panic\<close>, or an access that C leaves undefined (null, freed or never initialised
  pointer, index outside an object).  Asserts are taken as compiled in.  A loop of the code
  that may run forever is given a bound on its iterations; \<open>Out_Of_Fuel\<close> says that the bound
  was reached, it is no outcome of the program.
\<close>

unbundle bit_operations_syntax

type_synonym u8 = "8 word"
type_synonym u32 = "32 word"
type_synonym u64 = "64 word"

text \<open>Pointers are 32-bit addresses of the Cortex-R52; the null pointer is address 0.\<close>

type_synonym ptr = "32 word"

abbreviation (input) NULL :: ptr where "NULL \<equiv> 0"

datatype fault = Assert_Failed | Panic | Undef | Out_Of_Fuel

type_synonym 'a res = "fault + 'a"

named_theorems res_iff \<open>when a computation returns normally\<close>

subsection \<open>Sequencing computations that may stop the node\<close>

fun res_bind :: "'a res \<Rightarrow> ('a \<Rightarrow> 'b res) \<Rightarrow> 'b res" where
  "res_bind (Inl e) f = Inl e"
| "res_bind (Inr x) f = f x"

lemma res_bind_Inr_iff [res_iff]:
  "res_bind m f = Inr y \<longleftrightarrow> (\<exists>x. m = Inr x \<and> f x = Inr y)"
  by (cases m) auto

lemma res_bind_Inl_iff:
  "res_bind m f = Inl e \<longleftrightarrow> m = Inl e \<or> (\<exists>x. m = Inr x \<and> f x = Inl e)"
  by (cases m) auto

lemma res_bind_assoc: "res_bind (res_bind m f) g = res_bind m (\<lambda>x. res_bind (f x) g)"
  by (cases m) auto

lemma res_bind_split:
  "P (res_bind m f) \<longleftrightarrow> (\<forall>e. m = Inl e \<longrightarrow> P (Inl e)) \<and> (\<forall>x. m = Inr x \<longrightarrow> P (f x))"
  by (cases m) auto

lemma res_bind_cong [fundef_cong]:
  "m = m' \<Longrightarrow> (\<And>x. m' = Inr x \<Longrightarrow> f x = f' x) \<Longrightarrow> res_bind m f = res_bind m' f'"
  by (cases m') auto

abbreviation c_assert :: "bool \<Rightarrow> 'a res \<Rightarrow> 'a res" where
  "c_assert P k \<equiv> (if P then k else Inl Assert_Failed)"

text \<open>Following a pointer: the object it designates, or undefined behaviour.\<close>

abbreviation c_deref :: "'a option \<Rightarrow> ('a \<Rightarrow> 'b res) \<Rightarrow> 'b res" where
  "c_deref p k \<equiv> (case p of None \<Rightarrow> Inl Undef | Some x \<Rightarrow> k x)"

lemma c_assert_Inr_iff [res_iff]: "c_assert P k = Inr y \<longleftrightarrow> P \<and> k = Inr y"
  by simp

lemma c_deref_Inr_iff [res_iff]: "c_deref p k = Inr y \<longleftrightarrow> (\<exists>x. p = Some x \<and> k x = Inr y)"
  by (cases p) auto

text \<open>Running a step for each element of a list, in order, until one of them fails.\<close>

fun res_fold :: "('i \<Rightarrow> 's \<Rightarrow> 's res) \<Rightarrow> 'i list \<Rightarrow> 's \<Rightarrow> 's res" where
  "res_fold f [] s = Inr s"
| "res_fold f (i # is) s = res_bind (f i s) (res_fold f is)"

lemma res_fold_append: "res_fold f (is @ js) s = res_bind (res_fold f is s) (res_fold f js)"
  by (induction "is" arbitrary: s) (simp_all add: res_bind_assoc cong: res_bind_cong)

lemma res_fold_Nil_fun [simp]: "res_fold f [] = Inr"
  by (rule ext) simp

lemma res_bind_Inr [simp]: "res_bind m Inr = m"
  by (cases m) simp_all

text \<open>A counted loop keeps an invariant until it has ended or a step has failed.\<close>

lemma res_fold_upt:
  assumes "P 0 s"
    and "\<And>i s. i < n \<Longrightarrow> P i s \<Longrightarrow> (\<exists>s'. f i s = Inr s' \<and> P (Suc i) s') \<or> (\<exists>e. f i s = Inl e \<and> Q e)"
  shows "(\<exists>s'. res_fold f [0..<n] s = Inr s' \<and> P n s') \<or> (\<exists>e. res_fold f [0..<n] s = Inl e \<and> Q e)"
  using assms
proof (induction n)
  case (Suc n)
  then have "(\<exists>s'. res_fold f [0..<n] s = Inr s' \<and> P n s') \<or> (\<exists>e. res_fold f [0..<n] s = Inl e \<and> Q e)" by simp
  then show ?case
  proof (elim disjE exE conjE)
    fix s' assume "res_fold f [0..<n] s = Inr s'" and "P n s'"
    then show ?thesis using Suc.prems(2) [of n s'] by (simp add: res_fold_append)
  qed (simp add: res_fold_append)
qed simp

subsection \<open>Little-endian words\<close>

text \<open>The four bytes of a word in memory order, and the word read from four bytes.\<close>

definition bytes32 :: "u32 \<Rightarrow> u8 list" where
  "bytes32 w = [ucast w, ucast (drop_bit 8 w), ucast (drop_bit 16 w), ucast (drop_bit 24 w)]"

fun le32 :: "u8 list \<Rightarrow> u32" where
  "le32 [] = 0"
| "le32 (b # bs) = ucast b OR push_bit 8 (le32 bs)"

lemma length_bytes32 [simp]: "length (bytes32 w) = 4"
  by (simp add: bytes32_def)

lemma le32_bytes32 [simp]: "le32 (bytes32 w) = w"
proof (rule bit_word_eqI)
  fix n assume n: "n < LENGTH(32)"
  consider "n < 8" | "8 \<le> n" "n < 16" | "16 \<le> n" "n < 24" | "24 \<le> n" "n < 32"
    using n by fastforce
  then show "bit (le32 (bytes32 w)) n \<longleftrightarrow> bit w n"
    by cases (auto simp: bytes32_def bit_simps)
qed

lemma bit_u8_ge [simp]: "8 \<le> n \<Longrightarrow> \<not> bit (a :: u8) n"
  using bit_imp_le_length [of a n] by auto

lemma bytes32_le32_4: "bytes32 (le32 [a, b, c, d]) = [a, b, c, d]"
  unfolding bytes32_def
  by (auto intro!: bit_word_eqI simp: bit_simps)

lemma bytes32_le32 [simp]: "length bs = 4 \<Longrightarrow> bytes32 (le32 bs) = bs"
  using bytes32_le32_4 by (auto simp: length_Suc_conv numeral_eq_Suc)

subsection \<open>Lists of fixed length\<close>

lemma take_4_drop: "i + 4 \<le> length xs \<Longrightarrow> take 4 (drop i xs) = [xs ! i, xs ! (i + 1), xs ! (i + 2), xs ! (i + 3)]"
  by (auto intro!: nth_equalityI simp: less_Suc_eq numeral_eq_Suc)

text \<open>Overwriting part of an array with a block of values.\<close>

definition overwrite :: "nat \<Rightarrow> 'a list \<Rightarrow> 'a list \<Rightarrow> 'a list" where
  "overwrite i ys xs = take i xs @ ys @ drop (i + length ys) xs"

lemma length_overwrite [simp]: "i + length ys \<le> length xs \<Longrightarrow> length (overwrite i ys xs) = length xs"
  by (simp add: overwrite_def)

lemma nth_overwrite:
  "i + length ys \<le> length xs \<Longrightarrow> j < length xs \<Longrightarrow>
   overwrite i ys xs ! j = (if i \<le> j \<and> j < i + length ys then ys ! (j - i) else xs ! j)"
  by (auto simp: overwrite_def nth_append min_def)

lemma overwrite_overwrite:
  assumes "i + length xs \<le> length zs" and "j = i + length xs"
  shows "overwrite j ys (overwrite i xs zs) = overwrite i (xs @ ys) zs"
  using assms by (simp add: overwrite_def add.commute add.left_commute)

text \<open>
  A buffer argument, when the callee looks at its address: whether that is a multiple of
  the word size, and the bytes of the object.
\<close>

record cbuf =
  buf_aligned :: bool
  buf_bytes :: "u8 list"

lemma of_nat_u32_inj:
  assumes "m < 2 ^ 32" and "n < 2 ^ 32" and "(of_nat m :: u32) = of_nat n"
  shows "m = n"
  using assms by (simp add: word_of_nat_eq_iff take_bit_nat_eq_self)

end
