(* ===== verification/Rtems.thy ===== *)
theory Rtems
  imports Prelude
begin

text \<open>
  The interface to RTEMS and to the C library's allocator.  None of that code is in the
  repository, so it is a parameter: the record \<open>'k rtems\<close> holds one function per call the
  code makes, over an abstract kernel state \<open>'k\<close>.  What the code relies on is stated as
  predicates over an observation of the kernel state (\<open>irq_laws\<close>, \<open>heap_laws\<close>,
  \<open>event_laws\<close>), each a reading of the RTEMS Classic API guide or of the C standard.
  The last section gives one small kernel that satisfies all of them; it is used only to
  show that the hypotheses of the properties can hold.
\<close>

subsection \<open>Status codes, identifiers, events\<close>

datatype rtems_status_code =
    RTEMS_SUCCESSFUL | RTEMS_INVALID_ID | RTEMS_INVALID_ADDRESS | RTEMS_INVALID_NUMBER
  | RTEMS_CALLED_FROM_ISR | RTEMS_RESOURCE_IN_USE | RTEMS_NOT_OWNER_OF_RESOURCE
  | RTEMS_UNSATISFIED | RTEMS_NO_MEMORY | RTEMS_NOT_DEFINED | RTEMS_ALREADY_SUSPENDED
  | RTEMS_OTHER_STATUS nat

type_synonym rtems_id = u32
type_synonym rtems_event_set = u32
type_synonym rtems_interval = u32
type_synonym rtems_vector_number = u32

abbreviation (input) RTEMS_ID_NONE :: rtems_id where "RTEMS_ID_NONE \<equiv> 0"
abbreviation (input) RTEMS_SELF :: rtems_id where "RTEMS_SELF \<equiv> 0"
abbreviation (input) RTEMS_NO_TIMEOUT :: rtems_interval where "RTEMS_NO_TIMEOUT \<equiv> 0"
abbreviation (input) RTEMS_EVENT_0 :: rtems_event_set where "RTEMS_EVENT_0 \<equiv> 1"
abbreviation (input) RTEMS_EVENT_1 :: rtems_event_set where "RTEMS_EVENT_1 \<equiv> 2"
abbreviation (input) RTEMS_EVENT_2 :: rtems_event_set where "RTEMS_EVENT_2 \<equiv> 4"

text \<open>
  Function pointers handed to RTEMS or stored in driver structures, by the name of the
  function of the source they designate.
\<close>

datatype handler =
    Hpsc_mbox_isr_a | Hpsc_mbox_isr_b | Link_recv_cmd | Link_recv_reply | Link_mbox_ack
  | Link_shmem_ack | Watchdog_timeout_isr | Mbox_test_cb_recv | Mbox_test_cb_ack
  | Rtit_test_handle_event

datatype task_entry = Cmd_handle_task | Shm_poll_task | Watchdog_task

subsection \<open>The calls\<close>

record 'k rtems =
  rt_malloc :: "'k \<Rightarrow> ptr \<times> 'k"
  rt_free :: "ptr \<Rightarrow> 'k \<Rightarrow> 'k"
  rt_int_install :: "rtems_vector_number \<Rightarrow> handler \<Rightarrow> ptr \<Rightarrow> 'k \<Rightarrow> rtems_status_code \<times> 'k"
  rt_int_remove :: "rtems_vector_number \<Rightarrow> handler \<Rightarrow> ptr \<Rightarrow> 'k \<Rightarrow> rtems_status_code \<times> 'k"
  rt_int_in_progress :: "'k \<Rightarrow> bool"
  rt_task_self :: "'k \<Rightarrow> rtems_id"
  rt_task_start :: "rtems_id \<Rightarrow> task_entry \<Rightarrow> ptr \<Rightarrow> 'k \<Rightarrow> rtems_status_code \<times> 'k"
  rt_event_send :: "rtems_id \<Rightarrow> rtems_event_set \<Rightarrow> 'k \<Rightarrow> rtems_status_code \<times> 'k"
  rt_event_take :: "rtems_event_set \<Rightarrow> 'k \<Rightarrow> rtems_event_set \<times> 'k"
  rt_task_create :: "string \<Rightarrow> nat \<Rightarrow> 'k \<Rightarrow> rtems_status_code \<times> rtems_id \<times> 'k"
  rt_task_exit :: "'k \<Rightarrow> 'k"
  rt_cpu_count :: nat
  rt_current_cpu :: "'k \<Rightarrow> nat"
  rt_get_affinity :: "rtems_id \<Rightarrow> 'k \<Rightarrow> rtems_status_code \<times> nat set"
  rt_set_affinity :: "rtems_id \<Rightarrow> nat set \<Rightarrow> 'k \<Rightarrow> rtems_status_code \<times> 'k"
  rt_task_suspend :: "rtems_id \<Rightarrow> 'k \<Rightarrow> rtems_status_code \<times> 'k"
  rt_task_list :: "'k \<Rightarrow> rtems_id list"
  rt_wdt_handler_install :: "ptr \<Rightarrow> handler \<Rightarrow> ptr \<Rightarrow> 'k \<Rightarrow> rtems_status_code \<times> 'k"
  rt_wdt_handler_remove :: "ptr \<Rightarrow> handler \<Rightarrow> ptr \<Rightarrow> 'k \<Rightarrow> rtems_status_code \<times> 'k"
  rt_wdt_enable :: "ptr \<Rightarrow> 'k \<Rightarrow> 'k"
  rt_wdt_kick :: "ptr \<Rightarrow> 'k \<Rightarrow> 'k"
  rt_wdt_timeout_clear :: "ptr \<Rightarrow> nat \<Rightarrow> 'k \<Rightarrow> 'k"
  rt_wdt_init_target :: "ptr \<Rightarrow> string \<Rightarrow> ptr \<Rightarrow> rtems_vector_number \<Rightarrow> 'k \<Rightarrow> 'k"
  rt_wdt_uninit :: "ptr \<Rightarrow> 'k \<Rightarrow> 'k"
  rt_us_to_ticks :: "nat \<Rightarrow> rtems_interval"

text \<open>
  \<open>rt_event_take\<close> is the non-blocking part of \<open>rtems_event_receive\<close> in mode
  \<open>RTEMS_EVENT_ANY\<close>: the events of the calling task that are pending when its wait ends,
  or the empty set if the wait ended by time-out.  What the rest of the system does while
  the task is blocked is a separate parameter of the callers.  \<open>rt_task_list\<close> lists the tasks
  that \<open>rtems_task_iterate\<close> visits.  The \<open>rt_wdt_\<close> calls are those of the board support
  package's watchdog driver (\<open>bsp/hpsc-wdt.h\<close>).
\<close>

text \<open>In mode \<open>RTEMS_EVENT_ALL\<close> the events are taken only if all of them are pending; otherwise they stay pending.\<close>

definition rt_event_take_all :: "'k rtems \<Rightarrow> rtems_event_set \<Rightarrow> 'k \<Rightarrow> rtems_event_set \<times> 'k" where
  "rt_event_take_all K m k = (case rt_event_take K m k of (ev, k') \<Rightarrow> if ev = m then (ev, k') else (0, k))"

subsection \<open>What the code relies on\<close>

text \<open>Interrupt manager: handlers are installed as unique; a failed call changes nothing.\<close>

definition irq_laws :: "'k rtems \<Rightarrow> ('k \<Rightarrow> (rtems_vector_number \<times> handler \<times> ptr) set) \<Rightarrow> bool" where
  "irq_laws K irqs \<longleftrightarrow>
     (\<forall>v h a k. case rt_int_install K v h a k of (sc, k') \<Rightarrow>
        irqs k' = (if sc = RTEMS_SUCCESSFUL then insert (v, h, a) (irqs k) else irqs k) \<and>
        (sc = RTEMS_SUCCESSFUL \<longrightarrow> (\<forall>h' a'. (v, h', a') \<notin> irqs k))) \<and>
     (\<forall>v h a k. case rt_int_remove K v h a k of (sc, k') \<Rightarrow>
        irqs k' = (if sc = RTEMS_SUCCESSFUL then irqs k - {(v, h, a)} else irqs k) \<and>
        (sc = RTEMS_SUCCESSFUL \<longleftrightarrow> (v, h, a) \<in> irqs k)) \<and>
     (\<forall>k. irqs (snd (rt_malloc K k)) = irqs k) \<and>
     (\<forall>p k. irqs (rt_free K p k) = irqs k)"

text \<open>Allocator: a non-null result is an object that was not live.\<close>

definition heap_laws :: "'k rtems \<Rightarrow> ('k \<Rightarrow> ptr set) \<Rightarrow> bool" where
  "heap_laws K live \<longleftrightarrow>
     (\<forall>k. case rt_malloc K k of (p, k') \<Rightarrow>
        (if p = NULL then live k' = live k else p \<notin> live k \<and> live k' = insert p (live k))) \<and>
     (\<forall>p k. live (rt_free K p k) = live k - {p}) \<and>
     (\<forall>v h a k. live (snd (rt_int_install K v h a k)) = live k) \<and>
     (\<forall>v h a k. live (snd (rt_int_remove K v h a k)) = live k) \<and>
     (\<forall>t e a k. live (snd (rt_task_start K t e a k)) = live k)"

text \<open>None of the calls that tasks make changes whether an interrupt is being served.\<close>

definition isr_laws :: "'k rtems \<Rightarrow> bool" where
  "isr_laws K \<longleftrightarrow>
     (\<forall>k. rt_int_in_progress K (snd (rt_malloc K k)) = rt_int_in_progress K k) \<and>
     (\<forall>p k. rt_int_in_progress K (rt_free K p k) = rt_int_in_progress K k) \<and>
     (\<forall>t e a k. rt_int_in_progress K (snd (rt_task_start K t e a k)) = rt_int_in_progress K k) \<and>
     (\<forall>v h a k. rt_int_in_progress K (snd (rt_int_remove K v h a k)) = rt_int_in_progress K k) \<and>
     (\<forall>t cs k. rt_int_in_progress K (snd (rt_set_affinity K t cs k)) = rt_int_in_progress K k)"

text \<open>
  Event manager: events of a task are a set, sending adds to it and fails without effect
  for an id that names no task; receiving removes what it returns.
\<close>

definition event_laws :: "'k rtems \<Rightarrow> ('k \<Rightarrow> rtems_id \<Rightarrow> rtems_event_set) \<Rightarrow> bool" where
  "event_laws K pend \<longleftrightarrow>
     (\<forall>t e k. case rt_event_send K t e k of (sc, k') \<Rightarrow>
        pend k' = (if sc = RTEMS_SUCCESSFUL then (pend k)(t := pend k t OR e) else pend k) \<and>
        rt_task_self K k' = rt_task_self K k) \<and>
     (\<forall>m k. case rt_event_take K m k of (ev, k') \<Rightarrow>
        ev = pend k (rt_task_self K k) AND m \<and>
        pend k' = (pend k)(rt_task_self K k := pend k (rt_task_self K k) AND NOT m) \<and>
        rt_task_self K k' = rt_task_self K k)"

text \<open>
  Watchdog driver: a watchdog has at most one handler; a failed call changes nothing; a handler
  that is installed can be removed.  \<open>isrs\<close> are the installed handlers, \<open>armed\<close> the watchdogs that
  are enabled; nothing disables a watchdog, and the other calls of the watchdog tasks touch neither.
\<close>

definition wdt_laws ::
  "'k rtems \<Rightarrow> ('k \<Rightarrow> (ptr \<times> handler \<times> ptr) set) \<Rightarrow> ('k \<Rightarrow> ptr set) \<Rightarrow> bool" where
  "wdt_laws K isrs armed \<longleftrightarrow>
     (\<forall>p h a k. case rt_wdt_handler_install K p h a k of (sc, k') \<Rightarrow>
        isrs k' = (if sc = RTEMS_SUCCESSFUL then insert (p, h, a) (isrs k) else isrs k) \<and> armed k' = armed k \<and>
        (sc = RTEMS_SUCCESSFUL \<longrightarrow> (\<forall>h' a'. (p, h', a') \<notin> isrs k))) \<and>
     (\<forall>p h a k. case rt_wdt_handler_remove K p h a k of (sc, k') \<Rightarrow>
        isrs k' = (if sc = RTEMS_SUCCESSFUL then isrs k - {(p, h, a)} else isrs k) \<and> armed k' = armed k \<and>
        (sc = RTEMS_SUCCESSFUL \<longleftrightarrow> (p, h, a) \<in> isrs k)) \<and>
     (\<forall>p k. isrs (rt_wdt_enable K p k) = isrs k \<and> armed (rt_wdt_enable K p k) = insert p (armed k)) \<and>
     (\<forall>t e a k. isrs (snd (rt_task_start K t e a k)) = isrs k \<and> armed (snd (rt_task_start K t e a k)) = armed k) \<and>
     (\<forall>t e k. isrs (snd (rt_event_send K t e k)) = isrs k \<and> armed (snd (rt_event_send K t e k)) = armed k)"

text \<open>
  Scheduler affinity: a valid call replaces the task's set, and a task that changes its own
  set continues on a processor of the new one.  A call with a set given can fail for the
  identifier or for the set only, and \<open>RTEMS_SELF\<close> is always a valid identifier.
\<close>

definition affinity_laws :: "'k rtems \<Rightarrow> ('k \<Rightarrow> rtems_id \<Rightarrow> nat set) \<Rightarrow> bool" where
  "affinity_laws K aff \<longleftrightarrow>
     (\<forall>t cs k. case rt_set_affinity K t cs k of (sc, k') \<Rightarrow>
        (let target = (if t = RTEMS_SELF then rt_task_self K k else t) in
         sc \<in> {RTEMS_SUCCESSFUL, RTEMS_INVALID_ID, RTEMS_INVALID_NUMBER} \<and>
         (t = RTEMS_SELF \<longrightarrow> sc \<noteq> RTEMS_INVALID_ID) \<and>
         rt_task_self K k' = rt_task_self K k \<and>
         aff k' = (if sc = RTEMS_SUCCESSFUL then (aff k)(target := cs) else aff k) \<and>
         (if sc = RTEMS_SUCCESSFUL \<and> target = rt_task_self K k then rt_current_cpu K k' \<in> cs
          else rt_current_cpu K k' = rt_current_cpu K k))) \<and>
     (\<forall>k. rt_get_affinity K RTEMS_SELF k = (RTEMS_SUCCESSFUL, aff k (rt_task_self K k)))"

lemma irq_laws_install:
  assumes "irq_laws K irqs" and "rt_int_install K v h a k = (sc, k')"
  shows "irqs k' = (if sc = RTEMS_SUCCESSFUL then insert (v, h, a) (irqs k) else irqs k)"
    and "sc = RTEMS_SUCCESSFUL \<Longrightarrow> (v, h', a') \<notin> irqs k"
  using assms(1) [unfolded irq_laws_def, THEN conjunct1, rule_format, where v = v and h = h and a = a and k = k] assms(2)
  by simp_all

lemma irq_laws_remove:
  assumes "irq_laws K irqs" and "rt_int_remove K v h a k = (sc, k')"
  shows "irqs k' = (if sc = RTEMS_SUCCESSFUL then irqs k - {(v, h, a)} else irqs k)"
    and "sc = RTEMS_SUCCESSFUL \<longleftrightarrow> (v, h, a) \<in> irqs k"
  using assms(1) [unfolded irq_laws_def, THEN conjunct2, THEN conjunct1, rule_format, where v = v and h = h and a = a and k = k]
    assms(2) by simp_all

lemma irq_laws_heap:
  assumes "irq_laws K irqs"
  shows "rt_malloc K k = (p, k') \<Longrightarrow> irqs k' = irqs k"
    and "irqs (rt_free K q k) = irqs k"
  using assms [unfolded irq_laws_def, THEN conjunct2, THEN conjunct2, THEN conjunct1,
      rule_format, where k = k]
    assms [unfolded irq_laws_def, THEN conjunct2, THEN conjunct2, THEN conjunct2,
      rule_format, where p = q and k = k] by simp_all

lemma heap_laws_malloc:
  assumes "heap_laws K live" and "rt_malloc K k = (p, k')"
  shows "if p = NULL then live k' = live k else p \<notin> live k \<and> live k' = insert p (live k)"
  using assms(1) [unfolded heap_laws_def, THEN conjunct1, rule_format, where k = k] assms(2)
  by simp

lemma heap_laws_frame:
  assumes "heap_laws K live"
  shows "live (rt_free K p k) = live k - {p}"
    and "rt_int_install K v h a k = (sc, k') \<Longrightarrow> live k' = live k"
    and "rt_int_remove K v h a k = (sc, k') \<Longrightarrow> live k' = live k"
    and "rt_task_start K t e q k = (sc, k') \<Longrightarrow> live k' = live k"
proof -
  note L = assms [unfolded heap_laws_def]
  show "live (rt_free K p k) = live k - {p}"
    using L by blast
  show "rt_int_install K v h a k = (sc, k') \<Longrightarrow> live k' = live k"
    using L [THEN conjunct2, THEN conjunct2, THEN conjunct1, rule_format, where v = v and h = h and a = a and k = k] by simp
  show "rt_int_remove K v h a k = (sc, k') \<Longrightarrow> live k' = live k"
    using L [THEN conjunct2, THEN conjunct2, THEN conjunct2, THEN conjunct1, rule_format,
      where v = v and h = h and a = a and k = k] by simp
  show "rt_task_start K t e q k = (sc, k') \<Longrightarrow> live k' = live k"
    using L [THEN conjunct2, THEN conjunct2, THEN conjunct2, THEN conjunct2, rule_format,
      where t = t and e = e and a = q and k = k] by simp
qed

lemma isr_laws_frame:
  assumes "isr_laws K"
  shows "rt_malloc K k = (p, k') \<Longrightarrow> rt_int_in_progress K k' = rt_int_in_progress K k"
    and "rt_int_in_progress K (rt_free K p k) = rt_int_in_progress K k"
    and "rt_int_remove K v h a k = (sc, k') \<Longrightarrow> rt_int_in_progress K k' = rt_int_in_progress K k"
  using assms unfolding isr_laws_def by (metis snd_conv, blast, metis snd_conv)

lemma event_laws_send:
  assumes "event_laws K pend" and "rt_event_send K t e k = (sc, k')"
  shows "pend k' = (if sc = RTEMS_SUCCESSFUL then (pend k)(t := pend k t OR e) else pend k)"
    and "rt_task_self K k' = rt_task_self K k"
  using assms(1) [unfolded event_laws_def, THEN conjunct1, rule_format, where t = t and e = e and k = k] assms(2)
  by simp_all

lemma event_laws_take:
  assumes "event_laws K pend" and "rt_event_take K m k = (ev, k')"
  shows "ev = pend k (rt_task_self K k) AND m"
    and "pend k' = (pend k)(rt_task_self K k := pend k (rt_task_self K k) AND NOT m)"
    and "rt_task_self K k' = rt_task_self K k"
  using assms(1) [unfolded event_laws_def, THEN conjunct2, rule_format, where m = m and k = k] assms(2)
  by simp_all

lemma wdt_laws_install:
  assumes "wdt_laws K isrs armed" and "rt_wdt_handler_install K p h a k = (sc, k')"
  shows "isrs k' = (if sc = RTEMS_SUCCESSFUL then insert (p, h, a) (isrs k) else isrs k)" and "armed k' = armed k"
    and "sc = RTEMS_SUCCESSFUL \<Longrightarrow> (p, h', a') \<notin> isrs k"
  using assms(1) [unfolded wdt_laws_def, THEN conjunct1, rule_format, where p = p and h = h and a = a and k = k] assms(2)
  by simp_all

lemma wdt_laws_remove:
  assumes "wdt_laws K isrs armed" and "rt_wdt_handler_remove K p h a k = (sc, k')"
  shows "isrs k' = (if sc = RTEMS_SUCCESSFUL then isrs k - {(p, h, a)} else isrs k)" and "armed k' = armed k"
    and "sc = RTEMS_SUCCESSFUL \<longleftrightarrow> (p, h, a) \<in> isrs k"
  using assms(1) [unfolded wdt_laws_def, THEN conjunct2, THEN conjunct1, rule_format, where p = p and h = h and a = a and k = k]
    assms(2) by simp_all

lemma wdt_laws_frame:
  assumes "wdt_laws K isrs armed"
  shows "isrs (rt_wdt_enable K p k) = isrs k" and "armed (rt_wdt_enable K p k) = insert p (armed k)"
    and "rt_task_start K t e a k = (sc, k') \<Longrightarrow> isrs k' = isrs k \<and> armed k' = armed k"
    and "rt_event_send K t ev k = (sc, k') \<Longrightarrow> isrs k' = isrs k \<and> armed k' = armed k"
proof -
  note L = assms [unfolded wdt_laws_def, THEN conjunct2, THEN conjunct2]
  show "isrs (rt_wdt_enable K p k) = isrs k" "armed (rt_wdt_enable K p k) = insert p (armed k)"
    using L [THEN conjunct1] by blast+
  show "rt_task_start K t e a k = (sc, k') \<Longrightarrow> isrs k' = isrs k \<and> armed k' = armed k"
    using L [THEN conjunct2, THEN conjunct1, rule_format, where t = t and e = e and a = a and k = k] by simp
  show "rt_event_send K t ev k = (sc, k') \<Longrightarrow> isrs k' = isrs k \<and> armed k' = armed k"
    using L [THEN conjunct2, THEN conjunct2, rule_format, where t = t and e = ev and k = k] by simp
qed

lemma affinity_laws_set:
  assumes "affinity_laws K aff" and "rt_set_affinity K t cs k = (sc, k')"
  shows "sc \<in> {RTEMS_SUCCESSFUL, RTEMS_INVALID_ID, RTEMS_INVALID_NUMBER}"
    and "t = RTEMS_SELF \<Longrightarrow> sc \<noteq> RTEMS_INVALID_ID"
    and "rt_task_self K k' = rt_task_self K k"
    and "aff k' = (if sc = RTEMS_SUCCESSFUL
      then (aff k)(if t = RTEMS_SELF then rt_task_self K k else t := cs) else aff k)"
    and "sc = RTEMS_SUCCESSFUL \<Longrightarrow> t = RTEMS_SELF \<Longrightarrow> rt_current_cpu K k' \<in> cs"
  using assms(1) [unfolded affinity_laws_def, THEN conjunct1, rule_format, where t = t and cs = cs and k = k] assms(2)
  by (auto simp: Let_def split: if_splits)

subsection \<open>A kernel that satisfies the laws\<close>

record demo_kernel =
  dk_irqs :: "(rtems_vector_number \<times> handler \<times> ptr) list"
  dk_live :: "ptr list"
  dk_next :: ptr
  dk_pend :: "rtems_id \<Rightarrow> rtems_event_set"
  dk_tasks :: "rtems_id list"
  dk_self :: rtems_id
  dk_in_isr :: bool
  dk_aff :: "rtems_id \<Rightarrow> nat set"
  dk_cpu :: nat
  dk_suspended :: "rtems_id list"
  dk_wisrs :: "(ptr \<times> handler \<times> ptr) list"
  dk_armed :: "ptr list"
  dk_kicks :: "ptr list"

definition demo_rtems :: "demo_kernel rtems" where
  "demo_rtems = \<lparr>
     rt_malloc = (\<lambda>k. if dk_next k = NULL \<or> dk_next k \<in> set (dk_live k) then (NULL, k)
        else (dk_next k, k\<lparr>dk_live := dk_next k # dk_live k, dk_next := dk_next k + 256\<rparr>)),
     rt_free = (\<lambda>p k. k\<lparr>dk_live := filter (\<lambda>q. q \<noteq> p) (dk_live k)\<rparr>),
     rt_int_install = (\<lambda>v h a k. if v \<in> fst ` set (dk_irqs k) then (RTEMS_RESOURCE_IN_USE, k)
        else (RTEMS_SUCCESSFUL, k\<lparr>dk_irqs := (v, h, a) # dk_irqs k\<rparr>)),
     rt_int_remove = (\<lambda>v h a k. if (v, h, a) \<in> set (dk_irqs k)
        then (RTEMS_SUCCESSFUL, k\<lparr>dk_irqs := filter (\<lambda>x. x \<noteq> (v, h, a)) (dk_irqs k)\<rparr>)
        else (RTEMS_UNSATISFIED, k)),
     rt_int_in_progress = dk_in_isr,
     rt_task_self = dk_self,
     rt_task_start = (\<lambda>t e a k. if t \<in> set (dk_tasks k) then (RTEMS_SUCCESSFUL, k)
        else (RTEMS_INVALID_ID, k)),
     rt_event_send = (\<lambda>t e k. if t \<in> set (dk_tasks k) \<or> t = dk_self k
        then (RTEMS_SUCCESSFUL, k\<lparr>dk_pend := (dk_pend k)(t := dk_pend k t OR e)\<rparr>)
        else (RTEMS_INVALID_ID, k)),
     rt_event_take = (\<lambda>m k. (dk_pend k (dk_self k) AND m,
        k\<lparr>dk_pend := (dk_pend k)(dk_self k := dk_pend k (dk_self k) AND NOT m)\<rparr>)),
     rt_task_create = (\<lambda>_ _ k. let t = (if dk_tasks k = [] then 1 else hd (dk_tasks k) + 1) in
        if t = 0 then (RTEMS_NO_MEMORY, 0, k) else (RTEMS_SUCCESSFUL, t, k\<lparr>dk_tasks := t # dk_tasks k\<rparr>)),
     rt_task_exit = (\<lambda>k. k\<lparr>dk_tasks := filter (\<lambda>t. t \<noteq> dk_self k) (dk_tasks k)\<rparr>),
     rt_cpu_count = 2,
     rt_current_cpu = dk_cpu,
     rt_get_affinity = (\<lambda>t k. (RTEMS_SUCCESSFUL, dk_aff k (if t = 0 then dk_self k else t))),
     rt_set_affinity = (\<lambda>t cs k. if 0 \<notin> cs \<and> 1 \<notin> cs then (RTEMS_INVALID_NUMBER, k)
        else (RTEMS_SUCCESSFUL, k\<lparr>dk_aff := (dk_aff k)((if t = 0 then dk_self k else t) := cs),
          dk_cpu := (if t = 0 \<or> t = dk_self k then (if 0 \<in> cs then 0 else 1) else dk_cpu k)\<rparr>)),
     rt_task_suspend = (\<lambda>t k. if t \<in> set (dk_suspended k) then (RTEMS_ALREADY_SUSPENDED, k)
        else (RTEMS_SUCCESSFUL, k\<lparr>dk_suspended := t # dk_suspended k\<rparr>)),
     rt_task_list = dk_tasks,
     rt_wdt_handler_install = (\<lambda>p h a k. if p \<in> fst ` set (dk_wisrs k) then (RTEMS_RESOURCE_IN_USE, k)
        else (RTEMS_SUCCESSFUL, k\<lparr>dk_wisrs := (p, h, a) # dk_wisrs k\<rparr>)),
     rt_wdt_handler_remove = (\<lambda>p h a k. if (p, h, a) \<in> set (dk_wisrs k)
        then (RTEMS_SUCCESSFUL, k\<lparr>dk_wisrs := filter (\<lambda>x. x \<noteq> (p, h, a)) (dk_wisrs k)\<rparr>)
        else (RTEMS_UNSATISFIED, k)),
     rt_wdt_enable = (\<lambda>p k. k\<lparr>dk_armed := p # dk_armed k\<rparr>),
     rt_wdt_kick = (\<lambda>p k. k\<lparr>dk_kicks := p # dk_kicks k\<rparr>),
     rt_wdt_timeout_clear = (\<lambda>_ _ k. k),
     rt_wdt_init_target = (\<lambda>_ _ _ _ k. k),
     rt_wdt_uninit = (\<lambda>_ k. k),
     rt_us_to_ticks = (\<lambda>us. of_nat (us div 10000))\<rparr>"

definition demo_k0 :: demo_kernel where
  "demo_k0 = \<lparr>dk_irqs = [], dk_live = [], dk_next = 0x1000, dk_pend = (\<lambda>_. 0),
     dk_tasks = [1, 2, 3, 4, 5, 6], dk_self = 1, dk_in_isr = False,
     dk_aff = (\<lambda>_. {0, 1}), dk_cpu = 0, dk_suspended = [], dk_wisrs = [], dk_armed = [], dk_kicks = []\<rparr>"

lemma demo_irq_laws: "irq_laws demo_rtems (\<lambda>k. set (dk_irqs k))"
  by (force simp: irq_laws_def demo_rtems_def image_iff)

lemma demo_isr_laws: "isr_laws demo_rtems"
  by (simp add: isr_laws_def demo_rtems_def)

lemma demo_heap_laws: "heap_laws demo_rtems (\<lambda>k. set (dk_live k))"
  by (auto simp: heap_laws_def demo_rtems_def)

lemma demo_event_laws: "event_laws demo_rtems dk_pend"
  by (auto simp: event_laws_def demo_rtems_def)

lemma demo_wdt_laws: "wdt_laws demo_rtems (\<lambda>k. set (dk_wisrs k)) (\<lambda>k. set (dk_armed k))"
  by (force simp: wdt_laws_def demo_rtems_def image_iff)

lemma demo_affinity_laws: "affinity_laws demo_rtems dk_aff"
  by (auto simp: affinity_laws_def demo_rtems_def Let_def)

end
