(* ===== verification/Mbox.thy ===== *)
theory Mbox
  imports Rtems
begin

text \<open>
  The mailbox driver (\<open>lib/drivers/hpsc-mbox.h\<close>, \<open>lib/drivers/hpsc-mbox.c\<close>).

  The driver state \<open>mbox_st\<close> is the structure \<open>hpsc_mbox\<close> and the register windows of the
  IP block, indexed by their address.  \<open>EVENT_ENABLE\<close> and \<open>DATA\<close> are plain storage; what a
  store to \<open>CONFIG\<close>, \<open>EVENT_STATUS_SET\<close> and \<open>EVENT_STATUS_CLEAR\<close> does is up to the
  hardware and is the parameter \<open>hw\<close>, with the documented behaviour in \<open>mbox_hw_laws\<close>.
  The pointer \<open>base\<close> of a channel is \<open>None\<close> until the channel is first claimed, because
  \<open>malloc\<close> leaves it indeterminate; following it then is undefined behaviour.  Interrupt
  locks are the uniprocessor ones (they mask interrupts), so an operation is one atomic step.
\<close>

subsection \<open>Constants and registers\<close>

definition HPSC_MBOX_DATA_REGS :: nat where [simp]: "HPSC_MBOX_DATA_REGS = 16"
definition HPSC_MBOX_DATA_SIZE :: nat where
  [simp]: "HPSC_MBOX_DATA_SIZE = HPSC_MBOX_DATA_REGS * 4"
definition HPSC_MBOX_CHANNELS :: nat where [simp]: "HPSC_MBOX_CHANNELS = 32"

definition REG_CONFIG__UNSECURE :: u32 where "REG_CONFIG__UNSECURE = 0x1"
definition REG_CONFIG__OWNER__SHIFT :: nat where "REG_CONFIG__OWNER__SHIFT = 8"
definition REG_CONFIG__OWNER__MASK :: u32 where "REG_CONFIG__OWNER__MASK = 0x0000ff00"
definition REG_CONFIG__SRC__SHIFT :: nat where "REG_CONFIG__SRC__SHIFT = 16"
definition REG_CONFIG__SRC__MASK :: u32 where "REG_CONFIG__SRC__MASK = 0x00ff0000"
definition REG_CONFIG__DEST__SHIFT :: nat where "REG_CONFIG__DEST__SHIFT = 24"
definition REG_CONFIG__DEST__MASK :: u32 where "REG_CONFIG__DEST__MASK = 0xff000000"

lemmas reg_config_defs =
  REG_CONFIG__UNSECURE_def REG_CONFIG__OWNER__SHIFT_def REG_CONFIG__OWNER__MASK_def
  REG_CONFIG__SRC__SHIFT_def REG_CONFIG__SRC__MASK_def
  REG_CONFIG__DEST__SHIFT_def REG_CONFIG__DEST__MASK_def

definition HPSC_MBOX_EVENT_A :: u32 where "HPSC_MBOX_EVENT_A = 0x1"
definition HPSC_MBOX_EVENT_B :: u32 where "HPSC_MBOX_EVENT_B = 0x2"

definition HPSC_MBOX_INT_A :: "nat \<Rightarrow> u32" where "HPSC_MBOX_INT_A idx = push_bit (2 * idx) 1"
definition HPSC_MBOX_INT_B :: "nat \<Rightarrow> u32" where "HPSC_MBOX_INT_B idx = push_bit (2 * idx + 1) 1"

record hpsc_mbox_chan_base =
  CONFIG :: u32
  EVENT_CAUSE :: u32
  EVENT_STATUS :: u32
  EVENT_ENABLE :: u32
  DATA :: "u32 list"

definition sizeof_chan_base :: nat where
  "sizeof_chan_base = 4 * 4 + 4 * HPSC_MBOX_DATA_REGS"

text \<open>What the IP block does on a store to a register that is not plain storage.\<close>

record mbox_hw =
  hw_config :: "u32 \<Rightarrow> hpsc_mbox_chan_base \<Rightarrow> hpsc_mbox_chan_base"
  hw_status_clear :: "u32 \<Rightarrow> hpsc_mbox_chan_base \<Rightarrow> hpsc_mbox_chan_base"
  hw_status_set :: "u32 \<Rightarrow> hpsc_mbox_chan_base \<Rightarrow> hpsc_mbox_chan_base"

text \<open>
  Documented behaviour: a set or clear of an event touches that event's cause only; a free
  channel (no owner configured) takes the configuration stored to it; storing 0 resets the
  configuration; the number of data registers is fixed.
\<close>

definition mbox_hw_laws :: "mbox_hw \<Rightarrow> bool" where
  "mbox_hw_laws hw \<longleftrightarrow>
     (\<forall>v r. EVENT_CAUSE (hw_status_set hw v r) = EVENT_CAUSE r OR v \<and>
        EVENT_ENABLE (hw_status_set hw v r) = EVENT_ENABLE r \<and>
        CONFIG (hw_status_set hw v r) = CONFIG r \<and> DATA (hw_status_set hw v r) = DATA r) \<and>
     (\<forall>v r. EVENT_CAUSE (hw_status_clear hw v r) = EVENT_CAUSE r AND NOT v \<and>
        EVENT_ENABLE (hw_status_clear hw v r) = EVENT_ENABLE r \<and>
        CONFIG (hw_status_clear hw v r) = CONFIG r \<and> DATA (hw_status_clear hw v r) = DATA r) \<and>
     (\<forall>v r. CONFIG r AND REG_CONFIG__OWNER__MASK = 0 \<longrightarrow> CONFIG (hw_config hw v r) = v) \<and>
     (\<forall>r. CONFIG (hw_config hw 0 r) = 0) \<and>
     (\<forall>v r. length (DATA (hw_config hw v r)) = length (DATA r))"

subsection \<open>Driver structures\<close>

record hpsc_mbox_chan_irq_info =
  cb :: "handler option"
  cb_arg :: ptr

record hpsc_mbox_chan =
  ch_base :: "u32 option"
  ch_instance :: nat
  ch_int_a :: hpsc_mbox_chan_irq_info
  ch_int_b :: hpsc_mbox_chan_irq_info
  ch_owner :: u8
  ch_src :: u8
  ch_dest :: u8
  ch_active :: bool

record hpsc_mbox_irq_info =
  irq_n :: rtems_vector_number
  irq_idx :: nat

record hpsc_mbox =
  mb_chans :: "hpsc_mbox_chan list"
  mb_info :: string
  mb_base :: u32
  mb_int_a :: hpsc_mbox_irq_info
  mb_int_b :: hpsc_mbox_irq_info

record mbox_st =
  st_mbox :: hpsc_mbox
  st_regs :: "u32 \<Rightarrow> hpsc_mbox_chan_base"

abbreviation chan_of :: "mbox_st \<Rightarrow> nat \<Rightarrow> hpsc_mbox_chan" where
  "chan_of s i \<equiv> mb_chans (st_mbox s) ! i"

definition upd_chan :: "nat \<Rightarrow> (hpsc_mbox_chan \<Rightarrow> hpsc_mbox_chan) \<Rightarrow> mbox_st \<Rightarrow> mbox_st" where
  "upd_chan i f s = s\<lparr>st_mbox := (st_mbox s)\<lparr>mb_chans :=
     (mb_chans (st_mbox s))[i := f (chan_of s i)]\<rparr>\<rparr>"

definition upd_regs ::
  "u32 \<Rightarrow> (hpsc_mbox_chan_base \<Rightarrow> hpsc_mbox_chan_base) \<Rightarrow> mbox_st \<Rightarrow> mbox_st" where
  "upd_regs a f s = s\<lparr>st_regs := (st_regs s)(a := f (st_regs s a))\<rparr>"

text \<open>The address of the register window of a channel.\<close>

definition chan_addr :: "hpsc_mbox \<Rightarrow> nat \<Rightarrow> u32" where
  "chan_addr m i = mb_base m + of_nat i * of_nat sizeof_chan_base"

subsection \<open>Claiming and releasing a channel\<close>

definition hpsc_mbox_chan_init ::
  "nat \<Rightarrow> u8 \<Rightarrow> u8 \<Rightarrow> u8 \<Rightarrow> handler option \<Rightarrow> handler option \<Rightarrow> ptr \<Rightarrow> mbox_st \<Rightarrow> mbox_st" where
  "hpsc_mbox_chan_init i owner src dest cb_a cb_b arg s =
     upd_chan i (\<lambda>c. c\<lparr>ch_base := Some (chan_addr (st_mbox s) (ch_instance c)),
       ch_int_a := \<lparr>cb = cb_a, cb_arg = arg\<rparr>, ch_int_b := \<lparr>cb = cb_b, cb_arg = arg\<rparr>,
       ch_owner := owner, ch_src := src, ch_dest := dest, ch_active := True\<rparr>) s"

definition hpsc_mbox_chan_destroy :: "nat \<Rightarrow> mbox_st \<Rightarrow> mbox_st" where
  "hpsc_mbox_chan_destroy i s =
     upd_chan i (\<lambda>c. c\<lparr>ch_int_a := \<lparr>cb = None, cb_arg = NULL\<rparr>,
       ch_int_b := \<lparr>cb = None, cb_arg = NULL\<rparr>,
       ch_owner := 0, ch_src := 0, ch_dest := 0, ch_active := False\<rparr>) s"

text \<open>The three fields of a configuration word.\<close>

definition cfg_owner :: "u32 \<Rightarrow> u8" where
  "cfg_owner val = ucast (drop_bit REG_CONFIG__OWNER__SHIFT (val AND REG_CONFIG__OWNER__MASK))"
definition cfg_src :: "u32 \<Rightarrow> u8" where
  "cfg_src val = ucast (drop_bit REG_CONFIG__SRC__SHIFT (val AND REG_CONFIG__SRC__MASK))"
definition cfg_dest :: "u32 \<Rightarrow> u8" where
  "cfg_dest val = ucast (drop_bit REG_CONFIG__DEST__SHIFT (val AND REG_CONFIG__DEST__MASK))"

definition hpsc_mbox_chan_config_read :: "nat \<Rightarrow> mbox_st \<Rightarrow> (u8 \<times> u8 \<times> u8) res" where
  "hpsc_mbox_chan_config_read i s =
     c_assert (i < HPSC_MBOX_CHANNELS)
       (c_deref (ch_base (chan_of s i)) (\<lambda>a.
          let val = CONFIG (st_regs s a) in Inr (cfg_owner val, cfg_src val, cfg_dest val)))"

definition config_word :: "u8 \<Rightarrow> u8 \<Rightarrow> u8 \<Rightarrow> u32" where
  "config_word owner src dest =
     REG_CONFIG__UNSECURE OR
     (push_bit REG_CONFIG__OWNER__SHIFT (ucast owner) AND REG_CONFIG__OWNER__MASK) OR
     (push_bit REG_CONFIG__SRC__SHIFT (ucast src) AND REG_CONFIG__SRC__MASK) OR
     (push_bit REG_CONFIG__DEST__SHIFT (ucast dest) AND REG_CONFIG__DEST__MASK)"

definition hpsc_mbox_chan_config_write ::
  "mbox_hw \<Rightarrow> nat \<Rightarrow> u8 \<Rightarrow> u8 \<Rightarrow> u8 \<Rightarrow> mbox_st \<Rightarrow> (rtems_status_code \<times> mbox_st) res" where
  "hpsc_mbox_chan_config_write hw i owner src dest s =
     c_assert (i < HPSC_MBOX_CHANNELS)
       (c_deref (ch_base (chan_of s i)) (\<lambda>a.
          let cfg = config_word owner src dest;
              s1 = upd_regs a (hw_config hw cfg) s;
              cfg_hw = CONFIG (st_regs s1 a)
          in if cfg_hw \<noteq> cfg then Inr (RTEMS_NOT_OWNER_OF_RESOURCE, s1)
             else Inr (RTEMS_SUCCESSFUL, s1)))"

definition hpsc_mbox_chan_reset :: "mbox_hw \<Rightarrow> nat \<Rightarrow> mbox_st \<Rightarrow> mbox_st res" where
  "hpsc_mbox_chan_reset hw i s =
     c_assert (i < HPSC_MBOX_CHANNELS)
       (c_deref (ch_base (chan_of s i)) (\<lambda>a. Inr (upd_regs a (hw_config hw 0) s)))"

text \<open>The last part of a claim: map the events that have a callback to our interrupts.\<close>

definition chan_enable_val :: "hpsc_mbox \<Rightarrow> hpsc_mbox_chan \<Rightarrow> u32" where
  "chan_enable_val m c =
     (if cb (ch_int_a c) \<noteq> None then HPSC_MBOX_INT_A (irq_idx (mb_int_a m)) else 0) OR
     (if cb (ch_int_b c) \<noteq> None then HPSC_MBOX_INT_B (irq_idx (mb_int_b m)) else 0)"

definition chan_claim_enable :: "nat \<Rightarrow> mbox_st \<Rightarrow> (rtems_status_code \<times> mbox_st) res" where
  "chan_claim_enable i s =
     c_deref (ch_base (chan_of s i)) (\<lambda>a.
       Inr (RTEMS_SUCCESSFUL,
         upd_regs a (\<lambda>r. r\<lparr>EVENT_ENABLE :=
           EVENT_ENABLE r OR chan_enable_val (st_mbox s) (chan_of s i)\<rparr>) s))"

definition hpsc_mbox_chan_claim ::
  "mbox_hw \<Rightarrow> bool \<Rightarrow> nat \<Rightarrow> u8 \<Rightarrow> u8 \<Rightarrow> u8 \<Rightarrow> handler option \<Rightarrow> handler option \<Rightarrow> ptr \<Rightarrow>
   mbox_st \<Rightarrow> (rtems_status_code \<times> mbox_st) res" where
  "hpsc_mbox_chan_claim hw in_isr i owner src dest cb_a cb_b arg s =
     c_assert (i < HPSC_MBOX_CHANNELS)
      (if in_isr then Inr (RTEMS_CALLED_FROM_ISR, s)
       else if ch_active (chan_of s i)
       then Inr (RTEMS_RESOURCE_IN_USE, hpsc_mbox_chan_destroy i s)
       else
         let s1 = hpsc_mbox_chan_init i owner src dest cb_a cb_b arg s in
         if ch_owner (chan_of s1 i) \<noteq> 0
         then res_bind (hpsc_mbox_chan_config_write hw i owner src dest s1) (\<lambda>(sc, s2).
                if sc \<noteq> RTEMS_SUCCESSFUL then Inr (sc, hpsc_mbox_chan_destroy i s2)
                else chan_claim_enable i s2)
         else res_bind (hpsc_mbox_chan_config_read i s1) (\<lambda>(_, src_hw, dest_hw).
                if cb_b \<noteq> None \<and> src \<noteq> 0 \<and> src_hw \<noteq> src
                then Inr (RTEMS_UNSATISFIED, hpsc_mbox_chan_destroy i s1)
                else if cb_a \<noteq> None \<and> dest \<noteq> 0 \<and> dest_hw \<noteq> src
                then Inr (RTEMS_UNSATISFIED, hpsc_mbox_chan_destroy i s1)
                else chan_claim_enable i s1))"

definition hpsc_mbox_chan_release ::
  "mbox_hw \<Rightarrow> bool \<Rightarrow> nat \<Rightarrow> mbox_st \<Rightarrow> (rtems_status_code \<times> mbox_st) res" where
  "hpsc_mbox_chan_release hw in_isr i s =
     c_assert (i < HPSC_MBOX_CHANNELS)
      (if in_isr then Inr (RTEMS_CALLED_FROM_ISR, s)
       else c_deref (ch_base (chan_of s i)) (\<lambda>a.
         let s1 = upd_regs a (\<lambda>r. r\<lparr>EVENT_ENABLE := EVENT_ENABLE r AND
                    NOT (HPSC_MBOX_INT_A (irq_idx (mb_int_a (st_mbox s))) OR
                         HPSC_MBOX_INT_B (irq_idx (mb_int_b (st_mbox s))))\<rparr>) s
         in res_bind (if ch_owner (chan_of s1 i) \<noteq> 0 then hpsc_mbox_chan_reset hw i s1 else Inr s1)
              (\<lambda>s2. Inr (RTEMS_SUCCESSFUL, hpsc_mbox_chan_destroy i s2))))"

subsection \<open>Data\<close>

text \<open>
  \<open>buf\<close> is the caller's object viewed as bytes; the code reads and writes it as 32-bit
  words, so that a size that is no multiple of 4 touches up to three bytes more.
\<close>

definition words_of_size :: "nat \<Rightarrow> nat" where
  "words_of_size sz = (if sz mod 4 \<noteq> 0 then sz div 4 + 1 else sz div 4)"

function data_copy_loop :: "nat \<Rightarrow> nat \<Rightarrow> u8 list \<Rightarrow> u32 list \<Rightarrow> u32 list" where
  "data_copy_loop i len msg data =
     (if i < len then data_copy_loop (Suc i) len msg (data[i := le32 (take 4 (drop (4 * i) msg))])
      else data)"
  by pat_completeness auto
termination
  by (relation "measure (\<lambda>(i, len, _, _). len - i)") auto

function data_zero_loop :: "nat \<Rightarrow> u32 list \<Rightarrow> u32 list" where
  "data_zero_loop i data =
     (if i < HPSC_MBOX_DATA_REGS then data_zero_loop (Suc i) (data[i := 0]) else data)"
  by pat_completeness auto
termination
  by (relation "measure (\<lambda>(i, _). HPSC_MBOX_DATA_REGS - i)") auto

function data_read_loop :: "nat \<Rightarrow> nat \<Rightarrow> u32 list \<Rightarrow> u8 list \<Rightarrow> nat \<times> u8 list" where
  "data_read_loop i len data msg =
     (if i < len \<and> i < HPSC_MBOX_DATA_REGS
      then data_read_loop (Suc i) len data (overwrite (4 * i) (bytes32 (data ! i)) msg)
      else (i, msg))"
  by pat_completeness auto
termination
  by (relation "measure (\<lambda>(i, len, _, _). len - i)") auto

declare data_copy_loop.simps [simp del] data_zero_loop.simps [simp del]
  data_read_loop.simps [simp del]

definition hpsc_mbox_chan_write ::
  "nat \<Rightarrow> u8 list option \<Rightarrow> nat \<Rightarrow> mbox_st \<Rightarrow> (nat \<times> mbox_st) res" where
  "hpsc_mbox_chan_write i buf sz s =
     c_assert (i < HPSC_MBOX_CHANNELS)
      (case buf of None \<Rightarrow> Inl Assert_Failed
       | Some msg \<Rightarrow> c_assert (sz \<le> HPSC_MBOX_DATA_SIZE)
          (c_deref (ch_base (chan_of s i)) (\<lambda>a.
            let len = words_of_size sz in
            if length msg < 4 * len then Inl Undef
            else Inr (sz, upd_regs a (\<lambda>r. r\<lparr>DATA :=
                   data_zero_loop len (data_copy_loop 0 len msg (DATA r))\<rparr>) s))))"

definition hpsc_mbox_chan_read ::
  "nat \<Rightarrow> u8 list option \<Rightarrow> nat \<Rightarrow> mbox_st \<Rightarrow> (nat \<times> u8 list) res" where
  "hpsc_mbox_chan_read i buf sz s =
     c_assert (i < HPSC_MBOX_CHANNELS)
      (case buf of None \<Rightarrow> Inl Assert_Failed
       | Some msg \<Rightarrow>
           let len = words_of_size sz in
           if len = 0 then Inr (0, msg)
           else c_deref (ch_base (chan_of s i)) (\<lambda>a.
             if length msg < 4 * min len HPSC_MBOX_DATA_REGS then Inl Undef
             else (case data_read_loop 0 len (DATA (st_regs s a)) msg of
                     (n, msg') \<Rightarrow> Inr (n * 4, msg'))))"

subsection \<open>Events\<close>

definition chan_event_store ::
  "(hpsc_mbox_chan_base \<Rightarrow> hpsc_mbox_chan_base) \<Rightarrow> nat \<Rightarrow> mbox_st \<Rightarrow> mbox_st res" where
  "chan_event_store f i s =
     c_assert (i < HPSC_MBOX_CHANNELS)
       (c_deref (ch_base (chan_of s i)) (\<lambda>a. Inr (upd_regs a f s)))"

definition hpsc_mbox_chan_event_set_rcv :: "mbox_hw \<Rightarrow> nat \<Rightarrow> mbox_st \<Rightarrow> mbox_st res" where
  "hpsc_mbox_chan_event_set_rcv hw = chan_event_store (hw_status_set hw HPSC_MBOX_EVENT_A)"

definition hpsc_mbox_chan_event_set_ack :: "mbox_hw \<Rightarrow> nat \<Rightarrow> mbox_st \<Rightarrow> mbox_st res" where
  "hpsc_mbox_chan_event_set_ack hw = chan_event_store (hw_status_set hw HPSC_MBOX_EVENT_B)"

definition hpsc_mbox_chan_event_clear_rcv :: "mbox_hw \<Rightarrow> nat \<Rightarrow> mbox_st \<Rightarrow> mbox_st res" where
  "hpsc_mbox_chan_event_clear_rcv hw = chan_event_store (hw_status_clear hw HPSC_MBOX_EVENT_A)"

definition hpsc_mbox_chan_event_clear_ack :: "mbox_hw \<Rightarrow> nat \<Rightarrow> mbox_st \<Rightarrow> mbox_st res" where
  "hpsc_mbox_chan_event_clear_ack hw = chan_event_store (hw_status_clear hw HPSC_MBOX_EVENT_B)"

subsection \<open>Interrupt service\<close>

text \<open>
  A callback may act on the whole node: it transforms the driver state together with the
  rest \<open>'x\<close> of the node's state.  \<open>call h arg\<close> is the effect of calling the function \<open>h\<close>.
\<close>

type_synonym 'x node_step = "mbox_st \<times> 'x \<Rightarrow> (mbox_st \<times> 'x) res"

definition hpsc_mbox_chan_isr_a ::
  "mbox_hw \<Rightarrow> (handler \<Rightarrow> ptr \<Rightarrow> 'x node_step) \<Rightarrow> nat \<Rightarrow> 'x node_step" where
  "hpsc_mbox_chan_isr_a hw call i w =
     (case cb (ch_int_a (chan_of (fst w) i)) of
        Some h \<Rightarrow> call h (cb_arg (ch_int_a (chan_of (fst w) i))) w
      | None \<Rightarrow> res_bind (hpsc_mbox_chan_event_clear_rcv hw i (fst w)) (\<lambda>s'. Inr (s', snd w)))"

definition hpsc_mbox_chan_isr_b ::
  "mbox_hw \<Rightarrow> (handler \<Rightarrow> ptr \<Rightarrow> 'x node_step) \<Rightarrow> nat \<Rightarrow> 'x node_step" where
  "hpsc_mbox_chan_isr_b hw call i w =
     (case cb (ch_int_b (chan_of (fst w) i)) of
        Some h \<Rightarrow> call h (cb_arg (ch_int_b (chan_of (fst w) i))) w
      | None \<Rightarrow> res_bind (hpsc_mbox_chan_event_clear_ack hw i (fst w)) (\<lambda>s'. Inr (s', snd w)))"

definition hpsc_mbox_chan_is_subscribed :: "nat \<Rightarrow> u32 \<Rightarrow> u32 \<Rightarrow> mbox_st \<Rightarrow> bool res" where
  "hpsc_mbox_chan_is_subscribed i event interrupt s =
     (if \<not> ch_active (chan_of s i) then Inr False
      else c_deref (ch_base (chan_of s i)) (\<lambda>a.
        if EVENT_CAUSE (st_regs s a) AND event = 0 then Inr False
        else if EVENT_ENABLE (st_regs s a) AND interrupt = 0 then Inr False
        else Inr True))"

fun mbox_isr_loop ::
  "(nat \<Rightarrow> 'x node_step) \<Rightarrow> u32 \<Rightarrow> u32 \<Rightarrow> nat list \<Rightarrow> bool \<Rightarrow> mbox_st \<times> 'x \<Rightarrow>
   (bool \<times> mbox_st \<times> 'x) res" where
  "mbox_isr_loop isr event interrupt [] handled w = Inr (handled, w)"
| "mbox_isr_loop isr event interrupt (i # is) handled w =
     res_bind (hpsc_mbox_chan_is_subscribed i event interrupt (fst w)) (\<lambda>sub.
       if sub then res_bind (isr i w) (\<lambda>w'. mbox_isr_loop isr event interrupt is True w')
       else mbox_isr_loop isr event interrupt is handled w)"

definition hpsc_mbox_isr ::
  "u32 \<Rightarrow> u32 \<Rightarrow> (nat \<Rightarrow> 'x node_step) \<Rightarrow> mbox_st \<times> 'x \<Rightarrow> (bool \<times> mbox_st \<times> 'x) res" where
  "hpsc_mbox_isr event interrupt isr w =
     mbox_isr_loop isr event interrupt [0..<HPSC_MBOX_CHANNELS] False w"

text \<open>The result says whether some channel was served; otherwise the code prints a warning.\<close>

definition hpsc_mbox_isr_a ::
  "mbox_hw \<Rightarrow> (handler \<Rightarrow> ptr \<Rightarrow> 'x node_step) \<Rightarrow> mbox_st \<times> 'x \<Rightarrow> (bool \<times> mbox_st \<times> 'x) res" where
  "hpsc_mbox_isr_a hw call w =
     hpsc_mbox_isr HPSC_MBOX_EVENT_A (HPSC_MBOX_INT_A (irq_idx (mb_int_a (st_mbox (fst w)))))
       (hpsc_mbox_chan_isr_a hw call) w"

definition hpsc_mbox_isr_b ::
  "mbox_hw \<Rightarrow> (handler \<Rightarrow> ptr \<Rightarrow> 'x node_step) \<Rightarrow> mbox_st \<times> 'x \<Rightarrow> (bool \<times> mbox_st \<times> 'x) res" where
  "hpsc_mbox_isr_b hw call w =
     hpsc_mbox_isr HPSC_MBOX_EVENT_B (HPSC_MBOX_INT_B (irq_idx (mb_int_b (st_mbox (fst w)))))
       (hpsc_mbox_chan_isr_b hw call) w"

subsection \<open>Probing and removing the device\<close>

text \<open>
  \<open>raw\<close> is what the allocated block happens to contain.  Only the fields written here are
  known afterwards; in particular the register pointer of each channel is not.
\<close>

definition hpsc_mbox_init ::
  "(nat \<Rightarrow> hpsc_mbox_chan) \<Rightarrow> string \<Rightarrow> u32 \<Rightarrow> rtems_vector_number \<Rightarrow> nat \<Rightarrow>
   rtems_vector_number \<Rightarrow> nat \<Rightarrow> hpsc_mbox" where
  "hpsc_mbox_init raw info base int_a int_idx_a int_b int_idx_b =
     \<lparr>mb_chans = map (\<lambda>i. (raw i)\<lparr>ch_base := None, ch_instance := i, ch_active := False\<rparr>)
         [0..<HPSC_MBOX_CHANNELS],
      mb_info = info, mb_base = base,
      mb_int_a = \<lparr>irq_n = int_a, irq_idx = int_idx_a\<rparr>,
      mb_int_b = \<lparr>irq_n = int_b, irq_idx = int_idx_b\<rparr>\<rparr>"

text \<open>
  The result of a probe is the status code, the pointer left in \<open>*mbox\<close> and the structure
  it designates, if that is still allocated.  The interrupt arguments \<open>&mbox->int_a\<close> and
  \<open>&mbox->int_b\<close> are identified by the mailbox they belong to.
\<close>

definition hpsc_mbox_probe ::
  "'k rtems \<Rightarrow> (nat \<Rightarrow> hpsc_mbox_chan) \<Rightarrow> string \<Rightarrow> u32 \<Rightarrow> rtems_vector_number \<Rightarrow> nat \<Rightarrow>
   rtems_vector_number \<Rightarrow> nat \<Rightarrow> 'k \<Rightarrow>
   (rtems_status_code \<times> ptr \<times> hpsc_mbox option \<times> 'k) res" where
  "hpsc_mbox_probe K raw info base int_a int_idx_a int_b int_idx_b k =
     c_assert (base \<noteq> 0)
      (case rt_malloc K k of (p, k1) \<Rightarrow>
         if p = NULL then Inr (RTEMS_NO_MEMORY, NULL, None, k1)
         else
           let m = hpsc_mbox_init raw info base int_a int_idx_a int_b int_idx_b in
           case rt_int_install K int_a Hpsc_mbox_isr_a p k1 of (sc, k2) \<Rightarrow>
             if sc \<noteq> RTEMS_SUCCESSFUL then Inr (sc, p, None, rt_free K p k2)
             else (case rt_int_install K int_b Hpsc_mbox_isr_b p k2 of (sc', k3) \<Rightarrow>
               if sc' \<noteq> RTEMS_SUCCESSFUL then
                 (case rt_int_remove K (irq_n (mb_int_a m)) Hpsc_mbox_isr_a p k3 of
                    (_, k4) \<Rightarrow> Inr (sc', p, None, rt_free K p k4))
               else Inr (sc', p, Some m, k3)))"

fun mbox_release_loop :: "mbox_hw \<Rightarrow> bool \<Rightarrow> nat list \<Rightarrow> mbox_st \<Rightarrow> mbox_st res" where
  "mbox_release_loop hw in_isr [] s = Inr s"
| "mbox_release_loop hw in_isr (i # is) s =
     res_bind (hpsc_mbox_chan_release hw in_isr i s)
       (\<lambda>(_, s'). mbox_release_loop hw in_isr is s')"

definition hpsc_mbox_remove ::
  "'k rtems \<Rightarrow> mbox_hw \<Rightarrow> ptr \<Rightarrow> mbox_st \<Rightarrow> 'k \<Rightarrow> (rtems_status_code \<times> mbox_st \<times> 'k) res" where
  "hpsc_mbox_remove K hw p s k =
     res_bind (mbox_release_loop hw (rt_int_in_progress K k) [0..<HPSC_MBOX_CHANNELS] s) (\<lambda>s1.
       case rt_int_remove K (irq_n (mb_int_a (st_mbox s1))) Hpsc_mbox_isr_a p k of (sc, k1) \<Rightarrow>
         c_assert (sc = RTEMS_SUCCESSFUL)
          (case rt_int_remove K (irq_n (mb_int_b (st_mbox s1))) Hpsc_mbox_isr_b p k1 of
             (sc', k2) \<Rightarrow> c_assert (sc' = RTEMS_SUCCESSFUL)
               (Inr (sc', s1, rt_free K p k2))))"

subsection \<open>Well-formed driver state\<close>

lemma reg_config_masks:
  "REG_CONFIG__OWNER__MASK = push_bit 8 (mask 8)"
  "REG_CONFIG__SRC__MASK = push_bit 16 (mask 8)"
  "REG_CONFIG__DEST__MASK = push_bit 24 (mask 8)"
  by (simp_all add: reg_config_defs mask_eq_exp_minus_1)

lemma cfg_config_word [simp]:
  "cfg_owner (config_word owner src dest) = owner"
  "cfg_src (config_word owner src dest) = src"
  "cfg_dest (config_word owner src dest) = dest"
  unfolding cfg_owner_def cfg_src_def cfg_dest_def config_word_def reg_config_masks
  by (rule bit_word_eqI; auto simp: reg_config_defs bit_simps)+


lemma upd_simps [simp]:
  "st_regs (upd_chan i f s) = st_regs s"
  "st_mbox (upd_regs a g s) = st_mbox s"
  "st_regs (upd_regs a g s) = (st_regs s)(a := g (st_regs s a))"
  "length (mb_chans (st_mbox (upd_chan i f s))) = length (mb_chans (st_mbox s))"
  "mb_base (st_mbox (upd_chan i f s)) = mb_base (st_mbox s)"
  "mb_info (st_mbox (upd_chan i f s)) = mb_info (st_mbox s)"
  "mb_int_a (st_mbox (upd_chan i f s)) = mb_int_a (st_mbox s)"
  "mb_int_b (st_mbox (upd_chan i f s)) = mb_int_b (st_mbox s)"
  by (simp_all add: upd_chan_def upd_regs_def)

lemma chan_of_upd_chan:
  "i < length (mb_chans (st_mbox s)) \<Longrightarrow>
   chan_of (upd_chan i f s) j = (if j = i then f (chan_of s i) else chan_of s j)"
  by (simp add: upd_chan_def nth_list_update)

lemma chan_addr_upd_chan [simp]: "chan_addr (st_mbox (upd_chan i f s)) j = chan_addr (st_mbox s) j"
  by (simp add: chan_addr_def)

lemma upd_chan_upd_chan [simp]:
  "i < length (mb_chans (st_mbox s)) \<Longrightarrow> upd_chan i g (upd_chan i f s) = upd_chan i (g \<circ> f) s"
  by (simp add: upd_chan_def)
lemma upd_chan_upd_regs: "upd_chan i f (upd_regs a g s) = upd_regs a g (upd_chan i f s)"
  by (cases s) (simp add: upd_chan_def upd_regs_def)

definition chan_wf :: "hpsc_mbox \<Rightarrow> nat \<Rightarrow> bool" where
  "chan_wf m i \<longleftrightarrow>
     ch_instance (mb_chans m ! i) = i \<and>
     (ch_base (mb_chans m ! i) = None \<or> ch_base (mb_chans m ! i) = Some (chan_addr m i)) \<and>
     (ch_active (mb_chans m ! i) \<longrightarrow> ch_base (mb_chans m ! i) \<noteq> None)"

definition mbox_wf :: "hpsc_mbox \<Rightarrow> bool" where
  "mbox_wf m \<longleftrightarrow> length (mb_chans m) = HPSC_MBOX_CHANNELS \<and>
     (\<forall>i < HPSC_MBOX_CHANNELS. chan_wf m i)"

lemma mbox_wf_length: "mbox_wf m \<Longrightarrow> length (mb_chans m) = 32"
  by (simp add: mbox_wf_def)

lemma mbox_wf_chan: "mbox_wf m \<Longrightarrow> i < 32 \<Longrightarrow> chan_wf m i"
  by (simp add: mbox_wf_def)

lemma mbox_wf_upd_chan:
  assumes "mbox_wf (st_mbox s)" and "i < 32"
    and "chan_wf (st_mbox (upd_chan i f s)) i"
  shows "mbox_wf (st_mbox (upd_chan i f s))"
  using assms by (auto simp: mbox_wf_def chan_wf_def chan_of_upd_chan)

lemma mbox_wf_init [simp]: "mbox_wf (hpsc_mbox_init raw info b na ia nb ib)"
  by (simp add: mbox_wf_def chan_wf_def hpsc_mbox_init_def)

lemma mbox_wf_chan_init [simp]:
  "mbox_wf (st_mbox s) \<Longrightarrow> i < 32 \<Longrightarrow> mbox_wf (st_mbox (hpsc_mbox_chan_init i ow sr de ca cbb arg s))"
  unfolding hpsc_mbox_chan_init_def
  by (rule mbox_wf_upd_chan) (auto simp: chan_wf_def chan_of_upd_chan mbox_wf_length dest: mbox_wf_chan)

lemma mbox_wf_chan_destroy [simp]:
  "mbox_wf (st_mbox s) \<Longrightarrow> i < 32 \<Longrightarrow> mbox_wf (st_mbox (hpsc_mbox_chan_destroy i s))"
  unfolding hpsc_mbox_chan_destroy_def
  by (rule mbox_wf_upd_chan) (auto simp: chan_wf_def chan_of_upd_chan mbox_wf_length dest: mbox_wf_chan)

lemma chan_init_chan [simp]:
  assumes "mbox_wf (st_mbox s)" and "i < 32"
  shows "chan_of (hpsc_mbox_chan_init i ow sr de ca cbb arg s) i =
    (chan_of s i)\<lparr>ch_base := Some (chan_addr (st_mbox s) i),
       ch_int_a := \<lparr>cb = ca, cb_arg = arg\<rparr>, ch_int_b := \<lparr>cb = cbb, cb_arg = arg\<rparr>,
       ch_owner := ow, ch_src := sr, ch_dest := de, ch_active := True\<rparr>"
    and "j \<noteq> i \<Longrightarrow> chan_of (hpsc_mbox_chan_init i ow sr de ca cbb arg s) j = chan_of s j"
  using assms mbox_wf_chan [of "st_mbox s" i]
  by (simp_all add: hpsc_mbox_chan_init_def chan_of_upd_chan mbox_wf_length chan_wf_def)

lemma chan_destroy_chan [simp]:
  assumes "mbox_wf (st_mbox s)" and "i < 32"
  shows "chan_of (hpsc_mbox_chan_destroy i s) i =
    (chan_of s i)\<lparr>ch_int_a := \<lparr>cb = None, cb_arg = NULL\<rparr>, ch_int_b := \<lparr>cb = None, cb_arg = NULL\<rparr>,
       ch_owner := 0, ch_src := 0, ch_dest := 0, ch_active := False\<rparr>"
    and "j \<noteq> i \<Longrightarrow> chan_of (hpsc_mbox_chan_destroy i s) j = chan_of s j"
  using assms by (simp_all add: hpsc_mbox_chan_destroy_def chan_of_upd_chan mbox_wf_length)

lemma chan_init_frame [simp]:
  "st_regs (hpsc_mbox_chan_init i ow sr de ca cbb arg s) = st_regs s"
  "mb_base (st_mbox (hpsc_mbox_chan_init i ow sr de ca cbb arg s)) = mb_base (st_mbox s)"
  "mb_int_a (st_mbox (hpsc_mbox_chan_init i ow sr de ca cbb arg s)) = mb_int_a (st_mbox s)"
  "mb_int_b (st_mbox (hpsc_mbox_chan_init i ow sr de ca cbb arg s)) = mb_int_b (st_mbox s)"
  "chan_addr (st_mbox (hpsc_mbox_chan_init i ow sr de ca cbb arg s)) j = chan_addr (st_mbox s) j"
  by (simp_all add: hpsc_mbox_chan_init_def)

lemma chan_destroy_frame [simp]:
  "st_regs (hpsc_mbox_chan_destroy i s) = st_regs s"
  "mb_base (st_mbox (hpsc_mbox_chan_destroy i s)) = mb_base (st_mbox s)"
  "mb_int_a (st_mbox (hpsc_mbox_chan_destroy i s)) = mb_int_a (st_mbox s)"
  "mb_int_b (st_mbox (hpsc_mbox_chan_destroy i s)) = mb_int_b (st_mbox s)"
  "chan_addr (st_mbox (hpsc_mbox_chan_destroy i s)) j = chan_addr (st_mbox s) j"
  by (simp_all add: hpsc_mbox_chan_destroy_def)

text \<open>The status a claim of a free channel ends with, from the registers before it.\<close>

definition claim_status ::
  "mbox_hw \<Rightarrow> hpsc_mbox_chan_base \<Rightarrow> u8 \<Rightarrow> u8 \<Rightarrow> u8 \<Rightarrow> bool \<Rightarrow> bool \<Rightarrow> rtems_status_code" where
  "claim_status hw r owner src dest want_a want_b =
     (if owner \<noteq> 0 then
        if CONFIG (hw_config hw (config_word owner src dest) r) = config_word owner src dest
        then RTEMS_SUCCESSFUL else RTEMS_NOT_OWNER_OF_RESOURCE
      else if want_b \<and> src \<noteq> 0 \<and> cfg_src (CONFIG r) \<noteq> src then RTEMS_UNSATISFIED
      else if want_a \<and> dest \<noteq> 0 \<and> cfg_dest (CONFIG r) \<noteq> src then RTEMS_UNSATISFIED
      else RTEMS_SUCCESSFUL)"

lemma claim_free:
  fixes s :: mbox_st and i :: nat
  defines "a \<equiv> chan_addr (st_mbox s) i"
  assumes wf: "mbox_wf (st_mbox s)" and i: "i < 32" and free: "\<not> ch_active (chan_of s i)"
  shows "hpsc_mbox_chan_claim hw False i ow sr de ca cbb arg s =
    (let s1 = hpsc_mbox_chan_init i ow sr de ca cbb arg s;
         s2 = (if ow \<noteq> 0 then upd_regs a (hw_config hw (config_word ow sr de)) s1 else s1);
         sc = claim_status hw (st_regs s a) ow sr de (ca \<noteq> None) (cbb \<noteq> None)
     in Inr (sc, if sc = RTEMS_SUCCESSFUL
                 then upd_regs a (\<lambda>r. r\<lparr>EVENT_ENABLE := EVENT_ENABLE r OR
                        chan_enable_val (st_mbox s1) (chan_of s1 i)\<rparr>) s2
                 else hpsc_mbox_chan_destroy i s2))"
  using i free
  by (simp add: hpsc_mbox_chan_claim_def chan_init_chan [OF wf i] a_def claim_status_def Let_def
      hpsc_mbox_chan_config_write_def hpsc_mbox_chan_config_read_def chan_claim_enable_def)

subsection \<open>Properties of claim and release\<close>

definition demo_hw :: mbox_hw where
  "demo_hw = \<lparr>
     hw_config = (\<lambda>v r. if CONFIG r AND REG_CONFIG__OWNER__MASK = 0 \<or> v = 0 then r\<lparr>CONFIG := v\<rparr> else r),
     hw_status_clear = (\<lambda>v r. r\<lparr>EVENT_CAUSE := EVENT_CAUSE r AND NOT v\<rparr>),
     hw_status_set = (\<lambda>v r. r\<lparr>EVENT_CAUSE := EVENT_CAUSE r OR v\<rparr>)\<rparr>"

lemma demo_hw_laws: "mbox_hw_laws demo_hw"
  by (simp add: mbox_hw_laws_def demo_hw_def)

definition demo_regs :: hpsc_mbox_chan_base where
  "demo_regs = \<lparr>CONFIG = 0, EVENT_CAUSE = 0, EVENT_STATUS = 0, EVENT_ENABLE = 0,
     DATA = replicate 16 0\<rparr>"

definition demo_chan :: hpsc_mbox_chan where
  "demo_chan = \<lparr>ch_base = None, ch_instance = 0, ch_int_a = \<lparr>cb = None, cb_arg = NULL\<rparr>,
     ch_int_b = \<lparr>cb = None, cb_arg = NULL\<rparr>, ch_owner = 0, ch_src = 0, ch_dest = 0,
     ch_active = False\<rparr>"

definition demo_mbox :: mbox_st where
  "demo_mbox = \<lparr>st_mbox = hpsc_mbox_init (\<lambda>_. demo_chan) ''demo'' 0x1000 34 2 35 3,
     st_regs = (\<lambda>_. demo_regs)\<rparr>"

lemma demo_mbox_wf [simp]: "mbox_wf (st_mbox demo_mbox)"
  by (simp add: demo_mbox_def mbox_wf_init)

lemma demo_mbox_chan: "i < 32 \<Longrightarrow> chan_of demo_mbox i = demo_chan\<lparr>ch_instance := i\<rparr>"
  by (simp add: demo_mbox_def hpsc_mbox_init_def demo_chan_def)

lemma demo_mbox_regs [simp]: "st_regs demo_mbox a = demo_regs"
  by (simp add: demo_mbox_def)

text \<open>C15. A claim of a free channel ends with the status that the registers before it determine. On
  success the channel is active with the requested callbacks and owner, and the interrupts of the
  given callbacks are enabled; on failure the channel is free and cleared. Other channels and their
  registers are not touched, and the driver's structures stay well formed.\<close>

theorem mbox_claim_outcome:
  assumes wf: "mbox_wf (st_mbox s)" and i: "i < HPSC_MBOX_CHANNELS"
    and free: "\<not> ch_active (chan_of s i)"
  shows "\<exists>sc s'. hpsc_mbox_chan_claim hw False i ow sr de ca cbb arg s = Inr (sc, s') \<and>
    sc = claim_status hw (st_regs s (chan_addr (st_mbox s) i)) ow sr de (ca \<noteq> None) (cbb \<noteq> None) \<and>
    mbox_wf (st_mbox s') \<and>
    (\<forall>j. j \<noteq> i \<longrightarrow> chan_of s' j = chan_of s j) \<and>
    (\<forall>b. b \<noteq> chan_addr (st_mbox s) i \<longrightarrow> st_regs s' b = st_regs s b) \<and>
    (if sc = RTEMS_SUCCESSFUL
     then ch_active (chan_of s' i) \<and> cb (ch_int_a (chan_of s' i)) = ca \<and>
          cb (ch_int_b (chan_of s' i)) = cbb \<and> ch_owner (chan_of s' i) = ow \<and>
          (\<forall>e. e = (if ca \<noteq> None then HPSC_MBOX_INT_A (irq_idx (mb_int_a (st_mbox s))) else 0) OR
               (if cbb \<noteq> None then HPSC_MBOX_INT_B (irq_idx (mb_int_b (st_mbox s))) else 0) \<longrightarrow>
             EVENT_ENABLE (st_regs s' (chan_addr (st_mbox s) i)) AND e = e)
     else \<not> ch_active (chan_of s' i) \<and> cb (ch_int_a (chan_of s' i)) = None \<and>
          cb (ch_int_b (chan_of s' i)) = None \<and> ch_owner (chan_of s' i) = 0)"
proof (cases "claim_status hw (st_regs s (chan_addr (st_mbox s) i)) ow sr de (ca \<noteq> None) (cbb \<noteq> None)
    = RTEMS_SUCCESSFUL")
  case True
  then show ?thesis
    using wf i free
    by (simp add: claim_free Let_def chan_enable_val_def bit.conj_disj_distrib2)
next
  case False
  then show ?thesis
    using wf i free by (simp add: claim_free Let_def)
qed


theorem mbox_claim_outcome_witness:
  "\<exists>s'. hpsc_mbox_chan_claim demo_hw False 3 1 1 2 (Some Link_recv_cmd) None 0x2000 demo_mbox =
      Inr (RTEMS_SUCCESSFUL, s') \<and> ch_active (chan_of s' 3)"
  using mbox_claim_outcome [where s = demo_mbox and i = 3 and hw = demo_hw and ow = 1 and sr = 1 and de = 2
      and ca = "Some Link_recv_cmd" and cbb = None and arg = "0x2000"]
  by (auto simp: demo_mbox_chan demo_chan_def claim_status_def demo_hw_def demo_regs_def)

theorem mbox_claim_busy_destroys:
  assumes wf: "mbox_wf (st_mbox s)" and i: "i < HPSC_MBOX_CHANNELS"
    and busy: "ch_active (chan_of s i)"
  shows "\<exists>s'. hpsc_mbox_chan_claim hw False i ow sr de ca cbb arg s = Inr (RTEMS_RESOURCE_IN_USE, s') \<and>
    st_regs s' = st_regs s \<and>
    hpsc_mbox_chan_is_subscribed i event interrupt s' = Inr False \<and>
    cb (ch_int_a (chan_of s' i)) = None \<and> cb (ch_int_b (chan_of s' i)) = None \<and>
    (\<exists>s''. hpsc_mbox_chan_release hw False i s' = Inr (RTEMS_SUCCESSFUL, s'') \<and>
       CONFIG (st_regs s'' (chan_addr (st_mbox s) i)) = CONFIG (st_regs s (chan_addr (st_mbox s) i)))"
proof -
  have "ch_base (chan_of s i) = Some (chan_addr (st_mbox s) i)"
    using mbox_wf_chan [OF wf, of i] i busy by (auto simp: chan_wf_def)
  then show ?thesis
    using wf i busy
    by (simp add: hpsc_mbox_chan_claim_def hpsc_mbox_chan_is_subscribed_def hpsc_mbox_chan_release_def)
qed

lemma demo_claimed:
  obtains s where "hpsc_mbox_chan_claim demo_hw False 3 1 1 2 (Some Link_recv_cmd) None 0x2000 demo_mbox
      = Inr (RTEMS_SUCCESSFUL, s)" and "mbox_wf (st_mbox s)" and "ch_active (chan_of s 3)"
    and "CONFIG (st_regs s (chan_addr (st_mbox demo_mbox) 3)) = config_word 1 1 2"
proof -
  let ?s = "upd_regs (chan_addr (st_mbox demo_mbox) 3) (\<lambda>r. r\<lparr>EVENT_ENABLE := EVENT_ENABLE r OR
      chan_enable_val (st_mbox (hpsc_mbox_chan_init 3 1 1 2 (Some Link_recv_cmd) None 0x2000 demo_mbox))
        (chan_of (hpsc_mbox_chan_init 3 1 1 2 (Some Link_recv_cmd) None 0x2000 demo_mbox) 3)\<rparr>)
    (upd_regs (chan_addr (st_mbox demo_mbox) 3) (hw_config demo_hw (config_word 1 1 2))
      (hpsc_mbox_chan_init 3 1 1 2 (Some Link_recv_cmd) None 0x2000 demo_mbox))"
  have "hpsc_mbox_chan_claim demo_hw False 3 1 1 2 (Some Link_recv_cmd) None 0x2000 demo_mbox
      = Inr (RTEMS_SUCCESSFUL, ?s)"
    by (simp add: claim_free demo_mbox_chan demo_chan_def Let_def claim_status_def demo_hw_def demo_regs_def)
  then show ?thesis
    by (rule that) (simp_all add: demo_hw_def demo_regs_def)
qed

theorem mbox_claim_busy_destroys_witness:
  "\<exists>s s'. ch_active (chan_of s 3) \<and>
     hpsc_mbox_chan_claim demo_hw False 3 0 1 2 None (Some Link_mbox_ack) 0x3000 s =
       Inr (RTEMS_RESOURCE_IN_USE, s') \<and> cb (ch_int_a (chan_of s' 3)) = None"
proof -
  obtain s where s: "mbox_wf (st_mbox s)" "ch_active (chan_of s 3)"
    by (rule demo_claimed)
  have "(3::nat) < HPSC_MBOX_CHANNELS" by simp
  from mbox_claim_busy_destroys [OF s(1) this s(2)] s(2) show ?thesis by blast
qed

theorem mbox_claim_dest_check:
  assumes "mbox_wf (st_mbox s)" and "i < HPSC_MBOX_CHANNELS" and "\<not> ch_active (chan_of s i)"
    and "dest \<noteq> 0"
  shows "\<exists>s'. hpsc_mbox_chan_claim hw False i 0 src dest (Some h) None arg s =
    Inr (if cfg_dest (CONFIG (st_regs s (chan_addr (st_mbox s) i))) = src
         then RTEMS_SUCCESSFUL else RTEMS_UNSATISFIED, s')"
  using assms by (simp add: claim_free Let_def claim_status_def)

theorem mbox_claim_dest_check_witness:
  "\<exists>s'. hpsc_mbox_chan_claim demo_hw False 3 0 0 2 (Some Link_recv_cmd) None 0x2000 demo_mbox =
     Inr (RTEMS_SUCCESSFUL, s')"
  using mbox_claim_dest_check [where s = demo_mbox and i = 3 and hw = demo_hw and src = 0 and dest = 2
      and h = Link_recv_cmd and arg = "0x2000"]
  by (simp add: demo_mbox_chan demo_chan_def demo_regs_def cfg_dest_def)

lemma mbox_hw_lawsD:
  assumes "mbox_hw_laws hw"
  shows "EVENT_CAUSE (hw_status_set hw v r) = EVENT_CAUSE r OR v"
    and "EVENT_ENABLE (hw_status_set hw v r) = EVENT_ENABLE r"
    and "CONFIG (hw_status_set hw v r) = CONFIG r"
    and "DATA (hw_status_set hw v r) = DATA r"
    and "EVENT_CAUSE (hw_status_clear hw v r) = EVENT_CAUSE r AND NOT v"
    and "EVENT_ENABLE (hw_status_clear hw v r) = EVENT_ENABLE r"
    and "CONFIG (hw_status_clear hw v r) = CONFIG r"
    and "DATA (hw_status_clear hw v r) = DATA r"
    and "CONFIG r AND REG_CONFIG__OWNER__MASK = 0 \<Longrightarrow> CONFIG (hw_config hw v r) = v"
    and "CONFIG (hw_config hw 0 r) = 0"
    and "length (DATA (hw_config hw v r)) = length (DATA r)"
  using assms by (simp_all add: mbox_hw_laws_def)

theorem mbox_owner_claim_release:
  assumes hw: "mbox_hw_laws hw" and wf: "mbox_wf (st_mbox s)" and i: "i < HPSC_MBOX_CHANNELS"
    and free: "\<not> ch_active (chan_of s i)" and ow: "ow \<noteq> 0"
    and unowned: "CONFIG (st_regs s (chan_addr (st_mbox s) i)) AND REG_CONFIG__OWNER__MASK = 0"
  shows "\<exists>s' s''. hpsc_mbox_chan_claim hw False i ow sr de ca cbb arg s = Inr (RTEMS_SUCCESSFUL, s') \<and>
    hpsc_mbox_chan_config_read i s' = Inr (ow, sr, de) \<and>
    hpsc_mbox_chan_release hw False i s' = Inr (RTEMS_SUCCESSFUL, s'') \<and>
    CONFIG (st_regs s'' (chan_addr (st_mbox s) i)) = 0 \<and>
    mbox_wf (st_mbox s'') \<and> \<not> ch_active (chan_of s'' i) \<and>
    (\<forall>j. j \<noteq> i \<longrightarrow> chan_of s'' j = chan_of s j)"
  using wf i free ow
  by (simp add: claim_free Let_def claim_status_def mbox_hw_lawsD [OF hw] unowned
      hpsc_mbox_chan_config_read_def hpsc_mbox_chan_release_def hpsc_mbox_chan_reset_def)

theorem mbox_owner_claim_release_witness:
  "\<exists>s' s''. hpsc_mbox_chan_claim demo_hw False 3 1 1 2 (Some Link_recv_cmd) None 0x2000 demo_mbox =
      Inr (RTEMS_SUCCESSFUL, s') \<and> hpsc_mbox_chan_config_read 3 s' = Inr (1, 1, 2) \<and>
     hpsc_mbox_chan_release demo_hw False 3 s' = Inr (RTEMS_SUCCESSFUL, s'')"
  using mbox_owner_claim_release [OF demo_hw_laws, where s = demo_mbox and i = 3 and ow = 1 and sr = 1
      and de = 2 and ca = "Some Link_recv_cmd" and cbb = None and arg = "0x2000"]
  by (auto simp: demo_mbox_chan demo_chan_def demo_regs_def)

lemma release_claimed:
  assumes wf: "mbox_wf (st_mbox s)" and i: "i < 32"
    and base: "ch_base (chan_of s i) = Some a"
  shows "\<exists>s'. hpsc_mbox_chan_release hw False i s = Inr (RTEMS_SUCCESSFUL, s') \<and>
    mbox_wf (st_mbox s') \<and> \<not> ch_active (chan_of s' i) \<and>
    mb_int_a (st_mbox s') = mb_int_a (st_mbox s) \<and> mb_int_b (st_mbox s') = mb_int_b (st_mbox s) \<and>
    ch_base (chan_of s' i) = Some a \<and>
    (\<forall>j. j \<noteq> i \<longrightarrow> chan_of s' j = chan_of s j)"
  using assms by (cases "ch_owner (chan_of s i) = 0") (simp_all add: hpsc_mbox_chan_release_def hpsc_mbox_chan_reset_def Let_def)

subsection \<open>Register windows\<close>

lemma chan_addr_offset:
  assumes "i < 32" and "off < 80"
  shows "chan_addr m i + of_nat off = mb_base m + of_nat (80 * i + off)"
  by (simp add: chan_addr_def sizeof_chan_base_def)

lemma mbox_windows_disjoint:
  assumes i: "i < HPSC_MBOX_CHANNELS" "off < sizeof_chan_base"
    and j: "j < HPSC_MBOX_CHANNELS" "off' < sizeof_chan_base"
    and eq: "chan_addr m i + of_nat off = chan_addr m j + of_nat off'"
  shows "i = j \<and> off = off'"
proof -
  have b: "i < 32" "off < 80" "j < 32" "off' < 80"
    using i j by (simp_all add: sizeof_chan_base_def)
  with eq have "(of_nat (80 * i + off) :: u32) = of_nat (80 * j + off')"
    by (simp only: chan_addr_offset) simp
  then have "80 * i + off = 80 * j + off'"
    by (rule of_nat_u32_inj [rotated 2]) (use b in auto)
  then have "(80 * i + off) div 80 = (80 * j + off') div 80"
    and "(80 * i + off) mod 80 = (80 * j + off') mod 80" by simp_all
  then show ?thesis using b by simp
qed

lemma chan_addr_inj: "i < 32 \<Longrightarrow> j < 32 \<Longrightarrow> chan_addr m i = chan_addr m j \<longleftrightarrow> i = j"
  using chan_addr_offset [of i 0 m] chan_addr_offset [of j 0 m]
    of_nat_u32_inj [of "80 * i" "80 * j"] by auto

subsection \<open>Data registers\<close>

lemma data_copy_loop_length [simp]: "length (data_copy_loop i len msg data) = length data"
  by (induction i len msg data rule: data_copy_loop.induct)
    (subst data_copy_loop.simps, simp)

lemma data_copy_loop_nth:
  "j < length data \<Longrightarrow> data_copy_loop i len msg data ! j =
     (if i \<le> j \<and> j < len then le32 (take 4 (drop (4 * j) msg)) else data ! j)"
proof (induction i len msg data rule: data_copy_loop.induct)
  case (1 i len msg data)
  show ?case
  proof (cases "i < len")
    case True
    with 1 show ?thesis
      by (subst data_copy_loop.simps) (cases "j = i"; simp)
  next
    case False
    with 1 show ?thesis by (subst data_copy_loop.simps) auto
  qed
qed

lemma data_zero_loop_length [simp]: "length (data_zero_loop i data) = length data"
  by (induction i data rule: data_zero_loop.induct) (subst data_zero_loop.simps, simp)

lemma data_zero_loop_nth:
  "j < length data \<Longrightarrow> data_zero_loop i data ! j = (if i \<le> j \<and> j < 16 then 0 else data ! j)"
proof (induction i data rule: data_zero_loop.induct)
  case (1 i data)
  show ?case
  proof (cases "i < 16")
    case True
    with 1 show ?thesis
      by (subst data_zero_loop.simps) (cases "j = i"; simp)
  next
    case False
    with 1 show ?thesis by (subst data_zero_loop.simps) auto
  qed
qed

lemma data_read_loop_spec:
  assumes "4 * min len 16 \<le> length msg" and "i \<le> min len 16"
  shows "data_read_loop i len data msg =
    (min len 16, overwrite (4 * i) (concat (map (\<lambda>j. bytes32 (data ! j)) [i..<min len 16])) msg)"
  using assms
proof (induction i len data msg rule: data_read_loop.induct)
  case (1 i len data msg)
  show ?case
  proof (cases "i < len \<and> i < 16")
    case True
    let ?n = "min len 16"
    have up: "[i..<?n] = i # [Suc i..<?n]"
      using True by (simp add: upt_conv_Cons)
    have "overwrite (4 * Suc i) ys (overwrite (4 * i) (bytes32 (data ! i)) msg) =
        overwrite (4 * i) (bytes32 (data ! i) @ ys) msg" for ys
      by (rule overwrite_overwrite) (use True "1.prems" in auto)
    then show ?thesis
      using True 1 by (subst data_read_loop.simps) (simp add: up)
  next
    case False
    with "1.prems" have "i = min len 16" by auto
    with False show ?thesis
      by (subst data_read_loop.simps) (auto simp: overwrite_def min_def split: if_splits)
  qed
qed


text \<open>The contents of the registers after a write, as bytes.\<close>

lemma concat_bytes32_le32:
  assumes "4 * n \<le> length msg"
  shows "concat (map (\<lambda>j. bytes32 (le32 (take 4 (drop (4 * j) msg)))) [0..<n]) = take (4 * n) msg"
  using assms
proof (induction n)
  case 0
  then show ?case by simp
next
  case (Suc n)
  have "take (4 * Suc n) msg = take (4 * n) msg @ take 4 (drop (4 * n) msg)"
    by (metis add.commute mult_Suc_right take_add)
  with Suc show ?case by simp
qed

lemma concat_bytes32_zero:
  "concat (map (\<lambda>_. bytes32 0) [m..<n]) = replicate (4 * (n - m)) 0"
proof (induction n)
  case 0
  then show ?case by simp
next
  case (Suc n)
  have z: "bytes32 0 = replicate 4 0"
    by (simp add: bytes32_def numeral_eq_Suc)
  show ?case
  proof (cases "m \<le> n")
    case True
    with Suc show ?thesis
      by (simp add: z replicate_add [symmetric] Suc_diff_le algebra_simps)
  next
    case False
    then show ?thesis by simp
  qed
qed

lemma written_data_bytes:
  assumes len: "length data = 16" and "n \<le> 16" and "4 * n \<le> length msg"
  shows "concat (map (\<lambda>j. bytes32 (data_zero_loop n (data_copy_loop 0 n msg data) ! j)) [0..<16]) =
    take (4 * n) msg @ replicate (64 - 4 * n) 0"
proof -
  let ?d = "data_zero_loop n (data_copy_loop 0 n msg data)"
  have "[0..<16] = [0..<n] @ [n..<16]"
    using assms(2) by (metis le0 le_add_diff_inverse upt_add_eq_append)
  moreover have "map (\<lambda>j. bytes32 (?d ! j)) [0..<n] =
      map (\<lambda>j. bytes32 (le32 (take 4 (drop (4 * j) msg)))) [0..<n]"
    using assms by (simp add: data_zero_loop_nth data_copy_loop_nth)
  then have "concat (map (\<lambda>j. bytes32 (?d ! j)) [0..<n]) = take (4 * n) msg"
    by (simp only: concat_bytes32_le32 [OF assms(3)])
  moreover have "map (\<lambda>j. bytes32 (?d ! j)) [n..<16] = map (\<lambda>_. bytes32 0) [n..<16]"
    using assms by (simp add: data_zero_loop_nth)
  then have "concat (map (\<lambda>j. bytes32 (?d ! j)) [n..<16]) = replicate (64 - 4 * n) 0"
    by (simp only: concat_bytes32_zero) (simp add: diff_mult_distrib2)
  ultimately show ?thesis by simp
qed

lemma words_of_size_bounds:
  "sz \<le> 4 * words_of_size sz" "4 * words_of_size sz < sz + 4"
  "sz \<le> 64 \<Longrightarrow> words_of_size sz \<le> 16"
  by (auto simp: words_of_size_def) arith+

text \<open>C11. A message written to a channel is what a read of all data registers returns at the other end:
  the words of the message, then zeros, and nothing beyond 64 bytes of the reader's buffer changes.\<close>

theorem mbox_write_read:
  assumes i: "i < HPSC_MBOX_CHANNELS" and base: "ch_base (chan_of s i) = Some a"
    and data: "length (DATA (st_regs s a)) = HPSC_MBOX_DATA_REGS"
    and sz: "sz \<le> HPSC_MBOX_DATA_SIZE" and msg: "4 * words_of_size sz \<le> length msg"
  shows "\<exists>s'. hpsc_mbox_chan_write i (Some msg) sz s = Inr (sz, s') \<and>
    (\<forall>t j buf. j < HPSC_MBOX_CHANNELS \<and> ch_base (chan_of t j) = Some a \<and>
        st_regs t a = st_regs s' a \<and> HPSC_MBOX_DATA_SIZE \<le> length buf \<longrightarrow>
       hpsc_mbox_chan_read j (Some buf) HPSC_MBOX_DATA_SIZE t =
         Inr (HPSC_MBOX_DATA_SIZE, take (4 * words_of_size sz) msg @
              replicate (HPSC_MBOX_DATA_SIZE - 4 * words_of_size sz) 0 @
              drop HPSC_MBOX_DATA_SIZE buf))"
proof -
  let ?n = "words_of_size sz"
  let ?d = "data_zero_loop ?n (data_copy_loop 0 ?n msg (DATA (st_regs s a)))"
  have n: "?n \<le> 16" using sz words_of_size_bounds(3) [of sz] by simp
  have w64: "words_of_size 64 = 16" by (simp add: words_of_size_def)
  have "hpsc_mbox_chan_write i (Some msg) sz s =
      Inr (sz, upd_regs a (\<lambda>r. r\<lparr>DATA := data_zero_loop ?n (data_copy_loop 0 ?n msg (DATA r))\<rparr>) s)"
    using i base sz msg by (simp add: hpsc_mbox_chan_write_def Let_def)
  moreover have "data_read_loop 0 16 ?d buf =
      (16, take (4 * ?n) msg @ replicate (64 - 4 * ?n) 0 @ drop 64 buf)"
    if "64 \<le> length buf" for buf
    using that n msg data data_read_loop_spec [of 16 buf 0 ?d]
    by (simp add: written_data_bytes overwrite_def)
  ultimately show ?thesis
    by (auto simp: hpsc_mbox_chan_read_def w64)
qed

theorem mbox_read_count:
  assumes i: "i < HPSC_MBOX_CHANNELS" and base: "ch_base (chan_of s i) = Some a"
    and sz: "0 < sz" "sz \<le> HPSC_MBOX_DATA_SIZE"
  shows "\<exists>n. sz \<le> n \<and> n < sz + 4 \<and> n mod 4 = 0 \<and> n \<le> HPSC_MBOX_DATA_SIZE \<and>
    (\<forall>buf. if n \<le> length buf
       then \<exists>buf'. hpsc_mbox_chan_read i (Some buf) sz s = Inr (n, buf') \<and>
              length buf' = length buf \<and> drop n buf' = drop n buf
       else hpsc_mbox_chan_read i (Some buf) sz s = Inl Undef)"
proof -
  let ?n = "words_of_size sz"
  have n: "?n \<le> 16" "0 < ?n"
    using sz words_of_size_bounds [of sz] by auto
  let ?bs = "concat (map (\<lambda>j. bytes32 (DATA (st_regs s a) ! j)) [0..<?n])"
  have len: "length ?bs = 4 * ?n"
    by (simp add: length_concat o_def sum_list_triv)
  have ok: "hpsc_mbox_chan_read i (Some buf) sz s = Inr (4 * ?n, ?bs @ drop (4 * ?n) buf)"
    if "4 * ?n \<le> length buf" for buf
    using i base n that data_read_loop_spec [of ?n buf 0 "DATA (st_regs s a)"] len
    by (simp add: hpsc_mbox_chan_read_def overwrite_def min_def Let_def mult.commute)
  have bad: "hpsc_mbox_chan_read i (Some buf) sz s = Inl Undef" if "\<not> 4 * ?n \<le> length buf" for buf
    using i base n that by (simp add: hpsc_mbox_chan_read_def Let_def min_def)
  show ?thesis
  proof (intro exI [of _ "4 * ?n"] conjI allI)
    fix buf
    show "if 4 * ?n \<le> length buf
      then \<exists>buf'. hpsc_mbox_chan_read i (Some buf) sz s = Inr (4 * ?n, buf') \<and>
             length buf' = length buf \<and> drop (4 * ?n) buf' = drop (4 * ?n) buf
      else hpsc_mbox_chan_read i (Some buf) sz s = Inl Undef"
      using ok [of buf] bad [of buf] len by simp
  qed (use n sz words_of_size_bounds [of sz] in simp_all)
qed

theorem mbox_write_read_witness:
  "\<exists>s s'. hpsc_mbox_chan_write 3 (Some [1, 2, 3, 4, 5, 6, 7, 8]) 5 s = Inr (5, s') \<and>
     hpsc_mbox_chan_read 3 (Some (replicate 64 9)) 64 s' =
       Inr (64, [1, 2, 3, 4, 5, 6, 7, 8] @ replicate 56 0)"
proof -
  let ?s = "hpsc_mbox_chan_init 3 0 0 0 None None 0 demo_mbox"
  let ?a = "chan_addr (st_mbox demo_mbox) 3"
  have base: "ch_base (chan_of ?s 3) = Some ?a" by simp
  have w: "words_of_size 5 = 2" by (simp add: words_of_size_def)
  obtain s' where s': "hpsc_mbox_chan_write 3 (Some [1, 2, 3, 4, 5, 6, 7, 8]) 5 ?s = Inr (5, s')"
    and rd: "\<forall>t j buf. j < HPSC_MBOX_CHANNELS \<and> ch_base (chan_of t j) = Some ?a \<and>
        st_regs t ?a = st_regs s' ?a \<and> HPSC_MBOX_DATA_SIZE \<le> length buf \<longrightarrow>
       hpsc_mbox_chan_read j (Some buf) HPSC_MBOX_DATA_SIZE t =
         Inr (HPSC_MBOX_DATA_SIZE, take 8 [1, 2, 3, 4, 5, 6, 7, 8] @
              replicate (HPSC_MBOX_DATA_SIZE - 8) 0 @ drop HPSC_MBOX_DATA_SIZE buf)"
    using mbox_write_read [where i = 3 and s = ?s and a = ?a and sz = 5
        and msg = "[1, 2, 3, 4, 5, 6, 7, 8]", OF _ base]
    by (auto simp: demo_regs_def w)
  from s' have "ch_base (chan_of s' 3) = Some ?a"
    by (auto simp: hpsc_mbox_chan_write_def Let_def w)
  with rd have "hpsc_mbox_chan_read 3 (Some (replicate 64 9)) 64 s' =
       Inr (64, [1, 2, 3, 4, 5, 6, 7, 8] @ replicate 56 0)" by simp
  with s' show ?thesis by blast
qed

theorem mbox_read_count_witness:
  "\<exists>s buf'. hpsc_mbox_chan_read 3 (Some (replicate 8 0)) 5 s = Inr (8, buf') \<and>
     hpsc_mbox_chan_read 3 (Some (replicate 5 0)) 5 s = Inl Undef"
proof -
  let ?s = "hpsc_mbox_chan_init 3 0 0 0 None None 0 demo_mbox"
  obtain n where n: "5 \<le> n" "n < 9" "n mod 4 = 0" and r: "\<And>buf. if n \<le> length buf
       then \<exists>buf'. hpsc_mbox_chan_read 3 (Some buf) 5 ?s = Inr (n, buf') \<and>
              length buf' = length buf \<and> drop n buf' = drop n buf
       else hpsc_mbox_chan_read 3 (Some buf) 5 ?s = Inl Undef"
    using mbox_read_count [where i = 3 and s = ?s and sz = 5] by auto
  from n have "n = 8" by presburger
  with r [of "replicate 5 0"] r [of "replicate 8 0"] show ?thesis by auto
qed

subsection \<open>Interrupt dispatch\<close>

text \<open>
  An interrupt callback is local to its channel when it leaves the driver structure and the
  registers of all other channels as they are.
\<close>

definition isr_local :: "(nat \<Rightarrow> 'x node_step) \<Rightarrow> bool" where
  "isr_local isr \<longleftrightarrow> (\<forall>i w w'. isr i w = Inr w' \<longrightarrow>
     st_mbox (fst w') = st_mbox (fst w) \<and>
     (\<forall>b. ch_base (chan_of (fst w) i) \<noteq> Some b \<longrightarrow> st_regs (fst w') b = st_regs (fst w) b))"

definition subscribed_chans :: "u32 \<Rightarrow> u32 \<Rightarrow> mbox_st \<Rightarrow> nat list \<Rightarrow> nat list" where
  "subscribed_chans event interrupt s is =
     filter (\<lambda>i. hpsc_mbox_chan_is_subscribed i event interrupt s = Inr True) is"

lemma is_subscribed_defined:
  "mbox_wf (st_mbox s) \<Longrightarrow> i < 32 \<Longrightarrow>
   \<exists>b. hpsc_mbox_chan_is_subscribed i event interrupt s = Inr b"
  using mbox_wf_chan [of "st_mbox s" i]
  by (auto simp: hpsc_mbox_chan_is_subscribed_def chan_wf_def)

lemma is_subscribed_frame:
  assumes "st_mbox s' = st_mbox s"
    and "\<And>b. ch_base (chan_of s i) = Some b \<Longrightarrow> st_regs s' b = st_regs s b"
  shows "hpsc_mbox_chan_is_subscribed i event interrupt s' =
    hpsc_mbox_chan_is_subscribed i event interrupt s"
  using assms by (auto simp: hpsc_mbox_chan_is_subscribed_def split: option.splits)

lemma subscribed_chans_frame:
  assumes wf: "mbox_wf (st_mbox s)" and i: "i < 32" and bnd: "set is \<subseteq> {..<32}" "i \<notin> set is"
    and mb: "st_mbox s' = st_mbox s"
    and rg: "\<And>b. ch_base (chan_of s i) \<noteq> Some b \<Longrightarrow> st_regs s' b = st_regs s b"
  shows "subscribed_chans event interrupt s' is = subscribed_chans event interrupt s is"
  unfolding subscribed_chans_def
proof (rule filter_cong [OF refl])
  fix j assume j: "j \<in> set is"
  have "hpsc_mbox_chan_is_subscribed j event interrupt s' =
      hpsc_mbox_chan_is_subscribed j event interrupt s"
  proof (rule is_subscribed_frame [OF mb])
    fix b assume b: "ch_base (chan_of s j) = Some b"
    have "j < 32" "j \<noteq> i" using j bnd by auto
    then have "ch_base (chan_of s i) \<noteq> Some b"
      using b i mbox_wf_chan [OF wf i] mbox_wf_chan [OF wf \<open>j < 32\<close>]
      by (auto simp: chan_wf_def chan_addr_inj)
    then show "st_regs s' b = st_regs s b" by (rule rg)
  qed
  then show "(hpsc_mbox_chan_is_subscribed j event interrupt s' = Inr True) =
      (hpsc_mbox_chan_is_subscribed j event interrupt s = Inr True)" by simp
qed

lemma mbox_isr_loop_serves:
  assumes "isr_local isr" and "mbox_wf (st_mbox (fst w))"
    and "set is \<subseteq> {..<32}" and "distinct is"
  shows "mbox_isr_loop isr event interrupt is h w =
    res_bind (res_fold isr (subscribed_chans event interrupt (fst w) is) w)
      (\<lambda>w'. Inr (h \<or> subscribed_chans event interrupt (fst w) is \<noteq> [], w'))"
  using assms
proof (induction "is" arbitrary: w h)
  case Nil
  then show ?case by (simp add: subscribed_chans_def)
next
  case (Cons i "is")
  obtain b where b: "hpsc_mbox_chan_is_subscribed i event interrupt (fst w) = Inr b"
    using is_subscribed_defined Cons.prems by force
  show ?case
  proof (cases b)
    case False
    with Cons b show ?thesis by (simp add: subscribed_chans_def)
  next
    case True
    have split: "subscribed_chans event interrupt (fst w) (i # is) =
        i # subscribed_chans event interrupt (fst w) is"
      using b True by (simp add: subscribed_chans_def)
    show ?thesis
    proof (cases "isr i w")
      case (Inl e)
      then show ?thesis using b True split by simp
    next
      case (Inr w')
      with Cons.prems(1) have loc: "st_mbox (fst w') = st_mbox (fst w)"
        "\<And>b. ch_base (chan_of (fst w) i) \<noteq> Some b \<Longrightarrow> st_regs (fst w') b = st_regs (fst w) b"
        unfolding isr_local_def by blast+
      have "subscribed_chans event interrupt (fst w') is = subscribed_chans event interrupt (fst w) is"
        by (rule subscribed_chans_frame [OF Cons.prems(2) _ _ _ loc]) (use Cons.prems in auto)
      with Cons Inr b True split loc show ?thesis by simp
    qed
  qed
qed

lemma isr_local_chan_isr:
  assumes "\<And>i h w w'. cb (f (chan_of (fst w) i)) = Some h \<Longrightarrow>
      call h (cb_arg (f (chan_of (fst w) i))) w = Inr w' \<Longrightarrow>
      st_mbox (fst w') = st_mbox (fst w) \<and>
      (\<forall>b. ch_base (chan_of (fst w) i) \<noteq> Some b \<longrightarrow> st_regs (fst w') b = st_regs (fst w) b)"
  shows "isr_local (\<lambda>i w. case cb (f (chan_of (fst w) i)) of
      Some h \<Rightarrow> call h (cb_arg (f (chan_of (fst w) i))) w
    | None \<Rightarrow> res_bind (chan_event_store g i (fst w)) (\<lambda>s'. Inr (s', snd w)))"
  unfolding isr_local_def
proof (intro allI impI)
  fix i w w'
  assume r: "(case cb (f (chan_of (fst w) i)) of
      Some h \<Rightarrow> call h (cb_arg (f (chan_of (fst w) i))) w
    | None \<Rightarrow> res_bind (chan_event_store g i (fst w)) (\<lambda>s'. Inr (s', snd w))) = Inr w'"
  show "st_mbox (fst w') = st_mbox (fst w) \<and>
      (\<forall>b. ch_base (chan_of (fst w) i) \<noteq> Some b \<longrightarrow> st_regs (fst w') b = st_regs (fst w) b)"
  proof (cases "cb (f (chan_of (fst w) i))")
    case None
    with r show ?thesis by (auto simp: chan_event_store_def split: option.splits if_splits)
  next
    case (Some h)
    with r have "call h (cb_arg (f (chan_of (fst w) i))) w = Inr w'" by simp
    with Some show ?thesis by (rule assms)
  qed
qed

text \<open>C10. The interrupt handler A of a mailbox block equals a reference that selects, before anything
  runs, the active channels whose event A is raised and mapped to our interrupt, and serves those in
  order of their number; it reports an unexpected interrupt if there is none. The callbacks are only
  assumed to leave the driver's structures and other channels' registers alone.\<close>

theorem mbox_isr_a_serves_subscribed:
  assumes wf: "mbox_wf (st_mbox (fst w))"
    and local: "\<And>i h w w'. cb (ch_int_a (chan_of (fst w) i)) = Some h \<Longrightarrow>
      call h (cb_arg (ch_int_a (chan_of (fst w) i))) w = Inr w' \<Longrightarrow>
      st_mbox (fst w') = st_mbox (fst w) \<and>
      (\<forall>b. ch_base (chan_of (fst w) i) \<noteq> Some b \<longrightarrow> st_regs (fst w') b = st_regs (fst w) b)"
  shows "hpsc_mbox_isr_a hw call w =
    (let served = [i \<leftarrow> [0..<HPSC_MBOX_CHANNELS].
           ch_active (chan_of (fst w) i) \<and>
           EVENT_CAUSE (st_regs (fst w) (chan_addr (st_mbox (fst w)) i)) AND HPSC_MBOX_EVENT_A \<noteq> 0 \<and>
           EVENT_ENABLE (st_regs (fst w) (chan_addr (st_mbox (fst w)) i)) AND
             HPSC_MBOX_INT_A (irq_idx (mb_int_a (st_mbox (fst w)))) \<noteq> 0]
     in res_bind (res_fold (hpsc_mbox_chan_isr_a hw call) served w) (\<lambda>w'. Inr (served \<noteq> [], w')))"
proof -
  have loc: "isr_local (hpsc_mbox_chan_isr_a hw call)"
    unfolding hpsc_mbox_chan_isr_a_def [abs_def] hpsc_mbox_chan_event_clear_rcv_def
    by (rule isr_local_chan_isr) (rule local)
  let ?int = "HPSC_MBOX_INT_A (irq_idx (mb_int_a (st_mbox (fst w))))"
  have "subscribed_chans HPSC_MBOX_EVENT_A ?int (fst w) [0..<32] = [i \<leftarrow> [0..<HPSC_MBOX_CHANNELS].
           ch_active (chan_of (fst w) i) \<and>
           EVENT_CAUSE (st_regs (fst w) (chan_addr (st_mbox (fst w)) i)) AND HPSC_MBOX_EVENT_A \<noteq> 0 \<and>
           EVENT_ENABLE (st_regs (fst w) (chan_addr (st_mbox (fst w)) i)) AND ?int \<noteq> 0]"
    unfolding subscribed_chans_def HPSC_MBOX_CHANNELS_def
  proof (rule filter_cong [OF refl])
    fix i assume "i \<in> set [0..<32]"
    then have "chan_wf (st_mbox (fst w)) i" using mbox_wf_chan [OF wf] by simp
    then show "(hpsc_mbox_chan_is_subscribed i HPSC_MBOX_EVENT_A ?int (fst w) = Inr True) =
      (ch_active (chan_of (fst w) i) \<and>
           EVENT_CAUSE (st_regs (fst w) (chan_addr (st_mbox (fst w)) i)) AND HPSC_MBOX_EVENT_A \<noteq> 0 \<and>
           EVENT_ENABLE (st_regs (fst w) (chan_addr (st_mbox (fst w)) i)) AND ?int \<noteq> 0)"
      by (auto simp: hpsc_mbox_chan_is_subscribed_def chan_wf_def split: if_splits)
  qed
  then show ?thesis
    using mbox_isr_loop_serves [OF loc wf _ distinct_upt, of 0 32 HPSC_MBOX_EVENT_A ?int False]
    by (simp add: hpsc_mbox_isr_a_def hpsc_mbox_isr_def Let_def atLeast0LessThan)
qed


definition demo_pending :: mbox_st where
  "demo_pending = \<lparr>st_mbox = st_mbox (hpsc_mbox_chan_init 3 0 0 0 (Some Link_recv_cmd) None 0x2000 demo_mbox),
     st_regs = (\<lambda>_. demo_regs\<lparr>EVENT_CAUSE := 1, EVENT_ENABLE := 0x10\<rparr>)\<rparr>"

lemma demo_pending_simps [simp]:
  "mbox_wf (st_mbox demo_pending)"
  "st_regs demo_pending b = demo_regs\<lparr>EVENT_CAUSE := 1, EVENT_ENABLE := 0x10\<rparr>"
  by (simp_all add: demo_pending_def)

lemma demo_mbox_int_a [simp]: "mb_int_a (st_mbox demo_mbox) = \<lparr>irq_n = 34, irq_idx = 2\<rparr>"
  by (simp add: demo_mbox_def hpsc_mbox_init_def)

lemma demo_pending_int_a [simp]: "mb_int_a (st_mbox demo_pending) = \<lparr>irq_n = 34, irq_idx = 2\<rparr>"
  by (simp add: demo_pending_def)

lemma demo_pending_active [simp]: "i < 32 \<Longrightarrow> ch_active (chan_of demo_pending i) = (i = 3)"
  by (cases "i = 3") (simp_all add: demo_pending_def demo_mbox_chan demo_chan_def)

lemma demo_pending_chan [simp]:
  "ch_int_a (chan_of demo_pending 3) = \<lparr>cb = Some Link_recv_cmd, cb_arg = 0x2000\<rparr>"
  by (simp add: demo_pending_def)

theorem mbox_isr_a_serves_subscribed_witness:
  "hpsc_mbox_isr_a demo_hw (\<lambda>h a w. Inr (fst w, (h, a) # snd w)) (demo_pending, []) =
     Inr (True, demo_pending, [(Link_recv_cmd, 0x2000)])"
proof -
  have "[i \<leftarrow> [0..<32]. ch_active (chan_of demo_pending i)] = [i \<leftarrow> [0..<32]. i = (3::nat)]"
    by (rule filter_cong) simp_all
  then have three: "[i \<leftarrow> [0..<32]. ch_active (chan_of demo_pending i)] = [3]"
    by (simp only:) code_simp
  let ?call = "\<lambda>h a w. Inr (fst w, (h, a) # snd w) :: (mbox_st \<times> (handler \<times> ptr) list) res"
  have loc: "?call h a w = Inr w' \<Longrightarrow> st_mbox (fst w') = st_mbox (fst w) \<and> (\<forall>b. P b \<longrightarrow> st_regs (fst w') b = st_regs (fst w) b)"
    for h a w w' P by auto
  let ?w = "(demo_pending, []) :: mbox_st \<times> (handler \<times> ptr) list"
  have "hpsc_mbox_isr_a demo_hw ?call ?w =
    (let served = [i \<leftarrow> [0..<HPSC_MBOX_CHANNELS].
           ch_active (chan_of (fst ?w) i) \<and>
           EVENT_CAUSE (st_regs (fst ?w) (chan_addr (st_mbox (fst ?w)) i)) AND HPSC_MBOX_EVENT_A \<noteq> 0 \<and>
           EVENT_ENABLE (st_regs (fst ?w) (chan_addr (st_mbox (fst ?w)) i)) AND
             HPSC_MBOX_INT_A (irq_idx (mb_int_a (st_mbox (fst ?w)))) \<noteq> 0]
     in res_bind (res_fold (hpsc_mbox_chan_isr_a demo_hw ?call) served
          ?w) (\<lambda>w'. Inr (served \<noteq> [], w')))"
    by (rule mbox_isr_a_serves_subscribed) (simp, erule loc)
  then show ?thesis
    by (simp add: three HPSC_MBOX_EVENT_A_def HPSC_MBOX_INT_A_def hpsc_mbox_chan_isr_a_def)
qed

subsection \<open>Probe and remove\<close>

lemma hpsc_mbox_probe_outcome:
  assumes irq: "irq_laws K irqs" and heap: "heap_laws K live" and base: "base \<noteq> 0"
  shows "\<exists>sc p mo k'. hpsc_mbox_probe K raw info base va ia vb ib k = Inr (sc, p, mo, k') \<and>
    (if sc = RTEMS_SUCCESSFUL
     then mo = Some (hpsc_mbox_init raw info base va ia vb ib) \<and>
          p \<noteq> NULL \<and> p \<notin> live k \<and> live k' = insert p (live k) \<and>
          irqs k' = {(va, Hpsc_mbox_isr_a, p), (vb, Hpsc_mbox_isr_b, p)} \<union> irqs k
     else mo = None \<and> live k' = live k \<and> irqs k' = irqs k)"
proof -
  obtain p k1 where m: "rt_malloc K k = (p, k1)" by fastforce
  note m_irq = irq_laws_heap(1) [OF irq m] and m_live = heap_laws_malloc [OF heap m]
  show ?thesis
  proof (cases "p = NULL")
    case True
    then show ?thesis using base m m_irq m_live by (simp add: hpsc_mbox_probe_def)
  next
    case False
    obtain sc k2 where a: "rt_int_install K va Hpsc_mbox_isr_a p k1 = (sc, k2)" by fastforce
    obtain sc' k3 where b: "rt_int_install K vb Hpsc_mbox_isr_b p k2 = (sc', k3)" by fastforce
    obtain sc'' k4 where r: "rt_int_remove K va Hpsc_mbox_isr_a p k3 = (sc'', k4)" by fastforce
    note inst = irq_laws_install(1) [OF irq a] irq_laws_install(1) [OF irq b]
      irq_laws_install(2) [OF irq a] irq_laws_remove [OF irq r]
    note frame = heap_laws_frame(2) [OF heap a] heap_laws_frame(2) [OF heap b] heap_laws_frame(3) [OF heap r]
      heap_laws_frame(1) [OF heap] irq_laws_heap(2) [OF irq] m_irq m_live
    have raw: "ch_active (mb_chans (hpsc_mbox_init raw info base va ia vb ib) ! i) = False"
      if "i < 32" for i
      using that by (simp add: hpsc_mbox_init_def)
    show ?thesis
    proof (cases "sc = RTEMS_SUCCESSFUL")
      case fail_a: False
      then have "irqs k2 = irqs k1" using inst(1) by simp
      with fail_a show ?thesis
        using False base m a frame by (simp add: hpsc_mbox_probe_def Let_def)
    next
      case ok_a: True
      then have k2: "irqs k2 = insert (va, Hpsc_mbox_isr_a, p) (irqs k)"
        and new: "(va, Hpsc_mbox_isr_a, p) \<notin> irqs k" using inst(1,3) m_irq by simp_all
      show ?thesis
      proof (cases "sc' = RTEMS_SUCCESSFUL")
        case True
        then have "irqs k3 = insert (vb, Hpsc_mbox_isr_b, p) (irqs k2)" using inst(2) by simp
        with True show ?thesis
          using False base m a b frame raw ok_a k2
          by (auto simp add: hpsc_mbox_probe_def Let_def)
      next
        case fail_b: False
        then have "irqs k3 = irqs k2" using inst(2) by simp
        moreover have "irqs k4 = irqs k3 - {(va, Hpsc_mbox_isr_a, p)}"
          using inst(4,5) calculation k2 by auto
        ultimately have "irqs k4 = irqs k" using k2 new by auto
        then show ?thesis
          using False base m a b r frame ok_a fail_b
          by (simp add: hpsc_mbox_probe_def Let_def hpsc_mbox_init_def)
      qed
    qed
  qed
qed

text \<open>C16. Probing a mailbox block is all or nothing: either a new well-formed block with all channels
  free exists and exactly its two interrupt handlers have been added, or memory and handlers are as
  before, whichever step failed.\<close>

theorem mbox_probe_all_or_nothing:
  assumes irq: "irq_laws K irqs" and heap: "heap_laws K live" and base: "base \<noteq> 0"
  shows "\<exists>sc p mo k'. hpsc_mbox_probe K raw info base va ia vb ib k = Inr (sc, p, mo, k') \<and>
    (if sc = RTEMS_SUCCESSFUL
     then (\<exists>m. mo = Some m \<and> mbox_wf m \<and> (\<forall>i < HPSC_MBOX_CHANNELS. \<not> ch_active (mb_chans m ! i))) \<and>
          p \<noteq> NULL \<and> p \<notin> live k \<and> live k' = insert p (live k) \<and>
          irqs k' = {(va, Hpsc_mbox_isr_a, p), (vb, Hpsc_mbox_isr_b, p)} \<union> irqs k
     else mo = None \<and> live k' = live k \<and> irqs k' = irqs k)"
proof -
  have new: "\<not> ch_active (mb_chans (hpsc_mbox_init raw info base va ia vb ib) ! i)" if "i < HPSC_MBOX_CHANNELS" for i
    using that by (simp add: hpsc_mbox_init_def)
  show ?thesis using hpsc_mbox_probe_outcome [OF irq heap base, of raw info va ia vb ib k] new by (auto split: if_splits)
qed

theorem mbox_probe_all_or_nothing_witness:
  "\<exists>sc p mo k'. hpsc_mbox_probe demo_rtems (\<lambda>_. demo_chan) ''mbox'' 0x1000 34 2 35 3 demo_k0 = Inr (sc, p, mo, k') \<and>
     sc = RTEMS_SUCCESSFUL \<and> set (dk_irqs k') = {(34, Hpsc_mbox_isr_a, 0x1000), (35, Hpsc_mbox_isr_b, 0x1000)}"
  using mbox_probe_all_or_nothing [OF demo_irq_laws demo_heap_laws, where base = "0x1000" and raw = "\<lambda>_. demo_chan"
      and info = "''mbox''" and va = 34 and ia = 2 and vb = 35 and ib = 3 and k = demo_k0]
  by (auto simp: hpsc_mbox_probe_def demo_rtems_def demo_k0_def Let_def)

lemma release_loop_outcome:
  assumes "mbox_wf (st_mbox s)" and "set is \<subseteq> {..<32}"
  shows "if \<forall>i \<in> set is. ch_base (chan_of s i) \<noteq> None
    then \<exists>s'. mbox_release_loop hw False is s = Inr s' \<and> mbox_wf (st_mbox s') \<and>
      (\<forall>i \<in> set is. \<not> ch_active (chan_of s' i)) \<and>
      (\<forall>i. i \<notin> set is \<longrightarrow> chan_of s' i = chan_of s i) \<and>
      mb_int_a (st_mbox s') = mb_int_a (st_mbox s) \<and> mb_int_b (st_mbox s') = mb_int_b (st_mbox s)
    else mbox_release_loop hw False is s = Inl Undef"
  using assms
proof (induction "is" arbitrary: s)
  case Nil
  then show ?case by simp
next
  case (Cons i "is")
  show ?case
  proof (cases "ch_base (chan_of s i)")
    case None
    then show ?thesis using Cons.prems by (auto simp: hpsc_mbox_chan_release_def)
  next
    case (Some a)
    from Cons.prems Some obtain s1 where
      rel: "hpsc_mbox_chan_release hw False i s = Inr (RTEMS_SUCCESSFUL, s1)"
      and wf: "mbox_wf (st_mbox s1)" and inact: "\<not> ch_active (chan_of s1 i)"
      and ints: "mb_int_a (st_mbox s1) = mb_int_a (st_mbox s)" "mb_int_b (st_mbox s1) = mb_int_b (st_mbox s)"
      and base: "ch_base (chan_of s1 i) = Some a" and other: "\<forall>j. j \<noteq> i \<longrightarrow> chan_of s1 j = chan_of s j"
      using release_claimed [of s i a hw] by auto
    have all: "(\<forall>j \<in> set is. ch_base (chan_of s1 j) \<noteq> None) = (\<forall>j \<in> set (i # is). ch_base (chan_of s j) \<noteq> None)"
      using base other Some by (metis option.discI set_ConsD list.set_intros)
    have IH: "if \<forall>j \<in> set (i # is). ch_base (chan_of s j) \<noteq> None
      then \<exists>s'. mbox_release_loop hw False is s1 = Inr s' \<and> mbox_wf (st_mbox s') \<and>
        (\<forall>j \<in> set is. \<not> ch_active (chan_of s' j)) \<and>
        (\<forall>j. j \<notin> set is \<longrightarrow> chan_of s' j = chan_of s1 j) \<and>
        mb_int_a (st_mbox s') = mb_int_a (st_mbox s1) \<and> mb_int_b (st_mbox s') = mb_int_b (st_mbox s1)
      else mbox_release_loop hw False is s1 = Inl Undef"
      unfolding all [symmetric] by (rule Cons.IH) (use wf Cons.prems in auto)
    show ?thesis
    proof (cases "\<forall>j \<in> set (i # is). ch_base (chan_of s j) \<noteq> None")
      case False
      with IH have "mbox_release_loop hw False is s1 = Inl Undef" by (simp only: if_False)
      with False rel show ?thesis by (simp only: if_False mbox_release_loop.simps res_bind.simps prod.case)
    next
      case True
      with IH obtain s' where s': "mbox_release_loop hw False is s1 = Inr s'" "mbox_wf (st_mbox s')"
        "\<forall>j \<in> set is. \<not> ch_active (chan_of s' j)" "\<forall>j. j \<notin> set is \<longrightarrow> chan_of s' j = chan_of s1 j"
        "mb_int_a (st_mbox s') = mb_int_a (st_mbox s1)" "mb_int_b (st_mbox s') = mb_int_b (st_mbox s1)"
        by (auto simp del: list.set split: if_splits)
      have "\<forall>j \<in> set (i # is). \<not> ch_active (chan_of s' j)"
        using s'(3,4) inact by (metis set_ConsD)
      moreover have "\<forall>j. j \<notin> set (i # is) \<longrightarrow> chan_of s' j = chan_of s j"
        using s'(4) other by simp
      moreover have "mbox_release_loop hw False (i # is) s = Inr s'"
        using rel s'(1) by simp
      ultimately show ?thesis
        using True s' ints by (simp del: list.set mbox_release_loop.simps)
    qed
  qed
qed

lemma hpsc_mbox_remove_kernel:
  assumes "hpsc_mbox_remove K hw p s k = Inr (sc, s', k')"
  shows "\<exists>v1 v2. k' = rt_free K p (snd (rt_int_remove K v2 Hpsc_mbox_isr_b p (snd (rt_int_remove K v1 Hpsc_mbox_isr_a p k))))"
proof -
  obtain s1 where "mbox_release_loop hw (rt_int_in_progress K k) [0..<HPSC_MBOX_CHANNELS] s = Inr s1"
    using assms by (auto simp: hpsc_mbox_remove_def res_iff)
  with assms show ?thesis
    by (intro exI [of _ "irq_n (mb_int_a (st_mbox s1))"] exI [of _ "irq_n (mb_int_b (st_mbox s1))"])
      (auto simp: hpsc_mbox_remove_def case_prod_beta split: if_splits)
qed

text \<open>Removing a mailbox block frees all channels, both handlers and the memory, provided that every
  one of its channels has been claimed at some time: releasing a channel that was never claimed
  follows a base pointer that was never set.\<close>

theorem mbox_remove_outcome:
  assumes irq: "irq_laws K irqs" and heap: "heap_laws K live" and wf: "mbox_wf (st_mbox s)"
    and task: "\<not> rt_int_in_progress K k"
    and inst: "(irq_n (mb_int_a (st_mbox s)), Hpsc_mbox_isr_a, p) \<in> irqs k"
      "(irq_n (mb_int_b (st_mbox s)), Hpsc_mbox_isr_b, p) \<in> irqs k"
  shows "if \<forall>i < HPSC_MBOX_CHANNELS. ch_base (chan_of s i) \<noteq> None
    then \<exists>s' k'. hpsc_mbox_remove K hw p s k = Inr (RTEMS_SUCCESSFUL, s', k') \<and>
      (\<forall>i < HPSC_MBOX_CHANNELS. \<not> ch_active (chan_of s' i)) \<and>
      irqs k' = irqs k - {(irq_n (mb_int_a (st_mbox s)), Hpsc_mbox_isr_a, p),
        (irq_n (mb_int_b (st_mbox s)), Hpsc_mbox_isr_b, p)} \<and>
      live k' = live k - {p}
    else hpsc_mbox_remove K hw p s k = Inl Undef"
proof (cases "\<forall>i \<in> set [0..<32]. ch_base (chan_of s i) \<noteq> None")
  case False
  have "mbox_release_loop hw False [0..<32] s = Inl Undef"
    using release_loop_outcome [OF wf, of "[0..<32]" hw] unfolding if_not_P [OF False]
    by (simp add: atLeast0LessThan)
  with False task show ?thesis by (auto simp: hpsc_mbox_remove_def)
next
  case True
  then obtain s' where s': "mbox_release_loop hw False [0..<32] s = Inr s'"
    "\<forall>i < 32. \<not> ch_active (chan_of s' i)"
    and ints: "mb_int_a (st_mbox s') = mb_int_a (st_mbox s)" "mb_int_b (st_mbox s') = mb_int_b (st_mbox s)"
    using release_loop_outcome [OF wf, of "[0..<32]" hw] unfolding if_P [OF True]
    by (auto simp: atLeast0LessThan)
  let ?na = "irq_n (mb_int_a (st_mbox s))" and ?nb = "irq_n (mb_int_b (st_mbox s))"
  obtain sc k1 where a: "rt_int_remove K ?na Hpsc_mbox_isr_a p k = (sc, k1)" by fastforce
  obtain sc' k2 where b: "rt_int_remove K ?nb Hpsc_mbox_isr_b p k1 = (sc', k2)" by fastforce
  from irq_laws_remove [OF irq a] inst have a': "sc = RTEMS_SUCCESSFUL" "irqs k1 = irqs k - {(?na, Hpsc_mbox_isr_a, p)}"
    by simp_all
  from irq_laws_remove [OF irq b] inst a' have b': "sc' = RTEMS_SUCCESSFUL" "irqs k2 = irqs k1 - {(?nb, Hpsc_mbox_isr_b, p)}"
    by simp_all
  have "live k2 = live k"
    using heap_laws_frame(3) [OF heap a] heap_laws_frame(3) [OF heap b] by simp
  with a a' b b' s' True task show ?thesis
    by (auto simp: hpsc_mbox_remove_def ints heap_laws_frame(1) [OF heap] irq_laws_heap(2) [OF irq])
qed

definition demo_k_probed :: demo_kernel where
  "demo_k_probed = demo_k0\<lparr>dk_irqs := [(34, Hpsc_mbox_isr_a, 0x1000), (35, Hpsc_mbox_isr_b, 0x1000)],
     dk_live := [0x1000]\<rparr>"

theorem mbox_remove_outcome_witness:
  "hpsc_mbox_remove demo_rtems demo_hw 0x1000 demo_mbox demo_k_probed = Inl Undef"
proof -
  have b: "mb_int_b (st_mbox demo_mbox) = \<lparr>irq_n = 35, irq_idx = 3\<rparr>"
    by (simp add: demo_mbox_def hpsc_mbox_init_def)
  have no: "\<not> (\<forall>i < HPSC_MBOX_CHANNELS. ch_base (chan_of demo_mbox i) \<noteq> None)"
    by (auto simp: demo_mbox_chan demo_chan_def intro: exI [of _ 0])
  show ?thesis
    using mbox_remove_outcome [OF demo_irq_laws demo_heap_laws demo_mbox_wf, where k = demo_k_probed
        and p = "0x1000" and hw = demo_hw] no
    by (simp only: if_False) (simp add: demo_k_probed_def demo_k0_def demo_rtems_def b)
qed

end
