(* ===== verification/Hpsc_Msg.thy ===== *)
theory Hpsc_Msg
  imports Rtems
begin

text \<open>
  Construction of HPSC messages (\<open>lib/hpsc/hpsc-msg.h\<close>, \<open>lib/hpsc/hpsc-msg.c\<close>).  A message
  is a 64-byte buffer: the type in byte 0, the payload from byte 4 on.  A buffer argument is
  an option, \<open>None\<close> for the null pointer; the bytes are those of the whole object, so that a
  copy that would leave the object is visible as undefined behaviour.
\<close>

definition HPSC_MSG_SIZE :: nat where [simp]: "HPSC_MSG_SIZE = 64"
definition HPSC_MSG_PAYLOAD_OFFSET :: nat where [simp]: "HPSC_MSG_PAYLOAD_OFFSET = 4"
definition HPSC_MSG_PAYLOAD_SIZE :: nat where
  [simp]: "HPSC_MSG_PAYLOAD_SIZE = HPSC_MSG_SIZE - 4"

text \<open>\<open>HPSC_MSG_DEFINE\<close>: a zeroed message buffer.\<close>

definition hpsc_msg_zero :: "u8 list" where
  "hpsc_msg_zero = replicate HPSC_MSG_SIZE 0"

datatype hpsc_msg_type =
    NOP | PING | PONG | READ_VALUE | WRITE_STATUS | READ_FILE | WRITE_FILE | READ_PROP
  | WRITE_PROP | READ_ADDR | WRITE_ADDR | WATCHDOG_TIMEOUT | FAULT | LIFECYCLE | ACTION

fun msg_code :: "hpsc_msg_type \<Rightarrow> u8" where
  "msg_code NOP = 0"
| "msg_code PING = 1"
| "msg_code PONG = 2"
| "msg_code READ_VALUE = 3"
| "msg_code WRITE_STATUS = 4"
| "msg_code READ_FILE = 5"
| "msg_code WRITE_FILE = 6"
| "msg_code READ_PROP = 7"
| "msg_code WRITE_PROP = 8"
| "msg_code READ_ADDR = 9"
| "msg_code WRITE_ADDR = 10"
| "msg_code WATCHDOG_TIMEOUT = 11"
| "msg_code FAULT = 12"
| "msg_code LIFECYCLE = 13"
| "msg_code ACTION = 14"

datatype hpsc_msg_lifecycle_status = LIFECYCLE_UP | LIFECYCLE_DOWN

fun lifecycle_code :: "hpsc_msg_lifecycle_status \<Rightarrow> u32" where
  "lifecycle_code LIFECYCLE_UP = 0"
| "lifecycle_code LIFECYCLE_DOWN = 1"

definition LIFECYCLE_INFO_SIZE :: nat where
  [simp]: "LIFECYCLE_INFO_SIZE = HPSC_MSG_PAYLOAD_SIZE - 4"

record hpsc_msg_lifeycle_payload =
  lc_status :: u32
  lc_info :: "u8 list"

text \<open>The payload structure as it lies in memory.\<close>

definition lifecycle_bytes :: "hpsc_msg_lifeycle_payload \<Rightarrow> u8 list" where
  "lifecycle_bytes p = bytes32 (lc_status p) @ lc_info p"

subsection \<open>Operations\<close>

definition msg_fill :: "u8 list option \<Rightarrow> hpsc_msg_type \<Rightarrow> u8 list option \<Rightarrow> nat \<Rightarrow> u8 list res"
where
  "msg_fill buf t payload psz =
     (case buf of None \<Rightarrow> Inl Assert_Failed
      | Some b \<Rightarrow>
          c_assert (psz \<le> HPSC_MSG_PAYLOAD_SIZE)
            (if b = [] then Inl Undef
             else (let b1 = b[0 := msg_code t] in
               case payload of
                 None \<Rightarrow> Inr b1
               | Some p \<Rightarrow>
                   if psz \<le> length p \<and> HPSC_MSG_PAYLOAD_OFFSET + psz \<le> length b
                   then Inr (overwrite HPSC_MSG_PAYLOAD_OFFSET (take psz p) b1)
                   else Inl Undef)))"

definition hpsc_msg_wdt_timeout :: "u8 list option \<Rightarrow> nat \<Rightarrow> u32 \<Rightarrow> u8 list res" where
  "hpsc_msg_wdt_timeout buf sz cpu =
     c_assert (sz = HPSC_MSG_SIZE) (msg_fill buf WATCHDOG_TIMEOUT (Some (bytes32 cpu)) 4)"

text \<open>
  \<open>vsnprintf(dst, n, ...)\<close> of the C library: it stores as much of the formatted text as
  fits into \<open>n - 1\<close> bytes and a terminating NUL.  The formatted text is the argument
  \<open>text\<close>, absent when \<open>fmt\<close> is null.
\<close>

definition vsnprintf :: "u8 list \<Rightarrow> nat \<Rightarrow> u8 list \<Rightarrow> u8 list" where
  "vsnprintf dst n text = overwrite 0 (take (n - 1) text @ [0]) dst"

definition hpsc_msg_lifecycle ::
  "u8 list option \<Rightarrow> nat \<Rightarrow> hpsc_msg_lifecycle_status \<Rightarrow> u8 list option \<Rightarrow> u8 list res" where
  "hpsc_msg_lifecycle buf sz status text =
     (let p = \<lparr>lc_status = lifecycle_code status, lc_info = replicate LIFECYCLE_INFO_SIZE 0\<rparr> in
      c_assert (sz = HPSC_MSG_SIZE)
        (let p1 = (case text of None \<Rightarrow> p
            | Some s \<Rightarrow> p\<lparr>lc_info := vsnprintf (lc_info p) (LIFECYCLE_INFO_SIZE - 1) s\<rparr>)
         in msg_fill buf LIFECYCLE (Some (lifecycle_bytes p1)) (length (lifecycle_bytes p1))))"

definition hpsc_msg_ping :: "u8 list option \<Rightarrow> nat \<Rightarrow> u8 list option \<Rightarrow> nat \<Rightarrow> u8 list res" where
  "hpsc_msg_ping buf sz payload psz =
     c_assert (sz = HPSC_MSG_SIZE) (msg_fill buf PING payload psz)"

definition hpsc_msg_pong :: "u8 list option \<Rightarrow> nat \<Rightarrow> u8 list option \<Rightarrow> nat \<Rightarrow> u8 list res" where
  "hpsc_msg_pong buf sz payload psz =
     c_assert (sz = HPSC_MSG_SIZE) (msg_fill buf PONG payload psz)"

subsection \<open>Views of a message\<close>

definition msg_payload :: "u8 list \<Rightarrow> u8 list" where
  "msg_payload b = take HPSC_MSG_PAYLOAD_SIZE (drop HPSC_MSG_PAYLOAD_OFFSET b)"

lemma length_hpsc_msg_zero [simp]: "length hpsc_msg_zero = 64"
  by (simp add: hpsc_msg_zero_def)

lemma msg_code_inj: "msg_code s = msg_code t \<longleftrightarrow> s = t"
  by (cases s; cases t; simp)

lemma msg_fill_Some:
  assumes "length b = HPSC_MSG_SIZE" and "psz \<le> length p" and "psz \<le> HPSC_MSG_PAYLOAD_SIZE"
  shows "msg_fill (Some b) t (Some p) psz =
    Inr (msg_code t # take 3 (tl b) @ take psz p @ drop (4 + psz) b)"
proof -
  from assms(1) obtain b0 b1 b2 b3 bs where b: "b = b0 # b1 # b2 # b3 # bs"
    by (auto simp: numeral_eq_Suc length_Suc_conv)
  then show ?thesis
    using assms by (simp add: msg_fill_def overwrite_def numeral_eq_Suc)
qed

lemma msg_fill_length: "msg_fill (Some b) t p psz = Inr b' \<Longrightarrow> length b' = length b"
  by (auto simp: msg_fill_def Let_def split: if_splits option.splits)

lemma msg_fill_type: "msg_fill (Some b) t p psz = Inr b' \<Longrightarrow> b' ! 0 = msg_code t"
  by (auto simp: msg_fill_def Let_def nth_overwrite split: if_splits option.splits)

text \<open>The information string of a life-cycle message: terminated, and zero after its end.\<close>

lemma vsnprintf_eq:
  assumes "0 < n" and "n \<le> d"
  shows "vsnprintf (replicate d 0) n text =
    take (n - 1) text @ replicate (d - min (n - 1) (length text)) 0"
proof -
  have "replicate (d - min (n - 1) (length text)) 0 =
    (0 :: u8) # replicate (d - Suc (min (n - 1) (length text))) 0"
    using assms by (subst replicate_Suc [symmetric]) (simp add: Suc_diff_Suc)
  then show ?thesis
    by (simp add: vsnprintf_def overwrite_def min.commute)
qed

lemma lifecycle_content:
  assumes "length b = 64"
  shows "hpsc_msg_lifecycle (Some b) 64 st (Some text) =
    Inr (13 # take 3 (tl b) @ bytes32 (lifecycle_code st) @
         take 54 text @ replicate (56 - min 54 (length text)) 0)"
proof -
  let ?p = "bytes32 (lifecycle_code st) @ take 54 text @ replicate (56 - min 54 (length text)) 0"
  have len: "length ?p = 60" by simp
  have "hpsc_msg_lifecycle (Some b) 64 st (Some text) =
      msg_fill (Some b) LIFECYCLE (Some ?p) (length ?p)"
    by (simp add: hpsc_msg_lifecycle_def lifecycle_bytes_def vsnprintf_eq del: length_append)
  then show ?thesis
    using assms unfolding len by (simp add: msg_fill_Some)
qed

subsection \<open>What the messages contain\<close>

theorem hpsc_msg_contents:
  assumes b: "length b = HPSC_MSG_SIZE" and p: "psz \<le> length p" "psz \<le> HPSC_MSG_PAYLOAD_SIZE"
  shows "\<exists>m1 m2 m3 m4. hpsc_msg_ping (Some b) HPSC_MSG_SIZE (Some p) psz = Inr m1 \<and>
    hpsc_msg_pong (Some b) HPSC_MSG_SIZE (Some p) psz = Inr m2 \<and>
    hpsc_msg_wdt_timeout (Some b) HPSC_MSG_SIZE cpu = Inr m3 \<and>
    hpsc_msg_lifecycle (Some b) HPSC_MSG_SIZE st (Some info) = Inr m4 \<and>
    map (\<lambda>m. m ! 0) [m1, m2, m3, m4] = map msg_code [PING, PONG, WATCHDOG_TIMEOUT, LIFECYCLE] \<and>
    (\<forall>m \<in> {m1, m2, m3, m4}. length m = HPSC_MSG_SIZE \<and> take 3 (tl m) = take 3 (tl b)) \<and>
    take psz (msg_payload m1) = take psz p \<and> drop psz (msg_payload m1) = drop psz (msg_payload b) \<and>
    msg_payload m2 = msg_payload m1 \<and>
    le32 (take 4 (msg_payload m3)) = cpu \<and> drop 4 (msg_payload m3) = drop 4 (msg_payload b) \<and>
    le32 (take 4 (msg_payload m4)) = lifecycle_code st \<and>
    drop 4 (msg_payload m4) = take 54 info @ replicate (56 - min 54 (length info)) 0"
proof -
  obtain b0 b1 b2 b3 bs where bb: "b = b0 # b1 # b2 # b3 # bs" "length bs = 60"
    using b by (auto simp: numeral_eq_Suc length_Suc_conv)
  let ?m = "\<lambda>t. msg_code t # b1 # b2 # b3 # take psz p @ drop psz bs"
  have drop: "drop (4 + n) b = drop n bs" for n using bb by (simp add: numeral_eq_Suc)
  have fill: "msg_fill (Some b) t (Some q) n = Inr (msg_code t # b1 # b2 # b3 # take n q @ drop n bs)"
    if "n \<le> length q" "n \<le> 60" for t q n
    using msg_fill_Some [OF b that(1)] that(2) drop [of n] bb(1) by (simp add: numeral_eq_Suc)
  have pay: "msg_payload (c # b1 # b2 # b3 # q) = take 60 q" for c q
    by (simp add: msg_payload_def)
  have tk3: "take 3 (c # b2 # b3 # q) = [c, b2, b3]" for c q by (simp add: numeral_eq_Suc)
  let ?m3 = "msg_code WATCHDOG_TIMEOUT # b1 # b2 # b3 # bytes32 cpu @ drop 4 bs"
  let ?m4 = "msg_code LIFECYCLE # b1 # b2 # b3 # bytes32 (lifecycle_code st) @
      take 54 info @ replicate (56 - min 54 (length info)) 0"
  have "hpsc_msg_ping (Some b) HPSC_MSG_SIZE (Some p) psz = Inr (?m PING)"
    "hpsc_msg_pong (Some b) HPSC_MSG_SIZE (Some p) psz = Inr (?m PONG)"
    using fill p by (simp_all add: hpsc_msg_ping_def hpsc_msg_pong_def)
  moreover have "hpsc_msg_wdt_timeout (Some b) HPSC_MSG_SIZE cpu = Inr ?m3"
    using fill [of 4 "bytes32 cpu"] by (simp add: hpsc_msg_wdt_timeout_def)
  moreover have "hpsc_msg_lifecycle (Some b) HPSC_MSG_SIZE st (Some info) = Inr ?m4"
    using lifecycle_content [of b st info] b bb(1) by (simp add: tk3)
  ultimately show ?thesis
    using bb p by (intro exI [of _ "?m PING"] exI [of _ "?m PONG"] exI [of _ "?m3"] exI [of _ "?m4"])
      (simp add: pay tk3 take_map min_def)
qed

theorem hpsc_msg_contents_witness:
  "\<exists>m1 m2 m3 m4. hpsc_msg_ping (Some hpsc_msg_zero) 64 (Some [5, 6, 7]) 3 = Inr m1 \<and>
    hpsc_msg_pong (Some hpsc_msg_zero) 64 (Some [5, 6, 7]) 3 = Inr m2 \<and>
    hpsc_msg_wdt_timeout (Some hpsc_msg_zero) 64 1 = Inr m3 \<and>
    hpsc_msg_lifecycle (Some hpsc_msg_zero) 64 LIFECYCLE_DOWN (Some [72, 105]) = Inr m4 \<and>
    take 3 (msg_payload m1) = [5, 6, 7] \<and> le32 (take 4 (msg_payload m3)) = 1 \<and>
    take 4 (drop 4 (msg_payload m4)) = [72, 105, 0, 0]"
proof -
  have "length hpsc_msg_zero = HPSC_MSG_SIZE" "3 \<le> length [5, 6, 7 :: u8]" "3 \<le> HPSC_MSG_PAYLOAD_SIZE" by simp_all
  from hpsc_msg_contents [OF this, of 1 LIFECYCLE_DOWN "[72, 105]"] show ?thesis
    by (elim exE, intro exI) (auto simp: numeral_eq_Suc)
qed

end
