(* ===== verification/Shmem.thy ===== *)
theory Shmem
  imports Hpsc_Msg
begin

text \<open>
  Shared memory regions (\<open>lib/hpsc/shmem.h\<close>, \<open>lib/hpsc/shmem.c\<close>).  The state holds the
  \<open>struct shmem\<close> objects by pointer, each with the address of its region, and the regions by
  address.  A region is visible to the remote subsystem, which sees the same stores.
\<close>

subsection \<open>Model\<close>

definition HPSC_SHMEM_STATUS_BIT_NEW :: u32 where "HPSC_SHMEM_STATUS_BIT_NEW = 0x01"
definition HPSC_SHMEM_STATUS_BIT_ACK :: u32 where "HPSC_SHMEM_STATUS_BIT_ACK = 0x02"

lemmas shmem_bits = HPSC_SHMEM_STATUS_BIT_NEW_def HPSC_SHMEM_STATUS_BIT_ACK_def

record hpsc_shmem_region =
  shm_data :: "u8 list"
  shm_status :: u32

definition HPSC_SHMEM_REGION_SZ :: nat where "HPSC_SHMEM_REGION_SZ = HPSC_MSG_SIZE + 4"

record shm_st =
  sh_obj :: "ptr \<Rightarrow> ptr option"
  sh_mem :: "ptr \<Rightarrow> hpsc_shmem_region"

text \<open>The copy loops: whole words first, then the remaining bytes.\<close>

function cpy_words :: "nat \<Rightarrow> nat \<Rightarrow> u8 list \<Rightarrow> u8 list \<Rightarrow> nat \<times> nat \<times> u8 list" where
  "cpy_words i n src dest =
     (if n \<ge> 4 then cpy_words (i + 4) (n - 4) src (overwrite i (bytes32 (le32 (take 4 (drop i src)))) dest)
      else (i, n, dest))"
  by pat_completeness auto
termination
  by (relation "measure (\<lambda>(_, n, _, _). n)") auto

fun cpy_bytes :: "nat \<Rightarrow> nat \<Rightarrow> u8 list \<Rightarrow> u8 list \<Rightarrow> u8 list" where
  "cpy_bytes i 0 src dest = dest"
| "cpy_bytes i (Suc n) src dest = cpy_bytes (Suc i) n src (dest[i := src ! i])"

declare cpy_words.simps [simp del]

definition vmem_cpy :: "u8 list \<Rightarrow> u8 list \<Rightarrow> nat \<Rightarrow> u8 list" where
  "vmem_cpy dest src n = (case cpy_words 0 n src dest of (i, m, d) \<Rightarrow> cpy_bytes i m src d)"

definition mem_vcpy :: "u8 list \<Rightarrow> u8 list \<Rightarrow> nat \<Rightarrow> u8 list" where
  "mem_vcpy dest src n = (case cpy_words 0 n src dest of (i, m, d) \<Rightarrow> cpy_bytes i m src d)"

text \<open>\<open>vmem_set (s + off) c n\<close>.\<close>

fun vmem_set :: "u8 list \<Rightarrow> nat \<Rightarrow> u8 \<Rightarrow> nat \<Rightarrow> u8 list" where
  "vmem_set s off c 0 = s"
| "vmem_set s off c (Suc n) = vmem_set (s[off := c]) (Suc off) c n"

definition IS_ALIGNED :: "ptr \<Rightarrow> bool" where "IS_ALIGNED p \<longleftrightarrow> p mod 4 = 0"

definition shmem_open :: "'k rtems \<Rightarrow> ptr \<Rightarrow> shm_st \<Rightarrow> 'k \<Rightarrow> (ptr \<times> shm_st \<times> 'k) res" where
  "shmem_open K addr st k =
     (case rt_malloc K k of (s, k') \<Rightarrow>
        c_assert (IS_ALIGNED addr)
          (Inr (s, if s \<noteq> NULL then st\<lparr>sh_obj := (sh_obj st)(s \<mapsto> addr)\<rparr> else st, k')))"

definition shmem_close :: "'k rtems \<Rightarrow> ptr \<Rightarrow> shm_st \<Rightarrow> 'k \<Rightarrow> (shm_st \<times> 'k) res" where
  "shmem_close K s st k =
     c_assert (s \<noteq> NULL) (Inr (st\<lparr>sh_obj := (sh_obj st)(s := None)\<rparr>, rt_free K s k))"

definition upd_region :: "ptr \<Rightarrow> (hpsc_shmem_region \<Rightarrow> hpsc_shmem_region) \<Rightarrow> shm_st \<Rightarrow> shm_st" where
  "upd_region a f st = st\<lparr>sh_mem := (sh_mem st)(a := f (sh_mem st a))\<rparr>"

definition shmem_write :: "ptr \<Rightarrow> cbuf option \<Rightarrow> nat \<Rightarrow> shm_st \<Rightarrow> (nat \<times> shm_st) res" where
  "shmem_write s msg sz st =
     c_assert (s \<noteq> NULL)
      (case msg of None \<Rightarrow> Inl Assert_Failed
       | Some m \<Rightarrow> c_assert (buf_aligned m) (c_assert (sz \<le> HPSC_MSG_SIZE)
          (c_deref (sh_obj st s) (\<lambda>a.
            if length (buf_bytes m) < sz then Inl Undef
            else let sz_rem = HPSC_MSG_SIZE - sz;
                     st1 = upd_region a (\<lambda>r. r\<lparr>shm_data := vmem_cpy (shm_data r) (buf_bytes m) sz\<rparr>) st
                 in Inr (sz, if sz_rem \<noteq> 0
                     then upd_region a (\<lambda>r. r\<lparr>shm_data := vmem_set (shm_data r) sz 0 sz_rem\<rparr>) st1
                     else st1)))))"

text \<open>The result of a read: the count and the new contents of the caller's buffer.\<close>

definition shmem_read :: "ptr \<Rightarrow> cbuf option \<Rightarrow> nat \<Rightarrow> shm_st \<Rightarrow> (nat \<times> u8 list) res" where
  "shmem_read s msg sz st =
     c_assert (s \<noteq> NULL)
      (case msg of None \<Rightarrow> Inl Assert_Failed
       | Some m \<Rightarrow> c_assert (buf_aligned m) (c_assert (sz \<ge> HPSC_MSG_SIZE)
          (c_deref (sh_obj st s) (\<lambda>a.
            if length (buf_bytes m) < HPSC_MSG_SIZE then Inl Undef
            else Inr (HPSC_MSG_SIZE,
                   mem_vcpy (buf_bytes m) (shm_data (sh_mem st a)) HPSC_MSG_SIZE)))))"

definition shmem_get_status :: "ptr \<Rightarrow> shm_st \<Rightarrow> u32 res" where
  "shmem_get_status s st =
     c_assert (s \<noteq> NULL) (c_deref (sh_obj st s) (\<lambda>a. Inr (shm_status (sh_mem st a))))"

definition shmem_is_new :: "ptr \<Rightarrow> shm_st \<Rightarrow> bool res" where
  "shmem_is_new s st =
     c_assert (s \<noteq> NULL) (c_deref (sh_obj st s) (\<lambda>a.
       Inr (shm_status (sh_mem st a) AND HPSC_SHMEM_STATUS_BIT_NEW \<noteq> 0)))"

definition shmem_is_ack :: "ptr \<Rightarrow> shm_st \<Rightarrow> bool res" where
  "shmem_is_ack s st =
     c_assert (s \<noteq> NULL) (c_deref (sh_obj st s) (\<lambda>a.
       Inr (shm_status (sh_mem st a) AND HPSC_SHMEM_STATUS_BIT_ACK \<noteq> 0)))"

definition shmem_set_new :: "ptr \<Rightarrow> bool \<Rightarrow> shm_st \<Rightarrow> shm_st res" where
  "shmem_set_new s val st =
     c_assert (s \<noteq> NULL) (c_deref (sh_obj st s) (\<lambda>a.
       Inr (upd_region a (\<lambda>r. r\<lparr>shm_status :=
         if val then shm_status r OR HPSC_SHMEM_STATUS_BIT_NEW
         else shm_status r AND NOT HPSC_SHMEM_STATUS_BIT_NEW\<rparr>) st)))"

definition shmem_set_ack :: "ptr \<Rightarrow> bool \<Rightarrow> shm_st \<Rightarrow> shm_st res" where
  "shmem_set_ack s val st =
     c_assert (s \<noteq> NULL) (c_deref (sh_obj st s) (\<lambda>a.
       Inr (upd_region a (\<lambda>r. r\<lparr>shm_status :=
         if val then shm_status r OR HPSC_SHMEM_STATUS_BIT_ACK
         else shm_status r AND NOT HPSC_SHMEM_STATUS_BIT_ACK\<rparr>) st)))"

subsection \<open>The loops copy bytes\<close>

lemma cpy_words_spec:
  assumes "i + n \<le> length src" and "i + n \<le> length dest"
  shows "cpy_words i n src dest =
    (i + 4 * (n div 4), n mod 4, overwrite i (take (4 * (n div 4)) (drop i src)) dest)"
  using assms
proof (induction i n src dest rule: cpy_words.induct)
  case (1 i n src dest)
  show ?case
  proof (cases "n \<ge> 4")
    case False
    then show ?thesis by (subst cpy_words.simps) (simp add: overwrite_def)
  next
    case True
    define m where "m = n - 4"
    have n: "n = m + 4" using True m_def by simp
    let ?w = "bytes32 (le32 (take 4 (drop i src)))"
    have w: "?w = take 4 (drop i src)" using "1.prems" n by simp
    have "cpy_words (i + 4) m src (overwrite i ?w dest) =
        (i + 4 + 4 * (m div 4), m mod 4, overwrite (i + 4) (take (4 * (m div 4)) (drop (i + 4) src)) (overwrite i ?w dest))"
      unfolding m_def by (rule "1.IH" [OF True]) (use "1.prems" n in simp_all)
    also have "overwrite (i + 4) (take (4 * (m div 4)) (drop (i + 4) src)) (overwrite i ?w dest) =
        overwrite i (take 4 (drop i src) @ take (4 * (m div 4)) (drop (i + 4) src)) dest"
      unfolding w by (rule overwrite_overwrite) (use "1.prems" n in auto)
    finally have step: "cpy_words (i + 4) m src (overwrite i ?w dest) =
        (i + 4 + 4 * (m div 4), m mod 4, overwrite i (take 4 (drop i src) @ take (4 * (m div 4)) (drop (i + 4) src)) dest)" .
    have q: "4 * (n div 4) = 4 + 4 * (m div 4)" "n mod 4 = m mod 4"
      unfolding n using div_add_self2 [of 4 m] by (simp_all only:) simp_all
    have "take (4 * (n div 4)) (drop i src) = take 4 (drop i src) @ take (4 * (m div 4)) (drop (i + 4) src)"
      unfolding q(1) by (simp only: take_add drop_drop add.commute [of i])
    then show ?thesis
      using True step q by (subst cpy_words.simps) (simp add: m_def [symmetric])
  qed
qed

lemma cpy_bytes_spec:
  "i + n \<le> length src \<Longrightarrow> i + n \<le> length dest \<Longrightarrow>
   cpy_bytes i n src dest = overwrite i (take n (drop i src)) dest"
proof (induction n arbitrary: i dest)
  case 0
  then show ?case by (simp add: overwrite_def)
next
  case (Suc n)
  have "dest[i := src ! i] = overwrite i [src ! i] dest"
    using Suc.prems by (simp add: overwrite_def upd_conv_take_nth_drop)
  then have "cpy_bytes i (Suc n) src dest = overwrite (Suc i) (take n (drop (Suc i) src)) (overwrite i [src ! i] dest)"
    using Suc by simp
  also have "\<dots> = overwrite i ([src ! i] @ take n (drop (Suc i) src)) dest"
    by (rule overwrite_overwrite) (use Suc.prems in simp_all)
  also have "[src ! i] @ take n (drop (Suc i) src) = take (Suc n) (drop i src)"
    using Suc.prems by (simp add: Cons_nth_drop_Suc [symmetric])
  finally show ?case .
qed

lemma vmem_cpy_take:
  assumes "n \<le> length src" and "n \<le> length dest"
  shows "vmem_cpy dest src n = take n src @ drop n dest"
proof -
  let ?m = "4 * (n div 4)"
  have m: "?m \<le> n" "?m + n mod 4 = n" by simp_all
  let ?d = "overwrite 0 (take ?m src) dest"
  have "length ?d = length dest" using m assms by (intro length_overwrite) simp
  then have "cpy_bytes ?m (n mod 4) src ?d = overwrite ?m (take (n mod 4) (drop ?m src)) ?d"
    using m assms by (intro cpy_bytes_spec) simp_all
  also have "\<dots> = overwrite 0 (take ?m src @ take (n mod 4) (drop ?m src)) dest"
    by (rule overwrite_overwrite) (use m assms in simp_all)
  also have "take ?m src @ take (n mod 4) (drop ?m src) = take n src"
    using m(2) by (metis take_add)
  finally show ?thesis
    using assms by (simp add: vmem_cpy_def cpy_words_spec) (simp add: overwrite_def)
qed

lemma mem_vcpy_eq: "mem_vcpy = vmem_cpy"
  by (simp add: fun_eq_iff mem_vcpy_def vmem_cpy_def)

lemma vmem_set_take:
  "off + n \<le> length s \<Longrightarrow> vmem_set s off c n = take off s @ replicate n c @ drop (off + n) s"
proof (induction n arbitrary: s off)
  case 0
  then show ?case by simp
next
  case (Suc n)
  then have "vmem_set s off c (Suc n) = take (Suc off) (s[off := c]) @ replicate n c @ drop (Suc off + n) (s[off := c])"
    by simp
  also have "take (Suc off) (s[off := c]) = take off s @ [c]"
    using Suc.prems by (simp add: take_Suc_conv_app_nth)
  finally show ?case using Suc.prems by (simp add: replicate_append_same [symmetric])
qed

subsection \<open>Properties\<close>

lemma upd_region_simps [simp]:
  "sh_obj (upd_region a f st) = sh_obj st"
  "sh_mem (upd_region a f st) = (sh_mem st)(a := f (sh_mem st a))"
  by (simp_all add: upd_region_def)

lemma upd_region_upd_region [simp]: "upd_region a g (upd_region a f st) = upd_region a (g \<circ> f) st"
  by (simp add: upd_region_def)

theorem shmem_copy_is_block_copy:
  assumes "n \<le> length src" and "n \<le> length dest"
  shows "vmem_cpy dest src n = overwrite 0 (take n src) dest \<and> mem_vcpy dest src n = overwrite 0 (take n src) dest"
  using assms by (simp add: mem_vcpy_eq vmem_cpy_take overwrite_def)

theorem shmem_copy_is_block_copy_witness:
  "vmem_cpy [0, 0, 0, 0, 0, 0, 9] [1, 2, 3, 4, 5, 6, 7] 6 = [1, 2, 3, 4, 5, 6, 9]"
  using shmem_copy_is_block_copy [of 6 "[1, 2, 3, 4, 5, 6, 7]" "[0, 0, 0, 0, 0, 0, 9]"]
  by (simp add: overwrite_def)

lemma shmem_write_eq:
  assumes "s \<noteq> NULL" and "sh_obj st s = Some a" and "length (shm_data (sh_mem st a)) = 64"
    and "buf_aligned m" and "sz \<le> 64" and "sz \<le> length (buf_bytes m)"
  shows "shmem_write s (Some m) sz st =
    Inr (sz, upd_region a (\<lambda>r. (sh_mem st a)\<lparr>shm_data := take sz (buf_bytes m) @ replicate (64 - sz) 0\<rparr>) st)"
  using assms by (simp add: shmem_write_def Let_def upd_region_def vmem_cpy_take vmem_set_take)

lemma shmem_read_eq:
  assumes "s \<noteq> NULL" and "sh_obj st s = Some a" and "length (shm_data (sh_mem st a)) = 64"
    and "buf_aligned m" and "64 \<le> sz" and "64 \<le> length (buf_bytes m)"
  shows "shmem_read s (Some m) sz st = Inr (64, shm_data (sh_mem st a) @ drop 64 (buf_bytes m))"
  using assms by (simp add: shmem_read_def mem_vcpy_eq vmem_cpy_take)

text \<open>C22. A message written to a shared memory region is what a read of the region returns, padded with
  zeros to the size of a message; the status word and other regions are not touched.\<close>

theorem shmem_write_read:
  assumes s: "s \<noteq> NULL" "sh_obj st s = Some a" and len: "length (shm_data (sh_mem st a)) = HPSC_MSG_SIZE"
    and m: "buf_aligned m" "sz \<le> HPSC_MSG_SIZE" "sz \<le> length (buf_bytes m)"
    and b: "buf_aligned b" "HPSC_MSG_SIZE \<le> rsz" "HPSC_MSG_SIZE \<le> length (buf_bytes b)"
  shows "\<exists>st'. shmem_write s (Some m) sz st = Inr (sz, st') \<and>
    shmem_read s (Some b) rsz st' =
      Inr (HPSC_MSG_SIZE, take sz (buf_bytes m) @ replicate (HPSC_MSG_SIZE - sz) 0 @ drop HPSC_MSG_SIZE (buf_bytes b)) \<and>
    shm_status (sh_mem st' a) = shm_status (sh_mem st a) \<and> (\<forall>c. c \<noteq> a \<longrightarrow> sh_mem st' c = sh_mem st c)"
  using assms by (simp add: shmem_write_eq shmem_read_eq min_absorb2)

definition demo_shm :: shm_st where
  "demo_shm = \<lparr>sh_obj = [0x100 \<mapsto> 0x40260000],
     sh_mem = (\<lambda>_. \<lparr>shm_data = replicate 64 0, shm_status = 0\<rparr>)\<rparr>"

theorem shmem_write_read_witness:
  "\<exists>st'. shmem_write 0x100 (Some \<lparr>buf_aligned = True, buf_bytes = [1, 2, 3]\<rparr>) 3 demo_shm = Inr (3, st') \<and>
    shmem_read 0x100 (Some \<lparr>buf_aligned = True, buf_bytes = replicate 64 7\<rparr>) 64 st' = Inr (64, [1, 2, 3] @ replicate 61 0)"
  using shmem_write_read [where s = "0x100" and st = demo_shm and a = "0x40260000" and sz = 3 and rsz = 64
      and m = "\<lparr>buf_aligned = True, buf_bytes = [1, 2, 3]\<rparr>" and b = "\<lparr>buf_aligned = True, buf_bytes = replicate 64 7\<rparr>"]
  by (auto simp: demo_shm_def)

theorem shmem_status_bits:
  assumes "s \<noteq> NULL" and "sh_obj st s = Some a"
    and "shmem_is_new s st = Inr n" and "shmem_is_ack s st = Inr k"
  shows "(\<exists>st'. shmem_set_new s val st = Inr st' \<and> shmem_is_new s st' = Inr val \<and> shmem_is_ack s st' = Inr k \<and>
      shm_data (sh_mem st' a) = shm_data (sh_mem st a) \<and>
      (\<forall>i. i \<noteq> 0 \<longrightarrow> bit (shm_status (sh_mem st' a)) i = bit (shm_status (sh_mem st a)) i)) \<and>
    (\<exists>st'. shmem_set_ack s val st = Inr st' \<and> shmem_is_ack s st' = Inr val \<and> shmem_is_new s st' = Inr n \<and>
      shm_data (sh_mem st' a) = shm_data (sh_mem st a) \<and>
      (\<forall>i. i \<noteq> 1 \<longrightarrow> bit (shm_status (sh_mem st' a)) i = bit (shm_status (sh_mem st a)) i))"
proof -
  have one: "w AND 1 \<noteq> 0 \<longleftrightarrow> bit w 0" and two: "w AND 2 \<noteq> 0 \<longleftrightarrow> bit w 1" for w :: u32
    by (simp_all add: bit_iff_and_push_bit_not_eq_0)
  have b1: "bit (1 :: u32) i \<longleftrightarrow> i = 0" and b2: "bit (2 :: u32) i \<longleftrightarrow> i = 1" for i
    by (auto simp: bit_1_iff bit_2_iff)
  show ?thesis
    using assms
    by (cases val) (auto simp: shmem_set_new_def shmem_set_ack_def shmem_is_new_def shmem_is_ack_def
        shmem_bits one [simplified] two [simplified] bit_simps b1 b2 dest: bit_imp_le_length)
qed

theorem shmem_status_bits_witness:
  "\<exists>st'. shmem_set_new 0x100 True demo_shm = Inr st' \<and> shmem_is_new 0x100 st' = Inr True \<and> shmem_is_ack 0x100 st' = Inr False"
  using shmem_status_bits [where s = "0x100" and st = demo_shm and a = "0x40260000" and n = False and k = False and val = True]
  by (auto simp: demo_shm_def shmem_is_new_def shmem_is_ack_def)

end
