(* ===== verification/Cmd_Queue.thy ===== *)
theory Cmd_Queue
  imports Hpsc_Msg
begin

text \<open>
  The command queue of \<open>lib/hpsc/command.c\<close> (\<open>struct cmdq\<close> and the functions that hold
  its lock).  \<open>head\<close> is the index of the last command put in, \<open>tail\<close> the index of the last
  one taken out; the content is the stretch after \<open>tail\<close> up to \<open>head\<close>, cyclically.
  The lock is the uniprocessor one (interrupts are masked), so an operation is one step;
  the source passes it as \<open>&q.lock\<close>, which the uniprocessor macros drop unevaluated.
\<close>

subsection \<open>State\<close>

definition CMDQ_LEN :: nat where [simp]: "CMDQ_LEN = 4"

datatype cmd_status =
  CMD_STATUS_SUCCESS | CMD_STATUS_HANDLER_FAILED | CMD_STATUS_REPLY_FAILED | CMD_STATUS_UNKNOWN

record cmd =
  cmd_msg :: "u8 list"
  cmd_link :: ptr

text \<open>The functions of the repository that are passed as \<open>cmd_handled_t\<close>.\<close>

datatype cmd_handled_fn =
    Cmd_test_handled_cmd_cb | Cmd_test_handled_cb | Cmd_server_test_handled_cb
  | Link_shmem_test_handled_cb

record cmdq_item =
  it_cmd :: cmd
  it_cb :: "cmd_handled_fn option"
  it_arg :: ptr

record cmdq =
  q_items :: "cmdq_item list"
  q_head :: nat
  q_tail :: nat

definition cmdq_item0 :: cmdq_item where
  "cmdq_item0 = \<lparr>it_cmd = \<lparr>cmd_msg = replicate HPSC_MSG_SIZE 0, cmd_link = NULL\<rparr>, it_cb = None,
     it_arg = NULL\<rparr>"

definition cmdq_init :: cmdq where
  "cmdq_init = \<lparr>q_items = replicate CMDQ_LEN cmdq_item0, q_head = 0, q_tail = 0\<rparr>"

subsection \<open>Operations\<close>

definition cmdq_size_unsafe :: "cmdq \<Rightarrow> nat" where
  "cmdq_size_unsafe q = (if q_head q \<ge> q_tail q then q_head q - q_tail q
     else CMDQ_LEN - q_tail q + q_head q)"

text \<open>The test for a full queue is \<open>head + 1 % CMDQ_LEN == tail\<close>, as C parses it.\<close>

definition cmdq_full_test :: "cmdq \<Rightarrow> bool" where
  "cmdq_full_test q \<longleftrightarrow> q_head q + (1 mod CMDQ_LEN) = q_tail q"

definition cmd_enqueue_cb_unsafe ::
  "cmd option \<Rightarrow> cmd_handled_fn option \<Rightarrow> ptr \<Rightarrow> cmdq \<Rightarrow> (int \<times> cmdq) res" where
  "cmd_enqueue_cb_unsafe cmd fn arg q =
     (case cmd of None \<Rightarrow> Inl Assert_Failed
      | Some c \<Rightarrow>
          if cmdq_full_test q then Inr (1, q)
          else let h = (q_head q + 1) mod CMDQ_LEN
               in Inr (0, q\<lparr>q_head := h,
                    q_items := (q_items q)[h := \<lparr>it_cmd = c, it_cb = fn, it_arg = arg\<rparr>]\<rparr>))"

definition cmd_dequeue_unsafe :: "cmdq \<Rightarrow> int \<times> cmdq_item option \<times> cmdq" where
  "cmd_dequeue_unsafe q =
     (if q_head q = q_tail q then (1, None, q)
      else let t = (q_tail q + 1) mod CMDQ_LEN
           in (0, Some (q_items q ! t), q\<lparr>q_tail := t\<rparr>))"

definition cmd_drop_all :: "cmdq \<Rightarrow> nat \<times> cmdq" where
  "cmd_drop_all q = (cmdq_size_unsafe q, q\<lparr>q_tail := q_head q\<rparr>)"

subsection \<open>Specification: a bounded first-in first-out queue\<close>

datatype 'a fifo_op = Enq 'a | Deq

text \<open>
  The results of a history of operations, the values it puts in, and the histories that
  never put into a queue that already holds \<open>cap\<close> values.
\<close>

fun fifo_run ::
  "('a \<Rightarrow> 'q \<Rightarrow> 'q) \<Rightarrow> ('q \<Rightarrow> 'a option \<times> 'q) \<Rightarrow> 'a fifo_op list \<Rightarrow> 'q \<Rightarrow> 'a list \<times> 'q" where
  "fifo_run enq deq [] q = ([], q)"
| "fifo_run enq deq (Enq x # ops) q = fifo_run enq deq ops (enq x q)"
| "fifo_run enq deq (Deq # ops) q = (case deq q of
       (None, q') \<Rightarrow> fifo_run enq deq ops q'
     | (Some y, q') \<Rightarrow> (case fifo_run enq deq ops q' of (ys, q'') \<Rightarrow> (y # ys, q'')))"

fun fifo_within :: "nat \<Rightarrow> nat \<Rightarrow> 'a fifo_op list \<Rightarrow> bool" where
  "fifo_within cap n [] = True"
| "fifo_within cap n (Enq x # ops) = (n < cap \<and> fifo_within cap (Suc n) ops)"
| "fifo_within cap n (Deq # ops) = fifo_within cap (n - 1) ops"

fun fifo_inputs :: "'a fifo_op list \<Rightarrow> 'a list" where
  "fifo_inputs [] = []"
| "fifo_inputs (Enq x # ops) = x # fifo_inputs ops"
| "fifo_inputs (Deq # ops) = fifo_inputs ops"

text \<open>
  What a client of the queue may rely on.  Nothing is promised about an \<open>enq\<close> beyond the
  capacity.
\<close>

locale bounded_fifo =
  fixes enq :: "'a \<Rightarrow> 'q \<Rightarrow> 'q"
    and deq :: "'q \<Rightarrow> 'a option \<times> 'q"
    and content :: "'q \<Rightarrow> 'a list"
    and good :: "'q \<Rightarrow> bool"
    and capacity :: nat
  assumes enq_good: "good q \<Longrightarrow> length (content q) < capacity \<Longrightarrow> good (enq x q)"
    and enq_content: "good q \<Longrightarrow> length (content q) < capacity \<Longrightarrow> content (enq x q) = content q @ [x]"
    and deq_good: "good q \<Longrightarrow> good (snd (deq q))"
    and deq_empty: "good q \<Longrightarrow> content q = [] \<Longrightarrow> deq q = (None, q)"
    and deq_content: "good q \<Longrightarrow> content q = y # ys \<Longrightarrow> fst (deq q) = Some y \<and> content (snd (deq q)) = ys"

context bounded_fifo
begin

lemma run_conserves:
  "good q \<Longrightarrow> fifo_within capacity (length (content q)) ops \<Longrightarrow> fifo_run enq deq ops q = (out, q') \<Longrightarrow>
   good q' \<and> out @ content q' = content q @ fifo_inputs ops"
proof (induction ops arbitrary: q out)
  case Nil
  then show ?case by simp
next
  case (Cons op ops)
  show ?case
  proof (cases op)
    case (Enq x)
    with Cons.prems have c: "good (enq x q)" "content (enq x q) = content q @ [x]"
      by (simp_all add: enq_good enq_content)
    with Cons.IH [OF c(1)] Cons.prems Enq show ?thesis by simp
  next
    case Deq
    show ?thesis
    proof (cases "content q")
      case Nil
      with Cons.IH [of q] Cons.prems Deq deq_empty show ?thesis by simp
    next
      case (Cons y ys)
      obtain q1 where d: "deq q = (Some y, q1)" "content q1 = ys"
        using deq_content [OF Cons.prems(1) Cons] by (cases "deq q") auto
      then have g: "good q1" using deq_good [OF Cons.prems(1)] by simp
      obtain out1 where out: "out = y # out1" and r: "fifo_run enq deq ops q1 = (out1, q')"
        using Cons.prems Deq d by (auto split: prod.splits)
      have "fifo_within capacity (length (content q1)) ops" using Cons.prems Deq d Cons by simp
      with Cons.IH [OF g _ r] out d Cons Deq show ?thesis by simp
    qed
  qed
qed

end

subsection \<open>The ring implements it\<close>

definition cmdq_wf :: "cmdq \<Rightarrow> bool" where
  "cmdq_wf q \<longleftrightarrow> length (q_items q) = CMDQ_LEN \<and> q_head q < CMDQ_LEN \<and> q_tail q < CMDQ_LEN"

definition cmdq_list :: "cmdq \<Rightarrow> cmdq_item list" where
  "cmdq_list q = map (\<lambda>i. q_items q ! ((q_tail q + 1 + i) mod CMDQ_LEN)) [0..<cmdq_size_unsafe q]"

lemma length_cmdq_list [simp]: "length (cmdq_list q) = cmdq_size_unsafe q"
  by (simp add: cmdq_list_def)

lemma cmdq_size_le: "cmdq_wf q \<Longrightarrow> cmdq_size_unsafe q \<le> 3"
  by (auto simp: cmdq_size_unsafe_def cmdq_wf_def)

lemma cmdq_full_cases:
  assumes "cmdq_wf q"
  shows "cmdq_size_unsafe q = 3 \<longleftrightarrow> (q_head q + 1) mod 4 = q_tail q"
    and "cmdq_full_test q \<longleftrightarrow> cmdq_size_unsafe q = 3 \<and> q_tail q \<noteq> 0"
  using assms by (auto simp: cmdq_size_unsafe_def cmdq_wf_def cmdq_full_test_def mod_if)

lemma cmdq_head_size: "cmdq_wf q \<Longrightarrow> (q_tail q + cmdq_size_unsafe q) mod 4 = q_head q"
  by (auto simp: cmdq_size_unsafe_def cmdq_wf_def)

text \<open>The arithmetic of the four indices.\<close>

lemma ring_size_enq:
  assumes "h < 4" and "t < (4::nat)" and "(if h \<ge> t then h - t else 4 - t + h) < 3"
  shows "(if (h + 1) mod 4 \<ge> t then (h + 1) mod 4 - t else 4 - t + (h + 1) mod 4) =
    Suc (if h \<ge> t then h - t else 4 - t + h)"
proof (cases "h = 3")
  case True
  then show ?thesis using assms by (auto split: if_splits)
next
  case False
  then have "(h + 1) mod 4 = h + 1" using assms by simp
  then show ?thesis using assms by (auto split: if_splits)
qed

lemma ring_size_deq:
  assumes "h < 4" and "t < (4::nat)" and "h \<noteq> t"
  shows "(if h \<ge> t then h - t else 4 - t + h) =
    Suc (if h \<ge> (t + 1) mod 4 then h - (t + 1) mod 4 else 4 - (t + 1) mod 4 + h)"
proof (cases "t = 3")
  case True
  then show ?thesis using assms by auto
next
  case False
  then have "(t + 1) mod 4 = t + 1" using assms by simp
  then show ?thesis using assms by auto
qed

lemma ring_index_neq:
  assumes "i < n" and "n < (4::nat)"
  shows "(t + 1 + i) mod 4 \<noteq> (t + 1 + n) mod 4"
proof
  assume "(t + 1 + i) mod 4 = (t + 1 + n) mod 4"
  then have "(t + 1 + n) mod 4 = (t + 1 + i) mod 4" by simp
  then have "4 dvd (t + 1 + n) - (t + 1 + i)"
    using assms mod_eq_dvd_iff_nat by (metis add_le_cancel_left less_imp_le)
  with assms show False by (auto dest: dvd_imp_le)
qed

lemma enqueue_content:
  assumes wf: "cmdq_wf q" and room: "cmdq_size_unsafe q < 3"
  shows "cmdq_list (q\<lparr>q_head := (q_head q + 1) mod 4,
      q_items := (q_items q)[(q_head q + 1) mod 4 := x]\<rparr>) = cmdq_list q @ [x]"
    (is "cmdq_list ?q' = _")
proof -
  let ?n = "cmdq_size_unsafe q"
  have len: "length (q_items q) = 4" and h: "q_head q < 4" and t: "q_tail q < 4"
    using wf by (simp_all add: cmdq_wf_def)
  have size: "cmdq_size_unsafe ?q' = Suc ?n"
  proof -
    have "q_head ?q' = (q_head q + 1) mod 4" and "q_tail ?q' = q_tail q" by simp_all
    then show ?thesis
      using ring_size_enq [OF h t] room unfolding cmdq_size_unsafe_def CMDQ_LEN_def by metis
  qed
  have new: "(q_tail q + 1 + ?n) mod 4 = (q_head q + 1) mod 4"
    using cmdq_head_size [OF wf] by (metis add.assoc add.commute mod_add_left_eq)
  have old: "(q_head q + 1) mod 4 \<noteq> (q_tail q + 1 + i) mod 4" if "i < ?n" for i
    using ring_index_neq [OF that, of "q_tail q"] room new by simp
  show ?thesis
    unfolding cmdq_list_def size using new old len by simp
qed

lemma dequeue_content:
  assumes wf: "cmdq_wf q" and ne: "q_head q \<noteq> q_tail q"
  shows "cmdq_list q = q_items q ! ((q_tail q + 1) mod 4) # cmdq_list (q\<lparr>q_tail := (q_tail q + 1) mod 4\<rparr>)"
    (is "_ = _ # cmdq_list ?q'")
proof -
  have h: "q_head q < 4" and t: "q_tail q < 4" using wf by (simp_all add: cmdq_wf_def)
  have size: "cmdq_size_unsafe q = Suc (cmdq_size_unsafe ?q')"
  proof -
    have "q_head ?q' = q_head q" and "q_tail ?q' = (q_tail q + 1) mod 4" by simp_all
    then show ?thesis
      using ring_size_deq [OF h t ne] unfolding cmdq_size_unsafe_def CMDQ_LEN_def by metis
  qed
  have "((q_tail q + 1) mod 4 + 1 + i) mod 4 = (q_tail q + 1 + Suc i) mod 4" for i
    using mod_add_left_eq [of "q_tail q + 1" 4 "Suc i"] by simp
  then show ?thesis
    unfolding cmdq_list_def size by (simp add: upt_conv_Cons map_Suc_upt [symmetric] del: upt_Suc)
qed

lemma cmdq_list_empty_iff: "cmdq_wf q \<Longrightarrow> cmdq_list q = [] \<longleftrightarrow> q_head q = q_tail q"
  by (auto simp: cmdq_list_def cmdq_size_unsafe_def cmdq_wf_def)

text \<open>C12. Putting a command into a queue with room appends it. In a full queue the outcome depends on
  where the queue starts: if the tail is not at index 0 the command is refused and nothing changes; if
  it is, the test \<open>head + 1 % CMDQ_LEN == tail\<close> misses that the queue is full, the call
  reports success and all queued commands are lost.\<close>

theorem cmdq_enqueue_outcome:
  assumes "cmdq_wf q"
  shows "\<exists>r q'. cmd_enqueue_cb_unsafe (Some c) fn arg q = Inr (r, q') \<and> cmdq_wf q' \<and>
    (if length (cmdq_list q) < CMDQ_LEN - 1
     then r = 0 \<and> cmdq_list q' = cmdq_list q @ [\<lparr>it_cmd = c, it_cb = fn, it_arg = arg\<rparr>]
     else if q_tail q \<noteq> 0 then r = 1 \<and> q' = q
     else r = 0 \<and> cmdq_list q' = [])"
proof (cases "cmdq_size_unsafe q < 3")
  case True
  then have "\<not> cmdq_full_test q" using cmdq_full_cases [OF assms] by simp
  with True assms enqueue_content [OF assms True] show ?thesis
    by (simp add: cmd_enqueue_cb_unsafe_def Let_def) (simp add: cmdq_wf_def)
next
  case False
  then have full: "cmdq_size_unsafe q = 3" using cmdq_size_le [OF assms] by simp
  show ?thesis
  proof (cases "q_tail q = 0")
    case True
    then have "\<not> cmdq_full_test q" and "(q_head q + 1) mod 4 = 0"
      using cmdq_full_cases [OF assms] full by simp_all
    with True full assms show ?thesis
      by (simp add: cmd_enqueue_cb_unsafe_def Let_def cmdq_list_empty_iff cmdq_wf_def cmdq_list_def
          cmdq_size_unsafe_def)
  next
    case False
    then have "cmdq_full_test q" using cmdq_full_cases [OF assms] full by simp
    with False full assms show ?thesis by (simp add: cmd_enqueue_cb_unsafe_def)
  qed
qed

lemma cmdq_enqueue_ok:
  assumes wf: "cmdq_wf q" and room: "length (cmdq_list q) < CMDQ_LEN - 1"
  shows "\<exists>q'. cmd_enqueue_cb_unsafe (Some c) fn arg q = Inr (0, q') \<and> cmdq_wf q' \<and>
    cmdq_list q' = cmdq_list q @ [\<lparr>it_cmd = c, it_cb = fn, it_arg = arg\<rparr>]"
proof -
  have "cmdq_size_unsafe q < 3" using room by simp
  moreover from this have "\<not> cmdq_full_test q" using cmdq_full_cases [OF wf] by simp
  ultimately show ?thesis
    using wf enqueue_content [OF wf]
    by (simp add: cmd_enqueue_cb_unsafe_def Let_def) (simp add: cmdq_wf_def)
qed

lemma cmdq_init_wf [simp]: "cmdq_wf cmdq_init"
  by (simp add: cmdq_wf_def cmdq_init_def)

lemma cmdq_init_simps [simp]:
  "q_tail cmdq_init = 0" "cmdq_size_unsafe cmdq_init = 0" "cmdq_list cmdq_init = []"
  by (simp_all add: cmdq_init_def cmdq_size_unsafe_def cmdq_list_def)

theorem cmdq_enqueue_outcome_witness:
  "\<exists>q'. cmd_enqueue_cb_unsafe (Some (it_cmd cmdq_item0)) None NULL cmdq_init = Inr (0, q') \<and>
     cmdq_list q' = [cmdq_item0]"
proof -
  have it: "\<lparr>it_cmd = it_cmd cmdq_item0, it_cb = None, it_arg = NULL\<rparr> = cmdq_item0"
    by (simp add: cmdq_item0_def)
  show ?thesis
    using cmdq_enqueue_outcome [of cmdq_init "it_cmd cmdq_item0" None NULL] unfolding it by auto
qed

subsection \<open>First in, first out\<close>

definition cmdq_enq :: "cmdq_item \<Rightarrow> cmdq \<Rightarrow> cmdq" where
  "cmdq_enq it q = (case cmd_enqueue_cb_unsafe (Some (it_cmd it)) (it_cb it) (it_arg it) q of
     Inr (_, q') \<Rightarrow> q' | Inl _ \<Rightarrow> q)"

definition cmdq_deq :: "cmdq \<Rightarrow> cmdq_item option \<times> cmdq" where
  "cmdq_deq q = (case cmd_dequeue_unsafe q of (_, it, q') \<Rightarrow> (it, q'))"

lemma cmdq_item_eta [simp]: "\<lparr>it_cmd = it_cmd x, it_cb = it_cb x, it_arg = it_arg x\<rparr> = x"
  by (cases x) simp

lemma cmdq_enq_content:
  assumes "cmdq_wf q" and "length (cmdq_list q) < CMDQ_LEN - 1"
  shows "cmdq_wf (cmdq_enq x q)" and "cmdq_list (cmdq_enq x q) = cmdq_list q @ [x]"
proof -
  have "\<not> cmdq_full_test q" using cmdq_full_cases [OF assms(1)] assms(2) by simp
  then show "cmdq_wf (cmdq_enq x q)" and "cmdq_list (cmdq_enq x q) = cmdq_list q @ [x]"
    using assms enqueue_content [OF assms(1), of x]
    by (simp_all add: cmdq_enq_def cmd_enqueue_cb_unsafe_def Let_def) (simp_all add: cmdq_wf_def)
qed

lemma cmdq_enq_tail [simp]: "q_tail (cmdq_enq x q) = q_tail q"
  by (simp add: cmdq_enq_def cmd_enqueue_cb_unsafe_def Let_def)

interpretation cq: bounded_fifo cmdq_enq cmdq_deq cmdq_list cmdq_wf "CMDQ_LEN - 1"
proof unfold_locales
  fix q assume wf: "cmdq_wf q"
  then show "cmdq_wf (snd (cmdq_deq q))"
    by (auto simp: cmdq_deq_def cmd_dequeue_unsafe_def Let_def cmdq_wf_def)
  show "cmdq_deq q = (None, q)" if "cmdq_list q = []"
    using that wf by (simp add: cmdq_deq_def cmd_dequeue_unsafe_def cmdq_list_empty_iff)
  show "fst (cmdq_deq q) = Some y \<and> cmdq_list (snd (cmdq_deq q)) = ys" if "cmdq_list q = y # ys" for y ys
  proof -
    have "q_head q \<noteq> q_tail q" using that cmdq_list_empty_iff [OF wf] by auto
    with dequeue_content [OF wf this] that show ?thesis
      by (simp add: cmdq_deq_def cmd_dequeue_unsafe_def Let_def)
  qed
qed (fact cmdq_enq_content)+

lemma cmd_dequeue_Cons:
  assumes "cmdq_wf q" and "cmdq_list q = x # xs"
  shows "\<exists>q'. cmd_dequeue_unsafe q = (0, Some x, q') \<and> cmdq_wf q' \<and> cmdq_list q' = xs"
proof -
  have ne: "q_head q \<noteq> q_tail q" using assms cmdq_list_empty_iff [OF assms(1)] by auto
  with dequeue_content [OF assms(1) ne] assms show ?thesis
    by (simp add: cmd_dequeue_unsafe_def Let_def) (simp add: cmdq_wf_def)
qed

lemma cmd_dequeue_Nil:
  "cmdq_wf q \<Longrightarrow> cmdq_list q = [] \<Longrightarrow> cmd_dequeue_unsafe q = (1, None, q)"
  by (simp add: cmd_dequeue_unsafe_def cmdq_list_empty_iff)

text \<open>C13. As long as a sequence of operations keeps the queue below its capacity, the ring buffer refines
  a first-in first-out list: what was taken out, followed by what is left, is what was in it, followed
  by what was put in.\<close>

theorem cmdq_first_in_first_out:
  assumes "cmdq_wf q" and "fifo_within (CMDQ_LEN - 1) (length (cmdq_list q)) ops"
    and "fifo_run cmdq_enq cmdq_deq ops q = (out, q')"
  shows "cmdq_wf q' \<and> out @ cmdq_list q' = cmdq_list q @ fifo_inputs ops"
  using assms by (rule cq.run_conserves)

theorem cmdq_first_in_first_out_witness:
  "\<exists>q'. fifo_run cmdq_enq cmdq_deq [Enq cmdq_item0, Enq (cmdq_item0\<lparr>it_arg := 7\<rparr>), Deq] cmdq_init =
     ([cmdq_item0], q') \<and> cmdq_list q' = [cmdq_item0\<lparr>it_arg := 7\<rparr>]"
proof -
  let ?a = cmdq_item0 and ?b = "cmdq_item0\<lparr>it_arg := 7\<rparr>"
  let ?q = "cmdq_enq ?b (cmdq_enq ?a cmdq_init)"
  have "cmdq_list ?q = [?a, ?b]"
    by (simp add: cmdq_enq_content del: length_cmdq_list)
  moreover have "cmdq_wf ?q" by (simp add: cmdq_enq_content del: length_cmdq_list)
  ultimately obtain q' where d: "cmdq_deq ?q = (Some ?a, q')"
    using cq.deq_content [of ?q ?a "[?b]"] by (cases "cmdq_deq ?q") auto
  then have "fifo_run cmdq_enq cmdq_deq [Enq ?a, Enq ?b, Deq] cmdq_init = ([?a], q')" by simp
  with cmdq_first_in_first_out [OF _ _ this] show ?thesis by simp
qed

theorem cmdq_fourth_command_lost:
  "\<exists>q3. fifo_run cmdq_enq cmdq_deq [Enq a, Enq b, Enq c] cmdq_init = ([], q3) \<and> cmdq_list q3 = [a, b, c] \<and>
     cmd_enqueue_cb_unsafe (Some (it_cmd d)) (it_cb d) (it_arg d) q3 = Inr (0, cmdq_enq d q3) \<and>
     cmdq_list (cmdq_enq d q3) = []"
proof -
  let ?q3 = "cmdq_enq c (cmdq_enq b (cmdq_enq a cmdq_init))"
  have wf: "cmdq_wf ?q3" and l: "cmdq_list ?q3 = [a, b, c]"
    by (simp_all add: cmdq_enq_content del: length_cmdq_list)
  then have "cmdq_size_unsafe ?q3 = 3" by (metis length_cmdq_list list.size(3,4) numeral_3_eq_3 One_nat_def Suc_eq_plus1)
  then have nf: "\<not> cmdq_full_test ?q3" and w: "(q_head ?q3 + 1) mod 4 = 0"
    using cmdq_full_cases [OF wf] by simp_all
  have "cmdq_list (cmdq_enq d ?q3) = []"
    using nf w by (simp add: cmdq_enq_def [of d] cmd_enqueue_cb_unsafe_def Let_def cmdq_list_def cmdq_size_unsafe_def)
  with l nf show ?thesis
    by (simp add: cmdq_enq_def [of d] cmd_enqueue_cb_unsafe_def Let_def)
qed

theorem cmd_drop_all_empties:
  assumes "cmdq_wf q"
  shows "\<exists>q'. cmd_drop_all q = (length (cmdq_list q), q') \<and> cmdq_wf q' \<and> cmdq_list q' = [] \<and>
    cmd_dequeue_unsafe q' = (1, None, q')"
  using assms
  by (simp add: cmd_drop_all_def cmd_dequeue_unsafe_def cmdq_wf_def) (simp add: cmdq_list_def cmdq_size_unsafe_def)

theorem cmd_drop_all_empties_witness:
  "fst (cmd_drop_all (cmdq_enq cmdq_item0 cmdq_init)) = 1"
proof -
  have wf: "cmdq_wf (cmdq_enq cmdq_item0 cmdq_init)"
    and l: "cmdq_list (cmdq_enq cmdq_item0 cmdq_init) = [cmdq_item0]"
    by (simp_all add: cmdq_enq_content del: length_cmdq_list)
  from cmd_drop_all_empties [OF wf] show ?thesis
    unfolding l by (auto simp del: length_cmdq_list)
qed

end
