(* ===== verification/Link_Store.thy ===== *)
theory Link_Store
  imports Rtems
begin

text \<open>
  The link store (\<open>lib/hpsc/link-store.h\<close>, \<open>lib/hpsc/link-store.c\<close>): a chain of allocated
  nodes, each with a link pointer.  The chain is the list of its nodes from first to last.
  Names are read through the link pointers; \<open>names l\<close> is \<open>None\<close> when \<open>l\<close> designates no link
  object and \<open>Some None\<close> when its name is the null pointer.  The mutex makes each operation
  one step.
\<close>

subsection \<open>Model\<close>

record link_store_node =
  sn_node :: ptr
  sn_link :: ptr

type_synonym link_names = "ptr \<Rightarrow> string option option"

fun link_store_node_get ::
  "link_names \<Rightarrow> string option \<Rightarrow> link_store_node list \<Rightarrow> link_store_node option res" where
  "link_store_node_get names name [] = Inr None"
| "link_store_node_get names name (snode # nodes) =
     c_deref (names (sn_link snode)) (\<lambda>lname.
       if (name \<noteq> None \<and> lname = None) \<or> (name = None \<and> lname \<noteq> None)
       then link_store_node_get names name nodes
       else if (name = None \<and> lname = None) \<or> name = lname
       then Inr (Some snode)
       else link_store_node_get names name nodes)"

definition link_store_append ::
  "'k rtems \<Rightarrow> ptr \<Rightarrow> link_store_node list \<Rightarrow> 'k \<Rightarrow>
   (rtems_status_code \<times> link_store_node list \<times> 'k) res" where
  "link_store_append K link lchain k =
     c_assert (link \<noteq> NULL)
       (case rt_malloc K k of (p, k') \<Rightarrow>
          if p = NULL then Inr (RTEMS_NO_MEMORY, lchain, k')
          else Inr (RTEMS_SUCCESSFUL, lchain @ [\<lparr>sn_node = p, sn_link = link\<rparr>], k'))"

definition link_store_contains ::
  "link_names \<Rightarrow> string option \<Rightarrow> link_store_node list \<Rightarrow> bool res" where
  "link_store_contains names name lchain =
     res_bind (link_store_node_get names name lchain) (\<lambda>n. Inr (n \<noteq> None))"

definition link_store_is_empty :: "link_store_node list \<Rightarrow> bool" where
  "link_store_is_empty lchain \<longleftrightarrow> lchain = []"

definition link_store_get :: "link_names \<Rightarrow> string option \<Rightarrow> link_store_node list \<Rightarrow> ptr res" where
  "link_store_get names name lchain =
     res_bind (link_store_node_get names name lchain)
       (\<lambda>n. Inr (case n of None \<Rightarrow> NULL | Some snode \<Rightarrow> sn_link snode))"

definition link_store_extract ::
  "'k rtems \<Rightarrow> link_names \<Rightarrow> string option \<Rightarrow> link_store_node list \<Rightarrow> 'k \<Rightarrow>
   (ptr \<times> link_store_node list \<times> 'k) res" where
  "link_store_extract K names name lchain k =
     res_bind (link_store_node_get names name lchain)
       (\<lambda>n. case n of None \<Rightarrow> Inr (NULL, lchain, k)
          | Some snode \<Rightarrow> Inr (sn_link snode,
              filter (\<lambda>m. sn_node m \<noteq> sn_node snode) lchain, rt_free K (sn_node snode) k))"

definition link_store_extract_first ::
  "'k rtems \<Rightarrow> link_store_node list \<Rightarrow> 'k \<Rightarrow> ptr \<times> link_store_node list \<times> 'k" where
  "link_store_extract_first K lchain k =
     (case lchain of [] \<Rightarrow> (NULL, [], k)
      | snode # nodes \<Rightarrow> (sn_link snode, nodes, rt_free K (sn_node snode) k))"

subsection \<open>Well-formed stores\<close>

definition store_wf :: "ptr set \<Rightarrow> link_store_node list \<Rightarrow> bool" where
  "store_wf live lchain \<longleftrightarrow> distinct (map sn_node lchain) \<and> set (map sn_node lchain) \<subseteq> live \<and>
     NULL \<notin> set (map sn_link lchain)"

definition named :: "link_names \<Rightarrow> string option \<Rightarrow> link_store_node \<Rightarrow> bool" where
  "named names name snode \<longleftrightarrow> names (sn_link snode) = Some name"

definition all_named :: "link_names \<Rightarrow> link_store_node list \<Rightarrow> bool" where
  "all_named names lchain \<longleftrightarrow> (\<forall>snode \<in> set lchain. names (sn_link snode) \<noteq> None)"

lemma node_get_find:
  "all_named names lchain \<Longrightarrow> link_store_node_get names name lchain = Inr (find (named names name) lchain)"
  by (induction lchain) (auto simp: all_named_def named_def split: option.splits)

lemma find_split:
  "find P xs = Some x \<Longrightarrow> \<exists>us vs. xs = us @ x # vs \<and> P x \<and> (\<forall>u \<in> set us. \<not> P u)"
proof (induction xs)
  case Nil
  then show ?case by simp
next
  case (Cons y ys)
  show ?case
  proof (cases "P y")
    case True
    with Cons.prems show ?thesis by (intro exI [of _ "[]"] exI [of _ ys]) auto
  next
    case False
    with Cons obtain us vs where "ys = us @ x # vs" "P x" "\<forall>u \<in> set us. \<not> P u" by auto
    with False show ?thesis by (intro exI [of _ "y # us"] exI [of _ vs]) auto
  qed
qed

lemma find_append: "find P (xs @ ys) = (case find P xs of None \<Rightarrow> find P ys | Some x \<Rightarrow> Some x)"
  by (induction xs) auto

lemma filter_first_node:
  assumes "distinct (map sn_node (us @ x # vs))"
  shows "filter (\<lambda>m. sn_node m \<noteq> sn_node x) (us @ x # vs) = us @ vs"
proof -
  have "sn_node m \<noteq> sn_node x" if "m \<in> set us \<union> set vs" for m
    using that assms by (auto simp: image_iff)
  then show ?thesis by (simp add: filter_id_conv)
qed

subsection \<open>Properties\<close>

theorem link_store_append_get:
  assumes "heap_laws K live" and "all_named names lchain" and "names l = Some lname" and "l \<noteq> NULL"
    and "store_wf (live k) lchain"
  shows "\<exists>sc lchain' k'. link_store_append K l lchain k = Inr (sc, lchain', k') \<and> store_wf (live k') lchain' \<and>
    (if sc = RTEMS_SUCCESSFUL
     then (\<forall>name. link_store_get names name lchain' =
            (if link_store_contains names name lchain = Inr True then link_store_get names name lchain
             else Inr (if name = lname then l else NULL)))
     else sc = RTEMS_NO_MEMORY \<and> lchain' = lchain)"
proof -
  obtain p k' where m: "rt_malloc K k = (p, k')" by fastforce
  note live = heap_laws_malloc [OF assms(1) m]
  show ?thesis
  proof (cases "p = NULL")
    case True
    with live m assms show ?thesis by (simp add: link_store_append_def)
  next
    case False
    let ?chain = "lchain @ [\<lparr>sn_node = p, sn_link = l\<rparr>]"
    have wf: "store_wf (live k') ?chain"
      using live False assms(4,5) by (auto simp: store_wf_def)
    have "all_named names ?chain"
      using assms by (auto simp: all_named_def)
    then have "link_store_get names name ?chain =
        (if link_store_contains names name lchain = Inr True then link_store_get names name lchain
             else Inr (if name = lname then l else NULL))" for name
      using assms by (auto simp: link_store_get_def link_store_contains_def node_get_find find_append named_def
          split: option.splits)
    with wf False m assms show ?thesis by (simp add: link_store_append_def)
  qed
qed

definition demo_names :: link_names where
  "demo_names = [0x2000 \<mapsto> Some ''TRCH'', 0x3000 \<mapsto> Some ''HPPS'', 0x4000 \<mapsto> None]"

theorem link_store_append_get_witness:
  "\<exists>lchain' k'. link_store_append demo_rtems 0x3000 [\<lparr>sn_node = 0x500, sn_link = 0x2000\<rparr>]
       (demo_k0\<lparr>dk_live := [0x500]\<rparr>) = Inr (RTEMS_SUCCESSFUL, lchain', k') \<and>
     link_store_get demo_names (Some ''HPPS'') lchain' = Inr 0x3000"
proof -
  have r: "link_store_append demo_rtems 0x3000 [\<lparr>sn_node = 0x500, sn_link = 0x2000\<rparr>] (demo_k0\<lparr>dk_live := [0x500]\<rparr>) =
      Inr (sc, c, k') \<Longrightarrow> sc = RTEMS_SUCCESSFUL" for sc c k'
    by (auto simp: link_store_append_def demo_rtems_def demo_k0_def)
  have c: "link_store_contains demo_names (Some ''HPPS'') [\<lparr>sn_node = 0x500, sn_link = 0x2000\<rparr>] = Inr False"
    by (simp add: link_store_contains_def demo_names_def)
  show ?thesis
    using link_store_append_get [OF demo_heap_laws, where names = demo_names and l = "0x3000" and lname = "Some ''HPPS''"
        and lchain = "[\<lparr>sn_node = 0x500, sn_link = 0x2000\<rparr>]" and k = "demo_k0\<lparr>dk_live := [0x500]\<rparr>"] r c
    by (auto simp: all_named_def demo_names_def store_wf_def)
qed

theorem link_store_extract_first_match:
  assumes heap: "heap_laws K live" and def: "all_named names lchain" and wf: "store_wf (live k) lchain"
  shows "\<exists>l lchain' k'. link_store_extract K names name lchain k = Inr (l, lchain', k') \<and>
    link_store_get names name lchain = Inr l \<and> store_wf (live k') lchain' \<and>
    (if l = NULL then link_store_contains names name lchain = Inr False \<and> lchain' = lchain \<and> live k' = live k
     else \<exists>us snode vs. lchain = us @ snode # vs \<and> lchain' = us @ vs \<and> sn_link snode = l \<and>
        names l = Some name \<and> (\<forall>u \<in> set us. names (sn_link u) \<noteq> Some name) \<and>
        live k' = live k - {sn_node snode})"
proof (cases "find (named names name) lchain")
  case None
  then show ?thesis
    using wf by (simp add: link_store_extract_def link_store_get_def link_store_contains_def node_get_find [OF def])
next
  case (Some snode)
  then obtain us vs where split: "lchain = us @ snode # vs" and hit: "names (sn_link snode) = Some name"
    and first: "\<forall>u \<in> set us. names (sn_link u) \<noteq> Some name"
    using find_split unfolding named_def by fast
  have ne: "sn_link snode \<noteq> NULL" using wf split by (auto simp: store_wf_def)
  have rest: "filter (\<lambda>m. sn_node m \<noteq> sn_node snode) lchain = us @ vs"
    unfolding split by (rule filter_first_node) (use wf split in \<open>simp add: store_wf_def\<close>)
  have wf': "store_wf (live k - {sn_node snode}) (us @ vs)"
    using wf unfolding split store_wf_def by (simp add: subset_Diff_insert Int_commute)
  have ex: "link_store_extract K names name lchain k = Inr (sn_link snode, us @ vs, rt_free K (sn_node snode) k)"
    using Some rest by (simp add: link_store_extract_def node_get_find [OF def])
  have get: "link_store_get names name lchain = Inr (sn_link snode)"
    using Some by (simp add: link_store_get_def node_get_find [OF def])
  have "\<exists>us' snode' vs'. lchain = us' @ snode' # vs' \<and> us @ vs = us' @ vs' \<and> sn_link snode' = sn_link snode \<and>
      names (sn_link snode) = Some name \<and> (\<forall>u \<in> set us'. names (sn_link u) \<noteq> Some name) \<and>
      live k - {sn_node snode} = live k - {sn_node snode'}"
    using split hit first by (intro exI [of _ us] exI [of _ snode] exI [of _ vs]) simp
  then have found: "if sn_link snode = NULL
      then link_store_contains names name lchain = Inr False \<and> us @ vs = lchain \<and> live k - {sn_node snode} = live k
      else \<exists>us' snode' vs'. lchain = us' @ snode' # vs' \<and> us @ vs = us' @ vs' \<and> sn_link snode' = sn_link snode \<and>
        names (sn_link snode) = Some name \<and> (\<forall>u \<in> set us'. names (sn_link u) \<noteq> Some name) \<and>
        live k - {sn_node snode} = live k - {sn_node snode'}"
    unfolding if_not_P [OF ne] .
  show ?thesis
    by (intro exI conjI, rule ex, rule get) (simp_all only: heap_laws_frame(1) [OF heap], rule wf', rule found)
qed

theorem link_store_extract_first_match_witness:
  "\<exists>k'. link_store_extract demo_rtems demo_names (Some ''TRCH'')
       [\<lparr>sn_node = 0x500, sn_link = 0x4000\<rparr>, \<lparr>sn_node = 0x600, sn_link = 0x2000\<rparr>]
       (demo_k0\<lparr>dk_live := [0x500, 0x600]\<rparr>) = Inr (0x2000, [\<lparr>sn_node = 0x500, sn_link = 0x4000\<rparr>], k') \<and>
     set (dk_live k') = {0x500}"
proof -
  have g: "link_store_get demo_names (Some ''TRCH'')
       [\<lparr>sn_node = 0x500, sn_link = 0x4000\<rparr>, \<lparr>sn_node = 0x600, sn_link = 0x2000\<rparr>] = Inr 0x2000"
    by (simp add: link_store_get_def demo_names_def)
  show ?thesis
    using link_store_extract_first_match [OF demo_heap_laws, where names = demo_names and name = "Some ''TRCH''"
        and lchain = "[\<lparr>sn_node = 0x500, sn_link = 0x4000\<rparr>, \<lparr>sn_node = 0x600, sn_link = 0x2000\<rparr>]"
        and k = "demo_k0\<lparr>dk_live := [0x500, 0x600]\<rparr>"] g
    by (auto simp: all_named_def demo_names_def store_wf_def Cons_eq_append_conv split: if_splits)
qed

text \<open>Emptying the store as \<open>shutdown\<close> does: links leave in the order they were stored.\<close>

fun link_store_drain :: "'k rtems \<Rightarrow> nat \<Rightarrow> link_store_node list \<Rightarrow> 'k \<Rightarrow> ptr list \<times> link_store_node list \<times> 'k" where
  "link_store_drain K 0 lchain k = ([], lchain, k)"
| "link_store_drain K (Suc n) lchain k =
     (case link_store_extract_first K lchain k of (l, lchain', k') \<Rightarrow>
        if l = NULL then ([], lchain', k')
        else (case link_store_drain K n lchain' k' of (ls, lchain'', k'') \<Rightarrow> (l # ls, lchain'', k'')))"

theorem link_store_drain_in_order:
  assumes "heap_laws K live" and "store_wf (live k) lchain" and "length lchain \<le> n"
  shows "\<exists>k'. link_store_drain K n lchain k = (map sn_link lchain, [], k') \<and>
    live k' = live k - set (map sn_node lchain)"
  using assms(2,3)
proof (induction n arbitrary: lchain k)
  case 0
  then show ?case by simp
next
  case (Suc n)
  show ?case
  proof (cases lchain)
    case Nil
    then show ?thesis by (simp add: link_store_extract_first_def)
  next
    case (Cons x xs)
    let ?k = "rt_free K (sn_node x) k"
    have "store_wf (live ?k) xs"
      using Suc.prems Cons
      by (simp add: store_wf_def heap_laws_frame(1) [OF assms(1)] subset_Diff_insert)
    with Suc Cons obtain k' where "link_store_drain K n xs ?k = (map sn_link xs, [], k')"
      and "live k' = live ?k - set (map sn_node xs)"
      by (metis Suc_le_mono length_Cons)
    then show ?thesis
      using Suc.prems Cons
      by (auto simp: link_store_extract_first_def store_wf_def heap_laws_frame(1) [OF assms(1)])
  qed
qed

theorem link_store_drain_in_order_witness:
  "\<exists>k'. link_store_drain demo_rtems 2 [\<lparr>sn_node = 0x500, sn_link = 0x4000\<rparr>, \<lparr>sn_node = 0x600, sn_link = 0x2000\<rparr>]
       (demo_k0\<lparr>dk_live := [0x500, 0x600]\<rparr>) = ([0x4000, 0x2000], [], k') \<and> set (dk_live k') = {}"
  using link_store_drain_in_order [OF demo_heap_laws, where n = 2 and k = "demo_k0\<lparr>dk_live := [0x500, 0x600]\<rparr>"
      and lchain = "[\<lparr>sn_node = 0x500, sn_link = 0x4000\<rparr>, \<lparr>sn_node = 0x600, sn_link = 0x2000\<rparr>]"]
  by (simp add: store_wf_def)

end
