(* ===== verification/Devices.thy ===== *)
theory Devices
  imports Rtems
begin

text \<open>
  The device store (\<open>lib/hpsc/devices.h\<close>, \<open>lib/hpsc/devices.c\<close>) and CPU affinity
  (\<open>lib/hpsc/affinity.h\<close>, \<open>lib/hpsc/affinity.c\<close>).  Mailbox handles are kept by identifier, the
  handles of timers and watchdogs per processor; a handle is a pointer, null when unset.
\<close>

subsection \<open>Model of the store\<close>

datatype dev_id_mbox = DEV_ID_MBOX_LSIO | DEV_ID_MBOX_HPPS_TRCH | DEV_ID_MBOX_HPPS_RTPS | DEV_ID_MBOX_COUNT

fun dev_id_code :: "dev_id_mbox \<Rightarrow> nat" where
  "dev_id_code DEV_ID_MBOX_LSIO = 0"
| "dev_id_code DEV_ID_MBOX_HPPS_TRCH = 1"
| "dev_id_code DEV_ID_MBOX_HPPS_RTPS = 2"
| "dev_id_code DEV_ID_MBOX_COUNT = 3"

record devices =
  devs_mbox :: "nat \<Rightarrow> ptr"
  rtits :: "nat \<Rightarrow> ptr"
  wdts :: "nat \<Rightarrow> ptr"

definition devices_init :: devices where
  "devices_init = \<lparr>devs_mbox = (\<lambda>_. NULL), rtits = (\<lambda>_. NULL), wdts = (\<lambda>_. NULL)\<rparr>"

text \<open>\<open>id\<close> is the integer value of the enumeration argument.\<close>

definition dev_set_mbox :: "nat \<Rightarrow> ptr \<Rightarrow> devices \<Rightarrow> devices res" where
  "dev_set_mbox i dev d =
     c_assert (i < dev_id_code DEV_ID_MBOX_COUNT)
       (c_assert (dev \<noteq> NULL \<longrightarrow> devs_mbox d i = NULL)
         (Inr (d\<lparr>devs_mbox := (devs_mbox d)(i := dev)\<rparr>)))"

definition dev_get_mbox :: "nat \<Rightarrow> devices \<Rightarrow> ptr res" where
  "dev_get_mbox i d = c_assert (i < dev_id_code DEV_ID_MBOX_COUNT) (Inr (devs_mbox d i))"

text \<open>\<open>cpu\<close> is the processor that executes the call; its per-CPU item is never null.\<close>

definition dev_cpu_set_rtit :: "nat \<Rightarrow> ptr \<Rightarrow> devices \<Rightarrow> devices res" where
  "dev_cpu_set_rtit cpu dev d =
     c_assert (dev \<noteq> NULL \<longrightarrow> rtits d cpu = NULL) (Inr (d\<lparr>rtits := (rtits d)(cpu := dev)\<rparr>))"

definition dev_cpu_get_rtit :: "nat \<Rightarrow> devices \<Rightarrow> ptr res" where
  "dev_cpu_get_rtit cpu d = Inr (rtits d cpu)"

definition dev_cpu_set_wdt :: "nat \<Rightarrow> ptr \<Rightarrow> devices \<Rightarrow> devices res" where
  "dev_cpu_set_wdt cpu dev d =
     c_assert (dev \<noteq> NULL \<longrightarrow> wdts d cpu = NULL) (Inr (d\<lparr>wdts := (wdts d)(cpu := dev)\<rparr>))"

definition dev_cpu_get_wdt :: "nat \<Rightarrow> devices \<Rightarrow> ptr res" where
  "dev_cpu_get_wdt cpu d = Inr (wdts d cpu)"

subsection \<open>Contract: a store of exclusive slots\<close>

text \<open>
  A slot is set only when empty and can always be cleared; slots do not affect each other.
\<close>

locale slot_store =
  fixes put :: "'i \<Rightarrow> ptr \<Rightarrow> 's \<Rightarrow> 's res"
    and look :: "'i \<Rightarrow> 's \<Rightarrow> ptr res"
    and slot :: "'i \<Rightarrow> bool"
  assumes look_slot: "slot i \<Longrightarrow> \<exists>p. look i s = Inr p"
    and put_outcome: "slot i \<Longrightarrow>
      (if p = NULL \<or> look i s = Inr NULL then \<exists>s'. put i p s = Inr s' else put i p s = Inl Assert_Failed)"
    and look_put: "put i p s = Inr s' \<Longrightarrow> look i s' = Inr p"
    and look_put_other: "put i p s = Inr s' \<Longrightarrow> j \<noteq> i \<Longrightarrow> look j s' = look j s"
begin

lemma put_twice_stops:
  assumes "slot i" and "put i p s = Inr s'" and "p \<noteq> NULL" and "q \<noteq> NULL"
  shows "put i q s' = Inl Assert_Failed"
  using put_outcome [OF assms(1), of q s'] look_put [OF assms(2)] assms(3,4) by simp

lemma put_clear_put:
  assumes "slot i" and "put i p s = Inr s'"
  shows "\<exists>s1 s2. put i NULL s' = Inr s1 \<and> look i s1 = Inr NULL \<and> put i q s1 = Inr s2 \<and> look i s2 = Inr q"
proof -
  obtain s1 where s1: "put i NULL s' = Inr s1" using put_outcome [OF assms(1), of NULL s'] by auto
  with look_put [OF s1] put_outcome [OF assms(1), of q s1] obtain s2 where "put i q s1 = Inr s2" by auto
  with s1 look_put [OF s1] look_put [OF this] show ?thesis by blast
qed

text \<open>Setting distinct slots in any order: every one keeps its own handle.\<close>

lemma put_all_look:
  assumes "distinct (map fst ps)" and "\<forall>(i, p) \<in> set ps. slot i \<and> look i s = Inr NULL"
  shows "\<exists>s'. res_fold (\<lambda>(i, p). put i p) ps s = Inr s' \<and> (\<forall>(i, p) \<in> set ps. look i s' = Inr p) \<and>
    (\<forall>j. j \<notin> fst ` set ps \<longrightarrow> look j s' = look j s)"
  using assms
proof (induction ps arbitrary: s)
  case Nil
  then show ?case by simp
next
  case (Cons ip ps)
  obtain i p where ip: "ip = (i, p)" by (cases ip)
  with Cons.prems obtain s1 where s1: "put i p s = Inr s1" using put_outcome [of i p s] by auto
  have "\<forall>(j, q) \<in> set ps. slot j \<and> look j s1 = Inr NULL"
    using Cons.prems ip look_put_other [OF s1] by force
  with Cons.IH [of s1] Cons.prems obtain s' where s': "res_fold (\<lambda>(i, p). put i p) ps s1 = Inr s'"
    "\<forall>(j, q) \<in> set ps. look j s' = Inr q" "\<forall>j. j \<notin> fst ` set ps \<longrightarrow> look j s' = look j s1" by auto
  have "look i s' = Inr p" using s'(3) Cons.prems ip look_put [OF s1] by simp
  moreover have "look j s' = look j s" if "j \<notin> fst ` set (ip # ps)" for j
    using that ip s'(3) look_put_other [OF s1, of j] by simp
  ultimately show ?case using s' s1 ip by simp
qed

end

interpretation mbox_slots: slot_store dev_set_mbox dev_get_mbox "\<lambda>i. i < 3"
  by unfold_locales (auto simp: dev_set_mbox_def dev_get_mbox_def split: if_splits)

interpretation rtit_slots: slot_store dev_cpu_set_rtit dev_cpu_get_rtit "\<lambda>_. True"
  by unfold_locales (auto simp: dev_cpu_set_rtit_def dev_cpu_get_rtit_def split: if_splits)

interpretation wdt_slots: slot_store dev_cpu_set_wdt dev_cpu_get_wdt "\<lambda>_. True"
  by unfold_locales (auto simp: dev_cpu_set_wdt_def dev_cpu_get_wdt_def split: if_splits)

theorem dev_mbox_slots:
  assumes "i < dev_id_code DEV_ID_MBOX_COUNT" and "dev_set_mbox i p d = Inr d'" and "p \<noteq> NULL" and "q \<noteq> NULL"
  shows "dev_get_mbox i d' = Inr p \<and> (\<forall>j. j \<noteq> i \<longrightarrow> dev_get_mbox j d' = dev_get_mbox j d) \<and>
    dev_set_mbox i q d' = Inl Assert_Failed \<and>
    (\<exists>d1 d2. dev_set_mbox i NULL d' = Inr d1 \<and> dev_get_mbox i d1 = Inr NULL \<and>
       dev_set_mbox i q d1 = Inr d2 \<and> dev_get_mbox i d2 = Inr q) \<and>
    dev_set_mbox (dev_id_code DEV_ID_MBOX_COUNT) p d = Inl Assert_Failed"
proof -
  have i: "i < 3" using assms(1) by simp
  show ?thesis
    using mbox_slots.look_put [OF assms(2)] mbox_slots.look_put_other [OF assms(2)]
      mbox_slots.put_twice_stops [OF i assms(2-4)] mbox_slots.put_clear_put [OF i assms(2), of q]
    by (auto simp: dev_set_mbox_def)
qed

theorem dev_mbox_slots_witness:
  "\<exists>d'. dev_set_mbox 2 0x1000 devices_init = Inr d' \<and> dev_get_mbox 2 d' = Inr 0x1000 \<and>
     dev_set_mbox 2 0x2000 d' = Inl Assert_Failed"
proof -
  obtain d' where d: "dev_set_mbox 2 0x1000 devices_init = Inr d'"
    by (simp add: dev_set_mbox_def devices_init_def)
  have "(2::nat) < dev_id_code DEV_ID_MBOX_COUNT" "(0x1000 :: ptr) \<noteq> NULL" "(0x2000 :: ptr) \<noteq> NULL" by simp_all
  from dev_mbox_slots [OF this(1) d this(2,3)] d show ?thesis by blast
qed

theorem dev_cpu_slots:
  assumes "distinct (map fst ps)" and "distinct (map fst qs)"
    and "\<forall>(cpu, p) \<in> set ps. rtits d cpu = NULL" and "\<forall>(cpu, q) \<in> set qs. wdts d cpu = NULL"
  shows "\<exists>d1 d2. res_fold (\<lambda>(cpu, p). dev_cpu_set_rtit cpu p) ps d = Inr d1 \<and>
    res_fold (\<lambda>(cpu, q). dev_cpu_set_wdt cpu q) qs d1 = Inr d2 \<and>
    (\<forall>(cpu, p) \<in> set ps. dev_cpu_get_rtit cpu d2 = Inr p) \<and>
    (\<forall>(cpu, q) \<in> set qs. dev_cpu_get_wdt cpu d2 = Inr q)"
proof -
  have keep_wdts: "res_fold (\<lambda>(cpu, p). dev_cpu_set_rtit cpu p) ps d = Inr d1 \<Longrightarrow> wdts d1 = wdts d" for ps d d1
    by (induction ps arbitrary: d) (auto simp: dev_cpu_set_rtit_def res_iff split: if_splits)
  have keep_rtits: "res_fold (\<lambda>(cpu, p). dev_cpu_set_wdt cpu p) ps d = Inr d1 \<Longrightarrow> rtits d1 = rtits d" for ps d d1
    by (induction ps arbitrary: d) (auto simp: dev_cpu_set_wdt_def res_iff split: if_splits)
  obtain d1 where d1: "res_fold (\<lambda>(cpu, p). dev_cpu_set_rtit cpu p) ps d = Inr d1"
    "\<forall>(cpu, p) \<in> set ps. dev_cpu_get_rtit cpu d1 = Inr p"
    using rtit_slots.put_all_look [OF assms(1), of d] assms(3) by (auto simp: dev_cpu_get_rtit_def)
  obtain d2 where d2: "res_fold (\<lambda>(cpu, q). dev_cpu_set_wdt cpu q) qs d1 = Inr d2"
    "\<forall>(cpu, q) \<in> set qs. dev_cpu_get_wdt cpu d2 = Inr q"
    using wdt_slots.put_all_look [OF assms(2), of d1] assms(4) keep_wdts [OF d1(1)] by (auto simp: dev_cpu_get_wdt_def)
  have "\<forall>(cpu, p) \<in> set ps. dev_cpu_get_rtit cpu d2 = Inr p"
    using d1(2) keep_rtits [OF d2(1)] by (simp add: dev_cpu_get_rtit_def)
  with d1(1) d2 show ?thesis by blast
qed

theorem dev_cpu_slots_witness:
  "\<exists>d1 d2. res_fold (\<lambda>(cpu, p). dev_cpu_set_rtit cpu p) [(0, 0x100), (1, 0x200)] devices_init = Inr d1 \<and>
    res_fold (\<lambda>(cpu, q). dev_cpu_set_wdt cpu q) [(0, 0x300)] d1 = Inr d2 \<and> dev_cpu_get_rtit 1 d2 = Inr 0x200"
  using dev_cpu_slots [where ps = "[(0, 0x100), (1, 0x200)]" and qs = "[(0, 0x300)]" and d = devices_init]
  by (auto simp: devices_init_def)

subsection \<open>CPU affinity\<close>

definition affinity_pin_to_cpu :: "'k rtems \<Rightarrow> rtems_id \<Rightarrow> nat \<Rightarrow> 'k \<Rightarrow> (rtems_status_code \<times> 'k) res" where
  "affinity_pin_to_cpu K task_id cpu k =
     (case rt_set_affinity K task_id {cpu} k of (sc, k') \<Rightarrow>
        c_assert (sc \<noteq> RTEMS_INVALID_ADDRESS)
          (if sc = RTEMS_INVALID_NUMBER then Inl Panic else Inr (sc, k')))"

definition affinity_pin_self_to_cpu :: "'k rtems \<Rightarrow> nat \<Rightarrow> 'k \<Rightarrow> 'k res" where
  "affinity_pin_self_to_cpu K cpu k =
     res_bind (affinity_pin_to_cpu K RTEMS_SELF cpu k) (\<lambda>(sc, k').
       c_assert (sc \<noteq> RTEMS_INVALID_ID) (c_assert (sc = RTEMS_SUCCESSFUL) (Inr k')))"

theorem affinity_pin_self_outcome:
  assumes "affinity_laws K aff"
  shows "affinity_pin_self_to_cpu K cpu k = Inl Panic \<or>
    (\<exists>k'. affinity_pin_self_to_cpu K cpu k = Inr k' \<and> rt_current_cpu K k' = cpu \<and>
       aff k' = (aff k)(rt_task_self K k := {cpu}))"
proof -
  obtain sc k' where s: "rt_set_affinity K RTEMS_SELF {cpu} k = (sc, k')" by fastforce
  show ?thesis
    using affinity_laws_set [OF assms s] s
    by (auto simp: affinity_pin_self_to_cpu_def affinity_pin_to_cpu_def)
qed

theorem affinity_pin_self_outcome_witness:
  "\<exists>k'. affinity_pin_self_to_cpu demo_rtems 1 demo_k0 = Inr k' \<and> rt_current_cpu demo_rtems k' = 1"
proof -
  have "affinity_pin_self_to_cpu demo_rtems 1 demo_k0 \<noteq> Inl Panic"
    by (simp add: affinity_pin_self_to_cpu_def affinity_pin_to_cpu_def demo_rtems_def)
  with affinity_pin_self_outcome [OF demo_affinity_laws, of 1 demo_k0] show ?thesis by blast
qed

end
