(* ===== verification/Rti_Timer.thy ===== *)
theory Rti_Timer
  imports Rtems
begin

text \<open>
  The RTI timer driver (\<open>lib/drivers/hpsc-rti-timer.h\<close>, \<open>lib/drivers/hpsc-rti-timer.c\<close>).
  The register block is the device state \<open>'d\<close>, accessed through \<open>rtit_hw\<close>; a command takes
  effect when its fire code is written while the device is armed with its arm code.
\<close>

subsection \<open>Model\<close>

record 'd rtit_hw =
  hw_set_interval :: "u64 \<Rightarrow> 'd \<Rightarrow> 'd"
  hw_get_count :: "'d \<Rightarrow> u64"
  hw_set_arm :: "u32 \<Rightarrow> 'd \<Rightarrow> 'd"
  hw_set_fire :: "u32 \<Rightarrow> 'd \<Rightarrow> 'd"

text \<open>
  Documented behaviour, over observations of the device: the command it is armed with, the
  \<open>INTERVAL\<close> register, the running counter, and the interval in force.
\<close>

definition rtit_hw_laws ::
  "'d rtit_hw \<Rightarrow> ('d \<Rightarrow> u32) \<Rightarrow> ('d \<Rightarrow> u64) \<Rightarrow> ('d \<Rightarrow> u64) \<Rightarrow> ('d \<Rightarrow> u64) \<Rightarrow> bool" where
  "rtit_hw_laws hw armed reg counter period \<longleftrightarrow>
     (\<forall>v d. armed (hw_set_arm hw v d) = v \<and> reg (hw_set_arm hw v d) = reg d \<and>
        counter (hw_set_arm hw v d) = counter d \<and> period (hw_set_arm hw v d) = period d) \<and>
     (\<forall>v d. reg (hw_set_interval hw v d) = v \<and> counter (hw_set_interval hw v d) = counter d \<and>
        period (hw_set_interval hw v d) = period d) \<and>
     (\<forall>d. armed d = 0xCD01 \<longrightarrow> hw_get_count hw (hw_set_fire hw 0x01CD d) = counter d \<and>
        period (hw_set_fire hw 0x01CD d) = period d) \<and>
     (\<forall>d. armed d = 0xCD02 \<longrightarrow> period (hw_set_fire hw 0x02CD d) = reg d) \<and>
     (\<forall>v d. period (hw_set_fire hw v d) \<noteq> period d \<longrightarrow> armed d = 0xCD02 \<and> v = 0x02CD)"

record hpsc_rti_timer =
  rtit_base :: ptr
  rtit_name :: string
  rtit_vec :: rtems_vector_number
  is_started :: bool

datatype rtit_cmd = CMD_CAPTURE | CMD_LOAD

record cmd_code =
  code_arm :: u32
  code_fire :: u32

fun cmd_codes :: "rtit_cmd \<Rightarrow> cmd_code" where
  "cmd_codes CMD_CAPTURE = \<lparr>code_arm = 0xCD01, code_fire = 0x01CD\<rparr>"
| "cmd_codes CMD_LOAD = \<lparr>code_arm = 0xCD02, code_fire = 0x02CD\<rparr>"

definition exec_cmd :: "'d rtit_hw \<Rightarrow> rtit_cmd \<Rightarrow> 'd \<Rightarrow> 'd" where
  "exec_cmd hw c d = hw_set_fire hw (code_fire (cmd_codes c)) (hw_set_arm hw (code_arm (cmd_codes c)) d)"

definition hpsc_rti_timer_init :: "string \<Rightarrow> ptr \<Rightarrow> rtems_vector_number \<Rightarrow> hpsc_rti_timer" where
  "hpsc_rti_timer_init name base vec =
     \<lparr>rtit_base = base, rtit_name = name, rtit_vec = vec, is_started = False\<rparr>"

text \<open>The result of a probe: status, the pointer stored in \<open>*tmr\<close>, and its object.\<close>

definition hpsc_rti_timer_probe ::
  "'k rtems \<Rightarrow> string \<Rightarrow> ptr \<Rightarrow> rtems_vector_number \<Rightarrow> 'k \<Rightarrow>
   rtems_status_code \<times> ptr \<times> hpsc_rti_timer option \<times> 'k" where
  "hpsc_rti_timer_probe K name base vec k =
     (case rt_malloc K k of (p, k') \<Rightarrow>
        if p = NULL then (RTEMS_NO_MEMORY, p, None, k')
        else (RTEMS_SUCCESSFUL, p, Some (hpsc_rti_timer_init name base vec), k'))"

text \<open>In the operations below the timer is the pointer and the object it designates.\<close>

definition hpsc_rti_timer_remove ::
  "'k rtems \<Rightarrow> ptr \<Rightarrow> hpsc_rti_timer \<Rightarrow> 'k \<Rightarrow> (rtems_status_code \<times> hpsc_rti_timer option \<times> 'k) res" where
  "hpsc_rti_timer_remove K p tmr k =
     c_assert (p \<noteq> NULL)
       (if is_started tmr then Inr (RTEMS_RESOURCE_IN_USE, Some tmr, k)
        else Inr (RTEMS_SUCCESSFUL, None, rt_free K p k))"

definition hpsc_rti_timer_start ::
  "'k rtems \<Rightarrow> ptr \<Rightarrow> handler \<Rightarrow> ptr \<Rightarrow> hpsc_rti_timer \<Rightarrow> 'k \<Rightarrow>
   (rtems_status_code \<times> hpsc_rti_timer \<times> 'k) res" where
  "hpsc_rti_timer_start K p h arg tmr k =
     c_assert (p \<noteq> NULL)
       (case rt_int_install K (rtit_vec tmr) h arg k of (sc, k') \<Rightarrow>
          Inr (sc, if sc = RTEMS_SUCCESSFUL then tmr\<lparr>is_started := True\<rparr> else tmr, k'))"

definition hpsc_rti_timer_stop ::
  "'k rtems \<Rightarrow> ptr \<Rightarrow> handler \<Rightarrow> ptr \<Rightarrow> hpsc_rti_timer \<Rightarrow> 'k \<Rightarrow>
   (rtems_status_code \<times> hpsc_rti_timer \<times> 'k) res" where
  "hpsc_rti_timer_stop K p h arg tmr k =
     c_assert (p \<noteq> NULL)
       (case rt_int_remove K (rtit_vec tmr) h arg k of (sc, k') \<Rightarrow>
          Inr (sc, if sc = RTEMS_SUCCESSFUL then tmr\<lparr>is_started := False\<rparr> else tmr, k'))"

definition hpsc_rti_timer_capture :: "'d rtit_hw \<Rightarrow> ptr \<Rightarrow> 'd \<Rightarrow> (u64 \<times> 'd) res" where
  "hpsc_rti_timer_capture hw p d =
     c_assert (p \<noteq> NULL)
       (let d' = exec_cmd hw CMD_CAPTURE d in Inr (hw_get_count hw d', d'))"

definition hpsc_rti_timer_configure :: "'d rtit_hw \<Rightarrow> ptr \<Rightarrow> u64 \<Rightarrow> 'd \<Rightarrow> 'd res" where
  "hpsc_rti_timer_configure hw p interval d =
     c_assert (p \<noteq> NULL) (Inr (exec_cmd hw CMD_LOAD (hw_set_interval hw interval d)))"

subsection \<open>Properties\<close>

theorem rtit_capture_configure:
  assumes hw: "rtit_hw_laws hw armed reg counter period" and p: "p \<noteq> NULL"
  shows "(\<exists>d'. hpsc_rti_timer_capture hw p d = Inr (counter d, d') \<and> period d' = period d) \<and>
    (\<exists>d'. hpsc_rti_timer_configure hw p interval d = Inr d' \<and> period d' = interval)"
  using p hw
  by (simp add: rtit_hw_laws_def hpsc_rti_timer_capture_def hpsc_rti_timer_configure_def exec_cmd_def Let_def)

text \<open>A device that follows the documentation.\<close>

record demo_rtit =
  dr_interval :: u64
  dr_count :: u64
  dr_armed :: u32
  dr_counter :: u64
  dr_period :: u64

definition demo_rtit_hw :: "demo_rtit rtit_hw" where
  "demo_rtit_hw = \<lparr>hw_set_interval = (\<lambda>v d. d\<lparr>dr_interval := v\<rparr>), hw_get_count = dr_count,
     hw_set_arm = (\<lambda>v d. d\<lparr>dr_armed := v\<rparr>),
     hw_set_fire = (\<lambda>v d. if dr_armed d = 0xCD01 \<and> v = 0x01CD then d\<lparr>dr_count := dr_counter d\<rparr>
        else if dr_armed d = 0xCD02 \<and> v = 0x02CD then d\<lparr>dr_period := dr_interval d\<rparr> else d)\<rparr>"

lemma demo_rtit_laws: "rtit_hw_laws demo_rtit_hw dr_armed dr_interval dr_counter dr_period"
  by (simp add: rtit_hw_laws_def demo_rtit_hw_def)

theorem rtit_capture_configure_witness:
  "\<exists>d'. hpsc_rti_timer_capture demo_rtit_hw 0x1000
       \<lparr>dr_interval = 0, dr_count = 0, dr_armed = 0, dr_counter = 77, dr_period = 9\<rparr> = Inr (77, d')"
  using rtit_capture_configure [OF demo_rtit_laws, where p = "0x1000" and interval = 0
      and d = "\<lparr>dr_interval = 0, dr_count = 0, dr_armed = 0, dr_counter = 77, dr_period = 9\<rparr>"]
  by auto

theorem rtit_start_stop_remove:
  assumes irq: "irq_laws K irqs" and heap: "heap_laws K live" and p: "p \<noteq> NULL"
    and stopped: "\<not> is_started t" and start: "hpsc_rti_timer_start K p h arg t k = Inr (sc, t', k')"
  shows "if sc = RTEMS_SUCCESSFUL
    then hpsc_rti_timer_remove K p t' k' = Inr (RTEMS_RESOURCE_IN_USE, Some t', k') \<and>
      (rtit_vec t, h, arg) \<in> irqs k' \<and>
      (\<exists>t'' k'' k3. hpsc_rti_timer_stop K p h arg t' k' = Inr (RTEMS_SUCCESSFUL, t'', k'') \<and>
         irqs k'' = irqs k \<and> t'' = t \<and>
         hpsc_rti_timer_remove K p t'' k'' = Inr (RTEMS_SUCCESSFUL, None, k3) \<and>
         irqs k3 = irqs k \<and> live k3 = live k - {p}) \<and>
      (\<forall>h' arg'. (h', arg') \<noteq> (h, arg) \<longrightarrow>
         (\<exists>sc' k''. hpsc_rti_timer_stop K p h' arg' t' k' = Inr (sc', t', k'') \<and> sc' \<noteq> RTEMS_SUCCESSFUL))
    else t' = t \<and> irqs k' = irqs k \<and>
      (\<exists>k3. hpsc_rti_timer_remove K p t' k' = Inr (RTEMS_SUCCESSFUL, None, k3) \<and> live k3 = live k - {p})"
proof -
  obtain sc0 k1 where i: "rt_int_install K (rtit_vec t) h arg k = (sc0, k1)" by fastforce
  with start p have sc: "sc0 = sc" "k1 = k'"
    and t': "t' = (if sc = RTEMS_SUCCESSFUL then t\<lparr>is_started := True\<rparr> else t)"
    by (auto simp: hpsc_rti_timer_start_def)
  note ins = irq_laws_install [OF irq i [unfolded sc]] and liv = heap_laws_frame(2) [OF heap i [unfolded sc]]
  show ?thesis
  proof (cases "sc = RTEMS_SUCCESSFUL")
    case False
    then show ?thesis
      using ins(1) liv p stopped t' by (simp add: hpsc_rti_timer_remove_def heap_laws_frame(1) [OF heap])
  next
    case True
    then have k': "irqs k' = insert (rtit_vec t, h, arg) (irqs k)" and new: "\<And>h' a'. (rtit_vec t, h', a') \<notin> irqs k"
      using ins by simp_all
    obtain sc1 k2 where r: "rt_int_remove K (rtit_vec t) h arg k' = (sc1, k2)" by fastforce
    have rem: "sc1 = RTEMS_SUCCESSFUL" "irqs k2 = irqs k"
      using irq_laws_remove [OF irq r] k' new by simp_all
    have restored: "t\<lparr>is_started := False\<rparr> = t" using stopped by (cases t) simp
    have wrong: "\<exists>sc' k''. rt_int_remove K (rtit_vec t) h' arg' k' = (sc', k'') \<and> sc' \<noteq> RTEMS_SUCCESSFUL"
      if "(h', arg') \<noteq> (h, arg)" for h' arg'
    proof -
      obtain sc' k'' where w: "rt_int_remove K (rtit_vec t) h' arg' k' = (sc', k'')" by fastforce
      have "(rtit_vec t, h', arg') \<notin> irqs k'" using k' new that by simp
      with irq_laws_remove(2) [OF irq w] w show ?thesis by simp
    qed
    have t'_started: "t' = t\<lparr>is_started := True\<rparr>" using t' True by simp
    have busy: "hpsc_rti_timer_remove K p t' k' = Inr (RTEMS_RESOURCE_IN_USE, Some t', k')"
      using p by (simp add: t'_started hpsc_rti_timer_remove_def)
    have stop: "hpsc_rti_timer_stop K p h arg t' k' = Inr (RTEMS_SUCCESSFUL, t, k2)"
      using p r rem(1) restored by (simp add: t'_started hpsc_rti_timer_stop_def)
    have gone: "hpsc_rti_timer_remove K p t k2 = Inr (RTEMS_SUCCESSFUL, None, rt_free K p k2)"
      using p stopped by (simp add: hpsc_rti_timer_remove_def)
    have k3: "irqs (rt_free K p k2) = irqs k" "live (rt_free K p k2) = live k - {p}"
      using rem(2) liv heap_laws_frame(3) [OF heap r]
      by (simp_all add: heap_laws_frame(1) [OF heap] irq_laws_heap(2) [OF irq])
    have other: "\<forall>h' arg'. (h', arg') \<noteq> (h, arg) \<longrightarrow>
        (\<exists>sc' k''. hpsc_rti_timer_stop K p h' arg' t' k' = Inr (sc', t', k'') \<and> sc' \<noteq> RTEMS_SUCCESSFUL)"
    proof (intro allI impI)
      fix h' arg' assume "(h', arg') \<noteq> (h, arg)"
      from wrong [OF this] obtain sc' k'' where
        "rt_int_remove K (rtit_vec t) h' arg' k' = (sc', k'')" "sc' \<noteq> RTEMS_SUCCESSFUL" by blast
      with p show "\<exists>sc' k''. hpsc_rti_timer_stop K p h' arg' t' k' = Inr (sc', t', k'') \<and> sc' \<noteq> RTEMS_SUCCESSFUL"
        by (simp add: t'_started hpsc_rti_timer_stop_def)
    qed
    have inst: "(rtit_vec t, h, arg) \<in> irqs k'" using k' by simp
    show ?thesis
      unfolding if_P [OF True]
      by (intro conjI busy inst other exI [of _ t] exI [of _ k2] exI [of _ "rt_free K p k2"] stop rem(2) gone k3 refl)
  qed
qed

theorem rtit_start_stop_remove_witness:
  "\<exists>t' k'. hpsc_rti_timer_start demo_rtems 0x1000 Rtit_test_handle_event 0x2000
       (hpsc_rti_timer_init ''rtit'' 0x3000 26) demo_k0 = Inr (RTEMS_SUCCESSFUL, t', k') \<and>
     hpsc_rti_timer_remove demo_rtems 0x1000 t' k' = Inr (RTEMS_RESOURCE_IN_USE, Some t', k')"
proof -
  obtain t' k' where s: "hpsc_rti_timer_start demo_rtems 0x1000 Rtit_test_handle_event 0x2000
       (hpsc_rti_timer_init ''rtit'' 0x3000 26) demo_k0 = Inr (RTEMS_SUCCESSFUL, t', k')"
    by (simp add: hpsc_rti_timer_start_def demo_rtems_def demo_k0_def hpsc_rti_timer_init_def)
  from rtit_start_stop_remove [OF demo_irq_laws demo_heap_laws _ _ s] s show ?thesis
    by (simp add: hpsc_rti_timer_init_def)
qed

end
