(* ===== verification/World.thy ===== *)
theory World
  imports Mbox Shmem Cmd_Queue Link_Store Devices Rti_Timer
begin

text \<open>
  The state of the node that links, commands and polling tasks share, and how the
  operations of the single components act on it.

  Objects allocated by the code are kept by pointer, one map per type; an address without
  an object is null, freed or never allocated, and following it is undefined behaviour.
  \<open>w_buf\<close> holds the buffers that are passed by address and used after the call returns
  (the reply buffers of requests).  The rest of the state is the static data of
  \<open>command.c\<close>, \<open>link-store.c\<close>, \<open>devices.c\<close> and \<open>watchdog-cpu.c\<close> (the last two per processor), the
  mailbox registers, the shared memory and the kernel.
\<close>

subsection \<open>Objects\<close>

text \<open>Function pointers of a link.\<close>

datatype link_write_fn = Link_mbox_write | Link_shmem_write
datatype link_read_fn = Link_mbox_read | Link_shmem_read
datatype link_close_fn = Link_mbox_close | Link_shmem_close

record link_request_ctx =
  tid_requester :: rtems_id
  event_wait :: rtems_event_set
  tx_acked :: bool
  reply :: ptr
  reply_sz :: nat
  reply_sz_read :: nat

record link =
  l_rctx :: link_request_ctx
  l_name :: "string option"
  l_priv :: ptr
  l_write :: link_write_fn
  l_read :: link_read_fn
  l_close :: link_close_fn

record link_mbox =
  ml_mbox :: ptr
  chan_from :: nat
  chan_to :: nat

record link_shmem =
  shmem_out :: ptr
  shmem_in :: ptr
  sp_recv :: ptr
  sp_ack :: ptr

record shmem_poll =
  sp_shm :: ptr
  sp_poll_ticks :: rtems_interval
  sp_cb :: handler
  sp_cb_arg :: ptr
  sp_tid :: rtems_id
  sp_running :: bool
  sp_status_mask :: u32

record watchdog_task_ctx =
  wt_wdt :: ptr
  wt_tid :: rtems_id
  wt_ticks :: rtems_interval
  wt_cb :: handler
  wt_cb_arg :: ptr
  wt_running :: bool

datatype cmd_handler_fn = Server_process | Cmd_test_handler

record cmd_handler_ctx =
  hc_tid :: rtems_id
  hc_cb :: "cmd_handler_fn option"
  hc_timeout_ticks :: rtems_interval
  hc_running :: bool

record cmd_handled_ctx =
  hd_cb :: "cmd_handled_fn option"
  hd_cb_arg :: ptr

subsection \<open>The node\<close>

record 'k world =
  w_mbox :: "ptr \<Rightarrow> hpsc_mbox option"
  w_mreg :: "u32 \<Rightarrow> hpsc_mbox_chan_base"
  w_shm :: shm_st
  w_poll :: "ptr \<Rightarrow> shmem_poll option"
  w_link :: "ptr \<Rightarrow> link option"
  w_mlink :: "ptr \<Rightarrow> link_mbox option"
  w_slink :: "ptr \<Rightarrow> link_shmem option"
  w_buf :: "ptr \<Rightarrow> u8 list option"
  w_cmdq :: cmdq
  w_handler :: cmd_handler_ctx
  w_handled :: cmd_handled_ctx
  w_store :: "link_store_node list"
  w_devs :: devices
  w_rtit :: "ptr \<Rightarrow> hpsc_rti_timer option"
  w_wdtc :: "nat \<Rightarrow> watchdog_task_ctx"
  w_ker :: 'k

text \<open>
  What the node runs on: the kernel, the mailbox block, and the effect of the callbacks that
  clients register for handled commands.
\<close>

record 'k sys =
  sys_K :: "'k rtems"
  sys_hw :: mbox_hw
  sys_handled :: "cmd_handled_fn \<Rightarrow> ptr \<Rightarrow> cmd_status \<Rightarrow> 'k world \<Rightarrow> 'k world res"

text \<open>Initial values of the static data of \<open>command.c\<close>.\<close>

definition cmd_handler_init :: cmd_handler_ctx where
  "cmd_handler_init = \<lparr>hc_tid = RTEMS_ID_NONE, hc_cb = None, hc_timeout_ticks = 0, hc_running = False\<rparr>"

definition cmd_handled_init :: cmd_handled_ctx where
  "cmd_handled_init = \<lparr>hd_cb = None, hd_cb_arg = NULL\<rparr>"

subsection \<open>Component operations on the node\<close>

definition mbox_run :: "ptr \<Rightarrow> (mbox_st \<Rightarrow> ('a \<times> mbox_st) res) \<Rightarrow> 'k world \<Rightarrow> ('a \<times> 'k world) res" where
  "mbox_run m f w =
     c_assert (m \<noteq> NULL)
       (c_deref (w_mbox w m) (\<lambda>mb.
         res_bind (f \<lparr>st_mbox = mb, st_regs = w_mreg w\<rparr>) (\<lambda>(r, s).
           Inr (r, w\<lparr>w_mbox := (w_mbox w)(m \<mapsto> st_mbox s), w_mreg := st_regs s\<rparr>))))"

definition mbox_do :: "ptr \<Rightarrow> (mbox_st \<Rightarrow> mbox_st res) \<Rightarrow> 'k world \<Rightarrow> 'k world res" where
  "mbox_do m f w =
     res_bind (mbox_run m (\<lambda>s. res_bind (f s) (\<lambda>s'. Inr ((), s'))) w) (\<lambda>(_, w'). Inr w')"

definition shm_run :: "(shm_st \<Rightarrow> ('a \<times> shm_st) res) \<Rightarrow> 'k world \<Rightarrow> ('a \<times> 'k world) res" where
  "shm_run f w = res_bind (f (w_shm w)) (\<lambda>(r, s). Inr (r, w\<lparr>w_shm := s\<rparr>))"

definition shm_do :: "(shm_st \<Rightarrow> shm_st res) \<Rightarrow> 'k world \<Rightarrow> 'k world res" where
  "shm_do f w = res_bind (f (w_shm w)) (\<lambda>s. Inr (w\<lparr>w_shm := s\<rparr>))"

definition event_send :: "'k sys \<Rightarrow> rtems_id \<Rightarrow> rtems_event_set \<Rightarrow> 'k world \<Rightarrow> rtems_status_code \<times> 'k world" where
  "event_send sys t ev w = (case rt_event_send (sys_K sys) t ev (w_ker w) of (sc, k) \<Rightarrow> (sc, w\<lparr>w_ker := k\<rparr>))"

text \<open>
  A blocking \<open>rtems_event_receive\<close> in mode \<open>RTEMS_EVENT_ANY\<close>: \<open>env ticks\<close> is what interrupts and
  other tasks do until the wait ends; then the task takes those of the requested events
  that are pending, none if the wait timed out.
\<close>

type_synonym 'k env = "rtems_interval \<Rightarrow> 'k world \<Rightarrow> 'k world res"

definition event_receive ::
  "'k sys \<Rightarrow> 'k env \<Rightarrow> rtems_event_set \<Rightarrow> rtems_interval \<Rightarrow> 'k world \<Rightarrow> (rtems_event_set \<times> 'k world) res" where
  "event_receive sys env event_in ticks w =
     res_bind (env ticks w) (\<lambda>w1.
       case rt_event_take (sys_K sys) event_in (w_ker w1) of (ev, k) \<Rightarrow> Inr (ev, w1\<lparr>w_ker := k\<rparr>))"

text \<open>
  Allocation and release.  \<open>yield\<close> is one slice of other tasks while the caller waits; the
  waiting loops of the code yield until a flag changes.
\<close>

definition w_malloc :: "'k sys \<Rightarrow> 'k world \<Rightarrow> ptr \<times> 'k world" where
  "w_malloc sys w = (case rt_malloc (sys_K sys) (w_ker w) of (p, k) \<Rightarrow> (p, w\<lparr>w_ker := k\<rparr>))"

definition w_free :: "'k sys \<Rightarrow> ptr \<Rightarrow> 'k world \<Rightarrow> 'k world" where
  "w_free sys p w = w\<lparr>w_ker := rt_free (sys_K sys) p (w_ker w)\<rparr>"

fun wait_while ::
  "('k world \<Rightarrow> bool res) \<Rightarrow> ('k world \<Rightarrow> 'k world res) \<Rightarrow> nat \<Rightarrow> 'k world \<Rightarrow> 'k world res" where
  "wait_while cond yield 0 w = res_bind (cond w) (\<lambda>b. if b then Inl Out_Of_Fuel else Inr w)"
| "wait_while cond yield (Suc n) w =
     res_bind (cond w) (\<lambda>b. if b then res_bind (yield w) (wait_while cond yield n) else Inr w)"

text \<open>A waiting loop ends if every slice of the others brings it closer to its end.\<close>

lemma wait_while_ends:
  assumes "I w" and "m w \<le> fuel"
    and "\<And>w. I w \<Longrightarrow> cond w = Inr (0 < m w)"
    and "\<And>w. I w \<Longrightarrow> 0 < m w \<Longrightarrow> \<exists>w'. yield w = Inr w' \<and> I w' \<and> m w' < m w"
  shows "\<exists>w'. wait_while cond yield fuel w = Inr w' \<and> I w' \<and> m w' = (0 :: nat)"
  using assms(1,2)
proof (induction fuel arbitrary: w)
  case 0
  then show ?case using assms(3) by simp
next
  case (Suc n)
  show ?case
  proof (cases "m w = 0")
    case True
    with Suc.prems assms(3) show ?thesis by simp
  next
    case False
    with Suc.prems assms(4) obtain w1 where "yield w = Inr w1" "I w1" "m w1 < m w" by blast
    with Suc False assms(3) [OF Suc.prems(1)] show ?thesis by simp
  qed
qed

definition upd_link :: "ptr \<Rightarrow> (link \<Rightarrow> link) \<Rightarrow> 'k world \<Rightarrow> 'k world res" where
  "upd_link l f w = c_deref (w_link w l) (\<lambda>lk. Inr (w\<lparr>w_link := (w_link w)(l \<mapsto> f lk)\<rparr>))"

definition upd_rctx :: "ptr \<Rightarrow> (link_request_ctx \<Rightarrow> link_request_ctx) \<Rightarrow> 'k world \<Rightarrow> 'k world res" where
  "upd_rctx l f = upd_link l (\<lambda>lk. lk\<lparr>l_rctx := f (l_rctx lk)\<rparr>)"

lemma upd_rctx_Some [simp]:
  "w_link w l = Some lk \<Longrightarrow> upd_rctx l f w = Inr (w\<lparr>w_link := (w_link w)(l \<mapsto> lk\<lparr>l_rctx := f (l_rctx lk)\<rparr>)\<rparr>)"
  by (simp add: upd_rctx_def upd_link_def)

subsection \<open>Putting commands into the queue\<close>

text \<open>\<open>cmd_enqueue_cb\<close> and \<open>cmd_enqueue\<close> of \<open>command.c\<close>.\<close>

definition CMD_EVENT_NEW :: rtems_event_set where "CMD_EVENT_NEW = RTEMS_EVENT_0"
definition CMD_EVENT_EXIT :: rtems_event_set where "CMD_EVENT_EXIT = RTEMS_EVENT_1"
definition CMD_EVENT_LINK :: rtems_event_set where "CMD_EVENT_LINK = RTEMS_EVENT_2"

definition cmd_enqueue_cb ::
  "'k sys \<Rightarrow> cmd option \<Rightarrow> cmd_handled_fn option \<Rightarrow> ptr \<Rightarrow> 'k world \<Rightarrow> (int \<times> 'k world) res" where
  "cmd_enqueue_cb sys c fn arg w =
     res_bind (cmd_enqueue_cb_unsafe c fn arg (w_cmdq w)) (\<lambda>(rc, q).
       let w1 = w\<lparr>w_cmdq := q\<rparr> in
       if rc = 0 \<and> hc_tid (w_handler w1) \<noteq> RTEMS_ID_NONE
       then (case event_send sys (hc_tid (w_handler w1)) CMD_EVENT_NEW w1 of
               (sc, w2) \<Rightarrow> Inr (if sc \<noteq> RTEMS_SUCCESSFUL then 1 else 0, w2))
       else Inr (rc, w1))"

definition cmd_enqueue :: "'k sys \<Rightarrow> cmd option \<Rightarrow> 'k world \<Rightarrow> (int \<times> 'k world) res" where
  "cmd_enqueue sys c = cmd_enqueue_cb sys c None NULL"

theorem cmd_enqueue_cb_outcome:
  assumes wf: "cmdq_wf (w_cmdq w)" and room: "length (cmdq_list (w_cmdq w)) < CMDQ_LEN - 1"
    and ev: "event_laws (sys_K sys) pend"
  shows "\<exists>rc w'. cmd_enqueue_cb sys (Some c) fn arg w = Inr (rc, w') \<and> cmdq_wf (w_cmdq w') \<and>
    cmdq_list (w_cmdq w') = cmdq_list (w_cmdq w) @ [\<lparr>it_cmd = c, it_cb = fn, it_arg = arg\<rparr>] \<and>
    (if hc_tid (w_handler w) = RTEMS_ID_NONE then rc = 0 \<and> w_ker w' = w_ker w
     else rc = (if fst (rt_event_send (sys_K sys) (hc_tid (w_handler w)) CMD_EVENT_NEW (w_ker w)) = RTEMS_SUCCESSFUL
                then 0 else 1) \<and>
       pend (w_ker w') = (if rc = 0 then (pend (w_ker w))(hc_tid (w_handler w) :=
           pend (w_ker w) (hc_tid (w_handler w)) OR CMD_EVENT_NEW) else pend (w_ker w)))"
proof -
  obtain q' where q: "cmd_enqueue_cb_unsafe (Some c) fn arg (w_cmdq w) = Inr (0, q')" "cmdq_wf q'"
    "cmdq_list q' = cmdq_list (w_cmdq w) @ [\<lparr>it_cmd = c, it_cb = fn, it_arg = arg\<rparr>]"
    using cmdq_enqueue_ok [OF wf room] by blast
  obtain sc k where s: "rt_event_send (sys_K sys) (hc_tid (w_handler w)) CMD_EVENT_NEW (w_ker w) = (sc, k)" by fastforce
  show ?thesis
    using q s event_laws_send(1) [OF ev s] by (simp add: cmd_enqueue_cb_def event_send_def Let_def)
qed

end
