(* ===== verification/Link_Mbox.thy ===== *)
theory Link_Mbox
  imports World
begin

text \<open>
  Links over mailboxes (\<open>lib/hpsc/link-mbox.h\<close>, \<open>lib/hpsc/link-mbox.c\<close>), with the two functions of
  \<open>lib/hpsc/link.c\<close> that link implementations call: \<open>link_init\<close> and \<open>link_ack\<close>.
\<close>

subsection \<open>For link implementations\<close>

text \<open>\<open>raw\<close> is what the allocated object contains before.\<close>

definition link_init :: "link \<Rightarrow> string \<Rightarrow> ptr \<Rightarrow> link" where
  "link_init raw name priv = raw\<lparr>
     l_rctx := (l_rctx raw)\<lparr>tid_requester := RTEMS_ID_NONE, tx_acked := False, reply := NULL\<rparr>,
     l_name := Some name, l_priv := priv\<rparr>"

text \<open>Telling the requesting task, if there is one; a failure to reach it stops the node.\<close>

definition notify_requester :: "'k sys \<Rightarrow> ptr \<Rightarrow> 'k world \<Rightarrow> 'k world res" where
  "notify_requester sys l w =
     c_deref (w_link w l) (\<lambda>lk.
       if tid_requester (l_rctx lk) \<noteq> RTEMS_ID_NONE
       then (case event_send sys (tid_requester (l_rctx lk)) (event_wait (l_rctx lk)) w of
               (sc, w') \<Rightarrow> if sc \<noteq> RTEMS_SUCCESSFUL then Inl Panic else Inr w')
       else Inr w)"

definition link_ack :: "'k sys \<Rightarrow> ptr \<Rightarrow> 'k world \<Rightarrow> 'k world res" where
  "link_ack sys l w =
     res_bind (upd_rctx l (\<lambda>r. r\<lparr>tx_acked := True\<rparr>) w) (notify_requester sys l)"

subsection \<open>Operations of a mailbox link\<close>

definition link_mbox_ack :: "'k sys \<Rightarrow> ptr \<Rightarrow> 'k world \<Rightarrow> 'k world res" where
  "link_mbox_ack sys l w =
     c_deref (w_link w l) (\<lambda>lk.
       res_bind (link_ack sys l w) (\<lambda>w1.
         c_deref (w_mlink w1 (l_priv lk)) (\<lambda>ml.
           mbox_do (ml_mbox ml) (hpsc_mbox_chan_event_clear_ack (sys_hw sys) (chan_to ml)) w1)))"

definition link_mbox_write ::
  "'k sys \<Rightarrow> ptr \<Rightarrow> cbuf option \<Rightarrow> nat \<Rightarrow> 'k world \<Rightarrow> (nat \<times> 'k world) res" where
  "link_mbox_write sys l buf sz w =
     c_deref (w_link w l) (\<lambda>lk. c_deref (w_mlink w (l_priv lk)) (\<lambda>ml.
       res_bind (mbox_run (ml_mbox ml)
           (hpsc_mbox_chan_write (chan_to ml) (map_option buf_bytes buf) sz) w) (\<lambda>(rc, w1).
         res_bind (mbox_do (ml_mbox ml)
           (hpsc_mbox_chan_event_set_rcv (sys_hw sys) (chan_to ml)) w1) (\<lambda>w2. Inr (rc, w2)))))"

definition link_mbox_read ::
  "'k sys \<Rightarrow> ptr \<Rightarrow> cbuf option \<Rightarrow> nat \<Rightarrow> 'k world \<Rightarrow> (nat \<times> u8 list \<times> 'k world) res" where
  "link_mbox_read sys l buf sz w =
     c_deref (w_link w l) (\<lambda>lk. c_deref (w_mlink w (l_priv lk)) (\<lambda>ml.
       res_bind (mbox_run (ml_mbox ml) (\<lambda>s. res_bind
           (hpsc_mbox_chan_read (chan_from ml) (map_option buf_bytes buf) sz s) (\<lambda>r. Inr (r, s))) w)
         (\<lambda>((rc, bytes), w1).
         res_bind (mbox_do (ml_mbox ml)
           (hpsc_mbox_chan_event_clear_rcv (sys_hw sys) (chan_from ml)) w1) (\<lambda>w2.
         res_bind (mbox_do (ml_mbox ml)
           (hpsc_mbox_chan_event_set_ack (sys_hw sys) (chan_from ml)) w2) (\<lambda>w3.
         Inr (rc, bytes, w3))))))"

definition release_chan :: "'k sys \<Rightarrow> ptr \<Rightarrow> nat \<Rightarrow> 'k world \<Rightarrow> (rtems_status_code \<times> 'k world) res" where
  "release_chan sys m i w =
     mbox_run m (hpsc_mbox_chan_release (sys_hw sys) (rt_int_in_progress (sys_K sys) (w_ker w)) i) w"

definition claim_chan ::
  "'k sys \<Rightarrow> ptr \<Rightarrow> nat \<Rightarrow> u8 \<Rightarrow> u8 \<Rightarrow> u8 \<Rightarrow> handler option \<Rightarrow> handler option \<Rightarrow> ptr \<Rightarrow>
   'k world \<Rightarrow> (rtems_status_code \<times> 'k world) res" where
  "claim_chan sys m i owner src dest ca cbb arg w =
     mbox_run m (hpsc_mbox_chan_claim (sys_hw sys) (rt_int_in_progress (sys_K sys) (w_ker w))
       i owner src dest ca cbb arg) w"

definition free_mlink :: "'k sys \<Rightarrow> ptr \<Rightarrow> 'k world \<Rightarrow> 'k world" where
  "free_mlink sys p w = w_free sys p (w\<lparr>w_mlink := (w_mlink w)(p := None)\<rparr>)"

definition free_link :: "'k sys \<Rightarrow> ptr \<Rightarrow> 'k world \<Rightarrow> 'k world" where
  "free_link sys p w = w_free sys p (w\<lparr>w_link := (w_link w)(p := None)\<rparr>)"

definition link_mbox_close :: "'k sys \<Rightarrow> ptr \<Rightarrow> 'k world \<Rightarrow> (int \<times> 'k world) res" where
  "link_mbox_close sys l w =
     c_deref (w_link w l) (\<lambda>lk. c_deref (w_mlink w (l_priv lk)) (\<lambda>ml.
       res_bind (release_chan sys (ml_mbox ml) (chan_from ml) w) (\<lambda>(sc, w1).
       res_bind (release_chan sys (ml_mbox ml) (chan_to ml) w1) (\<lambda>(sc', w2).
         Inr (if sc \<noteq> RTEMS_SUCCESSFUL \<or> sc' \<noteq> RTEMS_SUCCESSFUL then 1 else 0,
              free_link sys l (free_mlink sys (l_priv lk) w2))))))"

definition link_mbox_connect ::
  "'k sys \<Rightarrow> link \<Rightarrow> string \<Rightarrow> ptr \<Rightarrow> nat \<Rightarrow> nat \<Rightarrow> u8 \<Rightarrow> u8 \<Rightarrow> 'k world \<Rightarrow> (ptr \<times> 'k world) res" where
  "link_mbox_connect sys raw name mbox idx_from idx_to server client w =
     (let rcv_cb = (if server \<noteq> 0 then Link_recv_cmd else Link_recv_reply) in
      case w_malloc sys w of (link, w1) \<Rightarrow>
      if link = NULL then Inr (NULL, w1)
      else case w_malloc sys w1 of (mlink, w2) \<Rightarrow>
      if mlink = NULL then Inr (NULL, free_link sys link w2)
      else
        let lk = (link_init raw name mlink)\<lparr>l_write := Link_mbox_write, l_read := Link_mbox_read,
                   l_close := Link_mbox_close\<rparr>;
            w3 = w2\<lparr>w_link := (w_link w2)(link \<mapsto> lk),
                    w_mlink := (w_mlink w2)(mlink \<mapsto>
                      \<lparr>ml_mbox = mbox, chan_from = idx_from, chan_to = idx_to\<rparr>)\<rparr> in
        res_bind (claim_chan sys mbox idx_from server client server (Some rcv_cb) None link w3)
          (\<lambda>(sc, w4).
           if sc \<noteq> RTEMS_SUCCESSFUL
           then Inr (NULL, free_link sys link (free_mlink sys mlink w4))
           else res_bind (claim_chan sys mbox idx_to server server client None (Some Link_mbox_ack) link w4)
             (\<lambda>(sc', w5).
              if sc' \<noteq> RTEMS_SUCCESSFUL
              then res_bind (release_chan sys mbox idx_from w5) (\<lambda>(_, w6).
                     Inr (NULL, free_link sys link (free_mlink sys mlink w6)))
              else Inr (link, w5))))"

end
