(* ===== verification/Shmem_Poll.thy ===== *)
theory Shmem_Poll
  imports World
begin

text \<open>
  Polling tasks on shared memory (\<open>lib/hpsc/shmem-poll.h\<close>, \<open>lib/hpsc/shmem-poll.c\<close>).  \<open>call h arg\<close> is
  the effect of calling the function \<open>h\<close>; the callbacks are those of links.
\<close>

subsection \<open>Model\<close>

definition SHM_EVENT_EXIT :: rtems_event_set where "SHM_EVENT_EXIT = RTEMS_EVENT_0"

definition shmem_poll_init ::
  "ptr \<Rightarrow> rtems_interval \<Rightarrow> u32 \<Rightarrow> rtems_id \<Rightarrow> handler \<Rightarrow> ptr \<Rightarrow> shmem_poll" where
  "shmem_poll_init shm ticks msk tid h arg =
     \<lparr>sp_shm = shm, sp_poll_ticks = ticks, sp_cb = h, sp_cb_arg = arg, sp_tid = tid,
      sp_running = True, sp_status_mask = msk\<rparr>"

text \<open>One turn of the loop of \<open>shm_poll_task\<close>; the result says whether the task has exited.\<close>

definition shm_poll_turn ::
  "'k sys \<Rightarrow> (handler \<Rightarrow> ptr \<Rightarrow> 'k world \<Rightarrow> 'k world res) \<Rightarrow> 'k env \<Rightarrow> ptr \<Rightarrow> 'k world \<Rightarrow> (bool \<times> 'k world) res"
  where
  "shm_poll_turn sys call env sp w =
     c_deref (w_poll w sp) (\<lambda>p0.
       res_bind (event_receive sys env SHM_EVENT_EXIT (sp_poll_ticks p0) w) (\<lambda>(events, w1).
         c_deref (w_poll w1 sp) (\<lambda>p.
           if events AND SHM_EVENT_EXIT \<noteq> 0
           then Inr (True, w1\<lparr>w_poll := (w_poll w1)(sp \<mapsto> p\<lparr>sp_running := False\<rparr>),
                              w_ker := rt_task_exit (sys_K sys) (w_ker w1)\<rparr>)
           else res_bind (shmem_get_status (sp_shm p) (w_shm w1)) (\<lambda>status.
             if status AND sp_status_mask p \<noteq> 0
             then res_bind (call (sp_cb p) (sp_cb_arg p) w1) (\<lambda>w2. Inr (False, w2))
             else Inr (False, w1)))))"

text \<open>At most \<open>n\<close> turns of the task.\<close>

fun shm_poll_task ::
  "'k sys \<Rightarrow> (handler \<Rightarrow> ptr \<Rightarrow> 'k world \<Rightarrow> 'k world res) \<Rightarrow> 'k env list \<Rightarrow> ptr \<Rightarrow> 'k world \<Rightarrow> (bool \<times> 'k world) res"
  where
  "shm_poll_task sys call [] sp w = Inr (False, w)"
| "shm_poll_task sys call (env # envs) sp w =
     res_bind (shm_poll_turn sys call env sp w) (\<lambda>(exited, w').
       if exited then Inr (True, w') else shm_poll_task sys call envs sp w')"

definition shmem_poll_task_start ::
  "'k sys \<Rightarrow> ptr \<Rightarrow> rtems_interval \<Rightarrow> u32 \<Rightarrow> rtems_id \<Rightarrow> handler \<Rightarrow> ptr \<Rightarrow> 'k world \<Rightarrow>
   (rtems_status_code \<times> ptr \<times> 'k world) res" where
  "shmem_poll_task_start sys shm ticks msk tid h arg w =
     c_assert (shm \<noteq> NULL) (c_assert (ticks \<noteq> 0)
       (case w_malloc sys w of (sp, w1) \<Rightarrow>
          if sp = NULL then Inr (RTEMS_NO_MEMORY, NULL, w1)
          else let w2 = w1\<lparr>w_poll := (w_poll w1)(sp \<mapsto> shmem_poll_init shm ticks msk tid h arg)\<rparr> in
          (case rt_task_start (sys_K sys) tid Shm_poll_task sp (w_ker w2) of (sc, k) \<Rightarrow>
             let w3 = w2\<lparr>w_ker := k\<rparr> in
             if sc \<noteq> RTEMS_SUCCESSFUL
             then Inr (sc, NULL, w_free sys sp (w3\<lparr>w_poll := (w_poll w3)(sp := None)\<rparr>))
             else Inr (RTEMS_SUCCESSFUL, sp, w3))))"

definition poll_running :: "ptr \<Rightarrow> 'k world \<Rightarrow> bool res" where
  "poll_running sp w = c_deref (w_poll w sp) (\<lambda>p. Inr (sp_running p))"

definition shmem_poll_task_destroy ::
  "'k sys \<Rightarrow> ('k world \<Rightarrow> 'k world res) \<Rightarrow> nat \<Rightarrow> ptr \<Rightarrow> 'k world \<Rightarrow> (rtems_status_code \<times> 'k world) res" where
  "shmem_poll_task_destroy sys yield fuel sp w =
     c_assert (sp \<noteq> NULL)
       (c_deref (w_poll w sp) (\<lambda>p.
         case event_send sys (sp_tid p) SHM_EVENT_EXIT w of (sc, w1) \<Rightarrow>
           if sc = RTEMS_SUCCESSFUL
           then c_assert (sp_tid p \<noteq> rt_task_self (sys_K sys) (w_ker w1))
             (res_bind (wait_while (poll_running sp) yield fuel w1) (\<lambda>w2.
                Inr (sc, w_free sys sp (w2\<lparr>w_poll := (w_poll w2)(sp := None)\<rparr>))))
           else Inr (sc, w1)))"

end
