(* ===== verification/Link_Shmem.thy ===== *)
theory Link_Shmem
  imports Link_Mbox Shmem_Poll
begin

text \<open>
  Links over shared memory (\<open>lib/hpsc/link-shmem.h\<close>, \<open>lib/hpsc/link-shmem.c\<close>): an outgoing and an
  incoming region, each watched by a polling task.
\<close>

subsection \<open>Operations of a shared memory link\<close>

definition link_shmem_ack :: "'k sys \<Rightarrow> ptr \<Rightarrow> 'k world \<Rightarrow> 'k world res" where
  "link_shmem_ack sys l w =
     c_deref (w_link w l) (\<lambda>lk.
       res_bind (link_ack sys l w) (\<lambda>w1.
         c_deref (w_slink w1 (l_priv lk)) (\<lambda>sl. shm_do (shmem_set_ack (shmem_out sl) False) w1)))"

definition link_shmem_write ::
  "'k sys \<Rightarrow> ptr \<Rightarrow> cbuf option \<Rightarrow> nat \<Rightarrow> 'k world \<Rightarrow> (nat \<times> 'k world) res" where
  "link_shmem_write sys l buf sz w =
     c_deref (w_link w l) (\<lambda>lk. c_deref (w_slink w (l_priv lk)) (\<lambda>sl.
       res_bind (shm_run (shmem_write (shmem_out sl) buf sz) w) (\<lambda>(rc, w1).
         res_bind (shm_do (shmem_set_new (shmem_out sl) True) w1) (\<lambda>w2. Inr (rc, w2)))))"

definition link_shmem_read ::
  "'k sys \<Rightarrow> ptr \<Rightarrow> cbuf option \<Rightarrow> nat \<Rightarrow> 'k world \<Rightarrow> (nat \<times> u8 list \<times> 'k world) res" where
  "link_shmem_read sys l buf sz w =
     c_deref (w_link w l) (\<lambda>lk. c_deref (w_slink w (l_priv lk)) (\<lambda>sl.
       res_bind (shmem_read (shmem_in sl) buf sz (w_shm w)) (\<lambda>(rc, bytes).
       res_bind (shm_do (shmem_set_new (shmem_in sl) False) w) (\<lambda>w1.
       res_bind (shm_do (shmem_set_ack (shmem_in sl) True) w1) (\<lambda>w2.
         Inr (rc, bytes, w2))))))"

definition free_slink :: "'k sys \<Rightarrow> ptr \<Rightarrow> 'k world \<Rightarrow> 'k world" where
  "free_slink sys p w = w_free sys p (w\<lparr>w_slink := (w_slink w)(p := None)\<rparr>)"

definition close_shm :: "'k sys \<Rightarrow> ptr \<Rightarrow> 'k world \<Rightarrow> 'k world res" where
  "close_shm sys s w = res_bind (shmem_close (sys_K sys) s (w_shm w) (w_ker w))
     (\<lambda>(st, k). Inr (w\<lparr>w_shm := st, w_ker := k\<rparr>))"

definition open_shm :: "'k sys \<Rightarrow> ptr \<Rightarrow> 'k world \<Rightarrow> (ptr \<times> 'k world) res" where
  "open_shm sys addr w = res_bind (shmem_open (sys_K sys) addr (w_shm w) (w_ker w))
     (\<lambda>(s, st, k). Inr (s, w\<lparr>w_shm := st, w_ker := k\<rparr>))"

definition link_shmem_close ::
  "'k sys \<Rightarrow> ('k world \<Rightarrow> 'k world res) \<Rightarrow> nat \<Rightarrow> ptr \<Rightarrow> 'k world \<Rightarrow> (int \<times> 'k world) res" where
  "link_shmem_close sys yield fuel l w =
     c_deref (w_link w l) (\<lambda>lk. c_deref (w_slink w (l_priv lk)) (\<lambda>sl.
       res_bind (shmem_poll_task_destroy sys yield fuel (sp_ack sl) w) (\<lambda>(sc, w1).
       res_bind (shmem_poll_task_destroy sys yield fuel (sp_recv sl) w1) (\<lambda>(sc', w2).
       res_bind (close_shm sys (shmem_out sl) w2) (\<lambda>w3.
       res_bind (close_shm sys (shmem_in sl) w3) (\<lambda>w4.
         Inr (if sc \<noteq> RTEMS_SUCCESSFUL \<or> sc' \<noteq> RTEMS_SUCCESSFUL then -1 else 0,
              free_link sys l (free_slink sys (l_priv lk) w4))))))))"

text \<open>The result of \<open>link_shmem_init\<close>: its return value and the fields it has set.\<close>

definition link_shmem_init ::
  "'k sys \<Rightarrow> ('k world \<Rightarrow> 'k world res) \<Rightarrow> nat \<Rightarrow> ptr \<Rightarrow> ptr \<Rightarrow> ptr \<Rightarrow> bool \<Rightarrow> rtems_interval \<Rightarrow>
   rtems_id \<Rightarrow> rtems_id \<Rightarrow> 'k world \<Rightarrow> (int \<times> link_shmem \<times> 'k world) res" where
  "link_shmem_init sys yield fuel link addr_out addr_in is_server poll_ticks tid_recv tid_ack w =
     (let none = \<lparr>shmem_out = NULL, shmem_in = NULL, sp_recv = NULL, sp_ack = NULL\<rparr> in
      res_bind (open_shm sys addr_out w) (\<lambda>(out, w1).
      if out = NULL then Inr (-1, none, w1)
      else res_bind (open_shm sys addr_in w1) (\<lambda>(inp, w2).
      if inp = NULL then res_bind (close_shm sys out w2) (\<lambda>w3. Inr (-1, none, w3))
      else res_bind (shmem_poll_task_start sys inp poll_ticks HPSC_SHMEM_STATUS_BIT_NEW tid_recv
             (if is_server then Link_recv_cmd else Link_recv_reply) link w2) (\<lambda>(sc, recv, w3).
      if sc \<noteq> RTEMS_SUCCESSFUL
      then res_bind (close_shm sys inp w3) (\<lambda>w4.
           res_bind (close_shm sys out w4) (\<lambda>w5. Inr (-1, none, w5)))
      else res_bind (shmem_poll_task_start sys out poll_ticks HPSC_SHMEM_STATUS_BIT_ACK tid_ack
             Link_shmem_ack link w3) (\<lambda>(sc', ack, w4).
      if sc' \<noteq> RTEMS_SUCCESSFUL
      then res_bind (shmem_poll_task_destroy sys yield fuel recv w4) (\<lambda>(_, w5).
           res_bind (close_shm sys inp w5) (\<lambda>w6.
           res_bind (close_shm sys out w6) (\<lambda>w7. Inr (-1, none, w7))))
      else Inr (0, \<lparr>shmem_out = out, shmem_in = inp, sp_recv = recv, sp_ack = ack\<rparr>, w4))))))"

definition link_shmem_connect ::
  "'k sys \<Rightarrow> ('k world \<Rightarrow> 'k world res) \<Rightarrow> nat \<Rightarrow> link \<Rightarrow> string \<Rightarrow> ptr \<Rightarrow> ptr \<Rightarrow> bool \<Rightarrow>
   rtems_interval \<Rightarrow> rtems_id \<Rightarrow> rtems_id \<Rightarrow> 'k world \<Rightarrow> (ptr \<times> 'k world) res" where
  "link_shmem_connect sys yield fuel raw name addr_out addr_in is_server poll_ticks tid_recv tid_ack w =
     c_assert (addr_out \<noteq> NULL) (c_assert (addr_in \<noteq> NULL)
      (case w_malloc sys w of (link, w1) \<Rightarrow>
       if link = NULL then Inr (NULL, w1)
       else case w_malloc sys w1 of (slink, w2) \<Rightarrow>
       if slink = NULL then Inr (NULL, free_link sys link w2)
       else
         let lk = (link_init raw name slink)\<lparr>l_write := Link_shmem_write, l_read := Link_shmem_read,
                    l_close := Link_shmem_close\<rparr>;
             w3 = w2\<lparr>w_link := (w_link w2)(link \<mapsto> lk)\<rparr> in
         res_bind (link_shmem_init sys yield fuel link addr_out addr_in is_server poll_ticks tid_recv tid_ack w3)
           (\<lambda>(rc, sl, w4).
            if rc \<noteq> 0 then Inr (NULL, free_link sys link (free_slink sys slink w4))
            else Inr (link, w4\<lparr>w_slink := (w_slink w4)(slink \<mapsto> sl)\<rparr>))))"

end
