(* ===== verification/Link.thy ===== *)
theory Link
  imports Link_Shmem
begin

text \<open>
  Links as their users see them (\<open>lib/hpsc/link.h\<close>, \<open>lib/hpsc/link.c\<close>): calls through the function
  pointers of a link, requests, and the callbacks that mailbox interrupts and polling tasks
  run.  A request blocks in \<open>rtems_event_receive\<close>; what happens meanwhile is an environment
  argument, one for each wait.
\<close>

subsection \<open>Calls through the function pointers\<close>

definition link_write ::
  "'k sys \<Rightarrow> ptr \<Rightarrow> cbuf option \<Rightarrow> nat \<Rightarrow> 'k world \<Rightarrow> (nat \<times> 'k world) res" where
  "link_write sys l buf sz w =
     c_deref (w_link w l) (\<lambda>lk. case l_write lk of
         Link_mbox_write \<Rightarrow> link_mbox_write sys l buf sz w
       | Link_shmem_write \<Rightarrow> link_shmem_write sys l buf sz w)"

definition link_read ::
  "'k sys \<Rightarrow> ptr \<Rightarrow> cbuf option \<Rightarrow> nat \<Rightarrow> 'k world \<Rightarrow> (nat \<times> u8 list \<times> 'k world) res" where
  "link_read sys l buf sz w =
     c_deref (w_link w l) (\<lambda>lk. case l_read lk of
         Link_mbox_read \<Rightarrow> link_mbox_read sys l buf sz w
       | Link_shmem_read \<Rightarrow> link_shmem_read sys l buf sz w)"

definition link_disconnect ::
  "'k sys \<Rightarrow> ('k world \<Rightarrow> 'k world res) \<Rightarrow> nat \<Rightarrow> ptr \<Rightarrow> 'k world \<Rightarrow> (int \<times> 'k world) res" where
  "link_disconnect sys yield fuel l w =
     c_deref (w_link w l) (\<lambda>lk. case l_close lk of
         Link_mbox_close \<Rightarrow> link_mbox_close sys l w
       | Link_shmem_close \<Rightarrow> link_shmem_close sys yield fuel l w)"

subsection \<open>Requests\<close>

text \<open>\<open>_link_request_send\<close>: write, then wait for the acknowledgement.\<close>

definition link_request_send_wait ::
  "'k sys \<Rightarrow> 'k env \<Rightarrow> ptr \<Rightarrow> cbuf option \<Rightarrow> nat \<Rightarrow> rtems_interval \<Rightarrow> 'k world \<Rightarrow> (nat \<times> 'k world) res" where
  "link_request_send_wait sys env l buf sz ticks w =
     res_bind (upd_rctx l (\<lambda>r. r\<lparr>tx_acked := False\<rparr>) w) (\<lambda>w1.
     res_bind (link_write sys l buf sz w1) (\<lambda>(rc, w2).
       if rc = 0 then Inr (0, w2)
       else c_deref (w_link w2 l) (\<lambda>lk.
         res_bind (event_receive sys env (event_wait (l_rctx lk)) ticks w2) (\<lambda>(events, w3).
         c_deref (w_link w3 l) (\<lambda>lk'.
           if events AND event_wait (l_rctx lk') \<noteq> 0
           then c_assert (tx_acked (l_rctx lk')) (Inr (rc, w3))
           else Inr (0, w3))))))"

text \<open>\<open>_link_request_recv\<close>: wait for the reply.\<close>

definition link_request_recv_wait ::
  "'k sys \<Rightarrow> 'k env \<Rightarrow> ptr \<Rightarrow> rtems_interval \<Rightarrow> 'k world \<Rightarrow> (int \<times> 'k world) res" where
  "link_request_recv_wait sys env l ticks w =
     c_deref (w_link w l) (\<lambda>lk.
       res_bind (event_receive sys env (event_wait (l_rctx lk)) ticks w) (\<lambda>(events, w1).
       c_deref (w_link w1 l) (\<lambda>lk'.
         let rc = (if events AND event_wait (l_rctx lk') \<noteq> 0 then int (reply_sz_read (l_rctx lk')) else -2)
         in res_bind (upd_rctx l (\<lambda>r. r\<lparr>tid_requester := RTEMS_ID_NONE\<rparr>) w1) (\<lambda>w2. Inr (rc, w2)))))"

definition link_request_send ::
  "'k sys \<Rightarrow> 'k env \<Rightarrow> ptr \<Rightarrow> cbuf option \<Rightarrow> nat \<Rightarrow> rtems_interval \<Rightarrow> rtems_event_set \<Rightarrow>
   'k world \<Rightarrow> (nat \<times> 'k world) res" where
  "link_request_send sys env l buf sz ticks ev w =
     res_bind (upd_rctx l (\<lambda>r. r\<lparr>tid_requester := rt_task_self (sys_K sys) (w_ker w), event_wait := ev\<rparr>) w) (\<lambda>w1.
     res_bind (link_request_send_wait sys env l buf sz ticks w1) (\<lambda>(rc, w2).
     res_bind (upd_rctx l (\<lambda>r. r\<lparr>tid_requester := RTEMS_ID_NONE\<rparr>) w2) (\<lambda>w3. Inr (rc, w3))))"

definition link_request ::
  "'k sys \<Rightarrow> 'k env \<Rightarrow> 'k env \<Rightarrow> ptr \<Rightarrow> rtems_interval \<Rightarrow> cbuf option \<Rightarrow> nat \<Rightarrow>
   rtems_interval \<Rightarrow> ptr \<Rightarrow> nat \<Rightarrow> rtems_event_set \<Rightarrow> 'k world \<Rightarrow> (int \<times> 'k world) res" where
  "link_request sys env env' l wticks wbuf wsz rticks rbuf rsz ev w =
     res_bind (upd_rctx l (\<lambda>r. r\<lparr>reply_sz_read := 0, reply := rbuf, reply_sz := rsz,
         tid_requester := rt_task_self (sys_K sys) (w_ker w), event_wait := ev\<rparr>) w) (\<lambda>w1.
     res_bind (link_request_send_wait sys env l wbuf wsz wticks w1) (\<lambda>(rc, w2).
       if rc = 0 then Inr (-1, w2)
       else link_request_recv_wait sys env' l rticks w2))"

subsection \<open>Callbacks\<close>

definition link_recv_cmd :: "'k sys \<Rightarrow> ptr \<Rightarrow> 'k world \<Rightarrow> 'k world res" where
  "link_recv_cmd sys l w =
     res_bind (link_read sys l (Some \<lparr>buf_aligned = True, buf_bytes = replicate HPSC_MSG_SIZE 0\<rparr>) HPSC_MSG_SIZE w)
      (\<lambda>(_, bytes, w1).
        res_bind (cmd_enqueue sys (Some \<lparr>cmd_msg = bytes, cmd_link = l\<rparr>) w1) (\<lambda>(rc, w2).
          if rc \<noteq> 0 then Inl Panic else Inr w2))"

text \<open>The reply buffer is a word-aligned address; the null pointer is passed on as such.\<close>

definition link_recv_reply :: "'k sys \<Rightarrow> ptr \<Rightarrow> 'k world \<Rightarrow> 'k world res" where
  "link_recv_reply sys l w =
     c_deref (w_link w l) (\<lambda>lk.
       let p = reply (l_rctx lk) in
       res_bind (if p = NULL then link_read sys l None (reply_sz (l_rctx lk)) w
                 else c_deref (w_buf w p) (\<lambda>bytes.
                   link_read sys l (Some \<lparr>buf_aligned = IS_ALIGNED p, buf_bytes = bytes\<rparr>)
                     (reply_sz (l_rctx lk)) w))
        (\<lambda>(n, bytes, w1).
          res_bind (upd_rctx l (\<lambda>r. r\<lparr>reply_sz_read := n\<rparr>) (w1\<lparr>w_buf := (w_buf w1)(p \<mapsto> bytes)\<rparr>))
            (notify_requester sys l)))"

text \<open>Calling a function that is registered as a link callback.\<close>

definition call_link_handler :: "'k sys \<Rightarrow> handler \<Rightarrow> ptr \<Rightarrow> 'k world \<Rightarrow> 'k world res" where
  "call_link_handler sys h arg w =
     (case h of
        Link_recv_cmd \<Rightarrow> link_recv_cmd sys arg w
      | Link_recv_reply \<Rightarrow> link_recv_reply sys arg w
      | Link_mbox_ack \<Rightarrow> link_mbox_ack sys arg w
      | Link_shmem_ack \<Rightarrow> link_shmem_ack sys arg w
      | _ \<Rightarrow> Inl Undef)"

end
