(* ===== verification/Link_Contract.thy ===== *)
theory Link_Contract
  imports Link
begin

text \<open>
  What users of links rely on, as the locale \<open>link_transport\<close>: messages written appear in the
  outgoing slot and are flagged, the incoming message is read and acknowledged, the
  acknowledgement callback wakes the requester.  It is interpreted on the operations of
  mailbox links, on those of shared memory links, and on links of either kind as called
  through their function pointers.
\<close>

subsection \<open>Data registers as bytes\<close>

definition data_bytes :: "hpsc_mbox_chan_base \<Rightarrow> u8 list" where
  "data_bytes r = concat (map bytes32 (DATA r))"

lemma data_bytes_nth:
  "length (DATA r) = 16 \<Longrightarrow> concat (map (\<lambda>j. bytes32 (DATA r ! j)) [0..<16]) = data_bytes r"
  unfolding data_bytes_def by (metis (no_types) map_map map_nth comp_def map_eq_conv)

lemma chan_write_bytes:
  assumes "i < 32" and base: "ch_base (chan_of s i) = Some a" and len: "length (DATA (st_regs s a)) = 16"
    and sz: "sz \<le> 64" "sz mod 4 = 0" "sz \<le> length msg"
  shows "\<exists>d. hpsc_mbox_chan_write i (Some msg) sz s = Inr (sz, upd_regs a (\<lambda>r. r\<lparr>DATA := d\<rparr>) s) \<and>
    length d = 16 \<and> concat (map bytes32 d) = take sz msg @ replicate (64 - sz) 0"
proof -
  define n where "n = words_of_size sz"
  have n: "4 * n = sz" "n \<le> 16" using sz by (auto simp: n_def words_of_size_def)
  let ?d = "data_zero_loop n (data_copy_loop 0 n msg (DATA (st_regs s a)))"
  have "concat (map bytes32 ?d) = concat (map (\<lambda>j. bytes32 (?d ! j)) [0..<16])"
    using data_bytes_nth [of "\<lparr>CONFIG = 0, EVENT_CAUSE = 0, EVENT_STATUS = 0, EVENT_ENABLE = 0, DATA = ?d\<rparr>"] len
    by (simp add: data_bytes_def)
  also have "\<dots> = take sz msg @ replicate (64 - sz) 0"
    using written_data_bytes [OF len, of n msg] n sz by simp
  finally have bytes: "concat (map bytes32 ?d) = take sz msg @ replicate (64 - sz) 0" .
  have "hpsc_mbox_chan_write i (Some msg) sz s = Inr (sz, upd_regs a (\<lambda>r. r\<lparr>DATA := ?d\<rparr>) s)"
    using assms n by (simp add: hpsc_mbox_chan_write_def Let_def n_def [symmetric] upd_regs_def)
  with bytes len show ?thesis by (intro exI [of _ ?d]) simp
qed

lemma chan_read_bytes:
  assumes "i < 32" and base: "ch_base (chan_of s i) = Some a" and len: "length (DATA (st_regs s a)) = 16"
    and sz: "64 \<le> length buf"
  shows "hpsc_mbox_chan_read i (Some buf) 64 s = Inr (64, data_bytes (st_regs s a) @ drop 64 buf)"
proof -
  have w: "words_of_size 64 = 16" by (simp add: words_of_size_def)
  show ?thesis
    using assms data_read_loop_spec [of 16 buf 0 "DATA (st_regs s a)"]
    by (simp add: hpsc_mbox_chan_read_def w overwrite_def data_bytes_nth) (simp add: data_bytes_def length_concat o_def sum_list_triv)
qed

subsection \<open>What a link carries\<close>

definition link_frame :: "'k world \<Rightarrow> 'k world \<Rightarrow> bool" where
  "link_frame w w' \<longleftrightarrow> w_link w' = w_link w \<and> w_mlink w' = w_mlink w \<and> w_slink w' = w_slink w \<and>
     w_poll w' = w_poll w \<and> w_buf w' = w_buf w \<and> w_cmdq w' = w_cmdq w \<and> w_handler w' = w_handler w \<and>
     w_handled w' = w_handled w \<and> w_store w' = w_store w \<and> w_devs w' = w_devs w \<and> w_ker w' = w_ker w"

text \<open>The registers of one of the two channels of a mailbox link.\<close>

definition mlink_regs :: "'k world \<Rightarrow> ptr \<Rightarrow> (link_mbox \<Rightarrow> nat) \<Rightarrow> hpsc_mbox_chan_base option" where
  "mlink_regs w l side =
     (case w_link w l of None \<Rightarrow> None | Some lk \<Rightarrow>
       case w_mlink w (l_priv lk) of None \<Rightarrow> None | Some ml \<Rightarrow>
       case w_mbox w (ml_mbox ml) of None \<Rightarrow> None | Some mb \<Rightarrow> Some (w_mreg w (chan_addr mb (side ml))))"

definition mlink_up :: "'k sys \<Rightarrow> ptr \<Rightarrow> 'k world \<Rightarrow> bool" where
  "mlink_up sys l w \<longleftrightarrow> mbox_hw_laws (sys_hw sys) \<and>
     (\<exists>lk ml mb. w_link w l = Some lk \<and> l_write lk = Link_mbox_write \<and> l_read lk = Link_mbox_read \<and>
        w_mlink w (l_priv lk) = Some ml \<and> ml_mbox ml \<noteq> NULL \<and> w_mbox w (ml_mbox ml) = Some mb \<and> mbox_wf mb \<and>
        chan_from ml \<noteq> chan_to ml \<and>
        (\<forall>i \<in> {chan_from ml, chan_to ml}. i < 32 \<and> ch_base (mb_chans mb ! i) = Some (chan_addr mb i) \<and>
           length (DATA (w_mreg w (chan_addr mb i))) = 16))"

definition reg_bytes :: "hpsc_mbox_chan_base option \<Rightarrow> u8 list" where
  "reg_bytes r = (case r of None \<Rightarrow> [] | Some r \<Rightarrow> data_bytes r)"

definition reg_event :: "u32 \<Rightarrow> hpsc_mbox_chan_base option \<Rightarrow> bool" where
  "reg_event e r = (case r of None \<Rightarrow> False | Some r \<Rightarrow> EVENT_CAUSE r AND e \<noteq> 0)"

text \<open>The same for a shared memory link.\<close>

definition slink_region :: "'k world \<Rightarrow> ptr \<Rightarrow> (link_shmem \<Rightarrow> ptr) \<Rightarrow> hpsc_shmem_region option" where
  "slink_region w l side =
     (case w_link w l of None \<Rightarrow> None | Some lk \<Rightarrow>
       case w_slink w (l_priv lk) of None \<Rightarrow> None | Some sl \<Rightarrow>
       case sh_obj (w_shm w) (side sl) of None \<Rightarrow> None | Some a \<Rightarrow> Some (sh_mem (w_shm w) a))"

definition slink_up :: "ptr \<Rightarrow> 'k world \<Rightarrow> bool" where
  "slink_up l w \<longleftrightarrow>
     (\<exists>lk sl ao ai. w_link w l = Some lk \<and> l_write lk = Link_shmem_write \<and> l_read lk = Link_shmem_read \<and>
        w_slink w (l_priv lk) = Some sl \<and> shmem_out sl \<noteq> NULL \<and> shmem_in sl \<noteq> NULL \<and>
        sh_obj (w_shm w) (shmem_out sl) = Some ao \<and> sh_obj (w_shm w) (shmem_in sl) = Some ai \<and> ao \<noteq> ai \<and>
        length (shm_data (sh_mem (w_shm w) ao)) = 64 \<and> length (shm_data (sh_mem (w_shm w) ai)) = 64)"

definition region_bytes :: "hpsc_shmem_region option \<Rightarrow> u8 list" where
  "region_bytes r = (case r of None \<Rightarrow> [] | Some r \<Rightarrow> shm_data r)"

definition region_status :: "u32 \<Rightarrow> hpsc_shmem_region option \<Rightarrow> bool" where
  "region_status b r = (case r of None \<Rightarrow> False | Some r \<Rightarrow> shm_status r AND b \<noteq> 0)"

subsection \<open>Contract of a link transport\<close>

text \<open>
  Two states that agree on what links are made of; two that agree on the command queue and
  its handlers.
\<close>

definition same_links :: "'k world \<Rightarrow> 'k world \<Rightarrow> bool" where
  "same_links w w' \<longleftrightarrow> w_link w' = w_link w \<and> w_mlink w' = w_mlink w \<and> w_slink w' = w_slink w \<and>
     w_mbox w' = w_mbox w \<and> w_mreg w' = w_mreg w \<and> w_shm w' = w_shm w"

text \<open>
  \<open>inbox\<close> and \<open>outbox\<close> are the message slots in the two directions; \<open>sent\<close> and \<open>pending\<close> say that
  the outgoing and the incoming one are flagged as new, \<open>acked\<close> that the sender of the
  incoming one has been told of its receipt.  \<open>ack_cb\<close> is the acknowledgement callback.
\<close>

definition same_cmd :: "'k world \<Rightarrow> 'k world \<Rightarrow> bool" where
  "same_cmd w w' \<longleftrightarrow> w_cmdq w' = w_cmdq w \<and> w_handler w' = w_handler w \<and> w_handled w' = w_handled w"

lemma same_cmd_refl [simp]: "same_cmd w w"
  by (simp add: same_cmd_def)

lemma same_cmd_trans: "same_cmd w1 w2 \<Longrightarrow> same_cmd w2 w3 \<Longrightarrow> same_cmd w1 w3"
  by (simp add: same_cmd_def)

lemma same_cmd_frame: "link_frame w w' \<Longrightarrow> same_cmd w w'"
  by (simp add: link_frame_def same_cmd_def)

locale link_transport =
  fixes sys :: "'k sys"
    and up :: "ptr \<Rightarrow> 'k world \<Rightarrow> bool"
    and inbox outbox :: "ptr \<Rightarrow> 'k world \<Rightarrow> u8 list"
    and sent pending acked :: "ptr \<Rightarrow> 'k world \<Rightarrow> bool"
    and ack_cb :: "ptr \<Rightarrow> 'k world \<Rightarrow> 'k world res"
  assumes up_link: "up l w \<Longrightarrow> \<exists>lk. w_link w l = Some lk"
    and up_rctx: "up l w \<Longrightarrow> w_link w l = Some lk \<Longrightarrow>
      up l (w\<lparr>w_link := (w_link w)(l \<mapsto> lk\<lparr>l_rctx := r\<rparr>)\<rparr>) \<and>
      inbox l (w\<lparr>w_link := (w_link w)(l \<mapsto> lk\<lparr>l_rctx := r\<rparr>)\<rparr>) = inbox l w \<and>
      outbox l (w\<lparr>w_link := (w_link w)(l \<mapsto> lk\<lparr>l_rctx := r\<rparr>)\<rparr>) = outbox l w"
    and up_same: "same_links w w' \<Longrightarrow> up l w' = up l w \<and> inbox l w' = inbox l w \<and> outbox l w' = outbox l w \<and>
      sent l w' = sent l w \<and> pending l w' = pending l w \<and> acked l w' = acked l w"
    and inbox_length: "up l w \<Longrightarrow> length (inbox l w) = 64"
    and write_ok: "up l w \<Longrightarrow> buf_aligned b \<Longrightarrow> sz \<le> 64 \<Longrightarrow> sz mod 4 = 0 \<Longrightarrow> sz \<le> length (buf_bytes b) \<Longrightarrow>
      \<exists>w'. link_write sys l (Some b) sz w = Inr (sz, w') \<and> link_frame w w' \<and> up l w' \<and> inbox l w' = inbox l w \<and>
        outbox l w' = take sz (buf_bytes b) @ replicate (64 - sz) 0 \<and> sent l w'"
    and read_ok: "up l w \<Longrightarrow> buf_aligned b \<Longrightarrow> 64 \<le> length (buf_bytes b) \<Longrightarrow>
      \<exists>w'. link_read sys l (Some b) 64 w = Inr (64, inbox l w @ drop 64 (buf_bytes b), w') \<and> link_frame w w' \<and>
        up l w' \<and> inbox l w' = inbox l w \<and> outbox l w' = outbox l w \<and> \<not> pending l w' \<and> acked l w'"
    and ack_ok: "up l w \<Longrightarrow> w_link w l = Some lk \<Longrightarrow> tid_requester (l_rctx lk) \<noteq> RTEMS_ID_NONE \<Longrightarrow>
      rt_event_send (sys_K sys) (tid_requester (l_rctx lk)) (event_wait (l_rctx lk)) (w_ker w) = (RTEMS_SUCCESSFUL, k) \<Longrightarrow>
      \<exists>w'. ack_cb l w = Inr w' \<and> up l w' \<and> inbox l w' = inbox l w \<and> outbox l w' = outbox l w \<and>
        w_link w' = (w_link w)(l \<mapsto> lk\<lparr>l_rctx := (l_rctx lk)\<lparr>tx_acked := True\<rparr>\<rparr>) \<and> w_buf w' = w_buf w \<and> w_ker w' = k \<and>
        same_cmd w w'"

lemma event_bits: "(x OR e) AND e = (e :: u32)" "(x AND NOT e) AND e = (0 :: u32)"
  by (rule bit_word_eqI; auto simp: bit_simps)+

lemma mbox_events_nz: "HPSC_MBOX_EVENT_A \<noteq> 0" "HPSC_MBOX_EVENT_B \<noteq> 0"
    "(x OR HPSC_MBOX_EVENT_B) AND HPSC_MBOX_EVENT_A = x AND HPSC_MBOX_EVENT_A"
  by (simp_all add: HPSC_MBOX_EVENT_A_def HPSC_MBOX_EVENT_B_def bit.conj_disj_distrib2)

lemma mlink_write_ok:
  assumes up: "mlink_up sys l w" and sz: "sz \<le> 64" "sz mod 4 = 0" "sz \<le> length (buf_bytes b)"
  shows "\<exists>w'. link_write sys l (Some b) sz w = Inr (sz, w') \<and> link_frame w w' \<and> mlink_up sys l w' \<and>
    reg_bytes (mlink_regs w' l chan_from) = reg_bytes (mlink_regs w l chan_from) \<and>
    reg_bytes (mlink_regs w' l chan_to) = take sz (buf_bytes b) @ replicate (64 - sz) 0 \<and>
    reg_event HPSC_MBOX_EVENT_A (mlink_regs w' l chan_to)"
proof -
  from up obtain lk ml mb where hw: "mbox_hw_laws (sys_hw sys)"
    and lk: "w_link w l = Some lk" "l_write lk = Link_mbox_write" "l_read lk = Link_mbox_read"
    and ml: "w_mlink w (l_priv lk) = Some ml" "ml_mbox ml \<noteq> NULL" "w_mbox w (ml_mbox ml) = Some mb" "mbox_wf mb"
      "chan_from ml \<noteq> chan_to ml"
    and ch: "\<forall>i \<in> {chan_from ml, chan_to ml}. i < 32 \<and> ch_base (mb_chans mb ! i) = Some (chan_addr mb i) \<and>
      length (DATA (w_mreg w (chan_addr mb i))) = 16"
    unfolding mlink_up_def by blast
  let ?a = "chan_addr mb (chan_to ml)" and ?s = "\<lparr>st_mbox = mb, st_regs = w_mreg w\<rparr>"
  obtain d where d: "hpsc_mbox_chan_write (chan_to ml) (Some (buf_bytes b)) sz ?s =
      Inr (sz, upd_regs ?a (\<lambda>r. r\<lparr>DATA := d\<rparr>) ?s)" "length d = 16"
      "concat (map bytes32 d) = take sz (buf_bytes b) @ replicate (64 - sz) 0"
    using chan_write_bytes [of "chan_to ml" ?s ?a sz "buf_bytes b"] ch sz by auto
  let ?regs = "(w_mreg w)(?a := hw_status_set (sys_hw sys) HPSC_MBOX_EVENT_A ((w_mreg w ?a)\<lparr>DATA := d\<rparr>))"
  let ?w = "w\<lparr>w_mbox := (w_mbox w)(ml_mbox ml \<mapsto> mb), w_mreg := ?regs\<rparr>"
  have r: "link_write sys l (Some b) sz w = Inr (sz, ?w)"
    using lk ml ch d(1)
    by (simp add: link_write_def link_mbox_write_def mbox_run_def mbox_do_def hpsc_mbox_chan_event_set_rcv_def
        chan_event_store_def)
  have regs: "DATA (?regs ?a) = d" "EVENT_CAUSE (?regs ?a) AND HPSC_MBOX_EVENT_A \<noteq> 0"
    using mbox_hw_lawsD [OF hw] by (simp_all add: event_bits mbox_events_nz)
  have "mlink_up sys l ?w"
    using hw lk ml ch d(2) regs(1) unfolding mlink_up_def by auto
  moreover have "mlink_regs ?w l chan_to = Some (?regs ?a)"
    using lk ml by (simp add: mlink_regs_def)
  moreover have "mlink_regs ?w l chan_from = mlink_regs w l chan_from"
    using lk ml ch by (simp add: mlink_regs_def chan_addr_inj)
  ultimately show ?thesis
    using r regs d(3) by (simp add: link_frame_def reg_bytes_def reg_event_def data_bytes_def)
qed

lemma mlink_read_ok:
  assumes up: "mlink_up sys l w" and sz: "64 \<le> length (buf_bytes b)"
  shows "\<exists>w'. link_read sys l (Some b) 64 w =
      Inr (64, reg_bytes (mlink_regs w l chan_from) @ drop 64 (buf_bytes b), w') \<and> link_frame w w' \<and>
    mlink_up sys l w' \<and> reg_bytes (mlink_regs w' l chan_from) = reg_bytes (mlink_regs w l chan_from) \<and>
    reg_bytes (mlink_regs w' l chan_to) = reg_bytes (mlink_regs w l chan_to) \<and>
    \<not> reg_event HPSC_MBOX_EVENT_A (mlink_regs w' l chan_from) \<and>
    reg_event HPSC_MBOX_EVENT_B (mlink_regs w' l chan_from)"
proof -
  from up obtain lk ml mb where hw: "mbox_hw_laws (sys_hw sys)"
    and lk: "w_link w l = Some lk" "l_write lk = Link_mbox_write" "l_read lk = Link_mbox_read"
    and ml: "w_mlink w (l_priv lk) = Some ml" "ml_mbox ml \<noteq> NULL" "w_mbox w (ml_mbox ml) = Some mb" "mbox_wf mb"
      "chan_from ml \<noteq> chan_to ml"
    and ch: "\<forall>i \<in> {chan_from ml, chan_to ml}. i < 32 \<and> ch_base (mb_chans mb ! i) = Some (chan_addr mb i) \<and>
      length (DATA (w_mreg w (chan_addr mb i))) = 16"
    unfolding mlink_up_def by blast
  let ?a = "chan_addr mb (chan_from ml)" and ?s = "\<lparr>st_mbox = mb, st_regs = w_mreg w\<rparr>"
  have rd: "hpsc_mbox_chan_read (chan_from ml) (Some (buf_bytes b)) 64 ?s =
      Inr (64, data_bytes (w_mreg w ?a) @ drop 64 (buf_bytes b))"
    using chan_read_bytes [of "chan_from ml" ?s ?a "buf_bytes b"] ch sz by auto
  let ?regs = "(w_mreg w)(?a := hw_status_set (sys_hw sys) HPSC_MBOX_EVENT_B
      (hw_status_clear (sys_hw sys) HPSC_MBOX_EVENT_A (w_mreg w ?a)))"
  let ?w = "w\<lparr>w_mbox := (w_mbox w)(ml_mbox ml \<mapsto> mb), w_mreg := ?regs\<rparr>"
  have r: "link_read sys l (Some b) 64 w = Inr (64, data_bytes (w_mreg w ?a) @ drop 64 (buf_bytes b), ?w)"
    using lk ml ch rd
    by (simp add: link_read_def link_mbox_read_def mbox_run_def mbox_do_def hpsc_mbox_chan_event_clear_rcv_def
        hpsc_mbox_chan_event_set_ack_def chan_event_store_def)
  have regs: "DATA (?regs ?a) = DATA (w_mreg w ?a)" "EVENT_CAUSE (?regs ?a) AND HPSC_MBOX_EVENT_A = 0"
    "EVENT_CAUSE (?regs ?a) AND HPSC_MBOX_EVENT_B \<noteq> 0"
    using mbox_hw_lawsD [OF hw] by (simp_all add: event_bits mbox_events_nz)
  have "mlink_up sys l ?w"
    using hw lk ml ch regs(1) unfolding mlink_up_def by auto
  moreover have "mlink_regs ?w l chan_from = Some (?regs ?a)" "mlink_regs w l chan_from = Some (w_mreg w ?a)"
    "mlink_regs ?w l chan_to = mlink_regs w l chan_to"
    using lk ml ch by (simp_all add: mlink_regs_def chan_addr_inj)
  ultimately show ?thesis
    using r regs by (simp add: link_frame_def reg_bytes_def reg_event_def data_bytes_def)
qed

lemma data_bytes_length: "length (DATA r) = 16 \<Longrightarrow> length (data_bytes r) = 64"
  by (simp add: data_bytes_def length_concat o_def sum_list_triv)

lemma link_ack_ok:
  assumes "w_link w l = Some lk" and "tid_requester (l_rctx lk) \<noteq> RTEMS_ID_NONE"
    and "rt_event_send (sys_K sys) (tid_requester (l_rctx lk)) (event_wait (l_rctx lk)) (w_ker w) = (RTEMS_SUCCESSFUL, k)"
  shows "link_ack sys l w = Inr (w\<lparr>w_link := (w_link w)(l \<mapsto> lk\<lparr>l_rctx := (l_rctx lk)\<lparr>tx_acked := True\<rparr>\<rparr>), w_ker := k\<rparr>)"
  using assms by (simp add: link_ack_def notify_requester_def event_send_def)

lemma mlink_ack_ok:
  assumes up: "mlink_up sys l w" and l: "w_link w l = Some lk0" and tid: "tid_requester (l_rctx lk0) \<noteq> RTEMS_ID_NONE"
    and snd: "rt_event_send (sys_K sys) (tid_requester (l_rctx lk0)) (event_wait (l_rctx lk0)) (w_ker w) = (RTEMS_SUCCESSFUL, k)"
  shows "\<exists>w'. link_mbox_ack sys l w = Inr w' \<and> mlink_up sys l w' \<and>
    reg_bytes (mlink_regs w' l chan_from) = reg_bytes (mlink_regs w l chan_from) \<and>
    reg_bytes (mlink_regs w' l chan_to) = reg_bytes (mlink_regs w l chan_to) \<and>
    w_link w' = (w_link w)(l \<mapsto> lk0\<lparr>l_rctx := (l_rctx lk0)\<lparr>tx_acked := True\<rparr>\<rparr>) \<and> w_buf w' = w_buf w \<and> w_ker w' = k \<and>
        same_cmd w w'"
proof -
  from up obtain lk ml mb where hw: "mbox_hw_laws (sys_hw sys)"
    and lk: "w_link w l = Some lk" "l_write lk = Link_mbox_write" "l_read lk = Link_mbox_read"
    and ml: "w_mlink w (l_priv lk) = Some ml" "ml_mbox ml \<noteq> NULL" "w_mbox w (ml_mbox ml) = Some mb" "mbox_wf mb"
      "chan_from ml \<noteq> chan_to ml"
    and ch: "\<forall>i \<in> {chan_from ml, chan_to ml}. i < 32 \<and> ch_base (mb_chans mb ! i) = Some (chan_addr mb i) \<and>
      length (DATA (w_mreg w (chan_addr mb i))) = 16"
    unfolding mlink_up_def by blast
  have [simp]: "lk0 = lk" using l lk by simp
  let ?a = "chan_addr mb (chan_to ml)"
  let ?regs = "(w_mreg w)(?a := hw_status_clear (sys_hw sys) HPSC_MBOX_EVENT_B (w_mreg w ?a))"
  let ?w = "w\<lparr>w_link := (w_link w)(l \<mapsto> lk\<lparr>l_rctx := (l_rctx lk)\<lparr>tx_acked := True\<rparr>\<rparr>), w_ker := k,
    w_mbox := (w_mbox w)(ml_mbox ml \<mapsto> mb), w_mreg := ?regs\<rparr>"
  have r: "link_mbox_ack sys l w = Inr ?w"
    using lk ml ch tid snd
    by (simp add: link_mbox_ack_def link_ack_ok mbox_run_def mbox_do_def hpsc_mbox_chan_event_clear_ack_def chan_event_store_def)
  have regs: "DATA (?regs ?a) = DATA (w_mreg w ?a)" using mbox_hw_lawsD [OF hw] by simp
  have "mlink_up sys l ?w"
    using hw lk ml ch regs unfolding mlink_up_def by auto
  moreover have "reg_bytes (mlink_regs ?w l chan_from) = reg_bytes (mlink_regs w l chan_from)"
    "reg_bytes (mlink_regs ?w l chan_to) = reg_bytes (mlink_regs w l chan_to)"
    using lk ml ch regs by (simp_all add: mlink_regs_def chan_addr_inj reg_bytes_def data_bytes_def)
  ultimately show ?thesis using r by (simp add: same_cmd_def)
qed

lemma mlink_up_rctx:
  assumes "mlink_up sys l w" and "w_link w l = Some lk"
  shows "mlink_up sys l (w\<lparr>w_link := (w_link w)(l \<mapsto> lk\<lparr>l_rctx := r\<rparr>)\<rparr>)"
  using assms unfolding mlink_up_def by auto

lemma mlink_regs_rctx [simp]:
  "w_link w l = Some lk \<Longrightarrow> mlink_regs (w\<lparr>w_link := (w_link w)(l \<mapsto> lk\<lparr>l_rctx := r\<rparr>)\<rparr>) l side = mlink_regs w l side"
  by (simp add: mlink_regs_def cong: option.case_cong)

lemma mlink_same:
  "same_links w w' \<Longrightarrow> mlink_up sys l w' = mlink_up sys l w \<and> mlink_regs w' l side = mlink_regs w l side"
  by (simp add: same_links_def mlink_up_def mlink_regs_def cong: option.case_cong)

lemma mlink_up_link: "mlink_up sys l w \<Longrightarrow> \<exists>lk. w_link w l = Some lk"
  by (auto simp: mlink_up_def)

lemma mlink_inbox_length: "mlink_up sys l w \<Longrightarrow> length (reg_bytes (mlink_regs w l chan_from)) = 64"
  unfolding mlink_up_def mlink_regs_def reg_bytes_def by (auto simp: data_bytes_length)

interpretation mbox_transport: link_transport sys "mlink_up sys"
  "\<lambda>l w. reg_bytes (mlink_regs w l chan_from)" "\<lambda>l w. reg_bytes (mlink_regs w l chan_to)"
  "\<lambda>l w. reg_event HPSC_MBOX_EVENT_A (mlink_regs w l chan_to)"
  "\<lambda>l w. reg_event HPSC_MBOX_EVENT_A (mlink_regs w l chan_from)"
  "\<lambda>l w. reg_event HPSC_MBOX_EVENT_B (mlink_regs w l chan_from)"
  "link_mbox_ack sys" for sys :: "'k sys"
  by unfold_locales
    (simp_all add: mlink_up_link mlink_up_rctx mlink_same mlink_inbox_length mlink_write_ok mlink_read_ok mlink_ack_ok)

lemma slink_write_ok:
  assumes up: "slink_up l w" and b: "buf_aligned b" and sz: "sz \<le> 64" "sz \<le> length (buf_bytes b)"
  shows "\<exists>w'. link_write sys l (Some b) sz w = Inr (sz, w') \<and> link_frame w w' \<and> slink_up l w' \<and>
    region_bytes (slink_region w' l shmem_in) = region_bytes (slink_region w l shmem_in) \<and>
    region_bytes (slink_region w' l shmem_out) = take sz (buf_bytes b) @ replicate (64 - sz) 0 \<and>
    region_status HPSC_SHMEM_STATUS_BIT_NEW (slink_region w' l shmem_out)"
proof -
  from up obtain lk sl ao ai where lk: "w_link w l = Some lk" "l_write lk = Link_shmem_write" "l_read lk = Link_shmem_read"
    and sl: "w_slink w (l_priv lk) = Some sl" "shmem_out sl \<noteq> NULL" "shmem_in sl \<noteq> NULL"
    and ob: "sh_obj (w_shm w) (shmem_out sl) = Some ao" "sh_obj (w_shm w) (shmem_in sl) = Some ai" "ao \<noteq> ai"
    and len: "length (shm_data (sh_mem (w_shm w) ao)) = 64" "length (shm_data (sh_mem (w_shm w) ai)) = 64"
    unfolding slink_up_def by blast
  let ?d = "take sz (buf_bytes b) @ replicate (64 - sz) 0"
  let ?r = "(sh_mem (w_shm w) ao)\<lparr>shm_data := ?d, shm_status := shm_status (sh_mem (w_shm w) ao) OR HPSC_SHMEM_STATUS_BIT_NEW\<rparr>"
  let ?w = "w\<lparr>w_shm := (w_shm w)\<lparr>sh_mem := (sh_mem (w_shm w))(ao := ?r)\<rparr>\<rparr>"
  have r: "link_write sys l (Some b) sz w = Inr (sz, ?w)"
    using lk sl ob len b sz
    by (simp add: link_write_def link_shmem_write_def shm_run_def shm_do_def shmem_write_eq shmem_set_new_def)

  have "slink_up l ?w"
    using lk sl ob len sz unfolding slink_up_def by (auto simp: min_absorb2)
  moreover have "slink_region ?w l shmem_out = Some ?r" "slink_region ?w l shmem_in = slink_region w l shmem_in"
    using lk sl ob by (simp_all add: slink_region_def)
  ultimately show ?thesis
    using r by (simp add: link_frame_def region_bytes_def region_status_def event_bits HPSC_SHMEM_STATUS_BIT_NEW_def)
qed

lemma slink_read_ok:
  assumes up: "slink_up l w" and b: "buf_aligned b" and sz: "64 \<le> length (buf_bytes b)"
  shows "\<exists>w'. link_read sys l (Some b) 64 w =
      Inr (64, region_bytes (slink_region w l shmem_in) @ drop 64 (buf_bytes b), w') \<and> link_frame w w' \<and>
    slink_up l w' \<and> region_bytes (slink_region w' l shmem_in) = region_bytes (slink_region w l shmem_in) \<and>
    region_bytes (slink_region w' l shmem_out) = region_bytes (slink_region w l shmem_out) \<and>
    \<not> region_status HPSC_SHMEM_STATUS_BIT_NEW (slink_region w' l shmem_in) \<and>
    region_status HPSC_SHMEM_STATUS_BIT_ACK (slink_region w' l shmem_in)"
proof -
  from up obtain lk sl ao ai where lk: "w_link w l = Some lk" "l_write lk = Link_shmem_write" "l_read lk = Link_shmem_read"
    and sl: "w_slink w (l_priv lk) = Some sl" "shmem_out sl \<noteq> NULL" "shmem_in sl \<noteq> NULL"
    and ob: "sh_obj (w_shm w) (shmem_out sl) = Some ao" "sh_obj (w_shm w) (shmem_in sl) = Some ai" "ao \<noteq> ai"
    and len: "length (shm_data (sh_mem (w_shm w) ao)) = 64" "length (shm_data (sh_mem (w_shm w) ai)) = 64"
    unfolding slink_up_def by blast
  let ?st = "(shm_status (sh_mem (w_shm w) ai) AND NOT HPSC_SHMEM_STATUS_BIT_NEW) OR HPSC_SHMEM_STATUS_BIT_ACK"
  let ?r = "(sh_mem (w_shm w) ai)\<lparr>shm_status := ?st\<rparr>"
  let ?w = "w\<lparr>w_shm := (w_shm w)\<lparr>sh_mem := (sh_mem (w_shm w))(ai := ?r)\<rparr>\<rparr>"
  have r: "link_read sys l (Some b) 64 w = Inr (64, shm_data (sh_mem (w_shm w) ai) @ drop 64 (buf_bytes b), ?w)"
    using lk sl ob len b sz
    by (simp add: link_read_def link_shmem_read_def shm_do_def shmem_read_eq shmem_set_new_def shmem_set_ack_def)

  have "slink_up l ?w"
    using lk sl ob len unfolding slink_up_def by auto
  moreover have "slink_region ?w l shmem_in = Some ?r" "slink_region w l shmem_in = Some (sh_mem (w_shm w) ai)"
    "slink_region ?w l shmem_out = slink_region w l shmem_out"
    using lk sl ob by (simp_all add: slink_region_def)
  moreover have "(x OR HPSC_SHMEM_STATUS_BIT_ACK) AND HPSC_SHMEM_STATUS_BIT_NEW = x AND HPSC_SHMEM_STATUS_BIT_NEW" for x
    by (simp add: shmem_bits bit.conj_disj_distrib2)
  ultimately show ?thesis
    using r by (simp add: link_frame_def region_bytes_def region_status_def event_bits) (simp add: HPSC_SHMEM_STATUS_BIT_ACK_def)
qed

lemma slink_ack_ok:
  assumes up: "slink_up l w" and l: "w_link w l = Some lk0" and tid: "tid_requester (l_rctx lk0) \<noteq> RTEMS_ID_NONE"
    and snd: "rt_event_send (sys_K sys) (tid_requester (l_rctx lk0)) (event_wait (l_rctx lk0)) (w_ker w) = (RTEMS_SUCCESSFUL, k)"
  shows "\<exists>w'. link_shmem_ack sys l w = Inr w' \<and> slink_up l w' \<and>
    region_bytes (slink_region w' l shmem_in) = region_bytes (slink_region w l shmem_in) \<and>
    region_bytes (slink_region w' l shmem_out) = region_bytes (slink_region w l shmem_out) \<and>
    w_link w' = (w_link w)(l \<mapsto> lk0\<lparr>l_rctx := (l_rctx lk0)\<lparr>tx_acked := True\<rparr>\<rparr>) \<and> w_buf w' = w_buf w \<and> w_ker w' = k \<and>
        same_cmd w w'"
proof -
  from up obtain lk sl ao ai where lk: "w_link w l = Some lk" "l_write lk = Link_shmem_write" "l_read lk = Link_shmem_read"
    and sl: "w_slink w (l_priv lk) = Some sl" "shmem_out sl \<noteq> NULL" "shmem_in sl \<noteq> NULL"
    and ob: "sh_obj (w_shm w) (shmem_out sl) = Some ao" "sh_obj (w_shm w) (shmem_in sl) = Some ai" "ao \<noteq> ai"
    and len: "length (shm_data (sh_mem (w_shm w) ao)) = 64" "length (shm_data (sh_mem (w_shm w) ai)) = 64"
    unfolding slink_up_def by blast
  have [simp]: "lk0 = lk" using l lk by simp
  let ?r = "(sh_mem (w_shm w) ao)\<lparr>shm_status := shm_status (sh_mem (w_shm w) ao) AND NOT HPSC_SHMEM_STATUS_BIT_ACK\<rparr>"
  let ?w = "w\<lparr>w_link := (w_link w)(l \<mapsto> lk\<lparr>l_rctx := (l_rctx lk)\<lparr>tx_acked := True\<rparr>\<rparr>), w_ker := k,
    w_shm := (w_shm w)\<lparr>sh_mem := (sh_mem (w_shm w))(ao := ?r)\<rparr>\<rparr>"
  have r: "link_shmem_ack sys l w = Inr ?w"
    using lk sl ob len tid snd
    by (simp add: link_shmem_ack_def link_ack_ok shm_do_def shmem_set_ack_def)
  have "slink_up l ?w"
    using lk sl ob len unfolding slink_up_def by auto
  moreover have "region_bytes (slink_region ?w l shmem_in) = region_bytes (slink_region w l shmem_in)"
    "region_bytes (slink_region ?w l shmem_out) = region_bytes (slink_region w l shmem_out)"
    using lk sl ob by (simp_all add: slink_region_def region_bytes_def)
  ultimately show ?thesis using r by (simp add: same_cmd_def)
qed

lemma slink_up_rctx:
  assumes "slink_up l w" and "w_link w l = Some lk"
  shows "slink_up l (w\<lparr>w_link := (w_link w)(l \<mapsto> lk\<lparr>l_rctx := r\<rparr>)\<rparr>)"
  using assms unfolding slink_up_def by auto

lemma slink_region_rctx [simp]:
  "w_link w l = Some lk \<Longrightarrow> slink_region (w\<lparr>w_link := (w_link w)(l \<mapsto> lk\<lparr>l_rctx := r\<rparr>)\<rparr>) l side = slink_region w l side"
  by (simp add: slink_region_def cong: option.case_cong)

lemma slink_same:
  "same_links w w' \<Longrightarrow> slink_up l w' = slink_up l w \<and> slink_region w' l side = slink_region w l side"
  by (simp add: same_links_def slink_up_def slink_region_def cong: option.case_cong)

lemma slink_up_link: "slink_up l w \<Longrightarrow> \<exists>lk. w_link w l = Some lk"
  by (auto simp: slink_up_def)

lemma slink_inbox_length: "slink_up l w \<Longrightarrow> length (region_bytes (slink_region w l shmem_in)) = 64"
  unfolding slink_up_def slink_region_def region_bytes_def by auto

interpretation shmem_transport: link_transport sys slink_up
  "\<lambda>l w. region_bytes (slink_region w l shmem_in)" "\<lambda>l w. region_bytes (slink_region w l shmem_out)"
  "\<lambda>l w. region_status HPSC_SHMEM_STATUS_BIT_NEW (slink_region w l shmem_out)"
  "\<lambda>l w. region_status HPSC_SHMEM_STATUS_BIT_NEW (slink_region w l shmem_in)"
  "\<lambda>l w. region_status HPSC_SHMEM_STATUS_BIT_ACK (slink_region w l shmem_in)"
  "link_shmem_ack sys" for sys :: "'k sys"
  by unfold_locales
    (simp_all add: slink_up_link slink_up_rctx slink_same slink_inbox_length slink_write_ok slink_read_ok slink_ack_ok)

subsection \<open>Any link\<close>

text \<open>What a user of links sees, whatever the transport.\<close>

definition via_mbox :: "'k world \<Rightarrow> ptr \<Rightarrow> bool" where
  "via_mbox w l = (case w_link w l of None \<Rightarrow> False | Some lk \<Rightarrow> l_write lk = Link_mbox_write)"

definition link_up :: "'k sys \<Rightarrow> ptr \<Rightarrow> 'k world \<Rightarrow> bool" where
  "link_up sys l w \<longleftrightarrow> mlink_up sys l w \<or> slink_up l w"

definition link_inbox :: "ptr \<Rightarrow> 'k world \<Rightarrow> u8 list" where
  "link_inbox l w = (if via_mbox w l then reg_bytes (mlink_regs w l chan_from)
     else region_bytes (slink_region w l shmem_in))"

definition link_outbox :: "ptr \<Rightarrow> 'k world \<Rightarrow> u8 list" where
  "link_outbox l w = (if via_mbox w l then reg_bytes (mlink_regs w l chan_to)
     else region_bytes (slink_region w l shmem_out))"

definition link_sent :: "ptr \<Rightarrow> 'k world \<Rightarrow> bool" where
  "link_sent l w = (if via_mbox w l then reg_event HPSC_MBOX_EVENT_A (mlink_regs w l chan_to)
     else region_status HPSC_SHMEM_STATUS_BIT_NEW (slink_region w l shmem_out))"

definition link_pending :: "ptr \<Rightarrow> 'k world \<Rightarrow> bool" where
  "link_pending l w = (if via_mbox w l then reg_event HPSC_MBOX_EVENT_A (mlink_regs w l chan_from)
     else region_status HPSC_SHMEM_STATUS_BIT_NEW (slink_region w l shmem_in))"

definition link_acked :: "ptr \<Rightarrow> 'k world \<Rightarrow> bool" where
  "link_acked l w = (if via_mbox w l then reg_event HPSC_MBOX_EVENT_B (mlink_regs w l chan_from)
     else region_status HPSC_SHMEM_STATUS_BIT_ACK (slink_region w l shmem_in))"

text \<open>The acknowledgement callback that the transport of a link registers.\<close>

definition link_ack_cb :: "'k sys \<Rightarrow> ptr \<Rightarrow> 'k world \<Rightarrow> 'k world res" where
  "link_ack_cb sys l w =
     call_link_handler sys (if via_mbox w l then Link_mbox_ack else Link_shmem_ack) l w"

lemmas link_views = link_inbox_def link_outbox_def link_sent_def link_pending_def link_acked_def

lemma via_mbox_up:
  "mlink_up sys l w \<Longrightarrow> via_mbox w l" "slink_up l w \<Longrightarrow> \<not> via_mbox w l"
  by (auto simp: mlink_up_def slink_up_def via_mbox_def)

lemma via_mbox_rctx [simp]:
  "w_link w l = Some lk \<Longrightarrow> via_mbox (w\<lparr>w_link := (w_link w)(l \<mapsto> lk\<lparr>l_rctx := r\<rparr>)\<rparr>) l = via_mbox w l"
  by (simp add: via_mbox_def)

lemma via_mbox_frame: "link_frame w w' \<Longrightarrow> via_mbox w' l = via_mbox w l"
  by (simp add: via_mbox_def link_frame_def)

interpretation any_link: link_transport sys "link_up sys" link_inbox link_outbox link_sent link_pending link_acked
  "link_ack_cb sys" for sys :: "'k sys"
proof unfold_locales
  fix l and w w' :: "'k world" and b :: cbuf and sz
  show "link_up sys l w \<Longrightarrow> \<exists>lk. w_link w l = Some lk"
    using mlink_up_link slink_up_link by (auto simp: link_up_def)
  show "link_up sys l (w\<lparr>w_link := (w_link w)(l \<mapsto> lk\<lparr>l_rctx := r\<rparr>)\<rparr>) \<and>
      link_inbox l (w\<lparr>w_link := (w_link w)(l \<mapsto> lk\<lparr>l_rctx := r\<rparr>)\<rparr>) = link_inbox l w \<and>
      link_outbox l (w\<lparr>w_link := (w_link w)(l \<mapsto> lk\<lparr>l_rctx := r\<rparr>)\<rparr>) = link_outbox l w"
    if "link_up sys l w" "w_link w l = Some lk" for lk r
    using that mlink_up_rctx [OF _ that(2), of sys r] slink_up_rctx [OF _ that(2), of r]
    by (auto simp: link_up_def link_views)
  show "link_up sys l w' = link_up sys l w \<and> link_inbox l w' = link_inbox l w \<and> link_outbox l w' = link_outbox l w \<and>
      link_sent l w' = link_sent l w \<and> link_pending l w' = link_pending l w \<and> link_acked l w' = link_acked l w"
    if "same_links w w'"
  proof -
    have "via_mbox w' l = via_mbox w l" using that by (simp add: same_links_def via_mbox_def)
    then show ?thesis
      using mlink_same [OF that] slink_same [OF that] by (simp add: link_up_def link_views)
  qed
  show "link_up sys l w \<Longrightarrow> length (link_inbox l w) = 64"
    by (auto simp: link_up_def link_inbox_def dest: via_mbox_up mlink_inbox_length slink_inbox_length)
  show "\<exists>w'. link_write sys l (Some b) sz w = Inr (sz, w') \<and> link_frame w w' \<and> link_up sys l w' \<and>
        link_inbox l w' = link_inbox l w \<and>
        link_outbox l w' = take sz (buf_bytes b) @ replicate (64 - sz) 0 \<and> link_sent l w'"
    if "link_up sys l w" "buf_aligned b" "sz \<le> 64" "sz mod 4 = 0" "sz \<le> length (buf_bytes b)"
    using that(1) [unfolded link_up_def]
  proof
    assume "mlink_up sys l w"
    note up = this
    from mbox_transport.write_ok [OF up that(2-5)] obtain w' where w': "mlink_up sys l w'"
      and rest: "link_write sys l (Some b) sz w = Inr (sz, w')" "link_frame w w'"
      "reg_bytes (mlink_regs w' l chan_from) = reg_bytes (mlink_regs w l chan_from)"
      "reg_bytes (mlink_regs w' l chan_to) = take sz (buf_bytes b) @ replicate (64 - sz) 0"
      "reg_event HPSC_MBOX_EVENT_A (mlink_regs w' l chan_to)" by blast
    with via_mbox_up(1) [OF up] via_mbox_up(1) [OF w'] show ?thesis
      by (simp add: link_up_def link_views)
  next
    assume "slink_up l w"
    note up = this
    from shmem_transport.write_ok [OF up that(2-5), where sys = sys] obtain w' where w': "slink_up l w'"
      and rest: "link_write sys l (Some b) sz w = Inr (sz, w')" "link_frame w w'"
      "region_bytes (slink_region w' l shmem_in) = region_bytes (slink_region w l shmem_in)"
      "region_bytes (slink_region w' l shmem_out) = take sz (buf_bytes b) @ replicate (64 - sz) 0"
      "region_status HPSC_SHMEM_STATUS_BIT_NEW (slink_region w' l shmem_out)" by blast
    with via_mbox_up(2) [OF up] via_mbox_up(2) [OF w'] show ?thesis
      by (simp add: link_up_def link_views)
  qed
  show "\<exists>w'. link_read sys l (Some b) 64 w = Inr (64, link_inbox l w @ drop 64 (buf_bytes b), w') \<and> link_frame w w' \<and>
        link_up sys l w' \<and> link_inbox l w' = link_inbox l w \<and> link_outbox l w' = link_outbox l w \<and>
        \<not> link_pending l w' \<and> link_acked l w'"
    if "link_up sys l w" "buf_aligned b" "64 \<le> length (buf_bytes b)"
    using that(1) [unfolded link_up_def]
  proof
    assume "mlink_up sys l w"
    note up = this
    from mbox_transport.read_ok [OF up that(2-3)] obtain w' where w': "mlink_up sys l w'"
      and rest: "link_read sys l (Some b) 64 w = Inr (64, reg_bytes (mlink_regs w l chan_from) @ drop 64 (buf_bytes b), w')"
      "link_frame w w'" "reg_bytes (mlink_regs w' l chan_from) = reg_bytes (mlink_regs w l chan_from)"
      "reg_bytes (mlink_regs w' l chan_to) = reg_bytes (mlink_regs w l chan_to)"
      "\<not> reg_event HPSC_MBOX_EVENT_A (mlink_regs w' l chan_from)"
      "reg_event HPSC_MBOX_EVENT_B (mlink_regs w' l chan_from)" by blast
    with via_mbox_up(1) [OF up] via_mbox_up(1) [OF w'] show ?thesis
      by (simp add: link_up_def link_views)
  next
    assume "slink_up l w"
    note up = this
    from shmem_transport.read_ok [OF up that(2-3), where sys = sys] obtain w' where w': "slink_up l w'"
      and rest: "link_read sys l (Some b) 64 w = Inr (64, region_bytes (slink_region w l shmem_in) @ drop 64 (buf_bytes b), w')"
      "link_frame w w'" "region_bytes (slink_region w' l shmem_in) = region_bytes (slink_region w l shmem_in)"
      "region_bytes (slink_region w' l shmem_out) = region_bytes (slink_region w l shmem_out)"
      "\<not> region_status HPSC_SHMEM_STATUS_BIT_NEW (slink_region w' l shmem_in)"
      "region_status HPSC_SHMEM_STATUS_BIT_ACK (slink_region w' l shmem_in)" by blast
    with via_mbox_up(2) [OF up] via_mbox_up(2) [OF w'] show ?thesis
      by (simp add: link_up_def link_views)
  qed
  show "\<exists>w'. link_ack_cb sys l w = Inr w' \<and> link_up sys l w' \<and> link_inbox l w' = link_inbox l w \<and>
        link_outbox l w' = link_outbox l w \<and>
        w_link w' = (w_link w)(l \<mapsto> lk\<lparr>l_rctx := (l_rctx lk)\<lparr>tx_acked := True\<rparr>\<rparr>) \<and> w_buf w' = w_buf w \<and> w_ker w' = k \<and>
        same_cmd w w'"
    if "link_up sys l w" "w_link w l = Some lk" "tid_requester (l_rctx lk) \<noteq> RTEMS_ID_NONE"
      "rt_event_send (sys_K sys) (tid_requester (l_rctx lk)) (event_wait (l_rctx lk)) (w_ker w) = (RTEMS_SUCCESSFUL, k)"
    for lk k
    using that(1) [unfolded link_up_def]
  proof
    assume m: "mlink_up sys l w"
    from mbox_transport.ack_ok [OF m that(2-4)] obtain w' where w': "link_mbox_ack sys l w = Inr w'" "mlink_up sys l w'"
      "reg_bytes (mlink_regs w' l chan_from) = reg_bytes (mlink_regs w l chan_from)"
      "reg_bytes (mlink_regs w' l chan_to) = reg_bytes (mlink_regs w l chan_to)"
      "w_link w' = (w_link w)(l \<mapsto> lk\<lparr>l_rctx := (l_rctx lk)\<lparr>tx_acked := True\<rparr>\<rparr>)" "w_buf w' = w_buf w" "w_ker w' = k" "same_cmd w w'" by blast
    with via_mbox_up(1) [OF m] via_mbox_up(1) [OF w'(2)] show ?thesis
      by (simp add: link_up_def link_views link_ack_cb_def call_link_handler_def)
  next
    assume m: "slink_up l w"
    from shmem_transport.ack_ok [OF m that(2-4)] obtain w' where w': "link_shmem_ack sys l w = Inr w'" "slink_up l w'"
      "region_bytes (slink_region w' l shmem_in) = region_bytes (slink_region w l shmem_in)"
      "region_bytes (slink_region w' l shmem_out) = region_bytes (slink_region w l shmem_out)"
      "w_link w' = (w_link w)(l \<mapsto> lk\<lparr>l_rctx := (l_rctx lk)\<lparr>tx_acked := True\<rparr>\<rparr>)" "w_buf w' = w_buf w" "w_ker w' = k" "same_cmd w w'" by blast
    with via_mbox_up(2) [OF m] via_mbox_up(2) [OF w'(2)] show ?thesis
      by (simp add: link_up_def link_views link_ack_cb_def call_link_handler_def)
  qed
qed

subsection \<open>Consequences for the users of a transport\<close>

context link_transport
begin

lemma recv_reply_ok:
  assumes up: "up l w" and lk: "w_link w l = Some lk"
    and buf: "reply (l_rctx lk) = p" "p \<noteq> NULL" "IS_ALIGNED p" "w_buf w p = Some bytes" "64 \<le> length bytes"
    and sz: "reply_sz (l_rctx lk) = 64" and tid: "tid_requester (l_rctx lk) \<noteq> RTEMS_ID_NONE"
    and snd: "rt_event_send (sys_K sys) (tid_requester (l_rctx lk)) (event_wait (l_rctx lk)) (w_ker w) = (RTEMS_SUCCESSFUL, k)"
  shows "\<exists>w'. link_recv_reply sys l w = Inr w' \<and> up l w' \<and> inbox l w' = inbox l w \<and> outbox l w' = outbox l w \<and>
    w_link w' = (w_link w)(l \<mapsto> lk\<lparr>l_rctx := (l_rctx lk)\<lparr>reply_sz_read := 64\<rparr>\<rparr>) \<and>
    w_buf w' = (w_buf w)(p \<mapsto> inbox l w @ drop 64 bytes) \<and> w_ker w' = k"
proof -
  obtain w1 where rd: "link_read sys l (Some \<lparr>buf_aligned = True, buf_bytes = bytes\<rparr>) 64 w =
      Inr (64, inbox l w @ drop 64 bytes, w1)" and fr: "link_frame w w1" and up1: "up l w1"
    and ib: "inbox l w1 = inbox l w" "outbox l w1 = outbox l w"
    using read_ok [OF up, of "\<lparr>buf_aligned = True, buf_bytes = bytes\<rparr>"] buf by auto
  let ?w2 = "w1\<lparr>w_buf := (w_buf w1)(p \<mapsto> inbox l w @ drop 64 bytes)\<rparr>"
  let ?w3 = "?w2\<lparr>w_link := (w_link ?w2)(l \<mapsto> lk\<lparr>l_rctx := (l_rctx lk)\<lparr>reply_sz_read := 64\<rparr>\<rparr>)\<rparr>"
  let ?w4 = "?w3\<lparr>w_ker := k\<rparr>"
  have lk1: "w_link ?w2 l = Some lk" and ker: "w_ker ?w3 = w_ker w"
    using fr lk by (simp_all add: link_frame_def)
  have up2: "up l ?w2 \<and> inbox l ?w2 = inbox l w \<and> outbox l ?w2 = outbox l w"
    using up_same [of w1 ?w2 l] up1 ib by (simp add: same_links_def)
  have up3: "up l ?w3 \<and> inbox l ?w3 = inbox l w \<and> outbox l ?w3 = outbox l w"
    using up_rctx [OF conjunct1 [OF up2] lk1] up2 by simp
  have up4: "up l ?w4 \<and> inbox l ?w4 = inbox l w \<and> outbox l ?w4 = outbox l w"
    using up_same [of ?w3 ?w4 l] up3 by (simp add: same_links_def)
  have "link_recv_reply sys l w = Inr ?w4"
    using lk buf sz rd lk1 ker tid snd
    by (simp add: link_recv_reply_def Let_def notify_requester_def event_send_def)
  moreover have "w_link ?w4 = (w_link w)(l \<mapsto> lk\<lparr>l_rctx := (l_rctx lk)\<lparr>reply_sz_read := 64\<rparr>\<rparr>)"
    "w_buf ?w4 = (w_buf w)(p \<mapsto> inbox l w @ drop 64 bytes)"
    using fr by (simp_all add: link_frame_def)
  ultimately show ?thesis using up4 by (intro exI [of _ ?w4]) simp
qed

lemma recv_cmd_outcome:
  assumes up: "up l w" and wf: "cmdq_wf (w_cmdq w)" and room: "length (cmdq_list (w_cmdq w)) < CMDQ_LEN - 1"
    and ev: "event_laws (sys_K sys) pend"
  shows "if hc_tid (w_handler w) = RTEMS_ID_NONE \<or>
      fst (rt_event_send (sys_K sys) (hc_tid (w_handler w)) CMD_EVENT_NEW (w_ker w)) = RTEMS_SUCCESSFUL
    then \<exists>w'. link_recv_cmd sys l w = Inr w' \<and> up l w' \<and> \<not> pending l w' \<and> acked l w' \<and>
      cmdq_wf (w_cmdq w') \<and>
      cmdq_list (w_cmdq w') = cmdq_list (w_cmdq w) @
        [\<lparr>it_cmd = \<lparr>cmd_msg = inbox l w, cmd_link = l\<rparr>, it_cb = None, it_arg = NULL\<rparr>] \<and>
      w_link w' = w_link w \<and> w_handler w' = w_handler w \<and>
      (hc_tid (w_handler w) \<noteq> RTEMS_ID_NONE \<longrightarrow>
         pend (w_ker w') (hc_tid (w_handler w)) AND CMD_EVENT_NEW \<noteq> 0)
    else link_recv_cmd sys l w = Inl Panic"
proof -
  let ?b = "\<lparr>buf_aligned = True, buf_bytes = replicate HPSC_MSG_SIZE 0\<rparr>"
  let ?c = "\<lparr>cmd_msg = inbox l w, cmd_link = l\<rparr>"
  obtain w1 where rd: "link_read sys l (Some ?b) 64 w = Inr (64, inbox l w, w1)"
    and fr: "link_frame w w1" and up1: "up l w1" "\<not> pending l w1" "acked l w1"
    using read_ok [OF up, of ?b] by auto
  have q1: "w_cmdq w1 = w_cmdq w" "w_handler w1 = w_handler w" "w_ker w1 = w_ker w" "w_link w1 = w_link w"
    using fr by (simp_all add: link_frame_def)
  obtain q' where q': "cmd_enqueue_cb_unsafe (Some ?c) None NULL (w_cmdq w) = Inr (0, q')" "cmdq_wf q'"
    "cmdq_list q' = cmdq_list (w_cmdq w) @ [\<lparr>it_cmd = ?c, it_cb = None, it_arg = NULL\<rparr>]"
    using cmdq_enqueue_ok [OF wf room] by blast
  obtain sc k where s: "rt_event_send (sys_K sys) (hc_tid (w_handler w)) CMD_EVENT_NEW (w_ker w) = (sc, k)" by fastforce
  let ?ker = "if hc_tid (w_handler w) = RTEMS_ID_NONE then w_ker w else k"
  let ?w2 = "w1\<lparr>w_cmdq := q', w_ker := ?ker\<rparr>"
  have eta: "w1\<lparr>w_cmdq := q', w_ker := w_ker w\<rparr> = w1\<lparr>w_cmdq := q'\<rparr>"
    using q1(3) by (cases w1) simp
  show ?thesis
  proof (cases "hc_tid (w_handler w) = RTEMS_ID_NONE \<or> sc = RTEMS_SUCCESSFUL")
    case False
    then have "link_recv_cmd sys l w = Inl Panic"
      using rd q1 q' s by (simp add: link_recv_cmd_def cmd_enqueue_def cmd_enqueue_cb_def Let_def event_send_def)
    with False s show ?thesis by simp
  next
    case True
    have r: "link_recv_cmd sys l w = Inr ?w2"
      using True rd q1 q' s eta
      by (auto simp: link_recv_cmd_def cmd_enqueue_def cmd_enqueue_cb_def Let_def event_send_def)
    have "up l ?w2 \<and> \<not> pending l ?w2 \<and> acked l ?w2"
      using up_same [of w1 ?w2 l] up1 by (simp add: same_links_def)
    moreover have "pend (w_ker ?w2) (hc_tid (w_handler w)) AND CMD_EVENT_NEW \<noteq> 0"
      if "hc_tid (w_handler w) \<noteq> RTEMS_ID_NONE"
      using that True event_laws_send(1) [OF ev s] by (simp add: event_bits CMD_EVENT_NEW_def)
    ultimately show ?thesis
      using True r q' q1 s by auto
  qed
qed

end

subsection \<open>Requests\<close>

lemma event_receive_eq:
  assumes ev: "event_laws (sys_K sys) pend" and env: "env ticks w = Inr w1"
  shows "\<exists>k. event_receive sys env e ticks w =
      Inr (pend (w_ker w1) (rt_task_self (sys_K sys) (w_ker w1)) AND e, w1\<lparr>w_ker := k\<rparr>) \<and>
    pend k = (pend (w_ker w1))(rt_task_self (sys_K sys) (w_ker w1) :=
      pend (w_ker w1) (rt_task_self (sys_K sys) (w_ker w1)) AND NOT e) \<and>
    rt_task_self (sys_K sys) k = rt_task_self (sys_K sys) (w_ker w1)"
proof -
  obtain got k where t: "rt_event_take (sys_K sys) e (w_ker w1) = (got, k)" by fastforce
  from event_laws_take [OF ev t] t env show ?thesis
    by (intro exI [of _ k]) (simp add: event_receive_def)
qed

text \<open>
  The task \<open>t\<close> exists for the kernel: sending it events succeeds.
\<close>

definition task_live :: "'k rtems \<Rightarrow> rtems_id \<Rightarrow> bool" where
  "task_live K t \<longleftrightarrow> t \<noteq> RTEMS_ID_NONE \<and>
     (\<forall>e k. rt_task_self K k = t \<longrightarrow> fst (rt_event_send K t e k) = RTEMS_SUCCESSFUL)"

text \<open>What a subsystem at the other end does to a node: it fills the incoming slot.\<close>

definition remote_writes ::
  "(ptr \<Rightarrow> 'k world \<Rightarrow> bool) \<Rightarrow> (ptr \<Rightarrow> 'k world \<Rightarrow> u8 list) \<Rightarrow> ptr \<Rightarrow> u8 list \<Rightarrow> ('k world \<Rightarrow> 'k world) \<Rightarrow> bool" where
  "remote_writes up inbox l msg f \<longleftrightarrow> (\<forall>w. up l w \<longrightarrow> up l (f w) \<and> inbox l (f w) = msg \<and>
     w_link (f w) = w_link w \<and> w_buf (f w) = w_buf w \<and> w_ker (f w) = w_ker w)"

lemma event_mask_simps:
  "((x :: u32) OR e) AND e = e" "(x AND NOT e) AND e = (0 :: u32)"
  by (fact event_bits)+

context link_transport
begin

lemma send_wait_start:
  assumes up: "up l w" and lk: "w_link w l = Some lk"
    and b: "buf_aligned b" "0 < sz" "sz \<le> 64" "sz mod 4 = 0" "sz \<le> length (buf_bytes b)"
  shows "\<exists>w1. up l w1 \<and> inbox l w1 = inbox l w \<and> sent l w1 \<and>
    outbox l w1 = take sz (buf_bytes b) @ replicate (64 - sz) 0 \<and>
    w_link w1 = (w_link w)(l \<mapsto> lk\<lparr>l_rctx := (l_rctx lk)\<lparr>tx_acked := False\<rparr>\<rparr>) \<and>
    w_buf w1 = w_buf w \<and> w_ker w1 = w_ker w \<and> same_cmd w w1 \<and>
    (\<forall>env ticks. link_request_send_wait sys env l (Some b) sz ticks w =
      res_bind (event_receive sys env (event_wait (l_rctx lk)) ticks w1) (\<lambda>(events, w3).
        c_deref (w_link w3 l) (\<lambda>lk'.
          if events AND event_wait (l_rctx lk') \<noteq> 0
          then c_assert (tx_acked (l_rctx lk')) (Inr (sz, w3)) else Inr (0, w3))))"
proof -
  let ?lk = "lk\<lparr>l_rctx := (l_rctx lk)\<lparr>tx_acked := False\<rparr>\<rparr>"
  let ?w0 = "w\<lparr>w_link := (w_link w)(l \<mapsto> ?lk)\<rparr>"
  have u0: "up l ?w0" "inbox l ?w0 = inbox l w"
    using up_rctx [OF up lk] by simp_all
  obtain w1 where w1: "link_write sys l (Some b) sz ?w0 = Inr (sz, w1)" "link_frame ?w0 w1" "up l w1"
    "inbox l w1 = inbox l ?w0" "outbox l w1 = take sz (buf_bytes b) @ replicate (64 - sz) 0" "sent l w1"
    using write_ok [OF u0(1) b(1,3,4,5)] by blast
  have fr: "w_link w1 = (w_link w)(l \<mapsto> ?lk)" "w_buf w1 = w_buf w" "w_ker w1 = w_ker w"
    using w1(2) by (simp_all add: link_frame_def)
  have "same_cmd w w1" using w1(2) by (simp add: link_frame_def same_cmd_def)
  then show ?thesis
    by (intro exI [of _ w1])
      (use lk b w1 fr u0 in \<open>simp add: link_request_send_wait_def\<close>)
qed

text \<open>A wait that ends with the acknowledgement, and one during which nothing happens.\<close>

lemma wait_for_ack:
  assumes ev: "event_laws (sys_K sys) pend" and up: "up l w" and lk: "w_link w l = Some lk"
    and live: "task_live (sys_K sys) (tid_requester (l_rctx lk))"
    and t: "rt_task_self (sys_K sys) (w_ker w) = tid_requester (l_rctx lk)"
  shows "\<exists>w1. ack_cb l w = Inr w1 \<and> up l w1 \<and> inbox l w1 = inbox l w \<and> outbox l w1 = outbox l w \<and>
    w_link w1 = (w_link w)(l \<mapsto> lk\<lparr>l_rctx := (l_rctx lk)\<lparr>tx_acked := True\<rparr>\<rparr>) \<and> w_buf w1 = w_buf w \<and>
    same_cmd w w1 \<and> rt_task_self (sys_K sys) (w_ker w1) = tid_requester (l_rctx lk) \<and>
    pend (w_ker w1) (tid_requester (l_rctx lk)) =
      pend (w_ker w) (tid_requester (l_rctx lk)) OR event_wait (l_rctx lk)"
proof -
  obtain sc k where snd: "rt_event_send (sys_K sys) (tid_requester (l_rctx lk)) (event_wait (l_rctx lk)) (w_ker w) = (sc, k)"
    by fastforce
  with live t have sc: "tid_requester (l_rctx lk) \<noteq> RTEMS_ID_NONE" "sc = RTEMS_SUCCESSFUL"
    unfolding task_live_def by (blast, metis fst_conv)
  with ack_ok [OF up lk sc(1), of k] snd event_laws_send [OF ev snd] t show ?thesis by auto
qed

lemma take_events:
  assumes ev: "event_laws (sys_K sys) pend" and env: "env ticks w = Inr w1" and up: "up l w1"
    and t: "rt_task_self (sys_K sys) (w_ker w1) = t"
  shows "\<exists>w2. event_receive sys env e ticks w = Inr (pend (w_ker w1) t AND e, w2) \<and> up l w2 \<and>
    inbox l w2 = inbox l w1 \<and> outbox l w2 = outbox l w1 \<and> w_link w2 = w_link w1 \<and> w_buf w2 = w_buf w1 \<and>
    same_cmd w1 w2 \<and> pend (w_ker w2) t = pend (w_ker w1) t AND NOT e \<and> rt_task_self (sys_K sys) (w_ker w2) = t"
proof -
  obtain k where "event_receive sys env e ticks w = Inr (pend (w_ker w1) t AND e, w1\<lparr>w_ker := k\<rparr>)"
    "pend k t = pend (w_ker w1) t AND NOT e" "rt_task_self (sys_K sys) k = t"
    using event_receive_eq [where env = env and ticks = ticks and w = w and ?w1.0 = w1 and e = e, OF ev env] t by auto
  then show ?thesis
    using up_same [of w1 "w1\<lparr>w_ker := k\<rparr>" l] up by (intro exI [of _ "w1\<lparr>w_ker := k\<rparr>"])
      (simp add: same_links_def same_cmd_def)
qed

lemma clear_requester:
  assumes "up l w" and "w_link w l = Some lk"
  shows "\<exists>w'. upd_rctx l (\<lambda>r. r\<lparr>tid_requester := RTEMS_ID_NONE\<rparr>) w = Inr w' \<and> up l w' \<and>
    inbox l w' = inbox l w \<and> outbox l w' = outbox l w \<and>
    w_link w' = (w_link w)(l \<mapsto> lk\<lparr>l_rctx := (l_rctx lk)\<lparr>tid_requester := RTEMS_ID_NONE\<rparr>\<rparr>) \<and>
    w_buf w' = w_buf w \<and> w_ker w' = w_ker w \<and> same_cmd w w'"
  using up_rctx [OF assms] assms(2) by (simp add: same_cmd_def)

text \<open>The state a request blocks in, and how it goes on from there.\<close>

lemma send_start:
  assumes up: "up l w" and lk: "w_link w l = Some lk"
    and b: "buf_aligned b" "0 < sz" "sz \<le> 64" "sz mod 4 = 0" "sz \<le> length (buf_bytes b)"
  shows "\<exists>w1. up l w1 \<and> inbox l w1 = inbox l w \<and> outbox l w1 = take sz (buf_bytes b) @ replicate (64 - sz) 0 \<and>
    w_link w1 l = Some (lk\<lparr>l_rctx := r\<lparr>tx_acked := False\<rparr>\<rparr>) \<and> w_buf w1 = w_buf w \<and> w_ker w1 = w_ker w \<and>
    same_cmd w w1 \<and>
    (\<forall>env ticks. link_request_send_wait sys env l (Some b) sz ticks (w\<lparr>w_link := (w_link w)(l \<mapsto> lk\<lparr>l_rctx := r\<rparr>)\<rparr>) =
      res_bind (event_receive sys env (event_wait r) ticks w1) (\<lambda>(events, w3).
        c_deref (w_link w3 l) (\<lambda>lk'.
          if events AND event_wait (l_rctx lk') \<noteq> 0
          then c_assert (tx_acked (l_rctx lk')) (Inr (sz, w3)) else Inr (0, w3))))"
proof -
  let ?w0 = "w\<lparr>w_link := (w_link w)(l \<mapsto> lk\<lparr>l_rctx := r\<rparr>)\<rparr>"
  have "up l ?w0" "inbox l ?w0 = inbox l w" "w_link ?w0 l = Some (lk\<lparr>l_rctx := r\<rparr>)"
    using up_rctx [OF up lk] by simp_all
  from send_wait_start [OF this(1,3) b] this(2) show ?thesis by (auto simp: same_cmd_def)
qed

lemma request_send_acked:
  assumes ev: "event_laws (sys_K sys) pend" and t: "t = rt_task_self (sys_K sys) (w_ker w)" "task_live (sys_K sys) t"
    and up: "up l w" and b: "buf_aligned b" "0 < sz" "sz \<le> 64" "sz mod 4 = 0" "sz \<le> length (buf_bytes b)"
    and e: "e \<noteq> 0"
  shows "\<exists>w' lk'. link_request_send sys (\<lambda>_. ack_cb l) l (Some b) sz ticks e w = Inr (sz, w') \<and> up l w' \<and>
      outbox l w' = take sz (buf_bytes b) @ replicate (64 - sz) 0 \<and>
      w_link w' l = Some lk' \<and> tid_requester (l_rctx lk') = RTEMS_ID_NONE \<and> pend (w_ker w') t AND e = 0 \<and>
      same_cmd w w' \<and> rt_task_self (sys_K sys) (w_ker w') = t"
proof -
  obtain lk where lk: "w_link w l = Some lk" using up_link [OF up] by blast
  let ?r = "(l_rctx lk)\<lparr>tid_requester := t, event_wait := e\<rparr>"
  obtain w1 where w1: "up l w1" "outbox l w1 = take sz (buf_bytes b) @ replicate (64 - sz) 0"
    "w_link w1 l = Some (lk\<lparr>l_rctx := ?r\<lparr>tx_acked := False\<rparr>\<rparr>)" "w_ker w1 = w_ker w" "same_cmd w w1"
    and run: "\<And>env ticks. link_request_send_wait sys env l (Some b) sz ticks (w\<lparr>w_link := (w_link w)(l \<mapsto> lk\<lparr>l_rctx := ?r\<rparr>)\<rparr>) =
      res_bind (event_receive sys env e ticks w1) (\<lambda>(events, w3). c_deref (w_link w3 l) (\<lambda>lk'.
          if events AND event_wait (l_rctx lk') \<noteq> 0
          then c_assert (tx_acked (l_rctx lk')) (Inr (sz, w3)) else Inr (0, w3)))"
    using send_start [OF up lk b, of ?r] by auto
  obtain w2 where w2: "ack_cb l w1 = Inr w2" "up l w2" "outbox l w2 = outbox l w1"
    "w_link w2 l = Some (lk\<lparr>l_rctx := ?r\<lparr>tx_acked := True\<rparr>\<rparr>)" "rt_task_self (sys_K sys) (w_ker w2) = t"
    "pend (w_ker w2) t = pend (w_ker w) t OR e" "same_cmd w1 w2"
    using wait_for_ack [OF ev w1(1,3)] t w1(4) by auto
  obtain w3 where w3: "event_receive sys (\<lambda>_. ack_cb l) e ticks w1 = Inr (e, w3)" "up l w3" "outbox l w3 = outbox l w1"
    "w_link w3 l = Some (lk\<lparr>l_rctx := ?r\<lparr>tx_acked := True\<rparr>\<rparr>)" "pend (w_ker w3) t AND e = 0" "same_cmd w2 w3"
    "rt_task_self (sys_K sys) (w_ker w3) = t"
    using take_events [OF ev, of "\<lambda>_. ack_cb l" ticks w1 w2 l t e] w2 by (auto simp: event_mask_simps)
  obtain w4 where w4: "upd_rctx l (\<lambda>r. r\<lparr>tid_requester := RTEMS_ID_NONE\<rparr>) w3 = Inr w4" "up l w4"
    "outbox l w4 = outbox l w1" "w_ker w4 = w_ker w3" "same_cmd w3 w4"
    "w_link w4 l = Some (lk\<lparr>l_rctx := ?r\<lparr>tx_acked := True, tid_requester := RTEMS_ID_NONE\<rparr>\<rparr>)"
    using clear_requester [OF w3(2,4)] w3 by auto
  have "link_request_send sys (\<lambda>_. ack_cb l) l (Some b) sz ticks e w = Inr (sz, w4)"
    using lk w3(1,4) w4(1) e t(1) run by (simp add: link_request_send_def)
  moreover have "same_cmd w w4"
    using w1(5) w2(7) w3(6) w4(5) by (blast intro: same_cmd_trans)
  ultimately show ?thesis using w4 w3(5,7) w1(2) by simp
qed

lemma request_send_quiet:
  assumes ev: "event_laws (sys_K sys) pend" and t: "t = rt_task_self (sys_K sys) (w_ker w)"
    and up: "up l w" and b: "buf_aligned b" "0 < sz" "sz \<le> 64" "sz mod 4 = 0" "sz \<le> length (buf_bytes b)"
  shows "if pend (w_ker w) t AND e = 0
     then \<exists>w' lk'. link_request_send sys (\<lambda>_. Inr) l (Some b) sz ticks e w = Inr (0, w') \<and> up l w' \<and>
       w_link w' l = Some lk' \<and> tid_requester (l_rctx lk') = RTEMS_ID_NONE \<and> same_cmd w w'
     else link_request_send sys (\<lambda>_. Inr) l (Some b) sz ticks e w = Inl Assert_Failed"
proof -
  obtain lk where lk: "w_link w l = Some lk" using up_link [OF up] by blast
  let ?r = "(l_rctx lk)\<lparr>tid_requester := t, event_wait := e\<rparr>"
  obtain w1 where w1: "up l w1" "w_link w1 l = Some (lk\<lparr>l_rctx := ?r\<lparr>tx_acked := False\<rparr>\<rparr>)" "w_ker w1 = w_ker w"
    "same_cmd w w1"
    and run: "\<And>env ticks. link_request_send_wait sys env l (Some b) sz ticks (w\<lparr>w_link := (w_link w)(l \<mapsto> lk\<lparr>l_rctx := ?r\<rparr>)\<rparr>) =
      res_bind (event_receive sys env e ticks w1) (\<lambda>(events, w3). c_deref (w_link w3 l) (\<lambda>lk'.
          if events AND event_wait (l_rctx lk') \<noteq> 0
          then c_assert (tx_acked (l_rctx lk')) (Inr (sz, w3)) else Inr (0, w3)))"
    using send_start [OF up lk b, of ?r] by auto
  obtain w2 where w2: "event_receive sys (\<lambda>_. Inr) e ticks w1 = Inr (pend (w_ker w) t AND e, w2)" "up l w2"
    "w_link w2 l = Some (lk\<lparr>l_rctx := ?r\<lparr>tx_acked := False\<rparr>\<rparr>)" "same_cmd w1 w2"
    using take_events [OF ev, of "\<lambda>_. Inr" ticks w1 w1 l t e] w1 t by auto
  obtain w3 where w3: "upd_rctx l (\<lambda>r. r\<lparr>tid_requester := RTEMS_ID_NONE\<rparr>) w2 = Inr w3" "up l w3"
    "w_link w3 l = Some (lk\<lparr>l_rctx := ?r\<lparr>tx_acked := False, tid_requester := RTEMS_ID_NONE\<rparr>\<rparr>)" "same_cmd w2 w3"
    using clear_requester [OF w2(2,3)] w2 by auto
  have "same_cmd w w3" using w1(4) w2(4) w3(4) by (blast intro: same_cmd_trans)
  then show ?thesis
    using lk w2(1,3) w3 t run by (auto simp: link_request_send_def and.assoc)
qed

end

context link_transport
begin

lemma wait_for_reply:
  assumes ev: "event_laws (sys_K sys) pend" and up: "up l w" and lk: "w_link w l = Some lk"
    and live: "task_live (sys_K sys) (tid_requester (l_rctx lk))"
    and t: "rt_task_self (sys_K sys) (w_ker w) = tid_requester (l_rctx lk)"
    and rem: "remote_writes up inbox l msg f"
    and p: "reply (l_rctx lk) = p" "p \<noteq> NULL" "IS_ALIGNED p" "w_buf w p = Some bytes" "64 \<le> length bytes"
    and sz: "reply_sz (l_rctx lk) = 64"
  shows "\<exists>w1. link_recv_reply sys l (f w) = Inr w1 \<and> up l w1 \<and>
    w_link w1 = (w_link w)(l \<mapsto> lk\<lparr>l_rctx := (l_rctx lk)\<lparr>reply_sz_read := 64\<rparr>\<rparr>) \<and>
    w_buf w1 = (w_buf w)(p \<mapsto> msg @ drop 64 bytes) \<and>
    rt_task_self (sys_K sys) (w_ker w1) = tid_requester (l_rctx lk) \<and>
    pend (w_ker w1) (tid_requester (l_rctx lk)) =
      pend (w_ker w) (tid_requester (l_rctx lk)) OR event_wait (l_rctx lk)"
proof -
  have f: "up l (f w)" "inbox l (f w) = msg" "w_link (f w) = w_link w" "w_buf (f w) = w_buf w" "w_ker (f w) = w_ker w"
    using rem up unfolding remote_writes_def by simp_all
  obtain sc k where snd: "rt_event_send (sys_K sys) (tid_requester (l_rctx lk)) (event_wait (l_rctx lk)) (w_ker w) = (sc, k)"
    by fastforce
  with live t have sc: "tid_requester (l_rctx lk) \<noteq> RTEMS_ID_NONE" "sc = RTEMS_SUCCESSFUL"
    unfolding task_live_def by (blast, metis fst_conv)
  obtain w1 where "link_recv_reply sys l (f w) = Inr w1" "up l w1"
    "w_link w1 = (w_link w)(l \<mapsto> lk\<lparr>l_rctx := (l_rctx lk)\<lparr>reply_sz_read := 64\<rparr>\<rparr>)"
    "w_buf w1 = (w_buf w)(p \<mapsto> msg @ drop 64 bytes)" "w_ker w1 = k"
    using recv_reply_ok [OF f(1), of lk p bytes k] f lk p sz sc snd by auto
  with event_laws_send [OF ev snd] sc t show ?thesis by auto
qed

text \<open>
  The state in which \<open>link_request\<close> blocks for the first time, and the rest of it.
\<close>

lemma request_start:
  assumes up: "up l w" and lk: "w_link w l = Some lk" and t: "t = rt_task_self (sys_K sys) (w_ker w)"
    and b: "buf_aligned b" "0 < sz" "sz \<le> 64" "sz mod 4 = 0" "sz \<le> length (buf_bytes b)"
  shows "\<exists>w1 lk1. up l w1 \<and> inbox l w1 = inbox l w \<and> outbox l w1 = take sz (buf_bytes b) @ replicate (64 - sz) 0 \<and>
    w_link w1 l = Some lk1 \<and> l_rctx lk1 = \<lparr>tid_requester = t, event_wait = e, tx_acked = False, reply = p,
      reply_sz = 64, reply_sz_read = 0\<rparr> \<and> w_buf w1 = w_buf w \<and> w_ker w1 = w_ker w \<and>
    (\<forall>env env' wticks rticks. link_request sys env env' l wticks (Some b) sz rticks p 64 e w =
      res_bind (event_receive sys env e wticks w1) (\<lambda>(events, w3).
        c_deref (w_link w3 l) (\<lambda>lk'.
          if events AND event_wait (l_rctx lk') \<noteq> 0
          then c_assert (tx_acked (l_rctx lk')) (link_request_recv_wait sys env' l rticks w3)
          else Inr (-1, w3))))"
proof -
  let ?r = "\<lparr>tid_requester = t, event_wait = e, tx_acked = tx_acked (l_rctx lk), reply = p,
      reply_sz = 64, reply_sz_read = 0\<rparr>"
  obtain w1 where w1: "up l w1" "inbox l w1 = inbox l w" "outbox l w1 = take sz (buf_bytes b) @ replicate (64 - sz) 0"
    "w_link w1 l = Some (lk\<lparr>l_rctx := ?r\<lparr>tx_acked := False\<rparr>\<rparr>)" "w_buf w1 = w_buf w" "w_ker w1 = w_ker w"
    and run: "\<And>env ticks. link_request_send_wait sys env l (Some b) sz ticks (w\<lparr>w_link := (w_link w)(l \<mapsto> lk\<lparr>l_rctx := ?r\<rparr>)\<rparr>) =
      res_bind (event_receive sys env e ticks w1) (\<lambda>(events, w3). c_deref (w_link w3 l) (\<lambda>lk'.
          if events AND event_wait (l_rctx lk') \<noteq> 0
          then c_assert (tx_acked (l_rctx lk')) (Inr (sz, w3)) else Inr (0, w3)))"
    using send_start [OF up lk b, of ?r] by auto
  have set: "upd_rctx l (\<lambda>r. r\<lparr>reply_sz_read := 0, reply := p, reply_sz := 64,
      tid_requester := rt_task_self (sys_K sys) (w_ker w), event_wait := e\<rparr>) w =
    Inr (w\<lparr>w_link := (w_link w)(l \<mapsto> lk\<lparr>l_rctx := ?r\<rparr>)\<rparr>)"
    using lk t by (cases "l_rctx lk") simp
  have "link_request sys env env' l wticks (Some b) sz rticks p 64 e w =
      res_bind (event_receive sys env e wticks w1) (\<lambda>(events, w3).
        c_deref (w_link w3 l) (\<lambda>lk'.
          if events AND event_wait (l_rctx lk') \<noteq> 0
          then c_assert (tx_acked (l_rctx lk')) (link_request_recv_wait sys env' l rticks w3)
          else Inr (-1, w3)))" for env env' wticks rticks
    using b(2) by (simp add: link_request_def set run res_bind_assoc)
      (cases "event_receive sys env e wticks w1"; auto split: option.split)
  with w1 show ?thesis
    by (intro exI [of _ w1] exI [of _ "lk\<lparr>l_rctx := ?r\<lparr>tx_acked := False\<rparr>\<rparr>"]) simp
qed

text \<open>Acknowledged, then answered.\<close>

lemma request_answered:
  assumes ev: "event_laws (sys_K sys) pend" and t: "t = rt_task_self (sys_K sys) (w_ker w)" "task_live (sys_K sys) t"
    and up: "up l w" and b: "buf_aligned b" "0 < sz" "sz \<le> 64" "sz mod 4 = 0" "sz \<le> length (buf_bytes b)"
    and e: "e \<noteq> 0" and rem: "remote_writes up inbox l msg f"
    and p: "p \<noteq> NULL" "IS_ALIGNED p" "w_buf w p = Some bytes" "64 \<le> length bytes"
  shows "\<exists>w' lk'. link_request sys (\<lambda>_. ack_cb l) (\<lambda>_ w. link_recv_reply sys l (f w)) l wticks (Some b) sz rticks p 64 e w
      = Inr (64, w') \<and>
    w_buf w' p = Some (msg @ drop 64 bytes) \<and> w_link w' l = Some lk' \<and> tid_requester (l_rctx lk') = RTEMS_ID_NONE \<and>
    pend (w_ker w') t AND e = 0"
proof -
  obtain lk where lk: "w_link w l = Some lk" using up_link [OF up] by blast
  obtain w1 lk1 where w1: "up l w1" "w_link w1 l = Some lk1" "w_buf w1 = w_buf w" "w_ker w1 = w_ker w"
    "l_rctx lk1 = \<lparr>tid_requester = t, event_wait = e, tx_acked = False, reply = p, reply_sz = 64, reply_sz_read = 0\<rparr>"
    and run: "\<And>env env' wticks rticks. link_request sys env env' l wticks (Some b) sz rticks p 64 e w =
      res_bind (event_receive sys env e wticks w1) (\<lambda>(events, w3). c_deref (w_link w3 l) (\<lambda>lk'.
          if events AND event_wait (l_rctx lk') \<noteq> 0
          then c_assert (tx_acked (l_rctx lk')) (link_request_recv_wait sys env' l rticks w3)
          else Inr (-1, w3)))"
    using request_start [OF up lk t(1) b, of e p] by auto
  obtain w2 where w2: "ack_cb l w1 = Inr w2" "up l w2" "w_link w2 l = Some (lk1\<lparr>l_rctx := (l_rctx lk1)\<lparr>tx_acked := True\<rparr>\<rparr>)"
    "w_buf w2 = w_buf w" "rt_task_self (sys_K sys) (w_ker w2) = t" "pend (w_ker w2) t = pend (w_ker w) t OR e"
    using wait_for_ack [OF ev w1(1,2)] t w1(3-5) by auto
  obtain w3 where w3: "event_receive sys (\<lambda>_. ack_cb l) e wticks w1 = Inr (e, w3)" "up l w3"
    "w_link w3 l = Some (lk1\<lparr>l_rctx := (l_rctx lk1)\<lparr>tx_acked := True\<rparr>\<rparr>)" "w_buf w3 = w_buf w"
    "pend (w_ker w3) t AND e = 0" "rt_task_self (sys_K sys) (w_ker w3) = t"
    using take_events [OF ev, of "\<lambda>_. ack_cb l" wticks w1 w2 l t e] w2 by (auto simp: event_mask_simps)
  obtain w4 where w4: "link_recv_reply sys l (f w3) = Inr w4" "up l w4"
    "w_link w4 l = Some (lk1\<lparr>l_rctx := (l_rctx lk1)\<lparr>tx_acked := True, reply_sz_read := 64\<rparr>\<rparr>)"
    "w_buf w4 p = Some (msg @ drop 64 bytes)" "rt_task_self (sys_K sys) (w_ker w4) = t"
    "pend (w_ker w4) t = pend (w_ker w3) t OR e"
    using wait_for_reply [OF ev w3(2,3) _ _ rem _ p(1,2)] p w1(5) t(2) w3 by auto
  obtain w5 where w5: "event_receive sys (\<lambda>_ w. link_recv_reply sys l (f w)) e rticks w3 = Inr (e, w5)" "up l w5"
    "w_link w5 l = w_link w4 l" "w_buf w5 = w_buf w4" "pend (w_ker w5) t AND e = 0"
    using take_events [OF ev, of "\<lambda>_ w. link_recv_reply sys l (f w)" rticks w3 w4 l t e] w4
    by (auto simp: event_mask_simps)
  obtain w6 where w6: "upd_rctx l (\<lambda>r. r\<lparr>tid_requester := RTEMS_ID_NONE\<rparr>) w5 = Inr w6" "w_buf w6 = w_buf w5"
    "w_ker w6 = w_ker w5" "w_link w6 l = Some (lk1\<lparr>l_rctx := (l_rctx lk1)\<lparr>tx_acked := True, reply_sz_read := 64,
       tid_requester := RTEMS_ID_NONE\<rparr>\<rparr>)"
    using clear_requester [OF w5(2)] w4(3) w5(3) by auto
  have "link_request sys (\<lambda>_. ack_cb l) (\<lambda>_ w. link_recv_reply sys l (f w)) l wticks (Some b) sz rticks p 64 e w = Inr (64, w6)"
    using w3(1,3) w5(1,3) w4(3) w6(1) w1(5) e by (simp add: run link_request_recv_wait_def)
  with w4 w5 w6 show ?thesis by simp
qed

end

context link_transport
begin

text \<open>
  Both signals before the task runs again: one event is left for two waits, so the wait for
  the reply times out although the reply is in the buffer.
\<close>

lemma request_coalesced:
  assumes ev: "event_laws (sys_K sys) pend" and t: "t = rt_task_self (sys_K sys) (w_ker w)" "task_live (sys_K sys) t"
    and up: "up l w" and b: "buf_aligned b" "0 < sz" "sz \<le> 64" "sz mod 4 = 0" "sz \<le> length (buf_bytes b)"
    and e: "e \<noteq> 0" and rem: "remote_writes up inbox l msg f"
    and p: "p \<noteq> NULL" "IS_ALIGNED p" "w_buf w p = Some bytes" "64 \<le> length bytes"
  shows "\<exists>w' lk'. link_request sys (\<lambda>_ w. res_bind (ack_cb l w) (\<lambda>w. link_recv_reply sys l (f w))) (\<lambda>_. Inr)
      l wticks (Some b) sz rticks p 64 e w = Inr (-2, w') \<and>
    w_buf w' p = Some (msg @ drop 64 bytes) \<and> w_link w' l = Some lk' \<and> reply_sz_read (l_rctx lk') = 64 \<and>
    tid_requester (l_rctx lk') = RTEMS_ID_NONE"
proof -
  obtain lk where lk: "w_link w l = Some lk" using up_link [OF up] by blast
  let ?env = "\<lambda>_ w. res_bind (ack_cb l w) (\<lambda>w. link_recv_reply sys l (f w))"
  obtain w1 lk1 where w1: "up l w1" "w_link w1 l = Some lk1" "w_buf w1 = w_buf w" "w_ker w1 = w_ker w"
    "l_rctx lk1 = \<lparr>tid_requester = t, event_wait = e, tx_acked = False, reply = p, reply_sz = 64, reply_sz_read = 0\<rparr>"
    and run: "\<And>env env' wticks rticks. link_request sys env env' l wticks (Some b) sz rticks p 64 e w =
      res_bind (event_receive sys env e wticks w1) (\<lambda>(events, w3). c_deref (w_link w3 l) (\<lambda>lk'.
          if events AND event_wait (l_rctx lk') \<noteq> 0
          then c_assert (tx_acked (l_rctx lk')) (link_request_recv_wait sys env' l rticks w3)
          else Inr (-1, w3)))"
    using request_start [OF up lk t(1) b, of e p] by auto
  obtain w2 where w2: "ack_cb l w1 = Inr w2" "up l w2" "w_link w2 l = Some (lk1\<lparr>l_rctx := (l_rctx lk1)\<lparr>tx_acked := True\<rparr>\<rparr>)"
    "w_buf w2 = w_buf w" "rt_task_self (sys_K sys) (w_ker w2) = t" "pend (w_ker w2) t = pend (w_ker w) t OR e"
    using wait_for_ack [OF ev w1(1,2)] t w1(3-5) by auto
  obtain w3 where w3: "link_recv_reply sys l (f w2) = Inr w3" "up l w3"
    "w_link w3 l = Some (lk1\<lparr>l_rctx := (l_rctx lk1)\<lparr>tx_acked := True, reply_sz_read := 64\<rparr>\<rparr>)"
    "w_buf w3 p = Some (msg @ drop 64 bytes)" "rt_task_self (sys_K sys) (w_ker w3) = t"
    "pend (w_ker w3) t = (pend (w_ker w) t OR e) OR e"
    using wait_for_reply [OF ev w2(2,3) _ _ rem _ p(1,2)] p w1(5) t(2) w2 by auto
  obtain w4 where w4: "event_receive sys ?env e wticks w1 = Inr (e, w4)" "up l w4" "w_link w4 l = w_link w3 l"
    "w_buf w4 = w_buf w3" "pend (w_ker w4) t AND e = 0" "rt_task_self (sys_K sys) (w_ker w4) = t"
    using take_events [OF ev, of ?env wticks w1 w3 l t e] w2(1) w3 by (auto simp: event_mask_simps)
  obtain w5 where w5: "event_receive sys (\<lambda>_. Inr) e rticks w4 = Inr (0, w5)" "up l w5"
    "w_link w5 l = w_link w4 l" "w_buf w5 = w_buf w4"
    using take_events [OF ev, of "\<lambda>_. Inr" rticks w4 w4 l t e] w4 by auto
  obtain w6 where w6: "upd_rctx l (\<lambda>r. r\<lparr>tid_requester := RTEMS_ID_NONE\<rparr>) w5 = Inr w6" "w_buf w6 = w_buf w5"
    "w_link w6 l = Some (lk1\<lparr>l_rctx := (l_rctx lk1)\<lparr>tx_acked := True, reply_sz_read := 64,
       tid_requester := RTEMS_ID_NONE\<rparr>\<rparr>)"
    using clear_requester [OF w5(2)] w3(3) w4(3) w5(3) by auto
  have "link_request sys ?env (\<lambda>_. Inr) l wticks (Some b) sz rticks p 64 e w = Inr (-2, w6)"
    using w3(3) w4(1,3) w5(1,3) w6(1) w1(5) e by (simp add: run link_request_recv_wait_def)
  with w3 w4 w5 w6 show ?thesis by simp
qed

text \<open>The reply first, or with the acknowledgement lost: the assertion on \<open>tx_acked\<close> fails.\<close>

lemma request_reply_first:
  assumes ev: "event_laws (sys_K sys) pend" and t: "t = rt_task_self (sys_K sys) (w_ker w)" "task_live (sys_K sys) t"
    and up: "up l w" and b: "buf_aligned b" "0 < sz" "sz \<le> 64" "sz mod 4 = 0" "sz \<le> length (buf_bytes b)"
    and e: "e \<noteq> 0" and rem: "remote_writes up inbox l msg f"
    and p: "p \<noteq> NULL" "IS_ALIGNED p" "w_buf w p = Some bytes" "64 \<le> length bytes"
  shows "link_request sys (\<lambda>_ w. link_recv_reply sys l (f w)) env' l wticks (Some b) sz rticks p 64 e w =
    Inl Assert_Failed"
proof -
  obtain lk where lk: "w_link w l = Some lk" using up_link [OF up] by blast
  obtain w1 lk1 where w1: "up l w1" "w_link w1 l = Some lk1" "w_buf w1 = w_buf w" "w_ker w1 = w_ker w"
    "l_rctx lk1 = \<lparr>tid_requester = t, event_wait = e, tx_acked = False, reply = p, reply_sz = 64, reply_sz_read = 0\<rparr>"
    and run: "\<And>env env' wticks rticks. link_request sys env env' l wticks (Some b) sz rticks p 64 e w =
      res_bind (event_receive sys env e wticks w1) (\<lambda>(events, w3). c_deref (w_link w3 l) (\<lambda>lk'.
          if events AND event_wait (l_rctx lk') \<noteq> 0
          then c_assert (tx_acked (l_rctx lk')) (link_request_recv_wait sys env' l rticks w3)
          else Inr (-1, w3)))"
    using request_start [OF up lk t(1) b, of e p] by auto
  obtain w3 where w3: "link_recv_reply sys l (f w1) = Inr w3" "up l w3"
    "w_link w3 l = Some (lk1\<lparr>l_rctx := (l_rctx lk1)\<lparr>reply_sz_read := 64\<rparr>\<rparr>)"
    "rt_task_self (sys_K sys) (w_ker w3) = t" "pend (w_ker w3) t = pend (w_ker w) t OR e"
    using wait_for_reply [OF ev w1(1,2) _ _ rem _ p(1,2)] p w1 t by auto
  obtain w4 where "event_receive sys (\<lambda>_ w. link_recv_reply sys l (f w)) e wticks w1 = Inr (e, w4)"
    "w_link w4 l = w_link w3 l"
    using take_events [OF ev, of "\<lambda>_ w. link_recv_reply sys l (f w)" wticks w1 w3 l t e] w3
    by (auto simp: event_mask_simps)
  with w3(3) w1(5) e show ?thesis by (simp add: run)
qed

text \<open>
  No acknowledgement in time: the request fails, but the link keeps the task and its buffer;
  a reply that comes later is stored through that pointer and posts the event again.
\<close>

lemma request_timeout_keeps_requester:
  assumes ev: "event_laws (sys_K sys) pend" and t: "t = rt_task_self (sys_K sys) (w_ker w)" "task_live (sys_K sys) t"
    and up: "up l w" and b: "buf_aligned b" "0 < sz" "sz \<le> 64" "sz mod 4 = 0" "sz \<le> length (buf_bytes b)"
    and quiet: "pend (w_ker w) t AND e = 0" and rem: "remote_writes up inbox l msg f"
    and p: "p \<noteq> NULL" "IS_ALIGNED p" "w_buf w p = Some bytes" "64 \<le> length bytes"
  shows "\<exists>w' lk' w''. link_request sys (\<lambda>_. Inr) env' l wticks (Some b) sz rticks p 64 e w = Inr (-1, w') \<and>
    w_link w' l = Some lk' \<and> tid_requester (l_rctx lk') = t \<and> reply (l_rctx lk') = p \<and> w_buf w' p = Some bytes \<and>
    link_recv_reply sys l (f w') = Inr w'' \<and> w_buf w'' p = Some (msg @ drop 64 bytes) \<and>
    pend (w_ker w'') t AND e = e"
proof -
  obtain lk where lk: "w_link w l = Some lk" using up_link [OF up] by blast
  obtain w1 lk1 where w1: "up l w1" "w_link w1 l = Some lk1" "w_buf w1 = w_buf w" "w_ker w1 = w_ker w"
    "l_rctx lk1 = \<lparr>tid_requester = t, event_wait = e, tx_acked = False, reply = p, reply_sz = 64, reply_sz_read = 0\<rparr>"
    and run: "\<And>env env' wticks rticks. link_request sys env env' l wticks (Some b) sz rticks p 64 e w =
      res_bind (event_receive sys env e wticks w1) (\<lambda>(events, w3). c_deref (w_link w3 l) (\<lambda>lk'.
          if events AND event_wait (l_rctx lk') \<noteq> 0
          then c_assert (tx_acked (l_rctx lk')) (link_request_recv_wait sys env' l rticks w3)
          else Inr (-1, w3)))"
    using request_start [OF up lk t(1) b, of e p] by auto
  obtain w2 where w2: "event_receive sys (\<lambda>_. Inr) e wticks w1 = Inr (0, w2)" "up l w2" "w_link w2 l = Some lk1"
    "w_buf w2 = w_buf w" "rt_task_self (sys_K sys) (w_ker w2) = t"
    using take_events [OF ev, of "\<lambda>_. Inr" wticks w1 w1 l t e] w1 t quiet by auto
  obtain w3 where w3: "link_recv_reply sys l (f w2) = Inr w3" "w_buf w3 p = Some (msg @ drop 64 bytes)"
    "pend (w_ker w3) t = pend (w_ker w2) t OR e"
    using wait_for_reply [OF ev w2(2,3) _ _ rem _ p(1,2)] p w1(5) t w2 by auto
  have "link_request sys (\<lambda>_. Inr) env' l wticks (Some b) sz rticks p 64 e w = Inr (-1, w2)"
    using w2(1,3) by (simp add: run)
  with w2 w3 w1(5) p show ?thesis
    by (intro exI [of _ w2] exI [of _ lk1] exI [of _ w3]) (simp add: event_mask_simps)
qed

end

end
