(* ===== verification/Link_Requests.thy ===== *)
theory Link_Requests
  imports Link_Contract
begin

text \<open>
  Properties of \<open>lib/hpsc/link.c\<close> for links over either transport, from the consequences of
  the transport contract, and a node to which they apply.
\<close>

subsection \<open>A node with a mailbox link and a shared memory link\<close>

definition demo_sys :: "demo_kernel sys" where
  "demo_sys = \<lparr>sys_K = demo_rtems, sys_hw = demo_hw, sys_handled = (\<lambda>_ _ _. Inr)\<rparr>"

definition demo_rctx :: link_request_ctx where
  "demo_rctx = \<lparr>tid_requester = RTEMS_ID_NONE, event_wait = 0, tx_acked = False, reply = NULL, reply_sz = 0,
     reply_sz_read = 0\<rparr>"

definition demo_link_mbox :: link where
  "demo_link_mbox = \<lparr>l_rctx = demo_rctx, l_name = Some ''mbox'', l_priv = 0x300, l_write = Link_mbox_write,
     l_read = Link_mbox_read, l_close = Link_mbox_close\<rparr>"

definition demo_link_shmem :: link where
  "demo_link_shmem = \<lparr>l_rctx = demo_rctx, l_name = Some ''shmem'', l_priv = 0x700, l_write = Link_shmem_write,
     l_read = Link_shmem_read, l_close = Link_shmem_close\<rparr>"

definition demo_node_mbox :: hpsc_mbox where
  "demo_node_mbox = st_mbox (hpsc_mbox_chan_init 1 0 0 0 None (Some Link_mbox_ack) 0x200
     (hpsc_mbox_chan_init 0 0 0 0 (Some Link_recv_cmd) None 0x200 demo_mbox))"

definition demo_world :: "demo_kernel world" where
  "demo_world = \<lparr>
     w_mbox = [0x100 \<mapsto> demo_node_mbox],
     w_mreg = (\<lambda>_. demo_regs),
     w_shm = \<lparr>sh_obj = [0x800 \<mapsto> 0x40260000, 0x900 \<mapsto> 0x40268000],
       sh_mem = (\<lambda>_. \<lparr>shm_data = replicate 64 0, shm_status = 0\<rparr>)\<rparr>,
     w_poll = Map.empty,
     w_link = [0x200 \<mapsto> demo_link_mbox, 0x600 \<mapsto> demo_link_shmem],
     w_mlink = [0x300 \<mapsto> \<lparr>ml_mbox = 0x100, chan_from = 0, chan_to = 1\<rparr>],
     w_slink = [0x700 \<mapsto> \<lparr>shmem_out = 0x800, shmem_in = 0x900, sp_recv = 0, sp_ack = 0\<rparr>],
     w_buf = [0x400 \<mapsto> replicate 64 0],
     w_cmdq = cmdq_init, w_handler = cmd_handler_init, w_handled = cmd_handled_init,
     w_store = [], w_devs = devices_init, w_rtit = Map.empty,
     w_wdtc = (\<lambda>_. \<lparr>wt_wdt = NULL, wt_tid = RTEMS_ID_NONE, wt_ticks = 0, wt_cb = Watchdog_timeout_isr,
       wt_cb_arg = NULL, wt_running = False\<rparr>),
     w_ker = demo_k0\<rparr>"

lemma demo_sys_simps [simp]: "sys_K demo_sys = demo_rtems" "sys_hw demo_sys = demo_hw"
  by (simp_all add: demo_sys_def)

lemma demo_node_mbox_chans:
  "mbox_wf demo_node_mbox"
  "i \<in> {0, 1} \<Longrightarrow> ch_base (mb_chans demo_node_mbox ! i) = Some (chan_addr demo_node_mbox i)"
  by (auto simp: demo_node_mbox_def)

lemma demo_mlink_up: "mlink_up demo_sys 0x200 demo_world"
  unfolding mlink_up_def
  by (simp add: demo_hw_laws demo_world_def demo_link_mbox_def demo_node_mbox_chans demo_regs_def)

lemma demo_slink_up: "slink_up 0x600 demo_world"
  by (simp add: slink_up_def demo_world_def demo_link_shmem_def)

lemma demo_link_up: "l \<in> {0x200, 0x600} \<Longrightarrow> link_up demo_sys l demo_world"
  using demo_mlink_up demo_slink_up by (auto simp: link_up_def)

lemma demo_world_simps [simp]:
  "w_ker demo_world = demo_k0" "w_buf demo_world 0x400 = Some (replicate 64 0)" "w_cmdq demo_world = cmdq_init"
  "w_handler demo_world = cmd_handler_init" "w_handled demo_world = cmd_handled_init"
  by (simp_all add: demo_world_def)

lemma demo_self [simp]: "rt_task_self demo_rtems demo_k0 = 1"
  by (simp add: demo_rtems_def demo_k0_def)

lemma demo_k0_pend [simp]: "dk_pend demo_k0 t = 0"
  by (simp add: demo_k0_def)

text \<open>The remote end of every link fills its slot with sevens.\<close>

definition demo_remote :: "'k world \<Rightarrow> 'k world" where
  "demo_remote w = w\<lparr>w_mreg := (\<lambda>a. (w_mreg w a)\<lparr>DATA := replicate 16 0x07070707\<rparr>),
     w_shm := (w_shm w)\<lparr>sh_mem := (\<lambda>a. (sh_mem (w_shm w) a)\<lparr>shm_data := replicate 64 7\<rparr>)\<rparr>\<rparr>"

lemma demo_data_bytes: "DATA r = replicate 16 0x07070707 \<Longrightarrow> data_bytes r = replicate 64 7"
proof -
  assume "DATA r = replicate 16 0x07070707"
  then have "data_bytes r = concat (replicate 16 (bytes32 0x07070707))" by (simp add: data_bytes_def)
  also have "\<dots> = replicate 64 7" by code_simp
  finally show ?thesis .
qed

lemma demo_remote_writes: "remote_writes (link_up sys) link_inbox l (replicate 64 7) demo_remote"
  unfolding remote_writes_def
proof (intro allI impI conjI)
  fix w assume up: "link_up sys l w"
  have via: "via_mbox (demo_remote w) l = via_mbox w l"
    by (simp add: via_mbox_def demo_remote_def)
  show "link_up sys l (demo_remote w)"
    using up unfolding link_up_def
    by (auto simp: mlink_up_def slink_up_def demo_remote_def)
  show "link_inbox l (demo_remote w) = replicate 64 7"
    using up unfolding link_up_def
  proof
    assume m: "mlink_up sys l w"
    then obtain lk ml mb where "w_link w l = Some lk" "w_mlink w (l_priv lk) = Some ml" "w_mbox w (ml_mbox ml) = Some mb"
      unfolding mlink_up_def by blast
    then show ?thesis
      using via via_mbox_up(1) [OF m]
      by (simp add: link_inbox_def mlink_regs_def reg_bytes_def demo_remote_def demo_data_bytes)
  next
    assume m: "slink_up l w"
    then obtain lk sl a where "w_link w l = Some lk" "w_slink w (l_priv lk) = Some sl" "sh_obj (w_shm w) (shmem_in sl) = Some a"
      unfolding slink_up_def by blast
    then show ?thesis
      using via via_mbox_up(2) [OF m]
      by (simp add: link_inbox_def slink_region_def region_bytes_def demo_remote_def)
  qed
qed (simp_all add: demo_remote_def)

lemma demo_task_live: "task_live demo_rtems 1"
  by (auto simp: task_live_def demo_rtems_def)

text \<open>A buffer with a message to send.\<close>

definition demo_buf :: cbuf where
  "demo_buf = \<lparr>buf_aligned = True, buf_bytes = [1, 0, 0, 0, 5, 6, 7, 8]\<rparr>"

lemma demo_buf_simps [simp]: "buf_aligned demo_buf" "length (buf_bytes demo_buf) = 8"
  by (simp_all add: demo_buf_def)

subsection \<open>Properties\<close>

text \<open>C9. A send over a link of either transport that is acknowledged returns the size of the message, and
  the outgoing slot holds the message padded with zeros. Without an acknowledgement it returns 0 and
  clears the requester; but if the event it waits for was already pending when it started, the assert
  on the acknowledgement flag fails.\<close>

theorem link_request_send_outcome:
  assumes ev: "event_laws (sys_K sys) pend" and t: "t = rt_task_self (sys_K sys) (w_ker w)" "task_live (sys_K sys) t"
    and up: "link_up sys l w"
    and b: "buf_aligned b" "0 < sz" "sz \<le> HPSC_MSG_SIZE" "sz mod 4 = 0" "sz \<le> length (buf_bytes b)"
    and e: "e \<noteq> 0"
  shows "(\<exists>w' lk'. link_request_send sys (\<lambda>_. link_ack_cb sys l) l (Some b) sz ticks e w = Inr (sz, w') \<and>
      link_up sys l w' \<and> link_outbox l w' = take sz (buf_bytes b) @ replicate (HPSC_MSG_SIZE - sz) 0 \<and>
      w_link w' l = Some lk' \<and> tid_requester (l_rctx lk') = RTEMS_ID_NONE \<and> pend (w_ker w') t AND e = 0 \<and> same_cmd w w' \<and>
      rt_task_self (sys_K sys) (w_ker w') = t) \<and>
    (if pend (w_ker w) t AND e = 0
     then \<exists>w' lk'. link_request_send sys (\<lambda>_. Inr) l (Some b) sz ticks e w = Inr (0, w') \<and> link_up sys l w' \<and>
       w_link w' l = Some lk' \<and> tid_requester (l_rctx lk') = RTEMS_ID_NONE \<and> same_cmd w w'
     else link_request_send sys (\<lambda>_. Inr) l (Some b) sz ticks e w = Inl Assert_Failed)"
proof -
  have sz: "sz \<le> 64" using b by simp
  show ?thesis
    using any_link.request_send_acked [OF ev t up b(1,2) sz b(4,5) e, of ticks]
      any_link.request_send_quiet [OF ev t(1) up b(1,2) sz b(4,5), of e ticks]
    by (intro conjI) simp_all
qed

theorem link_request_send_outcome_witness:
  "\<exists>w'. link_request_send demo_sys (\<lambda>_. link_ack_cb demo_sys 0x200) 0x200 (Some demo_buf) 8 100 4 demo_world =
     Inr (8, w') \<and> link_outbox 0x200 w' = [1, 0, 0, 0, 5, 6, 7, 8] @ replicate 56 0"
  using link_request_send_outcome [where sys = demo_sys and pend = dk_pend and t = 1 and w = demo_world and l = "0x200"
      and b = demo_buf and sz = 8 and e = 4 and ticks = 100]
  by (auto simp: demo_event_laws demo_task_live demo_link_up) (simp add: demo_buf_def)


lemma demo_request_hyps:
  "event_laws (sys_K demo_sys) dk_pend" "1 = rt_task_self (sys_K demo_sys) (w_ker demo_world)"
  "task_live (sys_K demo_sys) 1" "link_up demo_sys 0x200 demo_world" "link_up demo_sys 0x600 demo_world"
  "buf_aligned demo_buf" "0 < (8 :: nat)" "(8 :: nat) \<le> 64" "(8 :: nat) mod 4 = 0" "8 \<le> length (buf_bytes demo_buf)"
  "(4 :: u32) \<noteq> 0" "(0x400 :: ptr) \<noteq> NULL" "IS_ALIGNED 0x400" "w_buf demo_world 0x400 = Some (replicate 64 0)"
  "64 \<le> length (replicate 64 (0 :: u8))" "dk_pend (w_ker demo_world) 1 AND 4 = 0"
  by (simp_all add: demo_event_laws demo_task_live demo_link_up IS_ALIGNED_def)


text \<open>C19. If the acknowledgement and the reply both arrive before the requesting task runs again, the two
  notifications are one pending event, which the first wait consumes: the request reports a read
  timeout, although the reply is in the caller's buffer and its size is recorded.\<close>

theorem link_request_coalesced:
  assumes "event_laws (sys_K sys) pend" and "t = rt_task_self (sys_K sys) (w_ker w)" and "task_live (sys_K sys) t"
    and "link_up sys l w"
    and "buf_aligned b" and "0 < sz" and "sz \<le> 64" and "sz mod 4 = 0" and "sz \<le> length (buf_bytes b)"
    and "e \<noteq> 0" and "remote_writes (link_up sys) link_inbox l msg f"
    and "p \<noteq> NULL" and "IS_ALIGNED p" and "w_buf w p = Some bytes" and "64 \<le> length bytes"
  shows "\<exists>w' lk'. link_request sys (\<lambda>_ w. res_bind (link_ack_cb sys l w) (\<lambda>w. link_recv_reply sys l (f w))) (\<lambda>_. Inr) l
      wticks (Some b) sz rticks p 64 e w = Inr (-2, w') \<and>
    w_buf w' p = Some (msg @ drop 64 bytes) \<and> w_link w' l = Some lk' \<and> reply_sz_read (l_rctx lk') = 64 \<and>
    tid_requester (l_rctx lk') = RTEMS_ID_NONE"
  using assms by (rule any_link.request_coalesced)

theorem link_request_coalesced_witness:
  "\<exists>w'. link_request demo_sys (\<lambda>_ w. res_bind (link_ack_cb demo_sys 0x200 w)
       (\<lambda>w. link_recv_reply demo_sys 0x200 (demo_remote w))) (\<lambda>_. Inr)
     0x200 100 (Some demo_buf) 8 100 0x400 64 4 demo_world = Inr (-2, w') \<and> w_buf w' 0x400 = Some (replicate 64 7)"
  using link_request_coalesced [OF demo_request_hyps(1-4) demo_request_hyps(6-11)
      demo_remote_writes demo_request_hyps(12-15), of 100 100]
  by auto

theorem link_request_reply_before_ack:
  assumes "event_laws (sys_K sys) pend" and "t = rt_task_self (sys_K sys) (w_ker w)" and "task_live (sys_K sys) t"
    and "link_up sys l w"
    and "buf_aligned b" and "0 < sz" and "sz \<le> 64" and "sz mod 4 = 0" and "sz \<le> length (buf_bytes b)"
    and "e \<noteq> 0" and "remote_writes (link_up sys) link_inbox l msg f"
    and "p \<noteq> NULL" and "IS_ALIGNED p" and "w_buf w p = Some bytes" and "64 \<le> length bytes"
  shows "link_request sys (\<lambda>_ w. link_recv_reply sys l (f w)) env' l wticks (Some b) sz rticks p 64 e w =
    Inl Assert_Failed"
  using assms by (rule any_link.request_reply_first)

theorem link_request_reply_before_ack_witness:
  "link_request demo_sys (\<lambda>_ w. link_recv_reply demo_sys 0x200 (demo_remote w)) (\<lambda>_. Inr)
     0x200 100 (Some demo_buf) 8 100 0x400 64 4 demo_world = Inl Assert_Failed"
  using link_request_reply_before_ack [OF demo_request_hyps(1-4) demo_request_hyps(6-11)
      demo_remote_writes demo_request_hyps(12-15)] .

text \<open>C20. A request that gets no acknowledgement in time returns -1 but leaves its requester and its
  reply buffer registered in the link: a reply that arrives later is still written to that buffer and
  leaves a stale event pending for the task.\<close>

theorem link_request_timeout_keeps_requester:
  assumes "event_laws (sys_K sys) pend" and "t = rt_task_self (sys_K sys) (w_ker w)" and "task_live (sys_K sys) t"
    and "link_up sys l w"
    and "buf_aligned b" and "0 < sz" and "sz \<le> 64" and "sz mod 4 = 0" and "sz \<le> length (buf_bytes b)"
    and "pend (w_ker w) t AND e = 0" and "remote_writes (link_up sys) link_inbox l msg f"
    and "p \<noteq> NULL" and "IS_ALIGNED p" and "w_buf w p = Some bytes" and "64 \<le> length bytes"
  shows "\<exists>w' lk' w''. link_request sys (\<lambda>_. Inr) env' l wticks (Some b) sz rticks p 64 e w = Inr (-1, w') \<and>
    w_link w' l = Some lk' \<and> tid_requester (l_rctx lk') = t \<and> reply (l_rctx lk') = p \<and> w_buf w' p = Some bytes \<and>
    link_recv_reply sys l (f w') = Inr w'' \<and> w_buf w'' p = Some (msg @ drop 64 bytes) \<and>
    pend (w_ker w'') t AND e = e"
  using assms by (rule any_link.request_timeout_keeps_requester)

theorem link_request_timeout_keeps_requester_witness:
  "\<exists>w' w''. link_request demo_sys (\<lambda>_. Inr) (\<lambda>_. Inr) 0x200 100 (Some demo_buf) 8 100 0x400 64 4 demo_world =
       Inr (-1, w') \<and>
     link_recv_reply demo_sys 0x200 (demo_remote w') = Inr w'' \<and> w_buf w'' 0x400 = Some (replicate 64 7)"
  using link_request_timeout_keeps_requester [OF demo_request_hyps(1-4) demo_request_hyps(6-10) demo_request_hyps(16)
      demo_remote_writes demo_request_hyps(12-15), of "\<lambda>_. Inr" 100 100]
  by auto



end
