(* ===== verification/Command.thy ===== *)
theory Command
  imports Link_Requests
begin

text \<open>
  Handling commands: the handler task of \<open>lib/hpsc/command.c\<close>, the server of
  \<open>rtps-r52/server.c\<close>, and the start and the end of the task.
\<close>

subsection \<open>Command handlers\<close>

text \<open>The result: the size of the reply, negative on failure, and the reply buffer.\<close>

definition server_process :: "cmd \<Rightarrow> u8 list \<Rightarrow> nat \<Rightarrow> (int \<times> u8 list) res" where
  "server_process cmd rp rsz =
     (if cmd_msg cmd ! 0 = msg_code NOP then Inr (0, rp)
      else if cmd_msg cmd ! 0 = msg_code PING
      then res_bind (hpsc_msg_pong (Some rp) rsz
             (Some (drop HPSC_MSG_PAYLOAD_OFFSET (cmd_msg cmd))) HPSC_MSG_PAYLOAD_SIZE)
             (\<lambda>r. Inr (int rsz, r))
      else if cmd_msg cmd ! 0 = msg_code PONG then Inr (0, rp)
      else Inr (-1, rp))"

text \<open>\<open>cmd_test_handler\<close> of \<open>lib/hpsc-test/command.c\<close>.\<close>

definition cmd_test_handler :: "cmd \<Rightarrow> u8 list \<Rightarrow> nat \<Rightarrow> (int \<times> u8 list) res" where
  "cmd_test_handler cmd rp rsz = c_assert (rsz \<noteq> 0) (Inr (0, rp))"

fun call_cmd_handler :: "cmd_handler_fn \<Rightarrow> cmd \<Rightarrow> u8 list \<Rightarrow> nat \<Rightarrow> (int \<times> u8 list) res" where
  "call_cmd_handler Server_process = server_process"
| "call_cmd_handler Cmd_test_handler = cmd_test_handler"

subsection \<open>Handling one command\<close>

definition cmd_handled_register_cb :: "cmd_handled_fn option \<Rightarrow> ptr \<Rightarrow> 'k world \<Rightarrow> 'k world" where
  "cmd_handled_register_cb fn arg w = w\<lparr>w_handled := \<lparr>hd_cb = fn, hd_cb_arg = arg\<rparr>\<rparr>"

definition cmd_handled_unregister_cb :: "'k world \<Rightarrow> 'k world" where
  "cmd_handled_unregister_cb w = w\<lparr>w_handled := \<lparr>hd_cb = None, hd_cb_arg = NULL\<rparr>\<rparr>"

text \<open>The callback of the command, then the registered one.\<close>

definition cmd_handle_out ::
  "'k sys \<Rightarrow> cmd_handled_fn option \<Rightarrow> ptr \<Rightarrow> cmd_status \<Rightarrow> 'k world \<Rightarrow> 'k world res" where
  "cmd_handle_out sys fn arg status w =
     res_bind (case fn of None \<Rightarrow> Inr w | Some f \<Rightarrow> sys_handled sys f arg status w) (\<lambda>w1.
       case hd_cb (w_handled w1) of None \<Rightarrow> Inr w1
       | Some f \<Rightarrow> sys_handled sys f (hd_cb_arg (w_handled w1)) status w1)"

text \<open>
  \<open>al\<close> says whether the compiler placed the local byte array \<open>reply\<close> on a word boundary, which
  C does not promise; \<open>env\<close> is what happens while the reply is being acknowledged.
\<close>

definition cmd_handle ::
  "'k sys \<Rightarrow> bool \<Rightarrow> 'k env \<Rightarrow> cmd \<Rightarrow> cmd_handled_fn option \<Rightarrow> ptr \<Rightarrow> 'k world \<Rightarrow> 'k world res" where
  "cmd_handle sys al env cmd fn arg w =
     (case hc_cb (w_handler w) of None \<Rightarrow> Inl Assert_Failed
      | Some h \<Rightarrow>
          res_bind (call_cmd_handler h cmd hpsc_msg_zero HPSC_MSG_SIZE) (\<lambda>(rsz, rp).
            if rsz < 0 then cmd_handle_out sys fn arg CMD_STATUS_HANDLER_FAILED w
            else if rsz = 0 then cmd_handle_out sys fn arg CMD_STATUS_SUCCESS w
            else c_deref (w_link w (cmd_link cmd)) (\<lambda>_.
              res_bind (link_request_send sys env (cmd_link cmd)
                  (Some \<lparr>buf_aligned = al, buf_bytes = rp\<rparr>) HPSC_MSG_SIZE
                  (hc_timeout_ticks (w_handler w)) CMD_EVENT_LINK w) (\<lambda>(rc, w1).
                cmd_handle_out sys fn arg
                  (if rc = 0 then CMD_STATUS_REPLY_FAILED else CMD_STATUS_SUCCESS) w1))))"

subsection \<open>The handler task\<close>

text \<open>
  \<open>cmd_flush\<close>: handle commands until the queue is empty; \<open>i\<close> counts them, and the \<open>i\<close>-th is
  handled while \<open>envs i\<close> goes on around it.  New commands can arrive meanwhile, so the number
  of turns is bounded by the first argument.
\<close>

fun cmd_flush :: "nat \<Rightarrow> 'k sys \<Rightarrow> bool \<Rightarrow> (nat \<Rightarrow> 'k env) \<Rightarrow> nat \<Rightarrow> 'k world \<Rightarrow> (nat \<times> 'k world) res" where
  "cmd_flush 0 sys al envs i w =
     (if fst (cmd_dequeue_unsafe (w_cmdq w)) \<noteq> 0 then Inr (i, w) else Inl Out_Of_Fuel)"
| "cmd_flush (Suc n) sys al envs i w =
     (case cmd_dequeue_unsafe (w_cmdq w) of
        (_, None, q) \<Rightarrow> Inr (i, w\<lparr>w_cmdq := q\<rparr>)
      | (_, Some it, q) \<Rightarrow>
          res_bind (cmd_handle sys al (envs i) (it_cmd it) (it_cb it) (it_arg it) (w\<lparr>w_cmdq := q\<rparr>))
            (cmd_flush n sys al envs (Suc i)))"

text \<open>One turn of the loop of \<open>cmd_handle_task\<close>; the result says whether the task has exited.\<close>

definition cmd_handle_task_turn ::
  "nat \<Rightarrow> 'k sys \<Rightarrow> bool \<Rightarrow> (nat \<Rightarrow> 'k env) \<Rightarrow> 'k env \<Rightarrow> nat \<Rightarrow> 'k world \<Rightarrow> (bool \<times> nat \<times> 'k world) res" where
  "cmd_handle_task_turn n sys al envs env i w =
     res_bind (cmd_flush n sys al envs i w) (\<lambda>(i', w1).
     res_bind (event_receive sys env (CMD_EVENT_NEW OR CMD_EVENT_EXIT) RTEMS_NO_TIMEOUT w1) (\<lambda>(events, w2).
       if events AND CMD_EVENT_EXIT \<noteq> 0
       then Inr (True, i', w2\<lparr>w_handler := (w_handler w2)\<lparr>hc_running := False\<rparr>,
                              w_ker := rt_task_exit (sys_K sys) (w_ker w2)\<rparr>)
       else Inr (False, i', w2)))"

definition cmd_handler_set ::
  "rtems_id \<Rightarrow> cmd_handler_fn option \<Rightarrow> rtems_interval \<Rightarrow> bool \<Rightarrow> 'k world \<Rightarrow> 'k world" where
  "cmd_handler_set tid h ticks running w =
     w\<lparr>w_handler := \<lparr>hc_tid = tid, hc_cb = h, hc_timeout_ticks = ticks, hc_running = running\<rparr>\<rparr>"

definition cmd_handle_task_start ::
  "'k sys \<Rightarrow> rtems_id \<Rightarrow> cmd_handler_fn option \<Rightarrow> rtems_interval \<Rightarrow> 'k world \<Rightarrow>
   (rtems_status_code \<times> 'k world) res" where
  "cmd_handle_task_start sys task_id h ticks w =
     c_assert (task_id \<noteq> RTEMS_ID_NONE) (c_assert (h \<noteq> None)
       (if hc_running (w_handler w) then Inr (RTEMS_UNSATISFIED, w)
        else
          let w1 = cmd_handler_set task_id h ticks True w in
          case rt_task_start (sys_K sys) (hc_tid (w_handler w1)) Cmd_handle_task 1 (w_ker w1) of (sc, k) \<Rightarrow>
            let w2 = w1\<lparr>w_ker := k\<rparr> in
            Inr (sc, if sc \<noteq> RTEMS_SUCCESSFUL then cmd_handler_set RTEMS_ID_NONE None 0 False w2 else w2)))"

definition cmd_handle_task_destroy ::
  "'k sys \<Rightarrow> ('k world \<Rightarrow> 'k world res) \<Rightarrow> nat \<Rightarrow> 'k world \<Rightarrow> (rtems_status_code \<times> 'k world) res" where
  "cmd_handle_task_destroy sys yield fuel w =
     (if hc_running (w_handler w)
      then (case event_send sys (hc_tid (w_handler w)) CMD_EVENT_EXIT w of (sc, w1) \<Rightarrow>
        if sc = RTEMS_SUCCESSFUL
        then res_bind (wait_while (\<lambda>w. Inr (hc_running (w_handler w))) yield fuel w1)
               (\<lambda>w2. Inr (sc, cmd_handler_set RTEMS_ID_NONE None 0 False w2))
        else Inr (sc, w1))
      else Inr (RTEMS_NOT_DEFINED, w))"

subsection \<open>What the server answers\<close>

definition server_reply :: "u8 list \<Rightarrow> u8 list" where
  "server_reply msg = msg_code PONG # replicate 3 0 @ drop HPSC_MSG_PAYLOAD_OFFSET msg"

lemma length_server_reply [simp]: "length msg = 64 \<Longrightarrow> length (server_reply msg) = 64"
  by (simp add: server_reply_def)

lemma server_process_outcome:
  assumes "length (cmd_msg c) = HPSC_MSG_SIZE"
  shows "server_process c hpsc_msg_zero HPSC_MSG_SIZE =
    Inr (if cmd_msg c ! 0 = msg_code PING then (int HPSC_MSG_SIZE, server_reply (cmd_msg c))
         else if cmd_msg c ! 0 \<in> {msg_code NOP, msg_code PONG} then (0, hpsc_msg_zero)
         else (-1, hpsc_msg_zero))"
proof -
  have "hpsc_msg_pong (Some hpsc_msg_zero) 64 (Some (drop 4 (cmd_msg c))) 60 = Inr (server_reply (cmd_msg c))"
    using assms
    by (simp add: hpsc_msg_pong_def msg_fill_Some) (simp add: server_reply_def hpsc_msg_zero_def numeral_eq_Suc)
  then show ?thesis by (simp add: server_process_def)
qed

subsection \<open>Handling one command\<close>

lemma cmd_handle_no_reply:
  assumes "hc_cb (w_handler w) = Some Server_process" and "length (cmd_msg c) = 64" and "cmd_msg c ! 0 \<noteq> msg_code PING"
  shows "cmd_handle sys al env c fn arg w = cmd_handle_out sys fn arg
    (if cmd_msg c ! 0 \<in> {msg_code NOP, msg_code PONG} then CMD_STATUS_SUCCESS else CMD_STATUS_HANDLER_FAILED) w"
  using assms server_process_outcome [of c] by (simp add: cmd_handle_def)

lemma cmd_handle_ping:
  assumes "hc_cb (w_handler w) = Some Server_process" and "length (cmd_msg c) = 64" and "cmd_msg c ! 0 = msg_code PING"
    and "w_link w (cmd_link c) = Some lk"
  shows "cmd_handle sys al env c fn arg w =
    res_bind (link_request_send sys env (cmd_link c) (Some \<lparr>buf_aligned = al, buf_bytes = server_reply (cmd_msg c)\<rparr>) 64
      (hc_timeout_ticks (w_handler w)) CMD_EVENT_LINK w) (\<lambda>(rc, w1).
      cmd_handle_out sys fn arg (if rc = 0 then CMD_STATUS_REPLY_FAILED else CMD_STATUS_SUCCESS) w1)"
  using assms server_process_outcome [of c] by (simp add: cmd_handle_def)

lemma slink_send_unaligned:
  assumes "slink_up l w"
  shows "link_request_send sys env l (Some \<lparr>buf_aligned = False, buf_bytes = bs\<rparr>) sz ticks e w = Inl Assert_Failed"
  using assms
  by (auto simp: slink_up_def link_request_send_def link_request_send_wait_def link_write_def link_shmem_write_def
      shm_run_def shmem_write_def)

text \<open>C21. Handling a ping sends the pong with the same payload over the command's link, and the callbacks
  get success if it is acknowledged and reply failure if not (if the event of the wait was already
  pending, the send's assert fails). Over shared memory the local reply array must happen to be word-
  aligned, or the write's assert fails.\<close>

theorem cmd_handle_ping_outcome:
  assumes ev: "event_laws (sys_K sys) pend" and t: "t = rt_task_self (sys_K sys) (w_ker w)" "task_live (sys_K sys) t"
    and up: "link_up sys (cmd_link c) w" and srv: "hc_cb (w_handler w) = Some Server_process"
    and msg: "length (cmd_msg c) = HPSC_MSG_SIZE" "cmd_msg c ! 0 = msg_code PING"
  shows "(\<exists>w1. cmd_handle sys True (\<lambda>_. link_ack_cb sys (cmd_link c)) c fn arg w =
        cmd_handle_out sys fn arg CMD_STATUS_SUCCESS w1 \<and>
      link_up sys (cmd_link c) w1 \<and> link_outbox (cmd_link c) w1 = server_reply (cmd_msg c) \<and> same_cmd w w1) \<and>
    (if pend (w_ker w) t AND CMD_EVENT_LINK = 0
     then \<exists>w1. cmd_handle sys True (\<lambda>_. Inr) c fn arg w = cmd_handle_out sys fn arg CMD_STATUS_REPLY_FAILED w1 \<and>
       same_cmd w w1
     else cmd_handle sys True (\<lambda>_. Inr) c fn arg w = Inl Assert_Failed) \<and>
    (slink_up (cmd_link c) w \<longrightarrow> cmd_handle sys False env c fn arg w = Inl Assert_Failed)"
proof -
  let ?l = "cmd_link c" and ?b = "\<lparr>buf_aligned = True, buf_bytes = server_reply (cmd_msg c)\<rparr>"
  obtain lk where lk: "w_link w ?l = Some lk" using any_link.up_link [OF up] by blast
  have m: "length (cmd_msg c) = 64" using msg by simp
  note run = cmd_handle_ping [OF srv m msg(2) lk]
  have e: "CMD_EVENT_LINK \<noteq> 0" by (simp add: CMD_EVENT_LINK_def)
  have b: "buf_aligned ?b" "(0 :: nat) < 64" "(64 :: nat) \<le> 64" "(64 :: nat) mod 4 = 0" "64 \<le> length (buf_bytes ?b)"
    using m by simp_all
  obtain w1 where w1: "link_request_send sys (\<lambda>_. link_ack_cb sys ?l) ?l (Some ?b) 64 (hc_timeout_ticks (w_handler w))
      CMD_EVENT_LINK w = Inr (64, w1)" "link_up sys ?l w1" "link_outbox ?l w1 = server_reply (cmd_msg c)" "same_cmd w w1"
    using any_link.request_send_acked [OF ev t up b e] m by auto
  have "cmd_handle sys True (\<lambda>_. link_ack_cb sys ?l) c fn arg w = cmd_handle_out sys fn arg CMD_STATUS_SUCCESS w1"
    using w1(1) by (simp add: run)
  with w1(2-4) have "\<exists>w1. cmd_handle sys True (\<lambda>_. link_ack_cb sys ?l) c fn arg w =
        cmd_handle_out sys fn arg CMD_STATUS_SUCCESS w1 \<and>
      link_up sys ?l w1 \<and> link_outbox ?l w1 = server_reply (cmd_msg c) \<and> same_cmd w w1" by blast
  moreover have "if pend (w_ker w) t AND CMD_EVENT_LINK = 0
     then \<exists>w1. cmd_handle sys True (\<lambda>_. Inr) c fn arg w = cmd_handle_out sys fn arg CMD_STATUS_REPLY_FAILED w1 \<and>
       same_cmd w w1
     else cmd_handle sys True (\<lambda>_. Inr) c fn arg w = Inl Assert_Failed"
    using any_link.request_send_quiet [OF ev t(1) up b, of CMD_EVENT_LINK "hc_timeout_ticks (w_handler w)"]
    by (auto simp: run split: if_splits)
  moreover have "slink_up ?l w \<longrightarrow> cmd_handle sys False env c fn arg w = Inl Assert_Failed"
    by (simp add: run slink_send_unaligned)
  ultimately show ?thesis by (intro conjI)
qed

definition demo_cmd_world :: "demo_kernel world" where
  "demo_cmd_world = demo_world\<lparr>w_handler := \<lparr>hc_tid = 1, hc_cb = Some Server_process, hc_timeout_ticks = 100,
     hc_running = True\<rparr>\<rparr>"

lemma demo_cmd_link_up: "l \<in> {0x200, 0x600} \<Longrightarrow> link_up demo_sys l demo_cmd_world"
  using demo_link_up [of l] any_link.up_same [of demo_world demo_cmd_world demo_sys l]
  by (simp add: same_links_def demo_cmd_world_def)

lemma demo_cmd_world_simps [simp]:
  "w_ker demo_cmd_world = demo_k0" "w_cmdq demo_cmd_world = cmdq_init" "w_handled demo_cmd_world = cmd_handled_init"
  "w_handler demo_cmd_world = \<lparr>hc_tid = 1, hc_cb = Some Server_process, hc_timeout_ticks = 100, hc_running = True\<rparr>"
  by (simp_all add: demo_cmd_world_def)

definition demo_ping :: cmd where
  "demo_ping = \<lparr>cmd_msg = 1 # replicate 63 9, cmd_link = 0x200\<rparr>"

theorem cmd_handle_ping_outcome_witness:
  "\<exists>w1. cmd_handle demo_sys True (\<lambda>_. link_ack_cb demo_sys 0x200) demo_ping None NULL demo_cmd_world = Inr w1 \<and>
     link_outbox 0x200 w1 = [2, 0, 0, 0] @ replicate 60 9"
proof -
  have r: "server_reply (cmd_msg demo_ping) = [2, 0, 0, 0] @ replicate 60 9" and l: "cmd_link demo_ping = 0x200"
    by (simp_all add: server_reply_def demo_ping_def numeral_eq_Suc)
  obtain w1 where "cmd_handle demo_sys True (\<lambda>_. link_ack_cb demo_sys 0x200) demo_ping None NULL demo_cmd_world =
      cmd_handle_out demo_sys None NULL CMD_STATUS_SUCCESS w1" "link_outbox 0x200 w1 = server_reply (cmd_msg demo_ping)"
    "same_cmd demo_cmd_world w1"
    using cmd_handle_ping_outcome [where sys = demo_sys and pend = dk_pend and t = 1 and w = demo_cmd_world
        and c = demo_ping and fn = None and arg = NULL and env = "\<lambda>_. Inr"]
    by (auto simp: demo_event_laws demo_task_live demo_cmd_link_up l) (auto simp: demo_ping_def)
  moreover from this(3) have "cmd_handle_out demo_sys None NULL CMD_STATUS_SUCCESS w1 = Inr w1"
    by (simp add: cmd_handle_out_def same_cmd_def cmd_handled_init_def)
  ultimately show ?thesis unfolding r by auto
qed

subsection \<open>Emptying the queue\<close>

text \<open>The message left in the outgoing slot after a series of commands.\<close>

definition answers :: "u8 list \<Rightarrow> u8 list list \<Rightarrow> u8 list" where
  "answers out msgs = foldl (\<lambda>prev msg. if msg ! 0 = msg_code PING then server_reply msg else prev) out msgs"

text \<open>The handler task serves one link and nobody waits for the commands to be handled.\<close>

definition serving :: "'k sys \<Rightarrow> rtems_id \<Rightarrow> ptr \<Rightarrow> cmdq_item list \<Rightarrow> 'k world \<Rightarrow> bool" where
  "serving sys t l its w \<longleftrightarrow> link_up sys l w \<and> rt_task_self (sys_K sys) (w_ker w) = t \<and>
     hc_cb (w_handler w) = Some Server_process \<and> hd_cb (w_handled w) = None \<and>
     cmdq_wf (w_cmdq w) \<and> cmdq_list (w_cmdq w) = its \<and>
     (\<forall>it \<in> set its. it_cb it = None \<and> cmd_link (it_cmd it) = l \<and> length (cmd_msg (it_cmd it)) = 64)"

lemma cmd_handle_serving:
  assumes ev: "event_laws (sys_K sys) pend" and live: "task_live (sys_K sys) t"
    and srv: "serving sys t l its w" and c: "cmd_link c = l" "length (cmd_msg c) = 64"
  shows "\<exists>w'. cmd_handle sys True (\<lambda>_. link_ack_cb sys l) c None arg w = Inr w' \<and> serving sys t l its w' \<and>
    link_outbox l w' = answers (link_outbox l w) [cmd_msg c]"
proof (cases "cmd_msg c ! 0 = msg_code PING")
  case False
  have h: "hc_cb (w_handler w) = Some Server_process" "hd_cb (w_handled w) = None"
    using srv by (simp_all add: serving_def)
  show ?thesis
    using cmd_handle_no_reply [OF h(1) c(2) False, of sys True "\<lambda>_. link_ack_cb sys l" None arg] h(2) srv False
    by (simp add: cmd_handle_out_def answers_def)
next
  case True
  have h: "link_up sys l w" "rt_task_self (sys_K sys) (w_ker w) = t" "hc_cb (w_handler w) = Some Server_process"
    using srv by (simp_all add: serving_def)
  obtain lk where lk: "w_link w (cmd_link c) = Some lk" using any_link.up_link [OF h(1)] c(1) by blast
  let ?b = "\<lparr>buf_aligned = True, buf_bytes = server_reply (cmd_msg c)\<rparr>"
  have b: "buf_aligned ?b" "(0 :: nat) < 64" "(64 :: nat) \<le> 64" "(64 :: nat) mod 4 = 0" "64 \<le> length (buf_bytes ?b)"
    using c by simp_all
  obtain w1 where w1: "link_request_send sys (\<lambda>_. link_ack_cb sys l) l (Some ?b) 64 (hc_timeout_ticks (w_handler w))
      CMD_EVENT_LINK w = Inr (64, w1)" "link_up sys l w1" "link_outbox l w1 = server_reply (cmd_msg c)" "same_cmd w w1"
    "rt_task_self (sys_K sys) (w_ker w1) = t"
    using any_link.request_send_acked [OF ev h(2) [symmetric] live h(1) b, of CMD_EVENT_LINK] c
    by (auto simp: CMD_EVENT_LINK_def)
  have "serving sys t l its w1"
    using srv w1(2,4,5) by (simp add: serving_def same_cmd_def)
  moreover have "cmd_handle sys True (\<lambda>_. link_ack_cb sys l) c None arg w = Inr w1"
    using cmd_handle_ping [OF h(3) c(2) True lk, of sys True "\<lambda>_. link_ack_cb sys l" None arg] w1(1) c(1)
      calculation by (simp add: cmd_handle_out_def serving_def)
  ultimately show ?thesis using w1(3) True by (simp add: answers_def)
qed

lemma cmd_flush_all:
  assumes ev: "event_laws (sys_K sys) pend" and live: "task_live (sys_K sys) t"
    and srv: "serving sys t l its w" and n: "length its \<le> n"
  shows "\<exists>w'. cmd_flush n sys True (\<lambda>_ _. link_ack_cb sys l) i w = Inr (i + length its, w') \<and>
    serving sys t l [] w' \<and> link_outbox l w' = answers (link_outbox l w) (map (\<lambda>it. cmd_msg (it_cmd it)) its)"
  using srv n
proof (induction n arbitrary: its i w)
  case 0
  then show ?case by (simp add: serving_def cmd_dequeue_Nil answers_def)
next
  case (Suc n)
  have wf: "cmdq_wf (w_cmdq w)" and lst: "cmdq_list (w_cmdq w) = its"
    using Suc.prems by (simp_all add: serving_def)
  show ?case
  proof (cases its)
    case Nil
    moreover have "w\<lparr>w_cmdq := w_cmdq w\<rparr> = w" by (cases w) simp
    ultimately show ?thesis
      using Suc.prems wf lst by (simp add: cmd_dequeue_Nil answers_def)
  next
    case (Cons it its')
    obtain q' where q': "cmd_dequeue_unsafe (w_cmdq w) = (0, Some it, q')" "cmdq_wf q'" "cmdq_list q' = its'"
      using cmd_dequeue_Cons [OF wf] lst Cons by blast
    let ?w = "w\<lparr>w_cmdq := q'\<rparr>"
    have same: "link_up sys l ?w = link_up sys l w" "link_outbox l ?w = link_outbox l w"
      using any_link.up_same [of w ?w sys l] by (simp_all add: same_links_def)
    have srv1: "serving sys t l its' ?w"
      using Suc.prems Cons q' same by (simp add: serving_def)
    have it: "it_cb it = None" "cmd_link (it_cmd it) = l" "length (cmd_msg (it_cmd it)) = 64"
      using Suc.prems Cons by (simp_all add: serving_def)
    obtain w1 where w1: "cmd_handle sys True (\<lambda>_. link_ack_cb sys l) (it_cmd it) None (it_arg it) ?w = Inr w1"
      "serving sys t l its' w1" "link_outbox l w1 = answers (link_outbox l w) [cmd_msg (it_cmd it)]"
      using cmd_handle_serving [OF ev live srv1 it(2,3), of "it_arg it"] same(2) by auto
    obtain w' where "cmd_flush n sys True (\<lambda>_ _. link_ack_cb sys l) (Suc i) w1 = Inr (Suc i + length its', w')"
      "serving sys t l [] w'" "link_outbox l w' = answers (link_outbox l w1) (map (\<lambda>it. cmd_msg (it_cmd it)) its')"
      using Suc.IH [OF w1(2), of "Suc i"] Suc.prems Cons by auto
    then show ?thesis
      using Cons q'(1) it(1) w1(1,3) by (simp add: answers_def)
  qed
qed

text \<open>A node with three commands queued: a ping, an unknown command, another ping.\<close>

definition demo_item :: "u8 \<Rightarrow> u8 \<Rightarrow> cmdq_item" where
  "demo_item ty x = \<lparr>it_cmd = \<lparr>cmd_msg = ty # replicate 63 x, cmd_link = 0x200\<rparr>, it_cb = None, it_arg = NULL\<rparr>"

definition demo_items :: "cmdq_item list" where
  "demo_items = [demo_item 1 9, demo_item 77 0, demo_item 1 5]"

definition demo_queued :: "demo_kernel world" where
  "demo_queued = demo_cmd_world\<lparr>w_cmdq :=
     cmdq_enq (demo_item 1 5) (cmdq_enq (demo_item 77 0) (cmdq_enq (demo_item 1 9) cmdq_init))\<rparr>"

lemma demo_serving: "serving demo_sys 1 0x200 demo_items demo_queued"
  using demo_cmd_link_up [of "0x200"] any_link.up_same [of demo_cmd_world demo_queued demo_sys "0x200"]
  by (simp add: serving_def demo_queued_def same_links_def cmdq_enq_content demo_items_def demo_item_def
      cmd_handled_init_def del: length_cmdq_list)

subsection \<open>A turn of the handler task\<close>

text \<open>C4. A turn of the handler task over a queue of commands of one link serves all of them in order (the
  outgoing slot holds the answer to the last ping), then waits. It ends the task exactly when the exit
  event is pending after the wait, and commands that arrived during the wait stay in the queue;
  otherwise it consumes both of its events.\<close>

theorem cmd_handle_task_turn_outcome:
  assumes ev: "event_laws (sys_K sys) pend" and live: "task_live (sys_K sys) t"
    and srv: "serving sys t l its w" and n: "length its \<le> n"
    and env: "\<And>w1. serving sys t l [] w1 \<Longrightarrow>
      \<exists>w2. env RTEMS_NO_TIMEOUT w1 = Inr w2 \<and> rt_task_self (sys_K sys) (w_ker w2) = t"
  shows "\<exists>w1 w2 w'. serving sys t l [] w1 \<and>
    link_outbox l w1 = answers (link_outbox l w) (map (\<lambda>it. cmd_msg (it_cmd it)) its) \<and>
    env RTEMS_NO_TIMEOUT w1 = Inr w2 \<and>
    cmd_handle_task_turn n sys True (\<lambda>_ _. link_ack_cb sys l) env i w =
      Inr (pend (w_ker w2) t AND CMD_EVENT_EXIT \<noteq> 0, i + length its, w') \<and>
    w_cmdq w' = w_cmdq w2 \<and>
    (if pend (w_ker w2) t AND CMD_EVENT_EXIT \<noteq> 0
     then w_handler w' = (w_handler w2)\<lparr>hc_running := False\<rparr>
     else w_handler w' = w_handler w2 \<and>
       pend (w_ker w') t = pend (w_ker w2) t AND NOT (CMD_EVENT_NEW OR CMD_EVENT_EXIT))"
proof -
  let ?m = "CMD_EVENT_NEW OR CMD_EVENT_EXIT"
  obtain w1 where w1: "cmd_flush n sys True (\<lambda>_ _. link_ack_cb sys l) i w = Inr (i + length its, w1)"
    "serving sys t l [] w1" "link_outbox l w1 = answers (link_outbox l w) (map (\<lambda>it. cmd_msg (it_cmd it)) its)"
    using cmd_flush_all [OF ev live srv n, of i] by blast
  obtain w2 where w2: "env RTEMS_NO_TIMEOUT w1 = Inr w2" "rt_task_self (sys_K sys) (w_ker w2) = t"
    using env [OF w1(2)] by blast
  obtain evs k where k: "rt_event_take (sys_K sys) ?m (w_ker w2) = (evs, k)" by fastforce
  note take = event_laws_take [OF ev k, unfolded w2(2)]
  have "evs AND CMD_EVENT_EXIT = pend (w_ker w2) t AND CMD_EVENT_EXIT"
    unfolding take(1) by (simp add: and.assoc CMD_EVENT_NEW_def CMD_EVENT_EXIT_def)
  then show ?thesis
    using w1 w2 k take(2)
    by (intro exI [of _ w1] exI [of _ w2] exI [of _ "if pend (w_ker w2) t AND CMD_EVENT_EXIT \<noteq> 0
        then w2\<lparr>w_handler := (w_handler w2)\<lparr>hc_running := False\<rparr>, w_ker := rt_task_exit (sys_K sys) k\<rparr>
        else w2\<lparr>w_ker := k\<rparr>"])
      (simp add: cmd_handle_task_turn_def event_receive_def)
qed

text \<open>While the task waits, it is told to exit and a further command arrives.\<close>

definition demo_stop :: "demo_kernel world \<Rightarrow> demo_kernel world res" where
  "demo_stop w = Inr (w\<lparr>w_cmdq := cmdq_enq (demo_item 1 8) (w_cmdq w),
     w_ker := (w_ker w)\<lparr>dk_pend := (dk_pend (w_ker w))(1 := CMD_EVENT_NEW OR CMD_EVENT_EXIT)\<rparr>\<rparr>)"

theorem cmd_handle_task_turn_outcome_witness:
  "\<exists>w'. cmd_handle_task_turn 3 demo_sys True (\<lambda>_ _. link_ack_cb demo_sys 0x200) (\<lambda>_. demo_stop) 0 demo_queued =
     Inr (True, 3, w') \<and> cmdq_list (w_cmdq w') = [demo_item 1 8]"
proof -
  have len: "length demo_items \<le> 3" "length demo_items = 3" by (simp_all add: demo_items_def)
  have env: "\<exists>w2. demo_stop w1 = Inr w2 \<and> rt_task_self (sys_K demo_sys) (w_ker w2) = 1"
    if "serving demo_sys 1 0x200 [] w1" for w1
    using that by (simp add: demo_stop_def serving_def demo_rtems_def)
  have enq: "cmdq_list (cmdq_enq a q) = [a]" if "cmdq_wf q" "cmdq_list q = []" for a q
    using that by (simp add: cmdq_enq_content del: length_cmdq_list)
  have bit: "(CMD_EVENT_NEW OR CMD_EVENT_EXIT) AND CMD_EVENT_EXIT \<noteq> 0"
    by (simp add: CMD_EVENT_NEW_def CMD_EVENT_EXIT_def)
  obtain w1 w2 w' where w: "serving demo_sys 1 0x200 [] w1" "demo_stop w1 = Inr w2"
    "cmd_handle_task_turn 3 demo_sys True (\<lambda>_ _. link_ack_cb demo_sys 0x200) (\<lambda>_. demo_stop) 0 demo_queued =
      Inr (dk_pend (w_ker w2) 1 AND CMD_EVENT_EXIT \<noteq> 0, 0 + 3, w')" "w_cmdq w' = w_cmdq w2"
    using cmd_handle_task_turn_outcome [OF _ _ demo_serving len(1), where env = "\<lambda>_. demo_stop" and i = 0
        and pend = dk_pend] env demo_event_laws demo_task_live len(2) by auto
  have "w2 = w1\<lparr>w_cmdq := cmdq_enq (demo_item 1 8) (w_cmdq w1),
     w_ker := (w_ker w1)\<lparr>dk_pend := (dk_pend (w_ker w1))(1 := CMD_EVENT_NEW OR CMD_EVENT_EXIT)\<rparr>\<rparr>"
    using w(2) by (simp add: demo_stop_def)
  then show ?thesis
    using w(1,3,4) enq [of "w_cmdq w1"] bit by (simp add: serving_def)
qed

subsection \<open>Starting and stopping the handler task\<close>

text \<open>C14. The life of the handler task: stopping it when it does not run is refused; a start that the
  kernel refuses resets the context; while it runs a second start is refused; a stop returns once the
  scheduler has let the task reach its end (every slice brings it closer), and resets the context; a
  stop whose event cannot be sent changes nothing else.\<close>

theorem cmd_handle_task_lifecycle:
  assumes idle: "\<not> hc_running (w_handler w)" and id: "tid \<noteq> RTEMS_ID_NONE" "tid' \<noteq> RTEMS_ID_NONE"
    and start: "rt_task_start (sys_K sys) tid Cmd_handle_task 1 (w_ker w) = (sc, k)"
    and stop: "rt_event_send (sys_K sys) tid CMD_EVENT_EXIT k = (sc', k')"
    and w1: "w1 = w\<lparr>w_handler := \<lparr>hc_tid = tid, hc_cb = Some h, hc_timeout_ticks = ticks, hc_running = True\<rparr>, w_ker := k\<rparr>"
    and fair: "I (w1\<lparr>w_ker := k'\<rparr>)" "m (w1\<lparr>w_ker := k'\<rparr>) \<le> fuel"
      "\<And>w. I w \<Longrightarrow> hc_running (w_handler w) = (0 < m w)"
      "\<And>w. I w \<Longrightarrow> 0 < m w \<Longrightarrow> \<exists>w'. yield w = Inr w' \<and> I w' \<and> m w' < (m w :: nat)"
  shows "cmd_handle_task_destroy sys yield fuel w = Inr (RTEMS_NOT_DEFINED, w) \<and>
    cmd_handle_task_start sys tid (Some h) ticks w =
      Inr (sc, if sc = RTEMS_SUCCESSFUL then w1 else w\<lparr>w_handler := cmd_handler_init, w_ker := k\<rparr>) \<and>
    cmd_handle_task_start sys tid' (Some h') ticks' w1 = Inr (RTEMS_UNSATISFIED, w1) \<and>
    (if sc' = RTEMS_SUCCESSFUL
     then \<exists>w2. cmd_handle_task_destroy sys yield fuel w1 = Inr (RTEMS_SUCCESSFUL, w2\<lparr>w_handler := cmd_handler_init\<rparr>) \<and>
       I w2 \<and> \<not> hc_running (w_handler w2)
     else cmd_handle_task_destroy sys yield fuel w1 = Inr (sc', w1\<lparr>w_ker := k'\<rparr>))"
proof -
  have cond: "(\<lambda>w. Inr (hc_running (w_handler w))) v = Inr (0 < m v)" if "I v" for v
    using fair(3) [OF that] by simp
  obtain w2 where "wait_while (\<lambda>w. Inr (hc_running (w_handler w))) yield fuel (w1\<lparr>w_ker := k'\<rparr>) = Inr w2" "I w2" "m w2 = 0"
    using wait_while_ends [where I = I and m = m and cond = "\<lambda>w. Inr (hc_running (w_handler w))",
        OF fair(1,2) cond fair(4)] by blast
  then show ?thesis
    using assms(1-6) fair(3) [of w2]
    by (auto simp: cmd_handle_task_destroy_def cmd_handle_task_start_def cmd_handler_set_def event_send_def
        cmd_handler_init_def Let_def)
qed

text \<open>
  The node of the witness: the caller is task 1, and while it yields, task 3 runs a turn of the
  handler task with an empty queue.
\<close>

definition demo_slice :: "demo_kernel world \<Rightarrow> demo_kernel world res" where
  "demo_slice w = res_bind
     (cmd_handle_task_turn 0 demo_sys True (\<lambda>_ _. Inr) (\<lambda>_. Inr) 0 (w\<lparr>w_ker := (w_ker w)\<lparr>dk_self := 3\<rparr>\<rparr>))
     (\<lambda>(exited, _, w'). Inr (w'\<lparr>w_ker := (w_ker w')\<lparr>dk_self := 1\<rparr>\<rparr>))"

definition demo_handler_inv :: "demo_kernel world \<Rightarrow> bool" where
  "demo_handler_inv w \<longleftrightarrow> cmdq_wf (w_cmdq w) \<and> cmdq_list (w_cmdq w) = [] \<and>
     (hc_running (w_handler w) \<longrightarrow> dk_pend (w_ker w) 3 AND CMD_EVENT_EXIT \<noteq> 0)"

lemma demo_slice_exits:
  assumes "demo_handler_inv w" and "hc_running (w_handler w)"
  shows "\<exists>w'. demo_slice w = Inr w' \<and> demo_handler_inv w' \<and> \<not> hc_running (w_handler w')"
  using assms cmd_dequeue_Nil [of "w_cmdq w"]
  by (simp add: demo_slice_def demo_handler_inv_def cmd_handle_task_turn_def event_receive_def demo_rtems_def
      CMD_EVENT_NEW_def CMD_EVENT_EXIT_def and.assoc del: length_cmdq_list)

theorem cmd_handle_task_lifecycle_witness:
  "\<exists>w1 w2. cmd_handle_task_start demo_sys 3 (Some Server_process) 100 demo_world = Inr (RTEMS_SUCCESSFUL, w1) \<and>
     cmd_handle_task_destroy demo_sys demo_slice 1 w1 = Inr (RTEMS_SUCCESSFUL, w2) \<and>
     w_handler w2 = cmd_handler_init"
proof -
  let ?k = "demo_k0\<lparr>dk_pend := (dk_pend demo_k0)(3 := CMD_EVENT_EXIT)\<rparr>"
  let ?w1 = "demo_world\<lparr>w_handler := \<lparr>hc_tid = 3, hc_cb = Some Server_process, hc_timeout_ticks = 100, hc_running = True\<rparr>,
    w_ker := demo_k0\<rparr>"
  let ?m = "\<lambda>w :: demo_kernel world. if hc_running (w_handler w) then 1 else 0 :: nat"
  have idle: "\<not> hc_running (w_handler demo_world)" "(3 :: u32) \<noteq> RTEMS_ID_NONE" "(1 :: u32) \<noteq> RTEMS_ID_NONE"
    by (simp_all add: cmd_handler_init_def)
  have calls: "rt_task_start (sys_K demo_sys) 3 Cmd_handle_task 1 (w_ker demo_world) = (RTEMS_SUCCESSFUL, demo_k0)"
    "rt_event_send (sys_K demo_sys) 3 CMD_EVENT_EXIT demo_k0 = (RTEMS_SUCCESSFUL, ?k)"
    by (simp_all add: demo_rtems_def demo_k0_def)
  have inv: "demo_handler_inv (?w1\<lparr>w_ker := ?k\<rparr>)" "?m (?w1\<lparr>w_ker := ?k\<rparr>) \<le> 1"
    by (simp_all add: demo_handler_inv_def CMD_EVENT_EXIT_def del: length_cmdq_list)
  have fair: "hc_running (w_handler v) = (0 < ?m v)"
    "0 < ?m v \<Longrightarrow> \<exists>w'. demo_slice v = Inr w' \<and> demo_handler_inv w' \<and> ?m w' < ?m v" if "demo_handler_inv v" for v
    using demo_slice_exits [OF that] by (auto split: if_splits)
  show ?thesis
    using cmd_handle_task_lifecycle [where I = demo_handler_inv and m = "?m" and yield = demo_slice,
        OF idle calls refl inv fair, of Server_process 0]
    by (fastforce simp: cmd_handler_init_def)
qed

subsection \<open>Queueing a command for a handler task that is gone\<close>

theorem cmd_enqueue_cb_outcome_witness:
  "\<exists>w'. cmd_enqueue_cb demo_sys (Some demo_ping) None NULL
       (demo_world\<lparr>w_handler := cmd_handler_init\<lparr>hc_tid := 9\<rparr>\<rparr>) = Inr (1, w') \<and>
     cmdq_list (w_cmdq w') = [\<lparr>it_cmd = demo_ping, it_cb = None, it_arg = NULL\<rparr>]"
proof -
  let ?w = "demo_world\<lparr>w_handler := cmd_handler_init\<lparr>hc_tid := 9\<rparr>\<rparr>"
  have "fst (rt_event_send (sys_K demo_sys) 9 CMD_EVENT_NEW (w_ker ?w)) = RTEMS_INVALID_ID"
    by (simp add: demo_rtems_def demo_k0_def)
  moreover have "cmdq_wf (w_cmdq ?w)" "length (cmdq_list (w_cmdq ?w)) < CMDQ_LEN - 1" by simp_all
  moreover have "event_laws (sys_K demo_sys) dk_pend" by (simp add: demo_event_laws)
  ultimately show ?thesis
    using cmd_enqueue_cb_outcome [where sys = demo_sys and pend = dk_pend and w = ?w and c = demo_ping and fn = None
        and arg = NULL] by auto
qed

end
