(* ===== verification/Polling.thy ===== *)
theory Polling
  imports Command
begin

text \<open>
  Properties of the polling tasks of \<open>lib/hpsc/shmem-poll.c\<close>: what a turn of the task on the
  incoming region of a link does, and the life of the task.
\<close>

subsection \<open>A turn of the receiving task\<close>

text \<open>A polling object that watches the incoming region of the link \<open>l\<close> for new commands.\<close>

definition recv_poll :: "ptr \<Rightarrow> shmem_poll \<Rightarrow> 'k world \<Rightarrow> bool" where
  "recv_poll l p w \<longleftrightarrow> sp_cb p = Link_recv_cmd \<and> sp_cb_arg p = l \<and> sp_status_mask p = HPSC_SHMEM_STATUS_BIT_NEW \<and>
     (\<exists>lk sl. w_link w l = Some lk \<and> w_slink w (l_priv lk) = Some sl \<and> sp_shm p = shmem_in sl)"

lemma recv_poll_status:
  assumes "slink_up l w" and "recv_poll l p w"
  shows "\<exists>st. shmem_get_status (sp_shm p) (w_shm w) = Inr st \<and>
    (st AND sp_status_mask p \<noteq> 0 \<longleftrightarrow> link_pending l w)"
  using assms via_mbox_up(2) [OF assms(1)]
  by (auto simp: slink_up_def recv_poll_def shmem_get_status_def link_pending_def region_status_def slink_region_def)



text \<open>A node with a server link over shared memory, watched by a polling task; a ping has arrived.\<close>

definition demo_poll :: shmem_poll where
  "demo_poll = shmem_poll_init 0x900 10 HPSC_SHMEM_STATUS_BIT_NEW 2 Link_recv_cmd 0x600"

definition demo_poll_world :: "demo_kernel world" where
  "demo_poll_world = demo_world\<lparr>w_poll := [0xa00 \<mapsto> demo_poll],
     w_shm := (w_shm demo_world)\<lparr>sh_mem := (\<lambda>_. \<lparr>shm_data = 1 # replicate 63 9, shm_status = HPSC_SHMEM_STATUS_BIT_NEW\<rparr>)\<rparr>\<rparr>"

lemma demo_poll_up: "slink_up 0x600 demo_poll_world" "recv_poll 0x600 demo_poll demo_poll_world"
  by (simp_all add: slink_up_def recv_poll_def demo_poll_world_def demo_world_def demo_link_shmem_def demo_poll_def
      shmem_poll_init_def)

lemma demo_poll_arrived: "link_pending 0x600 demo_poll_world" "link_inbox 0x600 demo_poll_world = 1 # replicate 63 9"
  using via_mbox_up(2) [OF demo_poll_up(1)]
  by (simp_all add: link_pending_def link_inbox_def region_status_def region_bytes_def slink_region_def demo_poll_world_def
      demo_world_def demo_link_shmem_def HPSC_SHMEM_STATUS_BIT_NEW_def)


subsection \<open>The life of a polling task\<close>

theorem shmem_poll_task_start_outcome:
  assumes heap: "heap_laws (sys_K sys) live" and wf: "dom (w_poll w) \<subseteq> live (w_ker w)"
    and args: "shm \<noteq> NULL" "ticks \<noteq> 0"
  shows "\<exists>sc sp w'. shmem_poll_task_start sys shm ticks msk tid h arg w = Inr (sc, sp, w') \<and>
    (if sc = RTEMS_SUCCESSFUL
     then sp \<noteq> NULL \<and> sp \<notin> live (w_ker w) \<and> live (w_ker w') = insert sp (live (w_ker w)) \<and>
       w_poll w' = (w_poll w)(sp \<mapsto> shmem_poll_init shm ticks msk tid h arg)
     else sp = NULL \<and> live (w_ker w') = live (w_ker w) \<and> w_poll w' = w_poll w)"
proof -
  obtain sp k where m: "rt_malloc (sys_K sys) (w_ker w) = (sp, k)" by fastforce
  obtain sc k' where s: "rt_task_start (sys_K sys) tid Shm_poll_task sp k = (sc, k')" by fastforce
  note L = heap_laws_malloc [OF heap m] heap_laws_frame(1,4) [OF heap]
  show ?thesis
  proof (cases "sp = NULL")
    case True
    then show ?thesis using m args L(1) by (simp add: shmem_poll_task_start_def w_malloc_def)
  next
    case False
    then have new: "sp \<notin> live (w_ker w)" "live k' = insert sp (live (w_ker w))"
      using L(1) L(3) [OF s] by simp_all
    then have "w_poll w sp = None" using wf by blast
    then have "(w_poll w)(sp := None) = w_poll w" by (simp add: fun_upd_idem)
    then show ?thesis
      using m s args False new L(2) [of sp k']
      by (cases "sc = RTEMS_SUCCESSFUL") (simp_all add: shmem_poll_task_start_def w_malloc_def w_free_def Let_def)
  qed
qed

theorem shmem_poll_task_start_outcome_witness:
  "\<exists>w'. shmem_poll_task_start demo_sys 0x900 10 HPSC_SHMEM_STATUS_BIT_NEW 9 Link_recv_cmd 0x600 demo_world =
      Inr (RTEMS_INVALID_ID, NULL, w') \<and> w_poll w' = Map.empty \<and> dk_live (w_ker w') = []"
proof -
  have "\<exists>w'. shmem_poll_task_start demo_sys 0x900 10 HPSC_SHMEM_STATUS_BIT_NEW 9 Link_recv_cmd 0x600 demo_world =
      Inr (RTEMS_INVALID_ID, NULL, w')"
    by (simp add: shmem_poll_task_start_def w_malloc_def Let_def demo_rtems_def demo_k0_def)
  moreover have "w_poll demo_world = Map.empty" "dk_live demo_k0 = []" by (simp_all add: demo_world_def demo_k0_def)
  ultimately show ?thesis
    using shmem_poll_task_start_outcome [where sys = demo_sys and live = "\<lambda>k. set (dk_live k)" and w = demo_world
        and shm = "0x900" and ticks = 10 and msk = HPSC_SHMEM_STATUS_BIT_NEW and tid = 9 and h = Link_recv_cmd
        and arg = "0x600", OF _ _ _ _] demo_heap_laws by auto
qed

text \<open>C18. Stopping a polling task sends it the exit event and returns once the task has left its loop
  (every slice of the scheduler brings it closer); its object is then freed, and not before. If the
  event cannot be sent the object is kept and the status returned; a task that tries to stop itself
  fails the assert instead of waiting forever.\<close>

theorem shmem_poll_task_destroy_outcome:
  assumes heap: "heap_laws (sys_K sys) live" and p: "sp \<noteq> NULL" "w_poll w sp = Some p"
    and stop: "rt_event_send (sys_K sys) (sp_tid p) SHM_EVENT_EXIT (w_ker w) = (sc, k)"
    and fair: "I (w\<lparr>w_ker := k\<rparr>)" "m (w\<lparr>w_ker := k\<rparr>) \<le> fuel"
      "\<And>w. I w \<Longrightarrow> \<exists>q. w_poll w sp = Some q \<and> sp_running q = (0 < m w)"
      "\<And>w. I w \<Longrightarrow> 0 < m w \<Longrightarrow> \<exists>w'. yield w = Inr w' \<and> I w' \<and> m w' < (m w :: nat)"
  shows "if sc \<noteq> RTEMS_SUCCESSFUL
    then shmem_poll_task_destroy sys yield fuel sp w = Inr (sc, w\<lparr>w_ker := k\<rparr>)
    else if sp_tid p = rt_task_self (sys_K sys) k
    then shmem_poll_task_destroy sys yield fuel sp w = Inl Assert_Failed
    else \<exists>w1 q w'. I w1 \<and> w_poll w1 sp = Some q \<and> \<not> sp_running q \<and>
      shmem_poll_task_destroy sys yield fuel sp w = Inr (RTEMS_SUCCESSFUL, w') \<and>
      w_poll w' = (w_poll w1)(sp := None) \<and> live (w_ker w') = live (w_ker w1) - {sp}"
proof -
  have cond: "poll_running sp v = Inr (0 < m v)" if "I v" for v
    using fair(3) [OF that] by (auto simp: poll_running_def)
  obtain w1 where w1: "wait_while (poll_running sp) yield fuel (w\<lparr>w_ker := k\<rparr>) = Inr w1" "I w1" "m w1 = 0"
    using wait_while_ends [where I = I and m = m and cond = "poll_running sp", OF fair(1,2) cond fair(4)] by blast
  obtain q where q: "w_poll w1 sp = Some q" "\<not> sp_running q" using fair(3) [OF w1(2)] w1(3) by auto
  let ?w = "w_free sys sp (w1\<lparr>w_poll := (w_poll w1)(sp := None)\<rparr>)"
  have "shmem_poll_task_destroy sys yield fuel sp w =
    (if sc \<noteq> RTEMS_SUCCESSFUL then Inr (sc, w\<lparr>w_ker := k\<rparr>)
     else if sp_tid p = rt_task_self (sys_K sys) k then Inl Assert_Failed else Inr (RTEMS_SUCCESSFUL, ?w))"
    using p stop w1(1) by (simp add: shmem_poll_task_destroy_def event_send_def)
  moreover have "w_poll ?w = (w_poll w1)(sp := None)" "live (w_ker ?w) = live (w_ker w1) - {sp}"
    using heap_laws_frame(1) [OF heap, of sp "w_ker w1"] by (simp_all add: w_free_def)
  ultimately show ?thesis
    using w1(2) q by (simp only: simp_thms if_cancel split: if_split) blast
qed

text \<open>While the caller yields, task 2 runs a turn of the polling task.\<close>

definition demo_poll_slice :: "demo_kernel world \<Rightarrow> demo_kernel world res" where
  "demo_poll_slice w = res_bind
     (shm_poll_turn demo_sys (\<lambda>_ _. Inr) (\<lambda>_. Inr) 0xa00 (w\<lparr>w_ker := (w_ker w)\<lparr>dk_self := 2\<rparr>\<rparr>))
     (\<lambda>(exited, w'). Inr (w'\<lparr>w_ker := (w_ker w')\<lparr>dk_self := 1\<rparr>\<rparr>))"

definition demo_poll_inv :: "demo_kernel world \<Rightarrow> bool" where
  "demo_poll_inv w \<longleftrightarrow> (\<exists>q. w_poll w 0xa00 = Some q \<and> (sp_running q \<longrightarrow> dk_pend (w_ker w) 2 AND SHM_EVENT_EXIT \<noteq> 0))"

definition demo_poll_left :: "demo_kernel world \<Rightarrow> nat" where
  "demo_poll_left w = (case w_poll w 0xa00 of Some q \<Rightarrow> if sp_running q then 1 else 0 | None \<Rightarrow> 0)"

lemma demo_poll_slice_exits:
  assumes "demo_poll_inv w" and "0 < demo_poll_left w"
  shows "\<exists>w'. demo_poll_slice w = Inr w' \<and> demo_poll_inv w' \<and> demo_poll_left w' < demo_poll_left w"
  using assms
  by (auto simp: demo_poll_slice_def demo_poll_inv_def demo_poll_left_def shm_poll_turn_def event_receive_def
      demo_rtems_def and.assoc split: if_splits)

theorem shmem_poll_task_destroy_outcome_witness:
  "\<exists>w'. shmem_poll_task_destroy demo_sys demo_poll_slice 1 0xa00 demo_poll_world = Inr (RTEMS_SUCCESSFUL, w') \<and>
     w_poll w' 0xa00 = None"
proof -
  let ?k = "demo_k0\<lparr>dk_pend := (dk_pend demo_k0)(2 := SHM_EVENT_EXIT)\<rparr>"
  let ?w = "demo_poll_world\<lparr>w_ker := ?k\<rparr>"
  have p: "(0xa00 :: ptr) \<noteq> NULL" "w_poll demo_poll_world 0xa00 = Some demo_poll" by (simp_all add: demo_poll_world_def)
  have stop: "rt_event_send (sys_K demo_sys) (sp_tid demo_poll) SHM_EVENT_EXIT (w_ker demo_poll_world) = (RTEMS_SUCCESSFUL, ?k)"
    by (simp add: demo_poll_world_def demo_poll_def shmem_poll_init_def demo_rtems_def demo_k0_def)
  have inv: "demo_poll_inv ?w" "demo_poll_left ?w \<le> 1"
    using p(2) by (simp_all add: demo_poll_inv_def demo_poll_left_def SHM_EVENT_EXIT_def)
  have run: "\<exists>q. w_poll v 0xa00 = Some q \<and> sp_running q = (0 < demo_poll_left v)" if "demo_poll_inv v" for v
    using that by (auto simp: demo_poll_inv_def demo_poll_left_def)
  have self: "sp_tid demo_poll \<noteq> rt_task_self (sys_K demo_sys) ?k"
    by (simp add: demo_poll_def shmem_poll_init_def demo_rtems_def demo_k0_def)
  show ?thesis
    using shmem_poll_task_destroy_outcome [where sys = demo_sys and live = "\<lambda>k. set (dk_live k)" and I = demo_poll_inv
        and m = demo_poll_left and yield = demo_poll_slice, OF _ p stop inv run demo_poll_slice_exits] self
    by (auto simp: demo_heap_laws)
qed

end
