(* ===== verification/Link_Setup.thy ===== *)
theory Link_Setup
  imports Polling
begin

text \<open>
  Making and closing links over mailboxes: \<open>link_mbox_connect\<close> and \<open>link_mbox_close\<close>.
\<close>

subsection \<open>Channels of a mailbox block on the node\<close>

text \<open>What a claim or a release leaves of the other channels and of the shape of the registers.\<close>

definition mbox_frame ::
  "nat \<Rightarrow> hpsc_mbox \<Rightarrow> (u32 \<Rightarrow> hpsc_mbox_chan_base) \<Rightarrow> hpsc_mbox \<Rightarrow> (u32 \<Rightarrow> hpsc_mbox_chan_base) \<Rightarrow> bool" where
  "mbox_frame i mb rg mb' rg' \<longleftrightarrow> mbox_wf mb' \<and> mb_base mb' = mb_base mb \<and>
     (\<forall>j. j \<noteq> i \<longrightarrow> mb_chans mb' ! j = mb_chans mb ! j) \<and>
     ch_base (mb_chans mb' ! i) = Some (chan_addr mb i) \<and>
     (\<forall>b. length (DATA (rg' b)) = length (DATA (rg b)))"

lemma claim_frame:
  assumes hw: "mbox_hw_laws hw" and wf: "mbox_wf (st_mbox s)" and i: "i < 32" and free: "\<not> ch_active (chan_of s i)"
  shows "\<exists>sc s'. hpsc_mbox_chan_claim hw False i ow sr de ca cbb arg s = Inr (sc, s') \<and>
    mbox_frame i (st_mbox s) (st_regs s) (st_mbox s') (st_regs s') \<and>
    (if sc = RTEMS_SUCCESSFUL
     then ch_active (chan_of s' i) \<and> ch_int_a (chan_of s' i) = \<lparr>cb = ca, cb_arg = arg\<rparr> \<and>
       ch_int_b (chan_of s' i) = \<lparr>cb = cbb, cb_arg = arg\<rparr>
     else \<not> ch_active (chan_of s' i))"
  using wf i free
  by (cases "ow = 0"; cases "claim_status hw (st_regs s (chan_addr (st_mbox s) i)) ow sr de (ca \<noteq> None) (cbb \<noteq> None)
      = RTEMS_SUCCESSFUL")
    (simp_all add: claim_free Let_def mbox_frame_def mbox_hw_lawsD [OF hw])

lemma release_frame:
  assumes hw: "mbox_hw_laws hw" and wf: "mbox_wf (st_mbox s)" and i: "i < 32"
    and base: "ch_base (chan_of s i) = Some (chan_addr (st_mbox s) i)"
  shows "\<exists>s'. hpsc_mbox_chan_release hw False i s = Inr (RTEMS_SUCCESSFUL, s') \<and>
    mbox_frame i (st_mbox s) (st_regs s) (st_mbox s') (st_regs s') \<and> \<not> ch_active (chan_of s' i)"
  using wf i base
  by (cases "ch_owner (chan_of s i) = 0")
    (simp_all add: hpsc_mbox_chan_release_def hpsc_mbox_chan_reset_def Let_def mbox_frame_def mbox_hw_lawsD [OF hw])

lemma claim_chan_ok:
  assumes m: "m \<noteq> NULL" "w_mbox w m = Some mb" and wf: "mbox_wf mb" and i: "i < 32"
    and free: "\<not> ch_active (mb_chans mb ! i)" and task: "\<not> rt_int_in_progress (sys_K sys) (w_ker w)"
    and hw: "mbox_hw_laws (sys_hw sys)"
  shows "\<exists>sc mb' rg. claim_chan sys m i ow sr de ca cbb arg w =
      Inr (sc, w\<lparr>w_mbox := (w_mbox w)(m \<mapsto> mb'), w_mreg := rg\<rparr>) \<and>
    mbox_frame i mb (w_mreg w) mb' rg \<and>
    (if sc = RTEMS_SUCCESSFUL
     then ch_active (mb_chans mb' ! i) \<and> ch_int_a (mb_chans mb' ! i) = \<lparr>cb = ca, cb_arg = arg\<rparr> \<and>
       ch_int_b (mb_chans mb' ! i) = \<lparr>cb = cbb, cb_arg = arg\<rparr>
     else \<not> ch_active (mb_chans mb' ! i))"
proof -
  let ?s = "\<lparr>st_mbox = mb, st_regs = w_mreg w\<rparr>"
  have "mbox_wf (st_mbox ?s)" "\<not> ch_active (chan_of ?s i)" using wf free by simp_all
  from claim_frame [OF hw this(1) i this(2), of ow sr de ca cbb arg]
  obtain sc s' where "hpsc_mbox_chan_claim (sys_hw sys) False i ow sr de ca cbb arg ?s = Inr (sc, s')"
    "mbox_frame i mb (w_mreg w) (st_mbox s') (st_regs s')"
    "if sc = RTEMS_SUCCESSFUL
     then ch_active (chan_of s' i) \<and> ch_int_a (chan_of s' i) = \<lparr>cb = ca, cb_arg = arg\<rparr> \<and>
       ch_int_b (chan_of s' i) = \<lparr>cb = cbb, cb_arg = arg\<rparr>
     else \<not> ch_active (chan_of s' i)" by auto
  then show ?thesis using m task
    by (intro exI [of _ sc] exI [of _ "st_mbox s'"] exI [of _ "st_regs s'"]) (simp add: claim_chan_def mbox_run_def)
qed

lemma release_chan_ok:
  assumes m: "m \<noteq> NULL" "w_mbox w m = Some mb" and wf: "mbox_wf mb" and i: "i < 32"
    and base: "ch_base (mb_chans mb ! i) = Some (chan_addr mb i)" and task: "\<not> rt_int_in_progress (sys_K sys) (w_ker w)"
    and hw: "mbox_hw_laws (sys_hw sys)"
  shows "\<exists>mb' rg. release_chan sys m i w = Inr (RTEMS_SUCCESSFUL, w\<lparr>w_mbox := (w_mbox w)(m \<mapsto> mb'), w_mreg := rg\<rparr>) \<and>
    mbox_frame i mb (w_mreg w) mb' rg \<and> \<not> ch_active (mb_chans mb' ! i)"
proof -
  let ?s = "\<lparr>st_mbox = mb, st_regs = w_mreg w\<rparr>"
  have "mbox_wf (st_mbox ?s)" "ch_base (chan_of ?s i) = Some (chan_addr (st_mbox ?s) i)" using wf base by simp_all
  from release_frame [OF hw this(1) i this(2)]
  obtain s' where "hpsc_mbox_chan_release (sys_hw sys) False i ?s = Inr (RTEMS_SUCCESSFUL, s')"
    "mbox_frame i mb (w_mreg w) (st_mbox s') (st_regs s')" "\<not> ch_active (chan_of s' i)" by auto
  then show ?thesis using m task
    by (intro exI [of _ "st_mbox s'"] exI [of _ "st_regs s'"]) (simp add: release_chan_def mbox_run_def)
qed

lemma mbox_frame_addr: "mbox_frame i mb rg mb' rg' \<Longrightarrow> chan_addr mb' j = chan_addr mb j"
  by (simp add: mbox_frame_def chan_addr_def)

text \<open>A channel of the node that can be claimed.\<close>

definition chan_free :: "ptr \<Rightarrow> nat \<Rightarrow> 'k world \<Rightarrow> bool" where
  "chan_free m i w \<longleftrightarrow> (case w_mbox w m of None \<Rightarrow> False
     | Some mb \<Rightarrow> mbox_wf mb \<and> i < 32 \<and> \<not> ch_active (mb_chans mb ! i) \<and> length (DATA (w_mreg w (chan_addr mb i))) = 16)"

definition links_live :: "('k \<Rightarrow> ptr set) \<Rightarrow> 'k world \<Rightarrow> bool" where
  "links_live live w \<longleftrightarrow> dom (w_link w) \<union> dom (w_mlink w) \<union> dom (w_slink w) \<subseteq> live (w_ker w)"

lemma chan_free_frame [simp]:
  "chan_free m i (w\<lparr>w_ker := k\<rparr>) = chan_free m i w" "chan_free m i (w\<lparr>w_link := lks\<rparr>) = chan_free m i w"
  by (simp_all add: chan_free_def split: option.splits)

lemma frame_free:
  assumes "mbox_frame i mb rg mb' rg'" and "j \<noteq> i" and "\<not> ch_active (mb_chans mb ! j)"
  shows "mbox_wf mb'" and "\<not> ch_active (mb_chans mb' ! j)"
  using assms by (simp_all add: mbox_frame_def)

text \<open>The two objects of a link: what freeing them restores.\<close>

lemma two_objects:
  assumes heap: "heap_laws (sys_K sys) live" and live: "links_live live w"
    and a: "rt_malloc (sys_K sys) (w_ker w) = (l, k1)" "l \<noteq> NULL" and b: "rt_malloc (sys_K sys) k1 = (p, k2)" "p \<noteq> NULL"
  shows "l \<noteq> p" and "l \<notin> live (w_ker w)" and "p \<notin> live (w_ker w)" and "live k2 = insert l (insert p (live (w_ker w)))"
    and "(w_link w)(l := None) = w_link w" and "(w_mlink w)(p := None) = w_mlink w" and "(w_slink w)(p := None) = w_slink w"
    and "live (rt_free (sys_K sys) l (rt_free (sys_K sys) p k2)) = live (w_ker w)"
proof -
  have l: "l \<notin> live (w_ker w)" "live k1 = insert l (live (w_ker w))"
    using heap_laws_malloc [OF heap a(1)] a(2) by simp_all
  have p: "p \<notin> live k1" "live k2 = insert p (live k1)"
    using heap_laws_malloc [OF heap b(1)] b(2) by simp_all
  show "l \<noteq> p" "l \<notin> live (w_ker w)" "p \<notin> live (w_ker w)" "live k2 = insert l (insert p (live (w_ker w)))"
    using l p by auto
  show "(w_link w)(l := None) = w_link w" "(w_mlink w)(p := None) = w_mlink w" "(w_slink w)(p := None) = w_slink w"
    using live l p by (auto simp: links_live_def fun_upd_idem_iff domIff subset_iff)
  show "live (rt_free (sys_K sys) l (rt_free (sys_K sys) p k2)) = live (w_ker w)"
    using l p by (auto simp: heap_laws_frame(1) [OF heap])
qed

text \<open>What a connected mailbox link looks like.\<close>

definition mlink_made :: "('k \<Rightarrow> ptr set) \<Rightarrow> 'k sys \<Rightarrow> ptr \<Rightarrow> nat \<Rightarrow> nat \<Rightarrow> u8 \<Rightarrow> ptr \<Rightarrow> 'k world \<Rightarrow> 'k world \<Rightarrow> bool" where
  "mlink_made live sys m i j server l w w' \<longleftrightarrow>
     mlink_up sys l w' \<and> l \<notin> live (w_ker w) \<and>
     (\<exists>lk mb. w_link w' = (w_link w)(l \<mapsto> lk) \<and> l_close lk = Link_mbox_close \<and> tid_requester (l_rctx lk) = RTEMS_ID_NONE \<and>
        w_mlink w' = (w_mlink w)(l_priv lk \<mapsto> \<lparr>ml_mbox = m, chan_from = i, chan_to = j\<rparr>) \<and>
        live (w_ker w') = {l, l_priv lk} \<union> live (w_ker w) \<and>
        w_mbox w' m = Some mb \<and> ch_active (mb_chans mb ! i) \<and> ch_active (mb_chans mb ! j) \<and>
        ch_int_a (mb_chans mb ! i) = \<lparr>cb = Some (if server \<noteq> 0 then Link_recv_cmd else Link_recv_reply), cb_arg = l\<rparr> \<and>
        ch_int_b (mb_chans mb ! j) = \<lparr>cb = Some Link_mbox_ack, cb_arg = l\<rparr>)"

definition links_restored :: "('k \<Rightarrow> ptr set) \<Rightarrow> ptr \<Rightarrow> nat \<Rightarrow> nat \<Rightarrow> 'k world \<Rightarrow> 'k world \<Rightarrow> bool" where
  "links_restored live m i j w w' \<longleftrightarrow> w_link w' = w_link w \<and> w_mlink w' = w_mlink w \<and> live (w_ker w') = live (w_ker w) \<and>
     chan_free m i w' \<and> chan_free m j w'"

text \<open>The node while a mailbox link is being made: its two objects exist, the registers have changed.\<close>

definition linking ::
  "ptr \<Rightarrow> link \<Rightarrow> link_mbox \<Rightarrow> 'k \<Rightarrow> ptr \<Rightarrow> hpsc_mbox \<Rightarrow> (u32 \<Rightarrow> hpsc_mbox_chan_base) \<Rightarrow> 'k world \<Rightarrow> 'k world" where
  "linking l lk ml k m mb rg w = w\<lparr>w_link := (w_link w)(l \<mapsto> lk), w_mlink := (w_mlink w)(l_priv lk \<mapsto> ml),
     w_ker := k, w_mbox := (w_mbox w)(m \<mapsto> mb), w_mreg := rg\<rparr>"

lemma linking_simps [simp]:
  "w_link (linking l lk ml k m mb rg w) = (w_link w)(l \<mapsto> lk)"
  "w_mlink (linking l lk ml k m mb rg w) = (w_mlink w)(l_priv lk \<mapsto> ml)"
  "w_ker (linking l lk ml k m mb rg w) = k"
  "w_mbox (linking l lk ml k m mb rg w) = (w_mbox w)(m \<mapsto> mb)"
  "w_mreg (linking l lk ml k m mb rg w) = rg"
  "(linking l lk ml k m mb rg w)\<lparr>w_mbox := (w_mbox w)(m \<mapsto> mb'), w_mreg := rg'\<rparr> = linking l lk ml k m mb' rg' w"
  by (simp_all add: linking_def)

lemma two_frames:
  assumes "mbox_frame i mb rg mb1 rg1" and "mbox_frame j mb1 rg1 mb2 rg2" and "i \<noteq> j"
  shows "mbox_wf mb2" "mb_base mb2 = mb_base mb" "chan_addr mb2 = chan_addr mb" "ch_base (mb_chans mb2 ! i) = Some (chan_addr mb i)"
    "ch_base (mb_chans mb2 ! j) = Some (chan_addr mb j)" "mb_chans mb2 ! i = mb_chans mb1 ! i"
    "length (DATA (rg2 b)) = length (DATA (rg b))"
  using assms by (auto simp: mbox_frame_def chan_addr_def fun_eq_iff)

lemma freed_restored:
  assumes obj: "(w_link w)(l := None) = w_link w" "(w_mlink w)(l_priv lk := None) = w_mlink w"
      "live (rt_free (sys_K sys) l (rt_free (sys_K sys) (l_priv lk) k)) = live (w_ker w)"
    and free: "chan_free m i w" "chan_free m j w" and w: "w_mbox w m = Some mb"
    and mb: "mbox_wf mb'" "mb_base mb' = mb_base mb" "\<And>b. length (DATA (rg b)) = length (DATA (w_mreg w b))"
      "\<not> ch_active (mb_chans mb' ! i)" "\<not> ch_active (mb_chans mb' ! j)"
  shows "links_restored live m i j w (free_link sys l (free_mlink sys (l_priv lk) (linking l lk ml k m mb' rg w)))"
  using assms by (simp add: links_restored_def free_link_def free_mlink_def w_free_def chan_free_def chan_addr_def)

lemma close_linking:
  assumes obj: "(w_link w)(l := None) = w_link w" "(w_mlink w)(l_priv lk := None) = w_mlink w"
      "live (rt_free (sys_K sys) l (rt_free (sys_K sys) (l_priv lk) k)) = live (w_ker w)"
    and free: "chan_free m i w" "chan_free m j w" "i \<noteq> j" and w: "w_mbox w m = Some mb" "m \<noteq> NULL"
    and fr: "mbox_frame i mb (w_mreg w) mb1 rg1" "mbox_frame j mb1 rg1 mb2 rg2"
    and ml: "ml = \<lparr>ml_mbox = m, chan_from = i, chan_to = j\<rparr>" and lk: "l_close lk = Link_mbox_close"
    and task: "\<not> rt_int_in_progress (sys_K sys) k" and hw: "mbox_hw_laws (sys_hw sys)"
  shows "\<exists>w''. link_disconnect sys yield fuel l (linking l lk ml k m mb2 rg2 w) = Inr (0, w'') \<and> links_restored live m i j w w''"
proof -
  have lt: "i < 32" "j < 32" using free w by (simp_all add: chan_free_def)
  note f2 = two_frames [OF fr free(3)]
  obtain mb3 rg3 where r1: "release_chan sys m i (linking l lk ml k m mb2 rg2 w) = Inr (RTEMS_SUCCESSFUL, linking l lk ml k m mb3 rg3 w)"
    "mbox_frame i mb2 rg2 mb3 rg3" "\<not> ch_active (mb_chans mb3 ! i)"
    using release_chan_ok [OF w(2) _ f2(1) lt(1) _ _ hw, of "linking l lk ml k m mb2 rg2 w"] f2 task by auto
  have b3: "mbox_wf mb3" "ch_base (mb_chans mb3 ! j) = Some (chan_addr mb3 j)"
    using r1(2) f2 free(3) by (auto simp: mbox_frame_def chan_addr_def)
  obtain mb4 rg4 where r2: "release_chan sys m j (linking l lk ml k m mb3 rg3 w) = Inr (RTEMS_SUCCESSFUL, linking l lk ml k m mb4 rg4 w)"
    "mbox_frame j mb3 rg3 mb4 rg4" "\<not> ch_active (mb_chans mb4 ! j)"
    using release_chan_ok [OF w(2) _ b3(1) lt(2) b3(2) _ hw, of "linking l lk ml k m mb3 rg3 w"] task by auto
  let ?w = "free_link sys l (free_mlink sys (l_priv lk) (linking l lk ml k m mb4 rg4 w))"
  have "link_disconnect sys yield fuel l (linking l lk ml k m mb2 rg2 w) = Inr (0, ?w)"
    using r1(1) r2(1) lk by (simp add: link_disconnect_def link_mbox_close_def ml)
  moreover have "links_restored live m i j w ?w"
    by (rule freed_restored [OF obj free(1,2) w(1)])
      (use r1(2,3) r2(2,3) fr free(3) in \<open>auto simp: mbox_frame_def\<close>)
  ultimately show ?thesis by blast
qed

lemma made_linking:
  assumes hw: "mbox_hw_laws (sys_hw sys)" and m: "m \<noteq> NULL" and w: "w_mbox w m = Some mb"
    and free: "chan_free m i w" "chan_free m j w" "i \<noteq> j"
    and fr: "mbox_frame i mb (w_mreg w) mb1 rg1" "mbox_frame j mb1 rg1 mb2 rg2"
    and act: "ch_active (mb_chans mb1 ! i)" "ch_active (mb_chans mb2 ! j)"
      "ch_int_a (mb_chans mb1 ! i) = \<lparr>cb = Some (if server \<noteq> 0 then Link_recv_cmd else Link_recv_reply), cb_arg = l\<rparr>"
      "ch_int_b (mb_chans mb2 ! j) = \<lparr>cb = Some Link_mbox_ack, cb_arg = l\<rparr>"
    and lk: "l_write lk = Link_mbox_write" "l_read lk = Link_mbox_read" "l_close lk = Link_mbox_close"
      "tid_requester (l_rctx lk) = RTEMS_ID_NONE"
    and ml: "ml = \<lparr>ml_mbox = m, chan_from = i, chan_to = j\<rparr>"
    and k: "l \<notin> live (w_ker w)" "live k = {l, l_priv lk} \<union> live (w_ker w)"
  shows "mlink_made live sys m i j server l w (linking l lk ml k m mb2 rg2 w)"
proof -
  note f2 = two_frames [OF fr free(3)]
  have "i < 32" "j < 32" "length (DATA (w_mreg w (chan_addr mb i))) = 16" "length (DATA (w_mreg w (chan_addr mb j))) = 16"
    using free w by (simp_all add: chan_free_def)
  then have "mlink_up sys l (linking l lk ml k m mb2 rg2 w)"
    using hw m lk f2 free(3) by (simp add: mlink_up_def ml)
  moreover have "mb_chans mb2 ! i = mb_chans mb1 ! i" by (rule f2(6))
  ultimately show ?thesis
    unfolding mlink_made_def using act lk k by (intro conjI exI [of _ lk] exI [of _ mb2]) (simp_all add: ml)
qed

lemma connect_with_objects:
  assumes heap: "heap_laws (sys_K sys) live" and isr: "isr_laws (sys_K sys)" and hw: "mbox_hw_laws (sys_hw sys)"
    and live: "links_live live w" and task: "\<not> rt_int_in_progress (sys_K sys) (w_ker w)"
    and m: "m \<noteq> NULL" and free: "chan_free m i w" "chan_free m j w" "i \<noteq> j"
    and l: "rt_malloc (sys_K sys) (w_ker w) = (l, k1)" and p: "rt_malloc (sys_K sys) k1 = (p, k2)"
    and nz: "l \<noteq> NULL" "p \<noteq> NULL"
  shows "\<exists>l w'. link_mbox_connect sys raw name m i j server client w = Inr (l, w') \<and>
    (if l = NULL then links_restored live m i j w w'
     else mlink_made live sys m i j server l w w' \<and>
       (\<exists>w''. link_disconnect sys yield fuel l w' = Inr (0, w'') \<and> links_restored live m i j w w''))"
proof -
  note obj = two_objects [OF heap live l nz(1) p nz(2)]
  obtain mb where mb: "w_mbox w m = Some mb" "mbox_wf mb" "i < 32" "j < 32" "\<not> ch_active (mb_chans mb ! i)"
    "\<not> ch_active (mb_chans mb ! j)"
    using free by (auto simp: chan_free_def split: option.splits)
  let ?lk = "(link_init raw name p)\<lparr>l_write := Link_mbox_write, l_read := Link_mbox_read, l_close := Link_mbox_close\<rparr>"
  let ?ml = "\<lparr>ml_mbox = m, chan_from = i, chan_to = j\<rparr>"
  let ?w = "\<lambda>mb rg. linking l ?lk ?ml k2 m mb rg w"
  let ?rcv = "if server \<noteq> 0 then Link_recv_cmd else Link_recv_reply"
  have priv: "l_priv ?lk = p" by (simp add: link_init_def)
  have task2: "\<not> rt_int_in_progress (sys_K sys) k2"
    using task isr_laws_frame(1) [OF isr l] isr_laws_frame(1) [OF isr p] by simp
  have start: "w\<lparr>w_ker := k2, w_link := (w_link w)(l \<mapsto> ?lk), w_mlink := (w_mlink w)(p \<mapsto> ?ml)\<rparr> = ?w mb (w_mreg w)"
    using mb(1) priv by (simp add: linking_def fun_upd_idem)
  obtain sc mb1 rg1 where c1: "claim_chan sys m i server client server (Some ?rcv) None l (?w mb (w_mreg w)) = Inr (sc, ?w mb1 rg1)"
    "mbox_frame i mb (w_mreg w) mb1 rg1"
    "if sc = RTEMS_SUCCESSFUL then ch_active (mb_chans mb1 ! i) \<and> ch_int_a (mb_chans mb1 ! i) = \<lparr>cb = Some ?rcv, cb_arg = l\<rparr>
     else \<not> ch_active (mb_chans mb1 ! i)"
    using claim_chan_ok [OF m _ mb(2,3,5) _ hw, of "?w mb (w_mreg w)" server client server "Some ?rcv" None l] task2
    by (auto split: if_splits)
  show ?thesis
  proof (cases "sc = RTEMS_SUCCESSFUL")
    case False
    let ?f = "free_link sys l (free_mlink sys (l_priv ?lk) (?w mb1 rg1))"
    have "link_mbox_connect sys raw name m i j server client w = Inr (NULL, ?f)"
      using nz l p start c1(1) False priv by (simp add: link_mbox_connect_def w_malloc_def Let_def)
    moreover have "links_restored live m i j w ?f"
      by (rule freed_restored [OF _ _ _ free(1,2) mb(1)])
        (use obj(5,6,8) priv c1(2,3) False mb(6) free(3) in \<open>auto simp: mbox_frame_def\<close>)
    ultimately show ?thesis by simp
  next
    case True
    note fr1 = frame_free [OF c1(2) free(3) [symmetric] mb(6)]
    obtain sc' mb2 rg2 where c2: "claim_chan sys m j server server client None (Some Link_mbox_ack) l (?w mb1 rg1) = Inr (sc', ?w mb2 rg2)"
      "mbox_frame j mb1 rg1 mb2 rg2"
      "if sc' = RTEMS_SUCCESSFUL
       then ch_active (mb_chans mb2 ! j) \<and> ch_int_b (mb_chans mb2 ! j) = \<lparr>cb = Some Link_mbox_ack, cb_arg = l\<rparr>
       else \<not> ch_active (mb_chans mb2 ! j)"
      using claim_chan_ok [OF m _ fr1(1) mb(4) fr1(2) _ hw, of "?w mb1 rg1" server server client None "Some Link_mbox_ack" l] task2
      by (auto split: if_splits)
    note f2 = two_frames [OF c1(2) c2(2) free(3)]
    show ?thesis
    proof (cases "sc' = RTEMS_SUCCESSFUL")
      case False
      obtain mb3 rg3 where r: "release_chan sys m i (?w mb2 rg2) = Inr (RTEMS_SUCCESSFUL, ?w mb3 rg3)"
        "mbox_frame i mb2 rg2 mb3 rg3" "\<not> ch_active (mb_chans mb3 ! i)"
        using release_chan_ok [OF m _ f2(1) mb(3) _ _ hw, of "?w mb2 rg2"] f2 task2 by auto
      let ?f = "free_link sys l (free_mlink sys (l_priv ?lk) (?w mb3 rg3))"
      have "link_mbox_connect sys raw name m i j server client w = Inr (NULL, ?f)"
        using nz l p start c1(1) c2(1) r(1) True False priv by (simp add: link_mbox_connect_def w_malloc_def Let_def)
      moreover have "links_restored live m i j w ?f"
        by (rule freed_restored [OF _ _ _ free(1,2) mb(1)])
          (use obj(5,6,8) priv c2(2,3) r(2,3) f2 False free(3) in \<open>auto simp: mbox_frame_def\<close>)
      ultimately show ?thesis by simp
    next
      case ok: True
      have conn: "link_mbox_connect sys raw name m i j server client w = Inr (l, ?w mb2 rg2)"
        using nz l p start c1(1) c2(1) True ok priv by (simp add: link_mbox_connect_def w_malloc_def Let_def)
      have "mlink_made live sys m i j server l w (?w mb2 rg2)"
        by (rule made_linking [OF hw m mb(1) free c1(2) c2(2)])
          (use c1(3) c2(3) True ok obj priv in \<open>auto simp: link_init_def\<close>)
      moreover have "\<exists>w''. link_disconnect sys yield fuel l (?w mb2 rg2) = Inr (0, w'') \<and> links_restored live m i j w w''"
        by (rule close_linking [OF _ _ _ free mb(1) m c1(2) c2(2)]) (use obj priv task2 hw in simp_all)
      ultimately show ?thesis using conn nz(1) by simp
    qed
  qed
qed


text \<open>The node with a mailbox block without claimed channels.\<close>

definition demo_block_world :: "demo_kernel world" where
  "demo_block_world = demo_world\<lparr>w_mbox := [0x100 \<mapsto> st_mbox demo_mbox], w_link := Map.empty, w_mlink := Map.empty,
     w_slink := Map.empty\<rparr>"

lemma demo_block_free: "i < 32 \<Longrightarrow> chan_free 0x100 i demo_block_world"
  by (simp add: chan_free_def demo_block_world_def demo_mbox_chan demo_chan_def demo_world_def demo_regs_def)


end
