(* ===== verification/Link_Setup_Shmem.thy ===== *)
theory Link_Setup_Shmem
  imports Link_Setup
begin

text \<open>
  Making and closing links over shared memory: \<open>link_shmem_connect\<close> and \<open>link_shmem_close\<close>.
\<close>

subsection \<open>Steps of making a link\<close>

text \<open>Every object of the node is live memory.\<close>

definition objects_live :: "('k \<Rightarrow> ptr set) \<Rightarrow> 'k world \<Rightarrow> bool" where
  "objects_live live w \<longleftrightarrow> links_live live w \<and> dom (w_poll w) \<subseteq> live (w_ker w) \<and> dom (sh_obj (w_shm w)) \<subseteq> live (w_ker w)"

text \<open>The node with other objects of shared memory and polling, and another kernel state.\<close>

definition with_shm :: "(ptr \<Rightarrow> ptr option) \<Rightarrow> (ptr \<Rightarrow> shmem_poll option) \<Rightarrow> 'k \<Rightarrow> 'k world \<Rightarrow> 'k world" where
  "with_shm obj poll k w = w\<lparr>w_shm := (w_shm w)\<lparr>sh_obj := obj\<rparr>, w_poll := poll, w_ker := k\<rparr>"

lemma with_shm_simps [simp]:
  "sh_obj (w_shm (with_shm obj poll k w)) = obj" "sh_mem (w_shm (with_shm obj poll k w)) = sh_mem (w_shm w)"
  "w_poll (with_shm obj poll k w) = poll" "w_ker (with_shm obj poll k w) = k"
  "w_link (with_shm obj poll k w) = w_link w" "w_slink (with_shm obj poll k w) = w_slink w"
  "w_mlink (with_shm obj poll k w) = w_mlink w"
  "with_shm obj' poll' k' (with_shm obj poll k w) = with_shm obj' poll' k' w"
  "with_shm (sh_obj (w_shm w)) (w_poll w) (w_ker w) w = w"
  by (simp_all add: with_shm_def)

lemma none_upd: "dom obj \<subseteq> L \<Longrightarrow> s \<notin> L \<Longrightarrow> obj(s := None) = obj"
  by (rule fun_upd_idem) (meson domIff in_mono)

lemma open_shm_ok:
  assumes heap: "heap_laws (sys_K sys) live" and al: "IS_ALIGNED addr" and ob: "dom obj \<subseteq> live k"
  shows "\<exists>s k'. open_shm sys addr (with_shm obj poll k w) =
      Inr (s, with_shm (if s = NULL then obj else obj(s \<mapsto> addr)) poll k' w) \<and>
    (if s = NULL then live k' = live k else s \<notin> live k \<and> live k' = insert s (live k) \<and> obj(s := None) = obj)"
proof -
  obtain s k' where s: "rt_malloc (sys_K sys) k = (s, k')" by fastforce
  have o: "open_shm sys addr (with_shm obj poll k w) =
      Inr (s, with_shm (if s = NULL then obj else obj(s \<mapsto> addr)) poll k' w)"
    using al by (cases "s = NULL") (simp_all only: open_shm_def shmem_open_def with_shm_simps s prod.case if_True if_False
        refl res_bind.simps simp_thms, simp_all add: with_shm_def)
  have "if s = NULL then live k' = live k else s \<notin> live k \<and> live k' = insert s (live k) \<and> obj(s := None) = obj"
    using heap_laws_malloc [OF heap s] none_upd [OF ob, of s] by (cases "s = NULL") simp_all
  with o show ?thesis by blast
qed

lemma close_shm_ok:
  assumes heap: "heap_laws (sys_K sys) live" and s: "s \<noteq> NULL"
  shows "\<exists>k'. close_shm sys s (with_shm obj poll k w) = Inr (with_shm (obj(s := None)) poll k' w) \<and> live k' = live k - {s}"
  using s heap_laws_frame(1) [OF heap, of s k]
  by (intro exI [of _ "rt_free (sys_K sys) s k"]) (simp add: close_shm_def shmem_close_def with_shm_def)

lemma poll_start_ok:
  assumes heap: "heap_laws (sys_K sys) live" and ob: "dom poll \<subseteq> live k" and args: "shm \<noteq> NULL" "ticks \<noteq> 0"
  shows "\<exists>sc sp k'. shmem_poll_task_start sys shm ticks msk tid h arg (with_shm obj poll k w) = Inr (sc, sp,
      with_shm obj (if sc = RTEMS_SUCCESSFUL then poll(sp \<mapsto> shmem_poll_init shm ticks msk tid h arg) else poll) k' w) \<and>
    (if sc = RTEMS_SUCCESSFUL then sp \<noteq> NULL \<and> sp \<notin> live k \<and> live k' = insert sp (live k) \<and> poll(sp := None) = poll
     else sp = NULL \<and> live k' = live k)"
proof -
  obtain sp k1 where m: "rt_malloc (sys_K sys) k = (sp, k1)" by fastforce
  obtain sc k2 where s: "rt_task_start (sys_K sys) tid Shm_poll_task sp k1 = (sc, k2)" by fastforce
  note L = heap_laws_malloc [OF heap m] heap_laws_frame(4) [OF heap s] heap_laws_frame(1) [OF heap, of sp k2]
  note none = none_upd [OF ob, of sp]
  show ?thesis
  proof (cases "sp = NULL")
    case True
    then show ?thesis using m args L(1)
      by (intro exI [of _ RTEMS_NO_MEMORY] exI [of _ NULL] exI [of _ k1])
        (simp add: shmem_poll_task_start_def w_malloc_def with_shm_def)
  next
    case False
    then show ?thesis using m s args L none
      by (intro exI [of _ sc] exI [of _ "if sc = RTEMS_SUCCESSFUL then sp else NULL"]
          exI [of _ "if sc = RTEMS_SUCCESSFUL then k2 else rt_free (sys_K sys) sp k2"])
        (simp add: shmem_poll_task_start_def w_malloc_def w_free_def with_shm_def Let_def)
  qed
qed

text \<open>
  A quiet node: a polling task that has been sent its exit event, and that no other polling
  object uses, leaves its loop within \<open>fuel\<close> slices of the scheduler, and nothing else happens
  meanwhile.
\<close>

definition unused :: "rtems_id \<Rightarrow> (ptr \<Rightarrow> shmem_poll option) \<Rightarrow> bool" where
  "unused t poll \<longleftrightarrow> (\<forall>sp p. poll sp = Some p \<longrightarrow> sp_tid p \<noteq> t)"

definition polls_end :: "('k \<Rightarrow> ptr set) \<Rightarrow> 'k sys \<Rightarrow> ('k world \<Rightarrow> 'k world res) \<Rightarrow> nat \<Rightarrow> bool" where
  "polls_end live sys yield fuel \<longleftrightarrow> (\<forall>sp p k w. w_poll w sp = Some p \<longrightarrow> unused (sp_tid p) ((w_poll w)(sp := None)) \<longrightarrow>
     rt_event_send (sys_K sys) (sp_tid p) SHM_EVENT_EXIT (w_ker w) = (RTEMS_SUCCESSFUL, k) \<longrightarrow>
     (\<exists>k'. wait_while (poll_running sp) yield fuel (w\<lparr>w_ker := k\<rparr>) =
         Inr (w\<lparr>w_poll := (w_poll w)(sp \<mapsto> p\<lparr>sp_running := False\<rparr>), w_ker := k'\<rparr>) \<and> live k' = live k))"

text \<open>A task that can be stopped by another one.\<close>

definition stoppable :: "('k \<Rightarrow> ptr set) \<Rightarrow> 'k rtems \<Rightarrow> rtems_id \<Rightarrow> bool" where
  "stoppable live K t \<longleftrightarrow> (\<forall>k. fst (rt_event_send K t SHM_EVENT_EXIT k) = RTEMS_SUCCESSFUL \<and>
     live (snd (rt_event_send K t SHM_EVENT_EXIT k)) = live k \<and> rt_task_self K k \<noteq> t)"

lemma poll_destroy_ok:
  assumes heap: "heap_laws (sys_K sys) live" and ends: "polls_end live sys yield fuel"
    and stop: "stoppable live (sys_K sys) (sp_tid p)" and un: "unused (sp_tid p) (poll(sp := None))"
    and sp: "sp \<noteq> NULL" "poll sp = Some p"
  shows "\<exists>k'. shmem_poll_task_destroy sys yield fuel sp (with_shm obj poll k w) =
      Inr (RTEMS_SUCCESSFUL, with_shm obj (poll(sp := None)) k' w) \<and> live k' = live k - {sp}"
proof -
  obtain k1 where k1: "rt_event_send (sys_K sys) (sp_tid p) SHM_EVENT_EXIT k = (RTEMS_SUCCESSFUL, k1)" "live k1 = live k"
    using stop [unfolded stoppable_def, rule_format, of k] by (cases "rt_event_send (sys_K sys) (sp_tid p) SHM_EVENT_EXIT k") simp
  obtain k2 where k2: "wait_while (poll_running sp) yield fuel (with_shm obj poll k1 w) =
      Inr (with_shm obj (poll(sp \<mapsto> p\<lparr>sp_running := False\<rparr>)) k2 w)" "live k2 = live k1"
    using ends [unfolded polls_end_def, rule_format, where w = "with_shm obj poll k w" and sp = sp and p = p and k = k1]
      sp k1(1) un by (auto simp: with_shm_def)
  show ?thesis
    using sp k1 k2 stop [unfolded stoppable_def, rule_format, of k1] heap_laws_frame(1) [OF heap, of sp k2]
    by (intro exI [of _ "rt_free (sys_K sys) sp k2"])
      (simp add: eq_commute [of "sp_tid p"] shmem_poll_task_destroy_def event_send_def w_free_def with_shm_def)
qed

subsection \<open>Making the regions and the polling tasks\<close>

text \<open>The four objects of a shared memory link.\<close>

definition slink_objects ::
  "('k \<Rightarrow> ptr set) \<Rightarrow> link_shmem \<Rightarrow> ptr \<Rightarrow> ptr \<Rightarrow> shmem_poll \<Rightarrow> shmem_poll \<Rightarrow>
   (ptr \<Rightarrow> ptr option) \<Rightarrow> (ptr \<Rightarrow> shmem_poll option) \<Rightarrow> 'k \<Rightarrow> (ptr \<Rightarrow> ptr option) \<Rightarrow> (ptr \<Rightarrow> shmem_poll option) \<Rightarrow> 'k \<Rightarrow> bool" where
  "slink_objects live sl ao ai pr pa obj poll k obj' poll' k' \<longleftrightarrow>
     distinct [NULL, shmem_out sl, shmem_in sl, sp_recv sl, sp_ack sl] \<and>
     {shmem_out sl, shmem_in sl, sp_recv sl, sp_ack sl} \<inter> live k = {} \<and>
     live k' = {shmem_out sl, shmem_in sl, sp_recv sl, sp_ack sl} \<union> live k \<and>
     obj' = obj(shmem_out sl \<mapsto> ao, shmem_in sl \<mapsto> ai) \<and> poll' = poll(sp_recv sl \<mapsto> pr, sp_ack sl \<mapsto> pa)"

definition recv_poll_of :: "link_shmem \<Rightarrow> bool \<Rightarrow> rtems_interval \<Rightarrow> rtems_id \<Rightarrow> ptr \<Rightarrow> shmem_poll" where
  "recv_poll_of sl is_server ticks tid l = shmem_poll_init (shmem_in sl) ticks HPSC_SHMEM_STATUS_BIT_NEW tid
     (if is_server then Link_recv_cmd else Link_recv_reply) l"

definition ack_poll_of :: "link_shmem \<Rightarrow> rtems_interval \<Rightarrow> rtems_id \<Rightarrow> ptr \<Rightarrow> shmem_poll" where
  "ack_poll_of sl ticks tid l = shmem_poll_init (shmem_out sl) ticks HPSC_SHMEM_STATUS_BIT_ACK tid Link_shmem_ack l"

lemma tid_of_polls [simp]:
  "sp_tid (recv_poll_of sl is_server ticks tid l) = tid" "sp_tid (ack_poll_of sl ticks tid l) = tid"
  by (simp_all add: recv_poll_of_def ack_poll_of_def shmem_poll_init_def)

text \<open>The second half of \<open>link_shmem_init\<close>: the regions are open, the tasks are started.\<close>

lemma start_polls_ok:
  assumes heap: "heap_laws (sys_K sys) live" and ends: "polls_end live sys yield fuel" and ticks: "ticks \<noteq> 0"
    and stop: "stoppable live (sys_K sys) tr" "unused tr poll" and nz: "out \<noteq> NULL" "inp \<noteq> NULL" and ob: "dom poll \<subseteq> live k"
  shows "\<exists>sc recv k1. shmem_poll_task_start sys inp ticks m1 tr h1 l (with_shm obj poll k w) =
      Inr (sc, recv, with_shm obj (if sc = RTEMS_SUCCESSFUL then poll(recv \<mapsto> shmem_poll_init inp ticks m1 tr h1 l) else poll) k1 w) \<and>
    (if sc \<noteq> RTEMS_SUCCESSFUL then live k1 = live k
     else \<exists>sc' ack k2. shmem_poll_task_start sys out ticks m2 ta h2 l
           (with_shm obj (poll(recv \<mapsto> shmem_poll_init inp ticks m1 tr h1 l)) k1 w) = Inr (sc', ack,
           with_shm obj (if sc' = RTEMS_SUCCESSFUL then poll(recv \<mapsto> shmem_poll_init inp ticks m1 tr h1 l,
             ack \<mapsto> shmem_poll_init out ticks m2 ta h2 l) else poll(recv \<mapsto> shmem_poll_init inp ticks m1 tr h1 l)) k2 w) \<and>
       (if sc' \<noteq> RTEMS_SUCCESSFUL
        then \<exists>k3. shmem_poll_task_destroy sys yield fuel recv
              (with_shm obj (poll(recv \<mapsto> shmem_poll_init inp ticks m1 tr h1 l)) k2 w) =
            Inr (RTEMS_SUCCESSFUL, with_shm obj poll k3 w) \<and> live k3 = live k
        else distinct [NULL, recv, ack] \<and> {recv, ack} \<inter> live k = {} \<and> live k2 = {recv, ack} \<union> live k))"
proof -
  obtain sc recv k1 where r: "shmem_poll_task_start sys inp ticks m1 tr h1 l (with_shm obj poll k w) =
      Inr (sc, recv, with_shm obj (if sc = RTEMS_SUCCESSFUL then poll(recv \<mapsto> shmem_poll_init inp ticks m1 tr h1 l) else poll) k1 w)"
    "if sc = RTEMS_SUCCESSFUL then recv \<noteq> NULL \<and> recv \<notin> live k \<and> live k1 = insert recv (live k) \<and> poll(recv := None) = poll
     else recv = NULL \<and> live k1 = live k"
    using poll_start_ok [OF heap ob nz(2) ticks] by blast
  show ?thesis
  proof (cases "sc = RTEMS_SUCCESSFUL")
    case False
    with r show ?thesis by (intro exI [of _ sc] exI [of _ recv] exI [of _ k1]) simp
  next
    case True
    let ?poll = "poll(recv \<mapsto> shmem_poll_init inp ticks m1 tr h1 l)"
    have rv: "recv \<noteq> NULL" "recv \<notin> live k" "live k1 = insert recv (live k)" "poll(recv := None) = poll"
      using r(2) True by simp_all
    have ob1: "dom ?poll \<subseteq> live k1" using rv(3) ob by auto
    obtain sc' ack k2 where a: "shmem_poll_task_start sys out ticks m2 ta h2 l (with_shm obj ?poll k1 w) =
        Inr (sc', ack, with_shm obj (if sc' = RTEMS_SUCCESSFUL then ?poll(ack \<mapsto> shmem_poll_init out ticks m2 ta h2 l) else ?poll) k2 w)"
      "if sc' = RTEMS_SUCCESSFUL then ack \<noteq> NULL \<and> ack \<notin> live k1 \<and> live k2 = insert ack (live k1) \<and> ?poll(ack := None) = ?poll
       else ack = NULL \<and> live k2 = live k1"
      using poll_start_ok [OF heap ob1 nz(1) ticks] by blast
    have st: "stoppable live (sys_K sys) (sp_tid (shmem_poll_init inp ticks m1 tr h1 l))"
      "unused (sp_tid (shmem_poll_init inp ticks m1 tr h1 l)) (?poll(recv := None))"
      using stop rv(4) by (simp_all add: shmem_poll_init_def)
    obtain k3 where d: "shmem_poll_task_destroy sys yield fuel recv (with_shm obj ?poll k2 w) =
        Inr (RTEMS_SUCCESSFUL, with_shm obj (?poll(recv := None)) k3 w)" "live k3 = live k2 - {recv}"
      using poll_destroy_ok [where poll = "?poll" and obj = obj and k = k2 and w = w, OF heap ends st rv(1)] by auto
    show ?thesis
    proof (cases "sc' = RTEMS_SUCCESSFUL")
      case ok: True
      with r(1) a True rv show ?thesis
        by (intro exI [of _ sc] exI [of _ recv] exI [of _ k1]) (simp, auto)
    next
      case no: False
      have "with_shm obj (?poll(recv := None)) k3 w = with_shm obj poll k3 w" "live k3 = live k"
        using rv d(2) a(2) no by auto
      with r(1) a(1) d(1) True no show ?thesis
        by (intro exI [of _ sc] exI [of _ recv] exI [of _ k1]) (simp, blast)
    qed
  qed
qed

lemma close_both_ok:
  assumes heap: "heap_laws (sys_K sys) live" and nz: "out \<noteq> NULL" "inp \<noteq> NULL"
    and upd: "obj(out := None) = obj" "(obj(out \<mapsto> ao))(inp := None) = obj(out \<mapsto> ao)"
  shows "\<exists>k1 k2. close_shm sys inp (with_shm (obj(out \<mapsto> ao, inp \<mapsto> ai)) poll k w) =
      Inr (with_shm (obj(out \<mapsto> ao)) poll k1 w) \<and>
    close_shm sys out (with_shm (obj(out \<mapsto> ao)) poll k1 w) = Inr (with_shm obj poll k2 w) \<and> live k2 = live k - {out, inp}"
proof -
  have e: "(obj(out \<mapsto> ao, inp \<mapsto> ai))(inp := None) = obj(out \<mapsto> ao)" "(obj(out \<mapsto> ao))(out := None) = obj"
    using upd by (simp_all only: fun_upd_upd)
  obtain k1 where k1: "close_shm sys inp (with_shm (obj(out \<mapsto> ao, inp \<mapsto> ai)) poll k w) =
      Inr (with_shm (obj(out \<mapsto> ao)) poll k1 w)" "live k1 = live k - {inp}"
    using close_shm_ok [OF heap nz(2), of "obj(out \<mapsto> ao, inp \<mapsto> ai)" poll k w] unfolding e by blast
  obtain k2 where k2: "close_shm sys out (with_shm (obj(out \<mapsto> ao)) poll k1 w) = Inr (with_shm obj poll k2 w)"
    "live k2 = live k1 - {out}"
    using close_shm_ok [OF heap nz(1), of "obj(out \<mapsto> ao)" poll k1 w] unfolding e by blast
  have "live k2 = live k - {out, inp}" using k1(2) k2(2) by blast
  with k1(1) k2(1) show ?thesis by blast
qed

lemma init_after_open:
  assumes heap: "heap_laws (sys_K sys) live" and ends: "polls_end live sys yield fuel" and ticks: "ticks \<noteq> 0"
    and stop: "stoppable live (sys_K sys) tr" "unused tr poll" and ob: "dom poll \<subseteq> live k"
    and opened: "open_shm sys ao (with_shm obj poll k w) = Inr (out, with_shm (obj(out \<mapsto> ao)) poll k1 w)"
      "open_shm sys ai (with_shm (obj(out \<mapsto> ao)) poll k1 w) = Inr (inp, with_shm (obj(out \<mapsto> ao, inp \<mapsto> ai)) poll k2 w)"
    and nz: "out \<noteq> NULL" "inp \<noteq> NULL"
    and upd: "obj(out := None) = obj" "(obj(out \<mapsto> ao))(inp := None) = obj(out \<mapsto> ao)"
    and live2: "out \<notin> live k" "inp \<notin> live k" "out \<noteq> inp" "live k2 = {out, inp} \<union> live k"
  shows "\<exists>rc sl obj' poll' k'. link_shmem_init sys yield fuel l ao ai is_server ticks tr ta (with_shm obj poll k w) =
      Inr (rc, sl, with_shm obj' poll' k' w) \<and>
    (if rc \<noteq> 0 then obj' = obj \<and> poll' = poll \<and> live k' = live k
     else slink_objects live sl ao ai (recv_poll_of sl is_server ticks tr l) (ack_poll_of sl ticks ta l) obj poll k obj' poll' k')"
    (is "\<exists>rc sl obj' poll' k'. ?init = _ \<and> ?out rc sl obj' poll' k'")
proof -
  let ?obj = "obj(out \<mapsto> ao, inp \<mapsto> ai)"
  have fail: ?thesis if "?init = Inr (-1, sl, with_shm obj poll k' w)" "live k' = live k" for sl k'
    by (intro exI [of _ "-1"] exI [of _ sl] exI [of _ obj] exI [of _ poll] exI [of _ k'] conjI that(1)) (simp add: that(2))
  note undo = close_both_ok [OF heap nz upd]
  have ob2: "dom poll \<subseteq> live k2" using ob live2(4) by auto
  let ?rcv = "if is_server then Link_recv_cmd else Link_recv_reply"
  let ?pr = "shmem_poll_init inp ticks HPSC_SHMEM_STATUS_BIT_NEW tr ?rcv l"
  let ?pa = "shmem_poll_init out ticks HPSC_SHMEM_STATUS_BIT_ACK ta Link_shmem_ack l"
  obtain sc recv k3 where r: "shmem_poll_task_start sys inp ticks HPSC_SHMEM_STATUS_BIT_NEW tr ?rcv l (with_shm ?obj poll k2 w) =
      Inr (sc, recv, with_shm ?obj (if sc = RTEMS_SUCCESSFUL then poll(recv \<mapsto> ?pr) else poll) k3 w)"
    and rs: "if sc \<noteq> RTEMS_SUCCESSFUL then live k3 = live k2
     else \<exists>sc' ack k4. shmem_poll_task_start sys out ticks HPSC_SHMEM_STATUS_BIT_ACK ta Link_shmem_ack l
         (with_shm ?obj (poll(recv \<mapsto> ?pr)) k3 w) = Inr (sc', ack,
           with_shm ?obj (if sc' = RTEMS_SUCCESSFUL then poll(recv \<mapsto> ?pr, ack \<mapsto> ?pa) else poll(recv \<mapsto> ?pr)) k4 w) \<and>
       (if sc' \<noteq> RTEMS_SUCCESSFUL
        then \<exists>k5. shmem_poll_task_destroy sys yield fuel recv (with_shm ?obj (poll(recv \<mapsto> ?pr)) k4 w) =
            Inr (RTEMS_SUCCESSFUL, with_shm ?obj poll k5 w) \<and> live k5 = live k2
        else distinct [NULL, recv, ack] \<and> {recv, ack} \<inter> live k2 = {} \<and> live k4 = {recv, ack} \<union> live k2)"
    using start_polls_ok [OF heap ends ticks stop nz ob2, where l = l and obj = ?obj and w = w and ta = ta
        and ?h1.0 = ?rcv and ?h2.0 = Link_shmem_ack and ?m1.0 = HPSC_SHMEM_STATUS_BIT_NEW
        and ?m2.0 = HPSC_SHMEM_STATUS_BIT_ACK] by blast
  show ?thesis
  proof (cases "sc = RTEMS_SUCCESSFUL")
    case False
    obtain k4 k5 where u: "close_shm sys inp (with_shm ?obj poll k3 w) = Inr (with_shm (obj(out \<mapsto> ao)) poll k4 w)"
      "close_shm sys out (with_shm (obj(out \<mapsto> ao)) poll k4 w) = Inr (with_shm obj poll k5 w)" "live k5 = live k3 - {out, inp}"
      using undo by blast
    show ?thesis
      by (rule fail [of "\<lparr>shmem_out = NULL, shmem_in = NULL, sp_recv = NULL, sp_ack = NULL\<rparr>" k5])
        (use opened nz r u rs False live2 in \<open>auto simp: link_shmem_init_def Let_def\<close>)
  next
    case True
    with rs obtain sc' ack k4 where a: "shmem_poll_task_start sys out ticks HPSC_SHMEM_STATUS_BIT_ACK ta Link_shmem_ack l
         (with_shm ?obj (poll(recv \<mapsto> ?pr)) k3 w) = Inr (sc', ack,
           with_shm ?obj (if sc' = RTEMS_SUCCESSFUL then poll(recv \<mapsto> ?pr, ack \<mapsto> ?pa) else poll(recv \<mapsto> ?pr)) k4 w)"
      and as: "if sc' \<noteq> RTEMS_SUCCESSFUL
        then \<exists>k5. shmem_poll_task_destroy sys yield fuel recv (with_shm ?obj (poll(recv \<mapsto> ?pr)) k4 w) =
            Inr (RTEMS_SUCCESSFUL, with_shm ?obj poll k5 w) \<and> live k5 = live k2
        else distinct [NULL, recv, ack] \<and> {recv, ack} \<inter> live k2 = {} \<and> live k4 = {recv, ack} \<union> live k2"
      by (simp only: simp_thms if_False if_True) blast
    show ?thesis
    proof (cases "sc' = RTEMS_SUCCESSFUL")
      case no: False
      then obtain k5 where d: "shmem_poll_task_destroy sys yield fuel recv (with_shm ?obj (poll(recv \<mapsto> ?pr)) k4 w) =
          Inr (RTEMS_SUCCESSFUL, with_shm ?obj poll k5 w)" "live k5 = live k2"
        using as by (simp only: simp_thms if_True) blast
      obtain k6 k7 where u: "close_shm sys inp (with_shm ?obj poll k5 w) = Inr (with_shm (obj(out \<mapsto> ao)) poll k6 w)"
        "close_shm sys out (with_shm (obj(out \<mapsto> ao)) poll k6 w) = Inr (with_shm obj poll k7 w)" "live k7 = live k5 - {out, inp}"
        using undo by blast
      show ?thesis
        by (rule fail [of "\<lparr>shmem_out = NULL, shmem_in = NULL, sp_recv = NULL, sp_ack = NULL\<rparr>" k7])
          (use opened nz r a d u True no live2 in \<open>auto simp: link_shmem_init_def Let_def\<close>)
    next
      case ok: True
      let ?sl = "\<lparr>shmem_out = out, shmem_in = inp, sp_recv = recv, sp_ack = ack\<rparr>"
      have "?init = Inr (0, ?sl, with_shm ?obj (poll(recv \<mapsto> ?pr, ack \<mapsto> ?pa)) k4 w)"
        using opened nz r a True ok by (simp add: link_shmem_init_def Let_def)
      moreover have "slink_objects live ?sl ao ai (recv_poll_of ?sl is_server ticks tr l) (ack_poll_of ?sl ticks ta l) obj poll k
          ?obj (poll(recv \<mapsto> ?pr, ack \<mapsto> ?pa)) k4"
        using as ok live2 nz by (auto simp: slink_objects_def recv_poll_of_def ack_poll_of_def)
      ultimately show ?thesis
        by (intro exI [of _ 0] exI [of _ ?sl] exI conjI) (assumption, simp)
    qed
  qed
qed

lemma link_shmem_init_ok:
  assumes heap: "heap_laws (sys_K sys) live" and ends: "polls_end live sys yield fuel"
    and al: "IS_ALIGNED ao" "IS_ALIGNED ai" and ticks: "ticks \<noteq> 0" and stop: "stoppable live (sys_K sys) tr" "unused tr poll"
    and ob: "dom obj \<subseteq> live k" "dom poll \<subseteq> live k"
  shows "\<exists>rc sl obj' poll' k'. link_shmem_init sys yield fuel l ao ai is_server ticks tr ta (with_shm obj poll k w) =
      Inr (rc, sl, with_shm obj' poll' k' w) \<and>
    (if rc \<noteq> 0 then obj' = obj \<and> poll' = poll \<and> live k' = live k
     else slink_objects live sl ao ai (recv_poll_of sl is_server ticks tr l) (ack_poll_of sl ticks ta l) obj poll k obj' poll' k')"
    (is "\<exists>rc sl obj' poll' k'. ?init = _ \<and> ?out rc sl obj' poll' k'")
proof -
  have fail: ?thesis if "?init = Inr (-1, sl, with_shm obj poll k' w)" "live k' = live k" for sl k'
    by (intro exI [of _ "-1"] exI [of _ sl] exI [of _ obj] exI [of _ poll] exI [of _ k'] conjI that(1)) (simp add: that(2))
  obtain out k1 where o: "open_shm sys ao (with_shm obj poll k w) = Inr (out, with_shm (if out = NULL then obj else obj(out \<mapsto> ao)) poll k1 w)"
    "if out = NULL then live k1 = live k else out \<notin> live k \<and> live k1 = insert out (live k) \<and> obj(out := None) = obj"
    using open_shm_ok [OF heap al(1) ob(1)] by blast
  show ?thesis
  proof (cases "out = NULL")
    case True
    with o show ?thesis by (intro fail [of _ k1]) (simp_all add: link_shmem_init_def Let_def)
  next
    case out: False
    have ob1: "dom (obj(out \<mapsto> ao)) \<subseteq> live k1" using o(2) out ob(1) by auto
    obtain inp k2 where i: "open_shm sys ai (with_shm (obj(out \<mapsto> ao)) poll k1 w) =
        Inr (inp, with_shm (if inp = NULL then obj(out \<mapsto> ao) else obj(out \<mapsto> ao, inp \<mapsto> ai)) poll k2 w)"
      "if inp = NULL then live k2 = live k1 else inp \<notin> live k1 \<and> live k2 = insert inp (live k1) \<and>
         (obj(out \<mapsto> ao))(inp := None) = obj(out \<mapsto> ao)"
      using open_shm_ok [OF heap al(2) ob1] by blast
    obtain k3 where c: "close_shm sys out (with_shm (obj(out \<mapsto> ao)) poll k2 w) = Inr (with_shm obj poll k3 w)" "live k3 = live k2 - {out}"
      using close_shm_ok [OF heap out, of "obj(out \<mapsto> ao)" poll k2 w] o(2) out by auto
    show ?thesis
    proof (cases "inp = NULL")
      case True
      with o i c out show ?thesis by (intro fail [of _ k3]) (simp_all add: link_shmem_init_def Let_def)
    next
      case inp: False
      let ?obj = "obj(out \<mapsto> ao, inp \<mapsto> ai)"
      have live2: "out \<notin> live k" "inp \<notin> live k" "out \<noteq> inp" "live k2 = {out, inp} \<union> live k"
        using o(2) i(2) out inp by auto
      have upd: "obj(out := None) = obj" "(obj(out \<mapsto> ao))(inp := None) = obj(out \<mapsto> ao)" using o(2) i(2) out inp by simp_all
      note undo = close_both_ok [OF heap out inp upd]
      have opened: "open_shm sys ao (with_shm obj poll k w) = Inr (out, with_shm (obj(out \<mapsto> ao)) poll k1 w)"
        "open_shm sys ai (with_shm (obj(out \<mapsto> ao)) poll k1 w) = Inr (inp, with_shm ?obj poll k2 w)"
        using o(1) i(1) out inp by simp_all
      show ?thesis
        by (rule init_after_open [OF heap ends ticks stop ob(2) opened out inp upd live2])
    qed
  qed
qed

subsection \<open>Connecting and closing\<close>

definition slinks_restored :: "('k \<Rightarrow> ptr set) \<Rightarrow> 'k world \<Rightarrow> 'k world \<Rightarrow> bool" where
  "slinks_restored live w w' \<longleftrightarrow> w_link w' = w_link w \<and> w_slink w' = w_slink w \<and> w_poll w' = w_poll w \<and>
     w_shm w' = w_shm w \<and> live (w_ker w') = live (w_ker w)"

text \<open>What a connected shared memory link looks like.\<close>

definition slink_made ::
  "('k \<Rightarrow> ptr set) \<Rightarrow> ptr \<Rightarrow> ptr \<Rightarrow> bool \<Rightarrow> rtems_interval \<Rightarrow> rtems_id \<Rightarrow> rtems_id \<Rightarrow> ptr \<Rightarrow> 'k world \<Rightarrow> 'k world \<Rightarrow> bool" where
  "slink_made live ao ai is_server ticks tr ta l w w' \<longleftrightarrow> slink_up l w' \<and> l \<notin> live (w_ker w) \<and>
     (\<exists>lk sl. w_link w' = (w_link w)(l \<mapsto> lk) \<and> tid_requester (l_rctx lk) = RTEMS_ID_NONE \<and>
        w_slink w' = (w_slink w)(l_priv lk \<mapsto> sl) \<and>
        sh_obj (w_shm w') = (sh_obj (w_shm w))(shmem_out sl \<mapsto> ao, shmem_in sl \<mapsto> ai) \<and>
        sh_mem (w_shm w') = sh_mem (w_shm w) \<and>
        w_poll w' = (w_poll w)(sp_recv sl \<mapsto> recv_poll_of sl is_server ticks tr l, sp_ack sl \<mapsto> ack_poll_of sl ticks ta l) \<and>
        live (w_ker w') = {l, l_priv lk, shmem_out sl, shmem_in sl, sp_recv sl, sp_ack sl} \<union> live (w_ker w))"

lemma slink_objects_live:
  "slink_objects live sl ao ai pr pa obj poll k obj' poll' k' \<Longrightarrow>
   live k' = {shmem_out sl, shmem_in sl, sp_recv sl, sp_ack sl} \<union> live k"
  by (simp add: slink_objects_def)

lemma close_objects_ok:
  assumes heap: "heap_laws (sys_K sys) live" and ends: "polls_end live sys yield fuel"
    and stop: "stoppable live (sys_K sys) (sp_tid pr)" "stoppable live (sys_K sys) (sp_tid pa)"
    and un: "unused (sp_tid pr) poll" "unused (sp_tid pa) poll" "sp_tid pr \<noteq> sp_tid pa"
    and ob: "dom obj \<subseteq> live k" "dom poll \<subseteq> live k" and so: "slink_objects live sl ao ai pr pa obj poll k obj' poll' k'"
  shows "\<exists>k1 k2 k3 k4. shmem_poll_task_destroy sys yield fuel (sp_ack sl) (with_shm obj' poll' k' w) =
      Inr (RTEMS_SUCCESSFUL, with_shm obj' (poll(sp_recv sl \<mapsto> pr)) k1 w) \<and>
    shmem_poll_task_destroy sys yield fuel (sp_recv sl) (with_shm obj' (poll(sp_recv sl \<mapsto> pr)) k1 w) =
      Inr (RTEMS_SUCCESSFUL, with_shm obj' poll k2 w) \<and>
    close_shm sys (shmem_out sl) (with_shm obj' poll k2 w) = Inr (with_shm (obj(shmem_in sl \<mapsto> ai)) poll k3 w) \<and>
    close_shm sys (shmem_in sl) (with_shm (obj(shmem_in sl \<mapsto> ai)) poll k3 w) = Inr (with_shm obj poll k4 w) \<and>
    live k4 = live k"
proof -
  let ?o = "shmem_out sl" and ?i = "shmem_in sl" and ?r = "sp_recv sl" and ?a = "sp_ack sl"
  have nz: "?o \<noteq> NULL" "?i \<noteq> NULL" "?r \<noteq> NULL" "?a \<noteq> NULL" "?r \<noteq> ?a" "?o \<noteq> ?i"
    and new: "?o \<notin> live k" "?i \<notin> live k" "?r \<notin> live k" "?a \<notin> live k"
    and k': "live k' = {?o, ?i, ?r, ?a} \<union> live k"
    and obj': "obj' = obj(?o \<mapsto> ao, ?i \<mapsto> ai)" and poll': "poll' = poll(?r \<mapsto> pr, ?a \<mapsto> pa)"
    using so by (auto simp: slink_objects_def)
  have e: "poll'(?a := None) = poll(?r \<mapsto> pr)" "(poll(?r \<mapsto> pr))(?r := None) = poll" "obj'(?o := None) = obj(?i \<mapsto> ai)"
    "(obj(?i \<mapsto> ai))(?i := None) = obj"
    using none_upd [OF ob(1) new(1)] none_upd [OF ob(1) new(2)] none_upd [OF ob(2) new(3)] none_upd [OF ob(2) new(4)] nz
    by (simp_all add: obj' poll' fun_upd_twist)
  have u: "unused (sp_tid pa) (poll'(?a := None))" "unused (sp_tid pr) ((poll(?r \<mapsto> pr))(?r := None))"
    unfolding e using un by (auto simp: unused_def)
  have at: "poll' ?a = Some pa" "(poll(?r \<mapsto> pr)) ?r = Some pr" by (simp_all add: poll')
  obtain k1 where d1: "shmem_poll_task_destroy sys yield fuel ?a (with_shm obj' poll' k' w) =
      Inr (RTEMS_SUCCESSFUL, with_shm obj' (poll(?r \<mapsto> pr)) k1 w)" "live k1 = live k' - {?a}"
    using poll_destroy_ok [where poll = poll', OF heap ends stop(2) u(1) nz(4) at(1), of obj' k' w] unfolding e by blast
  obtain k2 where d2: "shmem_poll_task_destroy sys yield fuel ?r (with_shm obj' (poll(?r \<mapsto> pr)) k1 w) =
      Inr (RTEMS_SUCCESSFUL, with_shm obj' poll k2 w)" "live k2 = live k1 - {?r}"
    using poll_destroy_ok [where poll = "poll(?r \<mapsto> pr)", OF heap ends stop(1) u(2) nz(3) at(2), of obj' k1 w] unfolding e by blast
  obtain k3 where c1: "close_shm sys ?o (with_shm obj' poll k2 w) = Inr (with_shm (obj(?i \<mapsto> ai)) poll k3 w)" "live k3 = live k2 - {?o}"
    using close_shm_ok [OF heap nz(1), of obj' poll k2 w] unfolding e by blast
  obtain k4 where c2: "close_shm sys ?i (with_shm (obj(?i \<mapsto> ai)) poll k3 w) = Inr (with_shm obj poll k4 w)" "live k4 = live k3 - {?i}"
    using close_shm_ok [OF heap nz(2), of "obj(?i \<mapsto> ai)" poll k3 w] unfolding e by blast
  have "live k4 = live k" using d1(2) d2(2) c1(2) c2(2) k' new by auto
  with d1(1) d2(1) c1(1) c2(1) show ?thesis by blast
qed

lemma made_slink:
  assumes so: "slink_objects live sl ao ai (recv_poll_of sl srv ticks tr l) (ack_poll_of sl ticks ta l)
      (sh_obj (w_shm w)) (w_poll w) k obj' poll' k'"
    and k: "live k = {l, p} \<union> live (w_ker w)" "l \<notin> live (w_ker w)"
    and lk: "l_priv lk = p" "l_write lk = Link_shmem_write" "l_read lk = Link_shmem_read" "tid_requester (l_rctx lk) = RTEMS_ID_NONE"
    and reg: "ao \<noteq> ai" "length (shm_data (sh_mem (w_shm w) ao)) = 64" "length (shm_data (sh_mem (w_shm w) ai)) = 64"
  shows "slink_made live ao ai srv ticks tr ta l w
    ((with_shm obj' poll' k' (w\<lparr>w_link := (w_link w)(l \<mapsto> lk)\<rparr>))\<lparr>w_slink := (w_slink w)(p \<mapsto> sl)\<rparr>)"
    (is "slink_made _ _ _ _ _ _ _ _ _ ?w")
proof -
  have d: "shmem_out sl \<noteq> NULL" "shmem_in sl \<noteq> NULL" "shmem_out sl \<noteq> shmem_in sl"
    and o: "obj' = (sh_obj (w_shm w))(shmem_out sl \<mapsto> ao, shmem_in sl \<mapsto> ai)"
    and q: "poll' = (w_poll w)(sp_recv sl \<mapsto> recv_poll_of sl srv ticks tr l, sp_ack sl \<mapsto> ack_poll_of sl ticks ta l)"
    using so by (auto simp: slink_objects_def)
  have "slink_up l ?w"
    using d lk reg by (simp add: slink_up_def with_shm_def o)
  moreover have "live (w_ker ?w) = {l, p, shmem_out sl, shmem_in sl, sp_recv sl, sp_ack sl} \<union> live (w_ker w)"
    using slink_objects_live [OF so] k(1) by (auto simp: with_shm_def)
  ultimately show ?thesis
    unfolding slink_made_def using k(2) lk
    by (intro conjI exI [of _ lk] exI [of _ sl]) (simp_all add: with_shm_def o q)
qed

lemma close_slink:
  assumes heap: "heap_laws (sys_K sys) live" and ends: "polls_end live sys yield fuel"
    and stop: "stoppable live (sys_K sys) (sp_tid pr)" "stoppable live (sys_K sys) (sp_tid pa)"
    and un: "unused (sp_tid pr) (w_poll w)" "unused (sp_tid pa) (w_poll w)" "sp_tid pr \<noteq> sp_tid pa"
    and ob: "dom (sh_obj (w_shm w)) \<subseteq> live k" "dom (w_poll w) \<subseteq> live k"
    and so: "slink_objects live sl ao ai pr pa (sh_obj (w_shm w)) (w_poll w) k obj' poll' k'"
    and lk: "l_priv lk = p" "l_close lk = Link_shmem_close" and upd: "(w_link w)(l := None) = w_link w" "(w_slink w)(p := None) = w_slink w"
    and free: "\<And>kk. live kk = live k \<Longrightarrow> live (rt_free (sys_K sys) l (rt_free (sys_K sys) p kk)) = live (w_ker w)"
  shows "\<exists>w''. link_disconnect sys yield fuel l
      ((with_shm obj' poll' k' (w\<lparr>w_link := (w_link w)(l \<mapsto> lk)\<rparr>))\<lparr>w_slink := (w_slink w)(p \<mapsto> sl)\<rparr>) = Inr (0, w'') \<and>
    slinks_restored live w w''"
proof -
  let ?B = "w\<lparr>w_link := (w_link w)(l \<mapsto> lk), w_slink := (w_slink w)(p \<mapsto> sl)\<rparr>"
  have e: "(with_shm obj' poll' k' (w\<lparr>w_link := (w_link w)(l \<mapsto> lk)\<rparr>))\<lparr>w_slink := (w_slink w)(p \<mapsto> sl)\<rparr> = with_shm obj' poll' k' ?B"
    by (simp add: with_shm_def)
  obtain k1 k2 k3 k4 where c:
    "shmem_poll_task_destroy sys yield fuel (sp_ack sl) (with_shm obj' poll' k' ?B) =
       Inr (RTEMS_SUCCESSFUL, with_shm obj' ((w_poll w)(sp_recv sl \<mapsto> pr)) k1 ?B)"
    "shmem_poll_task_destroy sys yield fuel (sp_recv sl) (with_shm obj' ((w_poll w)(sp_recv sl \<mapsto> pr)) k1 ?B) =
       Inr (RTEMS_SUCCESSFUL, with_shm obj' (w_poll w) k2 ?B)"
    "close_shm sys (shmem_out sl) (with_shm obj' (w_poll w) k2 ?B) = Inr (with_shm ((sh_obj (w_shm w))(shmem_in sl \<mapsto> ai)) (w_poll w) k3 ?B)"
    "close_shm sys (shmem_in sl) (with_shm ((sh_obj (w_shm w))(shmem_in sl \<mapsto> ai)) (w_poll w) k3 ?B) =
       Inr (with_shm (sh_obj (w_shm w)) (w_poll w) k4 ?B)"
    "live k4 = live k"
    using close_objects_ok [OF heap ends stop un ob so, of ?B] by blast
  let ?w = "free_link sys l (free_slink sys p (with_shm (sh_obj (w_shm w)) (w_poll w) k4 ?B))"
  have "link_disconnect sys yield fuel l (with_shm obj' poll' k' ?B) = Inr (0, ?w)"
    using lk c(1-4) by (simp add: link_disconnect_def link_shmem_close_def)
  moreover have "slinks_restored live w ?w"
    using upd free [OF c(5)] by (simp add: slinks_restored_def free_link_def free_slink_def w_free_def with_shm_def)
  ultimately show ?thesis unfolding e by blast
qed

text \<open>Once the link object and the object it wraps are allocated, the outcome rests on the initialisation alone.\<close>

lemma shmem_connect_with_objects:
  assumes heap: "heap_laws (sys_K sys) live" and live: "objects_live live w" and ends: "polls_end live sys yield fuel"
    and stop: "stoppable live (sys_K sys) tr" "stoppable live (sys_K sys) ta"
    and un: "unused tr (w_poll w)" "unused ta (w_poll w)" "tr \<noteq> ta" and ticks: "ticks \<noteq> 0"
    and al: "IS_ALIGNED ao" "IS_ALIGNED ai" "ao \<noteq> NULL" "ai \<noteq> NULL"
    and reg: "ao \<noteq> ai" "length (shm_data (sh_mem (w_shm w) ao)) = HPSC_MSG_SIZE"
      "length (shm_data (sh_mem (w_shm w) ai)) = HPSC_MSG_SIZE"
    and l: "rt_malloc (sys_K sys) (w_ker w) = (l, k1)" and p: "rt_malloc (sys_K sys) k1 = (p, k2)" and np: "l \<noteq> NULL" "p \<noteq> NULL"
  shows "\<exists>l w'. link_shmem_connect sys yield fuel raw name ao ai srv ticks tr ta w = Inr (l, w') \<and>
    (if l = NULL then slinks_restored live w w'
     else slink_made live ao ai srv ticks tr ta l w w' \<and>
       (\<exists>w''. link_disconnect sys yield fuel l w' = Inr (0, w'') \<and> slinks_restored live w w''))"
proof -
  let ?conn = "link_shmem_connect sys yield fuel raw name ao ai srv ticks tr ta w"
  have links: "links_live live w" using live by (simp add: objects_live_def)
  note obj = two_objects [OF heap links l np(1) p np(2)]
  let ?lk = "(link_init raw name p)\<lparr>l_write := Link_shmem_write, l_read := Link_shmem_read, l_close := Link_shmem_close\<rparr>"
  let ?B = "w\<lparr>w_link := (w_link w)(l \<mapsto> ?lk)\<rparr>"
  let ?o = "sh_obj (w_shm w)" and ?p = "w_poll w"
  have start: "w\<lparr>w_ker := k2, w_link := (w_link w)(l \<mapsto> ?lk)\<rparr> = with_shm ?o ?p k2 ?B"
    by (simp add: with_shm_def)
  have ob: "dom ?o \<subseteq> live k2" "dom ?p \<subseteq> live k2" using live obj(4) by (auto simp: objects_live_def)
  obtain rc sl obj' poll' k' where init: "link_shmem_init sys yield fuel l ao ai srv ticks tr ta (with_shm ?o ?p k2 ?B) =
      Inr (rc, sl, with_shm obj' poll' k' ?B)"
    and out: "if rc \<noteq> 0 then obj' = ?o \<and> poll' = ?p \<and> live k' = live k2
     else slink_objects live sl ao ai (recv_poll_of sl srv ticks tr l) (ack_poll_of sl ticks ta l) ?o ?p k2 obj' poll' k'"
    using link_shmem_init_ok [OF heap ends al(1,2) ticks stop(1) un(1) ob, of l srv ta ?B] by blast
  have free: "live (rt_free (sys_K sys) l (rt_free (sys_K sys) p kk)) = live (w_ker w)" if "live kk = live k2" for kk
    using that obj(8) by (simp add: heap_laws_frame(1) [OF heap])
  show ?thesis
  proof (cases "rc = 0")
    case False
    then have "?conn = Inr (NULL, free_link sys l (free_slink sys p (with_shm ?o ?p k' ?B)))"
      using np l p al start init out by (simp add: link_shmem_connect_def w_malloc_def Let_def)
    moreover have "slinks_restored live w (free_link sys l (free_slink sys p (with_shm ?o ?p k' ?B)))"
      using obj(5,7) free out False
      by (simp add: slinks_restored_def free_link_def free_slink_def w_free_def with_shm_def)
    ultimately show ?thesis by simp
  next
    case True
    let ?w = "(with_shm obj' poll' k' ?B)\<lparr>w_slink := (w_slink w)(p \<mapsto> sl)\<rparr>"
    have so: "slink_objects live sl ao ai (recv_poll_of sl srv ticks tr l) (ack_poll_of sl ticks ta l) ?o ?p k2 obj' poll' k'"
      using out True by simp
    have conn: "?conn = Inr (l, ?w)"
      using np l p al start init True by (simp add: link_shmem_connect_def w_malloc_def Let_def)
    have "slink_made live ao ai srv ticks tr ta l w ?w"
      by (rule made_slink [OF so]) (use obj reg in \<open>auto simp: link_init_def\<close>)
    moreover have "\<exists>w''. link_disconnect sys yield fuel l ?w = Inr (0, w'') \<and> slinks_restored live w w''"
      by (rule close_slink [OF heap ends _ _ _ _ _ ob so]) (use stop un obj(5,7) free in \<open>simp_all add: link_init_def\<close>)
    ultimately show ?thesis using conn np(1) by simp
  qed
qed


text \<open>
  A quiet node for the witness: the caller is task 1, every event reaches its task, and while
  the caller yields, the polling task that was sent its exit event leaves its loop.
\<close>

definition quiet_rtems :: "demo_kernel rtems" where
  "quiet_rtems = demo_rtems\<lparr>rt_task_self := (\<lambda>_. 1),
     rt_event_send := (\<lambda>t e k. (RTEMS_SUCCESSFUL, k\<lparr>dk_pend := (\<lambda>_. 0)(t := e)\<rparr>))\<rparr>"

definition quiet_sys :: "demo_kernel sys" where
  "quiet_sys = \<lparr>sys_K = quiet_rtems, sys_hw = demo_hw, sys_handled = (\<lambda>_ _ _. Inr)\<rparr>"

definition demo_quiet :: "demo_kernel world \<Rightarrow> demo_kernel world res" where
  "demo_quiet w = Inr (w\<lparr>w_poll := (\<lambda>sp. map_option
     (\<lambda>p. if dk_pend (w_ker w) (sp_tid p) = SHM_EVENT_EXIT then p\<lparr>sp_running := False\<rparr> else p) (w_poll w sp))\<rparr>)"

lemma quiet_laws: "heap_laws (sys_K quiet_sys) (\<lambda>k. set (dk_live k))"
  "t \<noteq> 1 \<Longrightarrow> stoppable (\<lambda>k. set (dk_live k)) (sys_K quiet_sys) t"
  using demo_heap_laws
  by (simp_all add: heap_laws_def stoppable_def quiet_sys_def quiet_rtems_def)

lemma quiet_polls_end: "polls_end (\<lambda>k. set (dk_live k)) quiet_sys demo_quiet 1"
  unfolding polls_end_def
proof (intro allI impI)
  fix sp p k and w :: "demo_kernel world"
  assume p: "w_poll w sp = Some p" and un: "unused (sp_tid p) ((w_poll w)(sp := None))"
    and k: "rt_event_send (sys_K quiet_sys) (sp_tid p) SHM_EVENT_EXIT (w_ker w) = (RTEMS_SUCCESSFUL, k)"
  have k': "k = (w_ker w)\<lparr>dk_pend := (\<lambda>_. 0)(sp_tid p := SHM_EVENT_EXIT)\<rparr>"
    using k by (simp add: quiet_sys_def quiet_rtems_def)
  let ?w = "w\<lparr>w_ker := k\<rparr>" and ?w' = "w\<lparr>w_poll := (w_poll w)(sp \<mapsto> p\<lparr>sp_running := False\<rparr>), w_ker := k\<rparr>"
  have q: "demo_quiet ?w = Inr ?w'"
  proof -
    have "map_option (\<lambda>p. if dk_pend k (sp_tid p) = SHM_EVENT_EXIT then p\<lparr>sp_running := False\<rparr> else p) (w_poll w sp') =
        ((w_poll w)(sp \<mapsto> p\<lparr>sp_running := False\<rparr>)) sp'" for sp'
    proof (cases "sp' = sp")
      case False
      then have "sp_tid q \<noteq> sp_tid p" if "w_poll w sp' = Some q" for q
        using un [unfolded unused_def, rule_format, of sp' q] that by simp
      with False show ?thesis by (cases "w_poll w sp'") (simp_all add: k' SHM_EVENT_EXIT_def)
    qed (simp add: p k')
    then show ?thesis by (simp add: demo_quiet_def fun_eq_iff)
  qed
  have "(w_poll w)(sp \<mapsto> p\<lparr>sp_running := False\<rparr>) = w_poll w" if "\<not> sp_running p"
    using p that by (intro fun_upd_idem) (cases p, simp)
  then have "wait_while (poll_running sp) demo_quiet 1 ?w = Inr ?w'"
    using p q by (cases "sp_running p") (simp_all add: poll_running_def)
  then show "\<exists>k'. wait_while (poll_running sp) demo_quiet 1 ?w =
      Inr (w\<lparr>w_poll := (w_poll w)(sp \<mapsto> p\<lparr>sp_running := False\<rparr>), w_ker := k'\<rparr>) \<and> set (dk_live k') = set (dk_live k)"
    by blast
qed

definition demo_bare_world :: "demo_kernel world" where
  "demo_bare_world = demo_block_world\<lparr>w_shm := (w_shm demo_world)\<lparr>sh_obj := Map.empty\<rparr>\<rparr>"

lemma demo_bare_simps [simp]:
  "w_ker demo_bare_world = demo_k0" "w_poll demo_bare_world = Map.empty" "w_link demo_bare_world = Map.empty"
  "w_mlink demo_bare_world = Map.empty" "w_slink demo_bare_world = Map.empty" "sh_obj (w_shm demo_bare_world) = Map.empty"
  "sh_mem (w_shm demo_bare_world) a = \<lparr>shm_data = replicate 64 0, shm_status = 0\<rparr>"
  by (simp_all add: demo_bare_world_def demo_block_world_def demo_world_def)


end
