(* ===== verification/Session.thy ===== *)
theory Session
  imports Link_Requests
begin

text \<open>
  The protocol of a shared memory link in one direction, statement by statement: the requesting
  task and the acknowledgement task on the sending side, the receiving task on the other.  A step
  is one call on the region in \<open>link_shmem_write\<close>, \<open>link_shmem_ack\<close> or \<open>link_shmem_read\<close>
  (\<open>lib/hpsc/link-shmem.c\<close>), or the end of the wait in \<open>_link_request_send\<close> (\<open>lib/hpsc/link.c\<close>);
  the three tasks run on different processors, so their steps interleave freely.
\<close>

subsection \<open>Model\<close>

text \<open>Where a task is: each constructor but the first names the call that has just been made.\<close>

datatype req_at = Req_idle | Req_written | Req_waiting
datatype ack_at = Ack_poll | Ack_notified
datatype rcv_at = Rcv_poll | Rcv_read "u8 list" | Rcv_cleared "u8 list"

text \<open>
  \<open>ss_sent\<close>, \<open>ss_acked\<close> and \<open>ss_done\<close> record what was written, what the requester was told is
  acknowledged, and what the receiver passed on.
\<close>

record session =
  ss_shm :: shm_st
  ss_req :: req_at
  ss_ack :: ack_at
  ss_rcv :: rcv_at
  ss_registered :: bool
  ss_tx_acked :: bool
  ss_event :: bool
  ss_sent :: "u8 list list"
  ss_acked :: "u8 list list"
  ss_done :: "u8 list list"

datatype session_step =
    Send "u8 list" | Set_new | Wake | Timeout
  | Notify | Clear_ack
  | Read | Clear_new | Set_ack

definition recv_buf :: cbuf where
  "recv_buf = \<lparr>buf_aligned = True, buf_bytes = replicate HPSC_MSG_SIZE 0\<rparr>"

text \<open>
  The effect of a step: \<open>None\<close> when the task is elsewhere or its condition does not hold.
  \<open>out\<close> and \<open>inp\<close> are the handles of the two sides on the region.
\<close>

fun session_exec :: "ptr \<Rightarrow> ptr \<Rightarrow> session_step \<Rightarrow> session \<Rightarrow> session res option" where
  "session_exec out inp (Send m) s =
     (if ss_req s = Req_idle \<and> length m \<le> HPSC_MSG_SIZE
      then Some (res_bind (shmem_write out (Some \<lparr>buf_aligned = True, buf_bytes = m\<rparr>) (length m) (ss_shm s)) (\<lambda>(_, st).
        Inr (s\<lparr>ss_shm := st, ss_req := Req_written, ss_registered := True, ss_tx_acked := False,
          ss_sent := ss_sent s @ [m @ replicate (HPSC_MSG_SIZE - length m) 0]\<rparr>)))
      else None)"
| "session_exec out inp Set_new s =
     (if ss_req s = Req_written
      then Some (res_bind (shmem_set_new out True (ss_shm s)) (\<lambda>st. Inr (s\<lparr>ss_shm := st, ss_req := Req_waiting\<rparr>)))
      else None)"
| "session_exec out inp Wake s =
     (if ss_req s = Req_waiting \<and> ss_event s
      then Some (c_assert (ss_tx_acked s)
        (Inr (s\<lparr>ss_req := Req_idle, ss_event := False, ss_registered := False, ss_acked := ss_acked s @ [last (ss_sent s)]\<rparr>)))
      else None)"
| "session_exec out inp Timeout s =
     (if ss_req s = Req_waiting \<and> \<not> ss_event s then Some (Inr (s\<lparr>ss_req := Req_idle, ss_registered := False\<rparr>)) else None)"
| "session_exec out inp Notify s =
     (if ss_ack s = Ack_poll
      then (case shmem_get_status out (ss_shm s) of Inl e \<Rightarrow> Some (Inl e)
        | Inr status \<Rightarrow> if status AND HPSC_SHMEM_STATUS_BIT_ACK \<noteq> 0
            then Some (Inr (s\<lparr>ss_ack := Ack_notified, ss_tx_acked := True, ss_event := (ss_event s \<or> ss_registered s)\<rparr>))
            else None)
      else None)"
| "session_exec out inp Clear_ack s =
     (if ss_ack s = Ack_notified
      then Some (res_bind (shmem_set_ack out False (ss_shm s)) (\<lambda>st. Inr (s\<lparr>ss_shm := st, ss_ack := Ack_poll\<rparr>)))
      else None)"
| "session_exec out inp Read s =
     (if ss_rcv s = Rcv_poll
      then (case shmem_get_status inp (ss_shm s) of Inl e \<Rightarrow> Some (Inl e)
        | Inr status \<Rightarrow> if status AND HPSC_SHMEM_STATUS_BIT_NEW \<noteq> 0
            then Some (res_bind (shmem_read inp (Some recv_buf) HPSC_MSG_SIZE (ss_shm s)) (\<lambda>(_, m). Inr (s\<lparr>ss_rcv := Rcv_read m\<rparr>)))
            else None)
      else None)"
| "session_exec out inp Clear_new s =
     (case ss_rcv s of
        Rcv_read m \<Rightarrow> Some (res_bind (shmem_set_new inp False (ss_shm s)) (\<lambda>st. Inr (s\<lparr>ss_shm := st, ss_rcv := Rcv_cleared m\<rparr>)))
      | _ \<Rightarrow> None)"
| "session_exec out inp Set_ack s =
     (case ss_rcv s of
        Rcv_cleared m \<Rightarrow> Some (res_bind (shmem_set_ack inp True (ss_shm s)) (\<lambda>st.
          Inr (s\<lparr>ss_shm := st, ss_rcv := Rcv_poll, ss_done := ss_done s @ [m]\<rparr>)))
      | _ \<Rightarrow> None)"

text \<open>The states that runs reach whose steps are all allowed by \<open>ok\<close>.\<close>

inductive session_reach :: "ptr \<Rightarrow> ptr \<Rightarrow> (session_step \<Rightarrow> session \<Rightarrow> bool) \<Rightarrow> session \<Rightarrow> session \<Rightarrow> bool"
  for out inp ok s0 where
  start: "session_reach out inp ok s0 s0"
| step: "session_reach out inp ok s0 s \<Longrightarrow> ok l s \<Longrightarrow> session_exec out inp l s = Some (Inr s') \<Longrightarrow> session_reach out inp ok s0 s'"

fun session_run :: "ptr \<Rightarrow> ptr \<Rightarrow> (session_step \<Rightarrow> session \<Rightarrow> bool) \<Rightarrow> session_step list \<Rightarrow> session \<Rightarrow> session option" where
  "session_run out inp ok [] s = Some s"
| "session_run out inp ok (l # ls) s =
     (if ok l s then case session_exec out inp l s of Some (Inr s') \<Rightarrow> session_run out inp ok ls s' | _ \<Rightarrow> None else None)"

lemma session_run_reach:
  "session_reach out inp ok s0 s \<Longrightarrow> session_run out inp ok ls s = Some s' \<Longrightarrow> session_reach out inp ok s0 s'"
  by (induction ls arbitrary: s) (auto split: option.splits sum.splits if_splits intro: session_reach.step)

text \<open>No wait times out; and, more strictly, no message is sent while the acknowledgement task has still to clear its flag.\<close>

fun no_timeout :: "session_step \<Rightarrow> session \<Rightarrow> bool" where
  "no_timeout Timeout s = False"
| "no_timeout _ s = True"

fun prompt_ack :: "session_step \<Rightarrow> session \<Rightarrow> bool" where
  "prompt_ack Timeout s = False"
| "prompt_ack (Send m) s \<longleftrightarrow> ss_ack s = Ack_poll"
| "prompt_ack _ s = True"

definition session_init :: "shm_st \<Rightarrow> session" where
  "session_init st = \<lparr>ss_shm = st, ss_req = Req_idle, ss_ack = Ack_poll, ss_rcv = Rcv_poll, ss_registered = False,
     ss_tx_acked = False, ss_event = False, ss_sent = [], ss_acked = [], ss_done = []\<rparr>"

subsection \<open>The invariant\<close>

definition new_bit :: "ptr \<Rightarrow> session \<Rightarrow> bool" where
  "new_bit a s \<longleftrightarrow> shm_status (sh_mem (ss_shm s) a) AND HPSC_SHMEM_STATUS_BIT_NEW \<noteq> 0"

definition ack_bit :: "ptr \<Rightarrow> session \<Rightarrow> bool" where
  "ack_bit a s \<longleftrightarrow> shm_status (sh_mem (ss_shm s) a) AND HPSC_SHMEM_STATUS_BIT_ACK \<noteq> 0"

definition slot_data :: "ptr \<Rightarrow> session \<Rightarrow> u8 list" where
  "slot_data a s = shm_data (sh_mem (ss_shm s) a)"

definition session_handles :: "ptr \<Rightarrow> ptr \<Rightarrow> ptr \<Rightarrow> session \<Rightarrow> bool" where
  "session_handles out inp a s \<longleftrightarrow> out \<noteq> NULL \<and> inp \<noteq> NULL \<and> sh_obj (ss_shm s) out = Some a \<and> sh_obj (ss_shm s) inp = Some a \<and>
     length (slot_data a s) = 64"

lemma status_bits:
  fixes v :: u32
  shows "(v OR HPSC_SHMEM_STATUS_BIT_NEW) AND HPSC_SHMEM_STATUS_BIT_NEW \<noteq> 0"
    and "((v OR HPSC_SHMEM_STATUS_BIT_NEW) AND HPSC_SHMEM_STATUS_BIT_ACK \<noteq> 0) = (v AND HPSC_SHMEM_STATUS_BIT_ACK \<noteq> 0)"
    and "(v AND NOT HPSC_SHMEM_STATUS_BIT_NEW) AND HPSC_SHMEM_STATUS_BIT_NEW = 0"
    and "((v AND NOT HPSC_SHMEM_STATUS_BIT_NEW) AND HPSC_SHMEM_STATUS_BIT_ACK \<noteq> 0) = (v AND HPSC_SHMEM_STATUS_BIT_ACK \<noteq> 0)"
    and "(v OR HPSC_SHMEM_STATUS_BIT_ACK) AND HPSC_SHMEM_STATUS_BIT_ACK \<noteq> 0"
    and "((v OR HPSC_SHMEM_STATUS_BIT_ACK) AND HPSC_SHMEM_STATUS_BIT_NEW \<noteq> 0) = (v AND HPSC_SHMEM_STATUS_BIT_NEW \<noteq> 0)"
    and "(v AND NOT HPSC_SHMEM_STATUS_BIT_ACK) AND HPSC_SHMEM_STATUS_BIT_ACK = 0"
    and "((v AND NOT HPSC_SHMEM_STATUS_BIT_ACK) AND HPSC_SHMEM_STATUS_BIT_NEW \<noteq> 0) = (v AND HPSC_SHMEM_STATUS_BIT_NEW \<noteq> 0)"
proof -
  have one: "w AND 1 \<noteq> 0 \<longleftrightarrow> bit w 0" and two: "w AND 2 \<noteq> 0 \<longleftrightarrow> bit w 1" for w :: u32
    by (simp_all add: bit_iff_and_push_bit_not_eq_0)
  have b1: "bit (1 :: u32) i \<longleftrightarrow> i = 0" and b2: "bit (2 :: u32) i \<longleftrightarrow> i = 1" for i
    by (auto simp: bit_1_iff bit_2_iff)
  note bits = shmem_bits one [simplified] two [simplified] bit_simps b1 b2
  have z1: "w AND 1 = 0 \<longleftrightarrow> \<not> bit w 0" and z2: "w AND 2 = 0 \<longleftrightarrow> \<not> bit w 1" for w :: u32
    using one [of w] two [of w] by auto
  show "(v OR HPSC_SHMEM_STATUS_BIT_NEW) AND HPSC_SHMEM_STATUS_BIT_NEW \<noteq> 0"
    "((v OR HPSC_SHMEM_STATUS_BIT_NEW) AND HPSC_SHMEM_STATUS_BIT_ACK \<noteq> 0) = (v AND HPSC_SHMEM_STATUS_BIT_ACK \<noteq> 0)"
    "(v AND NOT HPSC_SHMEM_STATUS_BIT_NEW) AND HPSC_SHMEM_STATUS_BIT_NEW = 0"
    "((v AND NOT HPSC_SHMEM_STATUS_BIT_NEW) AND HPSC_SHMEM_STATUS_BIT_ACK \<noteq> 0) = (v AND HPSC_SHMEM_STATUS_BIT_ACK \<noteq> 0)"
    "(v OR HPSC_SHMEM_STATUS_BIT_ACK) AND HPSC_SHMEM_STATUS_BIT_ACK \<noteq> 0"
    "((v OR HPSC_SHMEM_STATUS_BIT_ACK) AND HPSC_SHMEM_STATUS_BIT_NEW \<noteq> 0) = (v AND HPSC_SHMEM_STATUS_BIT_NEW \<noteq> 0)"
    "(v AND NOT HPSC_SHMEM_STATUS_BIT_ACK) AND HPSC_SHMEM_STATUS_BIT_ACK = 0"
    "((v AND NOT HPSC_SHMEM_STATUS_BIT_ACK) AND HPSC_SHMEM_STATUS_BIT_NEW \<noteq> 0) = (v AND HPSC_SHMEM_STATUS_BIT_NEW \<noteq> 0)"
    by (simp_all only: shmem_bits one two z1 z2) (simp_all add: bit_simps b1 b2)
qed

lemma status_bits_nonzero [simp]: "HPSC_SHMEM_STATUS_BIT_NEW \<noteq> 0" "HPSC_SHMEM_STATUS_BIT_ACK \<noteq> 0"
  by (simp_all add: shmem_bits)

text \<open>What the calls of the steps do to the region, through either handle.\<close>

lemma region_calls:
  assumes "h \<noteq> NULL" and "sh_obj (ss_shm s) h = Some a"
  shows "\<exists>st. shmem_set_new h val (ss_shm s) = Inr st \<and> sh_obj st = sh_obj (ss_shm s) \<and> shm_data (sh_mem st a) = slot_data a s \<and>
      (shm_status (sh_mem st a) AND HPSC_SHMEM_STATUS_BIT_NEW \<noteq> 0) = val \<and>
      (shm_status (sh_mem st a) AND HPSC_SHMEM_STATUS_BIT_ACK \<noteq> 0) = ack_bit a s"
    and "\<exists>st. shmem_set_ack h val (ss_shm s) = Inr st \<and> sh_obj st = sh_obj (ss_shm s) \<and> shm_data (sh_mem st a) = slot_data a s \<and>
      (shm_status (sh_mem st a) AND HPSC_SHMEM_STATUS_BIT_NEW \<noteq> 0) = new_bit a s \<and>
      (shm_status (sh_mem st a) AND HPSC_SHMEM_STATUS_BIT_ACK \<noteq> 0) = val"
    and "shmem_get_status h (ss_shm s) = Inr (shm_status (sh_mem (ss_shm s) a))"
    and "length (slot_data a s) = 64 \<Longrightarrow> shmem_read h (Some recv_buf) HPSC_MSG_SIZE (ss_shm s) = Inr (64, slot_data a s)"
    and "length (slot_data a s) = 64 \<Longrightarrow> length m \<le> 64 \<Longrightarrow>
      \<exists>st. shmem_write h (Some \<lparr>buf_aligned = True, buf_bytes = m\<rparr>) (length m) (ss_shm s) = Inr (length m, st) \<and>
        sh_obj st = sh_obj (ss_shm s) \<and> shm_data (sh_mem st a) = m @ replicate (64 - length m) 0 \<and>
        shm_status (sh_mem st a) = shm_status (sh_mem (ss_shm s) a)"
proof -
  show "\<exists>st. shmem_set_new h val (ss_shm s) = Inr st \<and> sh_obj st = sh_obj (ss_shm s) \<and> shm_data (sh_mem st a) = slot_data a s \<and>
      (shm_status (sh_mem st a) AND HPSC_SHMEM_STATUS_BIT_NEW \<noteq> 0) = val \<and>
      (shm_status (sh_mem st a) AND HPSC_SHMEM_STATUS_BIT_ACK \<noteq> 0) = ack_bit a s"
    using assms by (cases val) (simp_all add: shmem_set_new_def slot_data_def ack_bit_def status_bits(1,3) status_bits(2,4) [simplified])
  show "\<exists>st. shmem_set_ack h val (ss_shm s) = Inr st \<and> sh_obj st = sh_obj (ss_shm s) \<and> shm_data (sh_mem st a) = slot_data a s \<and>
      (shm_status (sh_mem st a) AND HPSC_SHMEM_STATUS_BIT_NEW \<noteq> 0) = new_bit a s \<and>
      (shm_status (sh_mem st a) AND HPSC_SHMEM_STATUS_BIT_ACK \<noteq> 0) = val"
    using assms by (cases val) (simp_all add: shmem_set_ack_def slot_data_def new_bit_def status_bits(5,7) status_bits(6,8) [simplified])
  show "shmem_get_status h (ss_shm s) = Inr (shm_status (sh_mem (ss_shm s) a))"
    using assms by (simp add: shmem_get_status_def)
  show "length (slot_data a s) = 64 \<Longrightarrow> shmem_read h (Some recv_buf) HPSC_MSG_SIZE (ss_shm s) = Inr (64, slot_data a s)"
    using assms by (simp add: slot_data_def shmem_read_eq recv_buf_def)
  show "length (slot_data a s) = 64 \<Longrightarrow> length m \<le> 64 \<Longrightarrow>
      \<exists>st. shmem_write h (Some \<lparr>buf_aligned = True, buf_bytes = m\<rparr>) (length m) (ss_shm s) = Inr (length m, st) \<and>
        sh_obj st = sh_obj (ss_shm s) \<and> shm_data (sh_mem st a) = m @ replicate (64 - length m) 0 \<and>
        shm_status (sh_mem st a) = shm_status (sh_mem (ss_shm s) a)"
    using assms by (simp add: slot_data_def shmem_write_eq)
qed

definition session_inv :: "ptr \<Rightarrow> ptr \<Rightarrow> ptr \<Rightarrow> session \<Rightarrow> bool" where
  "session_inv out inp a s \<longleftrightarrow> session_handles out inp a s \<and> ss_registered s = (ss_req s \<noteq> Req_idle) \<and>
     (ss_event s \<longrightarrow> ss_req s = Req_waiting \<and> ss_tx_acked s \<and> ss_rcv s = Rcv_poll \<and> \<not> new_bit a s \<and> ss_done s = ss_sent s) \<and>
     (ack_bit a s \<and> ss_ack s = Ack_poll \<longrightarrow>
        ss_req s = Req_waiting \<and> \<not> ss_event s \<and> ss_rcv s = Rcv_poll \<and> \<not> new_bit a s \<and> ss_done s = ss_sent s) \<and>
     (case ss_req s of
        Req_idle \<Rightarrow> \<not> new_bit a s \<and> ss_rcv s = Rcv_poll \<and> ss_done s = ss_sent s \<and> ss_acked s = ss_sent s
      | Req_written \<Rightarrow> \<not> new_bit a s \<and> ss_rcv s = Rcv_poll \<and>
          (\<exists>ms. ss_sent s = ms @ [slot_data a s] \<and> ss_done s = ms \<and> ss_acked s = ms)
      | Req_waiting \<Rightarrow> (\<exists>ms m. ss_sent s = ms @ [m] \<and> ss_acked s = ms \<and>
          (new_bit a s \<and> slot_data a s = m \<and> ss_done s = ms \<and> ss_rcv s \<in> {Rcv_poll, Rcv_read m} \<or>
           \<not> new_bit a s \<and> ss_rcv s = Rcv_cleared m \<and> ss_done s = ms \<or>
           \<not> new_bit a s \<and> ss_rcv s = Rcv_poll \<and> ss_done s = ms @ [m])))"

lemma session_exec_inv:
  assumes inv: "session_inv out inp a s" and ok: "no_timeout l s" and ex: "session_exec out inp l s = Some r"
  shows "\<exists>s'. r = Inr s' \<and> session_inv out inp a s'"
proof -
  have h: "out \<noteq> NULL" "inp \<noteq> NULL" "sh_obj (ss_shm s) out = Some a" "sh_obj (ss_shm s) inp = Some a" "length (slot_data a s) = 64"
    using inv by (simp_all add: session_inv_def session_handles_def)
  note defs = session_inv_def session_handles_def new_bit_def ack_bit_def slot_data_def
  show ?thesis
  proof (cases l)
    case (Send m)
    then have m: "ss_req s = Req_idle" "length m \<le> 64" using ex by (auto split: if_splits)
    from region_calls(5) [OF h(1,3,5) m(2)] obtain st where st:
      "shmem_write out (Some \<lparr>buf_aligned = True, buf_bytes = m\<rparr>) (length m) (ss_shm s) = Inr (length m, st)"
      "sh_obj st = sh_obj (ss_shm s)" "shm_data (sh_mem st a) = m @ replicate (64 - length m) 0"
      "shm_status (sh_mem st a) = shm_status (sh_mem (ss_shm s) a)" by blast
    show ?thesis using ex m st inv h Send by (auto simp: defs)
  next
    case Set_new
    then have m: "ss_req s = Req_written" using ex by (auto split: if_splits)
    from region_calls(1) [OF h(1,3), of True] obtain st where "shmem_set_new out True (ss_shm s) = Inr st"
      "sh_obj st = sh_obj (ss_shm s)" "shm_data (sh_mem st a) = slot_data a s"
      "(shm_status (sh_mem st a) AND HPSC_SHMEM_STATUS_BIT_NEW \<noteq> 0) = True"
      "(shm_status (sh_mem st a) AND HPSC_SHMEM_STATUS_BIT_ACK \<noteq> 0) = ack_bit a s" by blast
    then show ?thesis using ex m inv h Set_new by (auto simp: defs)
  next
    case Wake
    then show ?thesis using ex inv h by (auto simp: defs split: if_splits)
  next
    case Timeout
    then show ?thesis using ok by simp
  next
    case Notify
    then show ?thesis using ex inv h region_calls(3) [OF h(1,3)] by (auto simp: defs split: if_splits req_at.splits)
  next
    case Clear_ack
    then have m: "ss_ack s = Ack_notified" using ex by (auto split: if_splits)
    from region_calls(2) [OF h(1,3), of False] obtain st where "shmem_set_ack out False (ss_shm s) = Inr st"
      "sh_obj st = sh_obj (ss_shm s)" "shm_data (sh_mem st a) = slot_data a s"
      "(shm_status (sh_mem st a) AND HPSC_SHMEM_STATUS_BIT_NEW \<noteq> 0) = new_bit a s"
      "(shm_status (sh_mem st a) AND HPSC_SHMEM_STATUS_BIT_ACK \<noteq> 0) = False" by blast
    then show ?thesis using ex m inv h Clear_ack by (auto simp: defs split: req_at.splits)
  next
    case Read
    then show ?thesis using ex inv h region_calls(3,4) [OF h(2,4)] by (auto simp: defs split: if_splits req_at.splits)
  next
    case Clear_new
    then obtain m where m: "ss_rcv s = Rcv_read m" using ex by (auto split: rcv_at.splits)
    from region_calls(1) [OF h(2,4), of False] obtain st where "shmem_set_new inp False (ss_shm s) = Inr st"
      "sh_obj st = sh_obj (ss_shm s)" "shm_data (sh_mem st a) = slot_data a s"
      "(shm_status (sh_mem st a) AND HPSC_SHMEM_STATUS_BIT_NEW \<noteq> 0) = False"
      "(shm_status (sh_mem st a) AND HPSC_SHMEM_STATUS_BIT_ACK \<noteq> 0) = ack_bit a s" by blast
    then show ?thesis using ex m inv h Clear_new by (auto simp: defs split: req_at.splits)
  next
    case Set_ack
    then obtain m where m: "ss_rcv s = Rcv_cleared m" using ex by (auto split: rcv_at.splits)
    from region_calls(2) [OF h(2,4), of True] obtain st where "shmem_set_ack inp True (ss_shm s) = Inr st"
      "sh_obj st = sh_obj (ss_shm s)" "shm_data (sh_mem st a) = slot_data a s"
      "(shm_status (sh_mem st a) AND HPSC_SHMEM_STATUS_BIT_NEW \<noteq> 0) = new_bit a s"
      "(shm_status (sh_mem st a) AND HPSC_SHMEM_STATUS_BIT_ACK \<noteq> 0) = True" by blast
    then show ?thesis using ex m inv h Set_ack by (auto simp: defs split: req_at.splits)
  qed
qed

lemma session_reach_inv:
  assumes "session_reach out inp ok s0 s" and "session_inv out inp a s0" and "\<And>l s. ok l s \<Longrightarrow> no_timeout l s"
  shows "session_inv out inp a s"
  using assms
proof (induction rule: session_reach.induct)
  case (step s l s')
  then show ?case using session_exec_inv [of out inp a s l "Inr s'"] by fastforce
qed simp

lemma session_inv_init:
  assumes "out \<noteq> NULL" "inp \<noteq> NULL" "sh_obj st out = Some a" "sh_obj st inp = Some a" "length (shm_data (sh_mem st a)) = 64"
    and "shm_status (sh_mem st a) = 0"
  shows "session_inv out inp a (session_init st)"
  using assms by (simp add: session_inv_def session_init_def session_handles_def new_bit_def ack_bit_def slot_data_def)


subsection \<open>Progress\<close>

text \<open>The steps of the three tasks that answer a message already sent.\<close>

fun answers_step :: "session_step \<Rightarrow> bool" where
  "answers_step (Send m) = False"
| "answers_step Timeout = False"
| "answers_step _ = True"

definition session_left :: "ptr \<Rightarrow> session \<Rightarrow> nat" where
  "session_left a s = (if ss_ack s = Ack_notified then 1 else 0) +
     (case ss_req s of Req_idle \<Rightarrow> 0 | Req_written \<Rightarrow> 7
      | Req_waiting \<Rightarrow> if ss_event s then 1 else
          (case ss_rcv s of Rcv_poll \<Rightarrow> if new_bit a s then 6 else 3 | Rcv_read m \<Rightarrow> 5 | Rcv_cleared m \<Rightarrow> 4))"

definition prompt_inv :: "ptr \<Rightarrow> ptr \<Rightarrow> ptr \<Rightarrow> session \<Rightarrow> bool" where
  "prompt_inv out inp a s \<longleftrightarrow> session_inv out inp a s \<and>
     (ss_ack s = Ack_notified \<longrightarrow> ss_event s \<or> ss_req s = Req_idle) \<and>
     (ss_req s = Req_waiting \<and> \<not> ss_event s \<and> ss_rcv s = Rcv_poll \<and> \<not> new_bit a s \<longrightarrow> ack_bit a s)"

lemma prompt_exec_inv:
  assumes p: "prompt_inv out inp a s" and ok: "prompt_ack l s" and ex: "session_exec out inp l s = Some (Inr s')"
  shows "prompt_inv out inp a s' \<and> (answers_step l \<longrightarrow> session_left a s' < session_left a s)"
proof -
  have inv: "session_inv out inp a s" using p by (simp add: prompt_inv_def)
  have "no_timeout l s" using ok by (cases l) simp_all
  from session_exec_inv [OF inv this ex] have inv': "session_inv out inp a s'" by auto
  have h: "out \<noteq> NULL" "inp \<noteq> NULL" "sh_obj (ss_shm s) out = Some a" "sh_obj (ss_shm s) inp = Some a" "length (slot_data a s) = 64"
    using inv by (simp_all add: session_inv_def session_handles_def)
  have f: "ss_event s \<Longrightarrow> ss_req s = Req_waiting \<and> ss_rcv s = Rcv_poll \<and> \<not> new_bit a s"
    "ss_req s \<noteq> Req_waiting \<Longrightarrow> ss_rcv s = Rcv_poll"
    "ack_bit a s \<Longrightarrow> ss_ack s = Ack_poll \<Longrightarrow> ss_req s = Req_waiting \<and> \<not> ss_event s \<and> ss_rcv s = Rcv_poll \<and> \<not> new_bit a s"
    "ss_registered s = (ss_req s \<noteq> Req_idle)" "ss_req s = Req_idle \<Longrightarrow> \<not> new_bit a s" "ss_req s = Req_written \<Longrightarrow> \<not> new_bit a s"
    using inv by (auto simp: session_inv_def split: req_at.splits)
  have g: "ss_ack s = Ack_notified \<Longrightarrow> ss_event s \<or> ss_req s = Req_idle"
    "ss_req s = Req_waiting \<Longrightarrow> \<not> ss_event s \<Longrightarrow> ss_rcv s = Rcv_poll \<Longrightarrow> \<not> new_bit a s \<Longrightarrow> ack_bit a s"
    using p by (simp_all add: prompt_inv_def)
  have bits: "new_bit a s \<longleftrightarrow> shm_status (sh_mem (ss_shm s) a) AND HPSC_SHMEM_STATUS_BIT_NEW \<noteq> 0"
    "ack_bit a s \<longleftrightarrow> shm_status (sh_mem (ss_shm s) a) AND HPSC_SHMEM_STATUS_BIT_ACK \<noteq> 0" for s
    by (simp_all add: new_bit_def ack_bit_def)
  have "(ss_ack s' = Ack_notified \<longrightarrow> ss_event s' \<or> ss_req s' = Req_idle) \<and>
     (ss_req s' = Req_waiting \<and> \<not> ss_event s' \<and> ss_rcv s' = Rcv_poll \<and> \<not> new_bit a s' \<longrightarrow> ack_bit a s') \<and>
     (answers_step l \<longrightarrow> session_left a s' < session_left a s)"
  proof (cases l)
    case (Send m)
    then have m: "ss_req s = Req_idle" "length m \<le> 64" using ex by (auto split: if_splits)
    from region_calls(5) [OF h(1,3,5) m(2)] obtain st where st:
      "shmem_write out (Some \<lparr>buf_aligned = True, buf_bytes = m\<rparr>) (length m) (ss_shm s) = Inr (length m, st)" by blast
    show ?thesis using ex m st ok Send by auto
  next
    case Set_new
    then have m: "ss_req s = Req_written" using ex by (auto split: if_splits)
    from region_calls(1) [OF h(1,3), of True] obtain st where "shmem_set_new out True (ss_shm s) = Inr st"
      "(shm_status (sh_mem st a) AND HPSC_SHMEM_STATUS_BIT_NEW \<noteq> 0) = True" by blast
    then show ?thesis using ex m Set_new f(1) f(2) g(1) by (cases "ss_event s") (auto simp: bits session_left_def)
  next
    case Wake
    then show ?thesis using ex by (auto simp: session_left_def split: if_splits)
  next
    case Timeout
    then show ?thesis using ok by simp
  next
    case Notify
    then have m: "ss_ack s = Ack_poll" "ack_bit a s"
      "s' = s\<lparr>ss_ack := Ack_notified, ss_tx_acked := True, ss_event := (ss_event s \<or> ss_registered s)\<rparr>"
      using ex region_calls(3) [OF h(1,3)] by (auto simp: bits split: if_splits)
    then show ?thesis using f(3) [OF m(2,1)] f(4) by (simp add: session_left_def bits)
  next
    case Clear_ack
    then have m: "ss_ack s = Ack_notified" using ex by (auto split: if_splits)
    from region_calls(2) [OF h(1,3), of False] obtain st where "shmem_set_ack out False (ss_shm s) = Inr st"
      "(shm_status (sh_mem st a) AND HPSC_SHMEM_STATUS_BIT_NEW \<noteq> 0) = new_bit a s" by blast
    then have s': "s' = s\<lparr>ss_shm := st, ss_ack := Ack_poll\<rparr>" and new: "new_bit a s' = new_bit a s"
      using ex m Clear_ack by (auto simp: bits)
    have "session_left a s' < session_left a s"
      using m new by (simp add: s' session_left_def split: req_at.splits rcv_at.splits)
    then show ?thesis using g(1) [OF m] s' by auto
  next
    case Read
    then have m: "ss_rcv s = Rcv_poll" "new_bit a s" "s' = s\<lparr>ss_rcv := Rcv_read (slot_data a s)\<rparr>"
      using ex region_calls(3,4) [OF h(2,4)] h(5) by (auto simp: bits split: if_splits)
    have "ss_req s = Req_waiting" "\<not> ss_event s" using m(2) f(1,5,6) by (cases "ss_req s"; blast)+
    then show ?thesis using m g(1) by (simp add: session_left_def) auto
  next
    case Clear_new
    then obtain m where m: "ss_rcv s = Rcv_read m" using ex by (auto split: rcv_at.splits)
    from region_calls(1) [OF h(2,4), of False] obtain st where "shmem_set_new inp False (ss_shm s) = Inr st" by blast
    then have s': "s' = s\<lparr>ss_shm := st, ss_rcv := Rcv_cleared m\<rparr>" using ex m Clear_new by auto
    have "ss_req s = Req_waiting" "\<not> ss_event s" using m f(1,2) by auto
    then show ?thesis using m s' g(1) by (simp add: session_left_def) auto
  next
    case Set_ack
    then obtain m where m: "ss_rcv s = Rcv_cleared m" using ex by (auto split: rcv_at.splits)
    from region_calls(2) [OF h(2,4), of True] obtain st where "shmem_set_ack inp True (ss_shm s) = Inr st"
      "(shm_status (sh_mem st a) AND HPSC_SHMEM_STATUS_BIT_NEW \<noteq> 0) = new_bit a s"
      "(shm_status (sh_mem st a) AND HPSC_SHMEM_STATUS_BIT_ACK \<noteq> 0) = True" by blast
    then have s': "s' = s\<lparr>ss_shm := st, ss_rcv := Rcv_poll, ss_done := ss_done s @ [m]\<rparr>" and b: "ack_bit a s'" "new_bit a s' = new_bit a s"
      using ex m Set_ack by (auto simp: bits)
    have w: "ss_req s = Req_waiting" "\<not> ss_event s" using m f(1,2) by auto
    moreover have "\<not> new_bit a s" using inv m w by (auto simp: session_inv_def)
    ultimately show ?thesis using m s' b g(1) by (simp add: session_left_def) auto
  qed
  with inv' show ?thesis by (simp add: prompt_inv_def)
qed

lemma prompt_progress:
  assumes p: "prompt_inv out inp a s" and left: "0 < session_left a s"
  shows "\<exists>l. answers_step l \<and> session_exec out inp l s \<noteq> None"
proof -
  have inv: "session_inv out inp a s" using p by (simp add: prompt_inv_def)
  have h: "out \<noteq> NULL" "inp \<noteq> NULL" "sh_obj (ss_shm s) out = Some a" "sh_obj (ss_shm s) inp = Some a"
    using inv by (simp_all add: session_inv_def session_handles_def)
  note rd = region_calls(3) [OF h(1,3)] region_calls(3) [OF h(2,4)]
  consider "ss_ack s = Ack_notified" | "ss_req s = Req_written" | "ss_req s = Req_waiting" "ss_ack s = Ack_poll"
    using left by (cases "ss_req s"; cases "ss_ack s") (auto simp: session_left_def)
  then show ?thesis
  proof cases
    case 1
    then show ?thesis by (intro exI [of _ Clear_ack]) simp
  next
    case 2
    then show ?thesis by (intro exI [of _ Set_new]) simp
  next
    case 3
    show ?thesis
    proof (cases "ss_event s")
      case True
      then show ?thesis using 3 by (intro exI [of _ Wake]) simp
    next
      case False
      show ?thesis
      proof (cases "ss_rcv s")
        case Rcv_poll
        show ?thesis
        proof (cases "new_bit a s")
          case True
          then show ?thesis using Rcv_poll rd by (intro exI [of _ Read]) (simp add: new_bit_def)
        next
          case no: False
          then have "ack_bit a s" using p 3 False Rcv_poll by (simp add: prompt_inv_def)
          then show ?thesis using 3 rd by (intro exI [of _ Notify]) (simp add: ack_bit_def)
        qed
      next
        case (Rcv_read m)
        then show ?thesis by (intro exI [of _ Clear_new]) simp
      next
        case (Rcv_cleared m)
        then show ?thesis by (intro exI [of _ Set_ack]) simp
      qed
    qed
  qed
qed

lemma answers_step_prompt: "answers_step l \<Longrightarrow> prompt_ack l s"
  by (cases l) simp_all

lemma prompt_run:
  assumes "prompt_inv out inp a s" and "session_run out inp (\<lambda>l _. answers_step l) ls s = Some s'"
  shows "prompt_inv out inp a s' \<and> length ls + session_left a s' \<le> session_left a s"
  using assms
proof (induction ls arbitrary: s)
  case (Cons l ls)
  then obtain s1 where s1: "session_exec out inp l s = Some (Inr s1)" "session_run out inp (\<lambda>l _. answers_step l) ls s1 = Some s'"
    and l: "answers_step l" by (auto split: option.splits sum.splits if_splits)
  have "prompt_inv out inp a s1" "session_left a s1 < session_left a s"
    using prompt_exec_inv [OF Cons.prems(1) _ s1(1)] answers_step_prompt l by auto
  with Cons.IH [OF this(1) s1(2)] show ?case by simp
qed simp

text \<open>C3. In interleavings without time-outs in which no message is sent while the acknowledgement task
  has still to clear its flag, a message that was sent is answered: every run of the other steps ends
  after at most seven, and when none of them is possible any more, all messages sent have been passed
  on and acknowledged and the requester is idle.\<close>

theorem session_progress:
  assumes "out \<noteq> NULL" "inp \<noteq> NULL" "sh_obj st out = Some a" "sh_obj st inp = Some a"
    and "length (shm_data (sh_mem st a)) = HPSC_MSG_SIZE" "shm_status (sh_mem st a) = 0"
    and run: "session_reach out inp prompt_ack (session_init st) s"
    and ls: "session_run out inp (\<lambda>l _. answers_step l) ls s = Some s'"
  shows "length ls \<le> 7 \<and>
    ((\<forall>l. answers_step l \<longrightarrow> session_exec out inp l s' = None) \<longrightarrow>
       ss_req s' = Req_idle \<and> ss_ack s' = Ack_poll \<and> ss_done s' = ss_sent s' \<and> ss_acked s' = ss_sent s')"
proof -
  have init: "prompt_inv out inp a (session_init st)"
    using session_inv_init assms(1-6) by (simp add: prompt_inv_def) (simp add: session_init_def)
  have p: "prompt_inv out inp a s"
    using run init
  proof (induction rule: session_reach.induct)
    case (step s l s')
    then show ?case using prompt_exec_inv by blast
  qed
  note r = prompt_run [OF p ls]
  have n: "ss_ack s = Ack_notified \<Longrightarrow> ss_event s \<or> ss_req s = Req_idle" "ss_event s \<Longrightarrow> ss_req s = Req_waiting"
    using p by (simp_all add: prompt_inv_def session_inv_def)
  then have "session_left a s \<le> 7"
    by (cases "ss_req s"; cases "ss_ack s"; cases "ss_event s") (auto simp: session_left_def split: rcv_at.split)
  moreover have "session_left a s' = 0" if "\<forall>l. answers_step l \<longrightarrow> session_exec out inp l s' = None"
    using prompt_progress [of out inp a s'] r that by (metis gr0I)
  moreover have "ss_req s' = Req_idle \<and> ss_ack s' = Ack_poll \<and> ss_done s' = ss_sent s' \<and> ss_acked s' = ss_sent s'"
    if "session_left a s' = 0"
  proof -
    have "ss_req s' = Req_idle" "ss_ack s' = Ack_poll"
      using that by (cases "ss_req s'"; cases "ss_ack s'"; simp add: session_left_def split: rcv_at.splits if_splits)+
    then show ?thesis using r by (simp add: prompt_inv_def session_inv_def)
  qed
  moreover have "length ls \<le> session_left a s" using r by simp
  ultimately show ?thesis by (meson le_trans)
qed

subsection \<open>What a time-out, or a requester that is quicker than the acknowledgement task, can do\<close>

definition demo_region :: shm_st where
  "demo_region = \<lparr>sh_obj = [0x100 \<mapsto> 0x40260000, 0x200 \<mapsto> 0x40260000], sh_mem = (\<lambda>_. \<lparr>shm_data = replicate 64 0, shm_status = 0\<rparr>)\<rparr>"

definition pad :: "u8 list \<Rightarrow> u8 list" where "pad m = m @ replicate (HPSC_MSG_SIZE - length m) 0"

lemmas session_evals = session_init_def demo_region_def pad_def shmem_write_eq shmem_read_eq shmem_set_new_def shmem_set_ack_def
  shmem_get_status_def recv_buf_def shmem_bits upd_region_def

lemma session_stuck:
  assumes "shmem_get_status out (ss_shm s) = Inr 0" "shmem_get_status inp (ss_shm s) = Inr 0"
    and "ss_req s = Req_waiting" "\<not> ss_event s" "ss_ack s = Ack_poll" "ss_rcv s = Rcv_poll" "l \<noteq> Timeout"
  shows "session_exec out inp l s = None"
  using assms by (cases l) simp_all

text \<open>The labels that can be taken, from what is known of each.\<close>

lemma only_label: 
  assumes "\<And>l. l \<noteq> x \<Longrightarrow> f l = None" "f x \<noteq> None" shows "{l. f l \<noteq> None} = {x}"
proof (rule set_eqI)
  fix l show "l \<in> {l. f l \<noteq> None} \<longleftrightarrow> l \<in> {x}" using assms(1) [of l] assms(2) by (cases "l = x") simp_all
qed

text \<open>The steps of the interleaving that loses an acknowledgement.\<close>

definition lost_ack_steps :: "session_step list" where
  "lost_ack_steps = [Send [1], Set_new, Read, Clear_new, Set_ack, Notify, Wake, Send [2], Set_new, Read, Clear_new, Set_ack, Clear_ack]"

lemma lost_ack_run: "\<exists>s. session_run 0x100 0x200 no_timeout lost_ack_steps (session_init demo_region) = Some s \<and>
     ss_sent s = [pad [1], pad [2]] \<and> ss_done s = ss_sent s \<and> ss_acked s = [pad [1]] \<and> ss_req s = Req_waiting \<and> \<not> ss_event s \<and>
     ss_ack s = Ack_poll \<and> ss_rcv s = Rcv_poll \<and> shmem_get_status 0x100 (ss_shm s) = Inr 0 \<and> shmem_get_status 0x200 (ss_shm s) = Inr 0"
  by (simp add: lost_ack_steps_def session_evals)

text \<open>C28. As the acknowledgement callback wakes the requester before it clears the flag, a requester that
  sends again at once can lose its acknowledgement: there is an interleaving without time-outs that
  ends with both messages passed on and the requester waiting for the second acknowledgement, where no
  step but its time-out is possible.\<close>

theorem session_ack_lost:
  "\<exists>s. session_reach 0x100 0x200 no_timeout (session_init demo_region) s \<and>
     ss_sent s = [pad [1], pad [2]] \<and> ss_done s = ss_sent s \<and> ss_acked s = [pad [1]] \<and> ss_req s = Req_waiting \<and>
     {l. session_exec 0x100 0x200 l s \<noteq> None} = {Timeout}"
proof -
  obtain s where s: "session_run 0x100 0x200 no_timeout lost_ack_steps (session_init demo_region) = Some s"
     "ss_sent s = [pad [1], pad [2]]" "ss_done s = ss_sent s" "ss_acked s = [pad [1]]" "ss_req s = Req_waiting"
     "\<not> ss_event s" "ss_ack s = Ack_poll" "ss_rcv s = Rcv_poll"
     "shmem_get_status 0x100 (ss_shm s) = Inr 0" "shmem_get_status 0x200 (ss_shm s) = Inr 0"
    using lost_ack_run by (elim exE conjE) blast
  have only: "{l. session_exec 0x100 0x200 l s \<noteq> None} = {Timeout}"
  proof (rule only_label)
    show "session_exec 0x100 0x200 l s = None" if "l \<noteq> Timeout" for l
      by (rule session_stuck) (use s(4-) that in simp_all)
    show "session_exec 0x100 0x200 Timeout s \<noteq> None" using s(5,6) by simp
  qed
  have "session_reach 0x100 0x200 no_timeout (session_init demo_region) s"
    by (rule session_run_reach [OF session_reach.start s(1)])
  then show ?thesis using s(2,3,4,5) only by (intro exI [of _ s] conjI)
qed

text \<open>C29. A time-out breaks the link's promise in both directions: a second message can be reported as
  acknowledged although it is never passed on (the receiver was still answering the first), and a
  second message can be passed on twice in place of the first.\<close>

theorem session_timeout_loses:
  "(\<exists>s. session_reach 0x100 0x200 (\<lambda>_ _. True) (session_init demo_region) s \<and>
      ss_sent s = [pad [1], pad [2]] \<and> ss_acked s = [pad [2]] \<and> ss_done s = [pad [1]] \<and> \<not> new_bit 0x40260000 s \<and>
      ss_req s = Req_idle \<and> ss_ack s = Ack_poll \<and> ss_rcv s = Rcv_poll) \<and>
   (\<exists>s. session_reach 0x100 0x200 (\<lambda>_ _. True) (session_init demo_region) s \<and>
      ss_sent s = [pad [1], pad [2]] \<and> ss_done s = [pad [2], pad [2]])"
proof -
  let ?lost = "[Send [1], Set_new, Read, Timeout, Send [2], Set_new, Clear_new, Set_ack, Notify, Wake, Clear_ack]"
  let ?twice = "[Send [1], Set_new, Timeout, Send [2], Read, Clear_new, Set_ack, Set_new, Read, Clear_new, Set_ack]"
  have "\<exists>s. session_run 0x100 0x200 (\<lambda>_ _. True) ?lost (session_init demo_region) = Some s \<and>
      ss_sent s = [pad [1], pad [2]] \<and> ss_acked s = [pad [2]] \<and> ss_done s = [pad [1]] \<and> \<not> new_bit 0x40260000 s \<and>
      ss_req s = Req_idle \<and> ss_ack s = Ack_poll \<and> ss_rcv s = Rcv_poll"
    by (simp add: session_evals new_bit_def)
  moreover have "\<exists>s. session_run 0x100 0x200 (\<lambda>_ _. True) ?twice (session_init demo_region) = Some s \<and>
      ss_sent s = [pad [1], pad [2]] \<and> ss_done s = [pad [2], pad [2]]"
    by (simp add: session_evals)
  ultimately show ?thesis using session_run_reach [OF session_reach.start] by blast
qed

subsection \<open>The steps are the calls of the link\<close>

text \<open>
  Running the steps of one task without interruption is what the link operations do to the region.
\<close>

lemma upd_rctx_shm [simp]: "upd_rctx l f w = Inr w' \<Longrightarrow> w_shm w' = w_shm w"
  by (auto simp: upd_rctx_def upd_link_def split: option.splits)


subsection \<open>Applications\<close>

lemma demo_region_ok: "(0x100 :: ptr) \<noteq> NULL" "(0x200 :: ptr) \<noteq> NULL" "sh_obj demo_region 0x100 = Some 0x40260000"
  "sh_obj demo_region 0x200 = Some 0x40260000" "length (shm_data (sh_mem demo_region 0x40260000)) = HPSC_MSG_SIZE"
  "shm_status (sh_mem demo_region 0x40260000) = 0"
  by (simp_all add: demo_region_def)

lemma session_quiet:
  assumes "shmem_get_status out (ss_shm s) = Inr 0" "shmem_get_status inp (ss_shm s) = Inr 0"
    and "ss_req s = Req_idle" "ss_ack s = Ack_poll" "ss_rcv s = Rcv_poll" "answers_step l"
  shows "session_exec out inp l s = None"
  using assms by (cases l) simp_all


theorem session_progress_witness:
  "\<exists>s s'. session_run 0x100 0x200 prompt_ack [Send [1]] (session_init demo_region) = Some s \<and>
     session_run 0x100 0x200 (\<lambda>l _. answers_step l) [Set_new, Read, Clear_new, Set_ack, Notify, Clear_ack, Wake] s = Some s' \<and>
     ss_acked s' = [pad [1]]"
proof -
  let ?ls = "[Set_new, Read, Clear_new, Set_ack, Notify, Clear_ack, Wake]"
  have "\<exists>s s'. session_run 0x100 0x200 prompt_ack [Send [1]] (session_init demo_region) = Some s \<and>
     session_run 0x100 0x200 (\<lambda>l _. answers_step l) ?ls s = Some s' \<and> ss_sent s' = [pad [1]] \<and>
     shmem_get_status 0x100 (ss_shm s') = Inr 0 \<and> shmem_get_status 0x200 (ss_shm s') = Inr 0 \<and>
     ss_req s' = Req_idle \<and> ss_ack s' = Ack_poll \<and> ss_rcv s' = Rcv_poll"
    by (simp add: session_evals)
  then obtain s s' where s: "session_run 0x100 0x200 prompt_ack [Send [1]] (session_init demo_region) = Some s"
     "session_run 0x100 0x200 (\<lambda>l _. answers_step l) ?ls s = Some s'" "ss_sent s' = [pad [1]]"
     "shmem_get_status 0x100 (ss_shm s') = Inr 0" "shmem_get_status 0x200 (ss_shm s') = Inr 0"
     "ss_req s' = Req_idle" "ss_ack s' = Ack_poll" "ss_rcv s' = Rcv_poll" by (elim exE conjE) blast
  have "\<forall>l. answers_step l \<longrightarrow> session_exec 0x100 0x200 l s' = None"
    using session_quiet [OF s(4-8)] by blast
  then have "ss_acked s' = [pad [1]]"
    using session_progress [OF demo_region_ok session_run_reach [OF session_reach.start s(1)] s(2)] s(3) by simp
  then show ?thesis using s(1,2) by blast
qed


end
