(* ===== verification/Mbox_Typing.thy ===== *)
theory Mbox_Typing
  imports Link_Setup
begin

text \<open>
  The calls that clients of the mailbox driver make (\<open>lib/drivers/hpsc-mbox.h\<close>), as data, and a discipline
  on sequences of calls under which none of them faults: every call on a channel comes after a claim
  of that channel, whether or not the claim succeeded.
\<close>

subsection \<open>Sequences of calls\<close>

datatype mbox_call =
  Claim_call nat u8 u8 u8 "handler option" "handler option" ptr
| Release_call nat
| Write_call nat "u8 list" nat
| Read_call nat "u8 list" nat
| Set_rcv_call nat
| Set_ack_call nat
| Clear_rcv_call nat
| Clear_ack_call nat

fun mbox_exec :: "mbox_hw \<Rightarrow> mbox_call \<Rightarrow> mbox_st \<Rightarrow> mbox_st res" where
  "mbox_exec hw (Claim_call i ow sr de ca cbb arg) s = res_bind (hpsc_mbox_chan_claim hw False i ow sr de ca cbb arg s) (\<lambda>(_, s'). Inr s')"
| "mbox_exec hw (Release_call i) s = res_bind (hpsc_mbox_chan_release hw False i s) (\<lambda>(_, s'). Inr s')"
| "mbox_exec hw (Write_call i buf sz) s = res_bind (hpsc_mbox_chan_write i (Some buf) sz s) (\<lambda>(_, s'). Inr s')"
| "mbox_exec hw (Read_call i buf sz) s = res_bind (hpsc_mbox_chan_read i (Some buf) sz s) (\<lambda>_. Inr s)"
| "mbox_exec hw (Set_rcv_call i) s = hpsc_mbox_chan_event_set_rcv hw i s"
| "mbox_exec hw (Set_ack_call i) s = hpsc_mbox_chan_event_set_ack hw i s"
| "mbox_exec hw (Clear_rcv_call i) s = hpsc_mbox_chan_event_clear_rcv hw i s"
| "mbox_exec hw (Clear_ack_call i) s = hpsc_mbox_chan_event_clear_ack hw i s"

fun mbox_execs :: "mbox_hw \<Rightarrow> mbox_call list \<Rightarrow> mbox_st \<Rightarrow> mbox_st res" where
  "mbox_execs hw [] s = Inr s"
| "mbox_execs hw (c # cs) s = res_bind (mbox_exec hw c s) (mbox_execs hw cs)"

subsection \<open>The discipline\<close>

text \<open>\<open>C\<close> are the channels for which a claim was made.\<close>

fun call_claims :: "mbox_call \<Rightarrow> nat set" where
  "call_claims (Claim_call i _ _ _ _ _ _) = {i}"
| "call_claims _ = {}"

fun call_typed :: "nat set \<Rightarrow> mbox_call \<Rightarrow> bool" where
  "call_typed C (Claim_call i _ _ _ _ _ _) \<longleftrightarrow> i < HPSC_MBOX_CHANNELS"
| "call_typed C (Write_call i buf sz) \<longleftrightarrow> i \<in> C \<and> sz \<le> HPSC_MBOX_DATA_SIZE \<and> 4 * words_of_size sz \<le> length buf"
| "call_typed C (Read_call i buf sz) \<longleftrightarrow> i \<in> C \<and> 4 * min (words_of_size sz) HPSC_MBOX_DATA_REGS \<le> length buf"
| "call_typed C (Release_call i) \<longleftrightarrow> i \<in> C"
| "call_typed C (Set_rcv_call i) \<longleftrightarrow> i \<in> C"
| "call_typed C (Set_ack_call i) \<longleftrightarrow> i \<in> C"
| "call_typed C (Clear_rcv_call i) \<longleftrightarrow> i \<in> C"
| "call_typed C (Clear_ack_call i) \<longleftrightarrow> i \<in> C"

fun calls_typed :: "nat set \<Rightarrow> mbox_call list \<Rightarrow> bool" where
  "calls_typed C [] \<longleftrightarrow> True"
| "calls_typed C (c # cs) \<longleftrightarrow> call_typed C c \<and> calls_typed (call_claims c \<union> C) cs"

definition mbox_typed :: "nat set \<Rightarrow> mbox_st \<Rightarrow> bool" where
  "mbox_typed C s \<longleftrightarrow> mbox_wf (st_mbox s) \<and> (\<forall>a. length (DATA (st_regs s a)) = HPSC_MBOX_DATA_REGS) \<and>
     (\<forall>i \<in> C. i < HPSC_MBOX_CHANNELS \<and> ch_base (chan_of s i) \<noteq> None)"

lemma mbox_typed_base:
  assumes "mbox_typed C s" and "i \<in> C"
  shows "i < 32" and "ch_base (chan_of s i) = Some (chan_addr (st_mbox s) i)"
  using assms mbox_wf_chan [of "st_mbox s" i] by (auto simp: mbox_typed_def chan_wf_def)

text \<open>What keeps the structures in shape keeps the typing.\<close>

lemma mbox_typed_frame:
  assumes t: "mbox_typed C s" and f: "mbox_frame i (st_mbox s) (st_regs s) (st_mbox s') (st_regs s')" and i: "i < 32"
  shows "mbox_typed (insert i C) s'"
  unfolding mbox_typed_def
proof (intro conjI ballI allI)
  show "mbox_wf (st_mbox s')" "length (DATA (st_regs s' a)) = HPSC_MBOX_DATA_REGS" for a
    using t f by (simp_all add: mbox_typed_def mbox_frame_def)
  show "j < HPSC_MBOX_CHANNELS" "ch_base (chan_of s' j) \<noteq> None" if "j \<in> insert i C" for j
    using that t f i by (cases "j = i"; auto simp: mbox_typed_def mbox_frame_def)+
qed

lemma mbox_typed_regs:
  assumes "mbox_typed C s" and "\<And>r. length (DATA r) = HPSC_MBOX_DATA_REGS \<Longrightarrow> length (DATA (f r)) = HPSC_MBOX_DATA_REGS"
  shows "mbox_typed C (upd_regs a f s)"
  using assms by (simp add: mbox_typed_def upd_regs_def)

lemma mbox_typed_destroy:
  assumes "mbox_typed C s" and "ch_active (chan_of s i)" and "i < 32"
  shows "mbox_typed (insert i C) (hpsc_mbox_chan_destroy i s)"
proof -
  have "ch_base (chan_of s i) \<noteq> None" using assms mbox_wf_chan [of "st_mbox s" i] by (simp add: mbox_typed_def chan_wf_def)
  then have "ch_base (chan_of (hpsc_mbox_chan_destroy i s) j) \<noteq> None" if "j \<in> insert i C" for j
    using assms that by (cases "j = i") (auto simp: mbox_typed_def)
  then show ?thesis using assms by (auto simp: mbox_typed_def)
qed

text \<open>Progress and preservation of one call.\<close>

lemma claim_typed:
  assumes hw: "mbox_hw_laws hw" and t: "mbox_typed C s" and i: "i < 32"
  shows "\<exists>sc s'. hpsc_mbox_chan_claim hw False i ow sr de ca cbb arg s = Inr (sc, s') \<and> mbox_typed (insert i C) s'"
proof (cases "ch_active (chan_of s i)")
  case True
  then show ?thesis using mbox_typed_destroy [OF t True i] i by (simp add: hpsc_mbox_chan_claim_def)
next
  case False
  have "mbox_wf (st_mbox s)" using t by (simp add: mbox_typed_def)
  from claim_frame [OF hw this i False, of ow sr de ca cbb arg] show ?thesis
    using mbox_typed_frame [OF t _ i] by blast
qed

lemma call_sound:
  assumes hw: "mbox_hw_laws hw" and t: "mbox_typed C s" and c: "call_typed C c"
  shows "\<exists>s'. mbox_exec hw c s = Inr s' \<and> mbox_typed (call_claims c \<union> C) s'"
proof -
  have ev: "\<exists>s'. chan_event_store f i s = Inr s' \<and> mbox_typed C s'"
    if "i \<in> C" "\<And>r. DATA (f r) = DATA r" for f i
    using mbox_typed_base [OF t that(1)] mbox_typed_regs [OF t, of f "chan_addr (st_mbox s) i"] that(2) by (simp add: chan_event_store_def)
  show ?thesis
  proof (cases c)
    case (Claim_call i ow sr de ca cbb arg)
    then show ?thesis using claim_typed [OF hw t, of i ow sr de ca cbb arg] c by auto
  next
    case (Release_call i)
    then have i: "i \<in> C" using c by simp
    note b = mbox_typed_base [OF t i]
    have "mbox_wf (st_mbox s)" using t by (simp add: mbox_typed_def)
    from release_frame [OF hw this b] obtain s' where s': "hpsc_mbox_chan_release hw False i s = Inr (RTEMS_SUCCESSFUL, s')"
      "mbox_frame i (st_mbox s) (st_regs s) (st_mbox s') (st_regs s')" by blast
    then show ?thesis using Release_call mbox_typed_frame [OF t s'(2) b(1)] i by (simp add: insert_absorb)
  next
    case (Write_call i buf sz)
    then show ?thesis
      using c mbox_typed_base [OF t, of i] mbox_typed_regs [OF t, of _ "chan_addr (st_mbox s) i"]
      by (simp add: hpsc_mbox_chan_write_def Let_def)
  next
    case (Read_call i buf sz)
    then show ?thesis
      using c t mbox_typed_base [OF t, of i] by (auto simp: hpsc_mbox_chan_read_def Let_def split: prod.splits)
  qed (use c ev mbox_hw_lawsD [OF hw] in \<open>simp_all add: hpsc_mbox_chan_event_set_rcv_def hpsc_mbox_chan_event_set_ack_def
    hpsc_mbox_chan_event_clear_rcv_def hpsc_mbox_chan_event_clear_ack_def\<close>)
qed

subsection \<open>Properties\<close>

text \<open>C6. The calls of the mailbox driver are type sound: any sequence in which every call on a channel
  comes after some claim of that channel (even one that failed), with channel numbers and sizes in
  range, returns without a fault and leaves the driver's structures and registers well formed.\<close>

theorem mbox_calls_type_sound:
  assumes "mbox_hw_laws hw" and "mbox_typed C s" and "calls_typed C cs"
  shows "\<exists>s'. mbox_execs hw cs s = Inr s' \<and> mbox_typed (\<Union> (call_claims ` set cs) \<union> C) s'"
  using assms(2,3)
proof (induction cs arbitrary: C s)
  case (Cons c cs)
  obtain s1 where s1: "mbox_exec hw c s = Inr s1" "mbox_typed (call_claims c \<union> C) s1"
    using call_sound [OF assms(1) Cons.prems(1), of c] Cons.prems(2) by auto
  obtain s2 where "mbox_execs hw cs s1 = Inr s2" "mbox_typed (\<Union> (call_claims ` set cs) \<union> (call_claims c \<union> C)) s2"
    using Cons.IH [OF s1(2)] Cons.prems(2) by auto
  then show ?case using s1(1) by (simp add: Un_ac)
qed simp

text \<open>A busy claim, a message and a release on a block that was just probed.\<close>

theorem mbox_calls_type_sound_witness:
  "(\<exists>s'. mbox_execs demo_hw [Claim_call 3 1 1 2 (Some Link_recv_cmd) None 0x200, Claim_call 3 2 2 1 None None 0,
        Write_call 3 (replicate 64 7) 64, Set_rcv_call 3, Release_call 3, Read_call 3 (replicate 64 0) 64] demo_mbox = Inr s' \<and>
      ch_base (chan_of s' 3) \<noteq> None) \<and>
   mbox_execs demo_hw [Release_call 3] demo_mbox = Inl Undef"
proof -
  have "mbox_typed {} demo_mbox" by (simp add: mbox_typed_def demo_regs_def)
  moreover have "mbox_execs demo_hw [Release_call 3] demo_mbox = Inl Undef"
    by (simp add: hpsc_mbox_chan_release_def demo_mbox_chan demo_chan_def)
  ultimately show ?thesis
    using mbox_calls_type_sound [OF demo_hw_laws, of "{}" demo_mbox "[Claim_call 3 1 1 2 (Some Link_recv_cmd) None 0x200,
        Claim_call 3 2 2 1 None None 0, Write_call 3 (replicate 64 7) 64, Set_rcv_call 3, Release_call 3, Read_call 3 (replicate 64 0) 64]"]
    by (auto simp: mbox_typed_def words_of_size_def HPSC_MBOX_DATA_SIZE_def)
qed

end
