(* ===== verification/Platform.thy ===== *)
theory Platform
  imports Mbox
begin

text \<open>
  The resource maps of the chiplet (\<open>plat/mailbox-map.h\<close>, \<open>plat/mem-map.h\<close>): which mailbox
  channels and interrupt lines, and which parts of memory, belong to which pair of subsystems.  The
  real-time processors run in one of three modes: in lockstep, split (two systems, one on each
  processor, at the same time), or symmetric; allocations of different modes may overlap.
\<close>

subsection \<open>Mailboxes\<close>

definition LSIO_MBOX0_INT_EVT0__TRCH_SSW :: nat where "LSIO_MBOX0_INT_EVT0__TRCH_SSW = 0"
definition LSIO_MBOX0_INT_EVT1__TRCH_SSW :: nat where "LSIO_MBOX0_INT_EVT1__TRCH_SSW = 1"
definition LSIO_MBOX0_INT_EVT0__RTPS_R52_LOCKSTEP_SSW :: nat where "LSIO_MBOX0_INT_EVT0__RTPS_R52_LOCKSTEP_SSW = 2"
definition LSIO_MBOX0_INT_EVT1__RTPS_R52_LOCKSTEP_SSW :: nat where "LSIO_MBOX0_INT_EVT1__RTPS_R52_LOCKSTEP_SSW = 3"
definition LSIO_MBOX0_INT_EVT0__RTPS_R52_SPLIT_0_SSW :: nat where "LSIO_MBOX0_INT_EVT0__RTPS_R52_SPLIT_0_SSW = 2"
definition LSIO_MBOX0_INT_EVT1__RTPS_R52_SPLIT_0_SSW :: nat where "LSIO_MBOX0_INT_EVT1__RTPS_R52_SPLIT_0_SSW = 3"
definition LSIO_MBOX0_INT_EVT0__RTPS_R52_SPLIT_1_SSW :: nat where "LSIO_MBOX0_INT_EVT0__RTPS_R52_SPLIT_1_SSW = 4"
definition LSIO_MBOX0_INT_EVT1__RTPS_R52_SPLIT_1_SSW :: nat where "LSIO_MBOX0_INT_EVT1__RTPS_R52_SPLIT_1_SSW = 5"
definition LSIO_MBOX0_INT_EVT0__RTPS_R52_SMP_SSW :: nat where "LSIO_MBOX0_INT_EVT0__RTPS_R52_SMP_SSW = 2"
definition LSIO_MBOX0_INT_EVT1__RTPS_R52_SMP_SSW :: nat where "LSIO_MBOX0_INT_EVT1__RTPS_R52_SMP_SSW = 3"
definition LSIO_MBOX0_INT_EVT0__RTPS_A53_ATF :: nat where "LSIO_MBOX0_INT_EVT0__RTPS_A53_ATF = 6"
definition LSIO_MBOX0_INT_EVT1__RTPS_A53_ATF :: nat where "LSIO_MBOX0_INT_EVT1__RTPS_A53_ATF = 7"
definition LSIO_MBOX0_CHAN__RTPS_R52_LOCKSTEP_SSW__TRCH_SSW :: nat where "LSIO_MBOX0_CHAN__RTPS_R52_LOCKSTEP_SSW__TRCH_SSW = 0"
definition LSIO_MBOX0_CHAN__TRCH_SSW__RTPS_R52_LOCKSTEP_SSW :: nat where "LSIO_MBOX0_CHAN__TRCH_SSW__RTPS_R52_LOCKSTEP_SSW = 1"
definition LSIO_MBOX0_CHAN__RTPS_R52_SPLIT_0_SSW__TRCH_SSW :: nat where "LSIO_MBOX0_CHAN__RTPS_R52_SPLIT_0_SSW__TRCH_SSW = 0"
definition LSIO_MBOX0_CHAN__TRCH_SSW__RTPS_R52_SPLIT_0_SSW :: nat where "LSIO_MBOX0_CHAN__TRCH_SSW__RTPS_R52_SPLIT_0_SSW = 1"
definition LSIO_MBOX0_CHAN__RTPS_R52_SPLIT_1_SSW__TRCH_SSW :: nat where "LSIO_MBOX0_CHAN__RTPS_R52_SPLIT_1_SSW__TRCH_SSW = 2"
definition LSIO_MBOX0_CHAN__TRCH_SSW__RTPS_R52_SPLIT_1_SSW :: nat where "LSIO_MBOX0_CHAN__TRCH_SSW__RTPS_R52_SPLIT_1_SSW = 3"
definition LSIO_MBOX0_CHAN__RTPS_R52_SMP_SSW__TRCH_SSW :: nat where "LSIO_MBOX0_CHAN__RTPS_R52_SMP_SSW__TRCH_SSW = 0"
definition LSIO_MBOX0_CHAN__TRCH_SSW__RTPS_R52_SMP_SSW :: nat where "LSIO_MBOX0_CHAN__TRCH_SSW__RTPS_R52_SMP_SSW = 1"
definition LSIO_MBOX0_CHAN__RTPS_A53_ATF__TRCH_SSW__RQST :: nat where "LSIO_MBOX0_CHAN__RTPS_A53_ATF__TRCH_SSW__RQST = 4"
definition LSIO_MBOX0_CHAN__RTPS_A53_ATF__TRCH_SSW__RPLY :: nat where "LSIO_MBOX0_CHAN__RTPS_A53_ATF__TRCH_SSW__RPLY = 5"
definition LSIO_MBOX0_CHAN__RTPS_R52_LOCKSTEP_SSW__LOOPBACK :: nat where "LSIO_MBOX0_CHAN__RTPS_R52_LOCKSTEP_SSW__LOOPBACK = 31"
definition LSIO_MBOX0_CHAN__RTPS_R52_SPLIT_0_SSW__LOOPBACK :: nat where "LSIO_MBOX0_CHAN__RTPS_R52_SPLIT_0_SSW__LOOPBACK = 31"
definition LSIO_MBOX0_CHAN__RTPS_R52_SPLIT_1_SSW__LOOPBACK :: nat where "LSIO_MBOX0_CHAN__RTPS_R52_SPLIT_1_SSW__LOOPBACK = 31"
definition LSIO_MBOX0_CHAN__RTPS_R52_SMP_SSW__LOOPBACK :: nat where "LSIO_MBOX0_CHAN__RTPS_R52_SMP_SSW__LOOPBACK = 31"

definition HPPS_MBOX0_INT_EVT0__TRCH_SSW :: nat where "HPPS_MBOX0_INT_EVT0__TRCH_SSW = 0"
definition HPPS_MBOX0_INT_EVT1__TRCH_SSW :: nat where "HPPS_MBOX0_INT_EVT1__TRCH_SSW = 1"
definition HPPS_MBOX0_INT_EVT0__HPPS_SMP_SSW :: nat where "HPPS_MBOX0_INT_EVT0__HPPS_SMP_SSW = 2"
definition HPPS_MBOX0_INT_EVT1__HPPS_SMP_SSW :: nat where "HPPS_MBOX0_INT_EVT1__HPPS_SMP_SSW = 3"
definition HPPS_MBOX0_CHAN__HPPS_SMP_APP__TRCH_SSW :: nat where "HPPS_MBOX0_CHAN__HPPS_SMP_APP__TRCH_SSW = 0"
definition HPPS_MBOX0_CHAN__TRCH_SSW__HPPS_SMP_APP :: nat where "HPPS_MBOX0_CHAN__TRCH_SSW__HPPS_SMP_APP = 1"
definition HPPS_MBOX0_CHAN__TRCH_SSW__HPPS_SMP_APP_OWN :: nat where "HPPS_MBOX0_CHAN__TRCH_SSW__HPPS_SMP_APP_OWN = 2"
definition HPPS_MBOX0_CHAN__HPPS_SMP_APP_OWN__TRCH_SSW :: nat where "HPPS_MBOX0_CHAN__HPPS_SMP_APP_OWN__TRCH_SSW = 3"
definition HPPS_MBOX0_CHAN__HPPS_SMP_ATF__TRCH_SSW :: nat where "HPPS_MBOX0_CHAN__HPPS_SMP_ATF__TRCH_SSW = 28"
definition HPPS_MBOX0_CHAN__TRCH_SSW__HPPS_SMP_ATF :: nat where "HPPS_MBOX0_CHAN__TRCH_SSW__HPPS_SMP_ATF = 29"
definition HPPS_MBOX0_CHAN__HPPS_SMP_SSW__TRCH_SSW :: nat where "HPPS_MBOX0_CHAN__HPPS_SMP_SSW__TRCH_SSW = 30"
definition HPPS_MBOX0_CHAN__TRCH_SSW__HPPS_SMP_SSW :: nat where "HPPS_MBOX0_CHAN__TRCH_SSW__HPPS_SMP_SSW = 31"
definition HPPS_MBOX1_INT_EVT0__RTPS_R52_LOCKSTEP_SSW :: nat where "HPPS_MBOX1_INT_EVT0__RTPS_R52_LOCKSTEP_SSW = 0"
definition HPPS_MBOX1_INT_EVT1__RTPS_R52_LOCKSTEP_SSW :: nat where "HPPS_MBOX1_INT_EVT1__RTPS_R52_LOCKSTEP_SSW = 1"
definition HPPS_MBOX1_INT_EVT0__RTPS_R52_SPLIT_0_SSW :: nat where "HPPS_MBOX1_INT_EVT0__RTPS_R52_SPLIT_0_SSW = 0"
definition HPPS_MBOX1_INT_EVT1__RTPS_R52_SPLIT_0_SSW :: nat where "HPPS_MBOX1_INT_EVT1__RTPS_R52_SPLIT_0_SSW = 1"
definition HPPS_MBOX1_INT_EVT0__RTPS_R52_SPLIT_1_SSW :: nat where "HPPS_MBOX1_INT_EVT0__RTPS_R52_SPLIT_1_SSW = 2"
definition HPPS_MBOX1_INT_EVT1__RTPS_R52_SPLIT_1_SSW :: nat where "HPPS_MBOX1_INT_EVT1__RTPS_R52_SPLIT_1_SSW = 3"
definition HPPS_MBOX1_INT_EVT0__RTPS_R52_SMP_SSW :: nat where "HPPS_MBOX1_INT_EVT0__RTPS_R52_SMP_SSW = 0"
definition HPPS_MBOX1_INT_EVT1__RTPS_R52_SMP_SSW :: nat where "HPPS_MBOX1_INT_EVT1__RTPS_R52_SMP_SSW = 1"
definition HPPS_MBOX1_INT_EVT0__HPPS_SMP_SSW :: nat where "HPPS_MBOX1_INT_EVT0__HPPS_SMP_SSW = 4"
definition HPPS_MBOX1_INT_EVT1__HPPS_SMP_SSW :: nat where "HPPS_MBOX1_INT_EVT1__HPPS_SMP_SSW = 5"
definition HPPS_MBOX1_CHAN__HPPS_SMP_APP__RTPS_R52_LOCKSTEP_SSW :: nat where "HPPS_MBOX1_CHAN__HPPS_SMP_APP__RTPS_R52_LOCKSTEP_SSW = 0"
definition HPPS_MBOX1_CHAN__RTPS_R52_LOCKSTEP_SSW__HPPS_SMP_APP :: nat where "HPPS_MBOX1_CHAN__RTPS_R52_LOCKSTEP_SSW__HPPS_SMP_APP = 1"
definition HPPS_MBOX1_CHAN__HPPS_SMP_APP__RTPS_R52_SPLIT_0_SSW :: nat where "HPPS_MBOX1_CHAN__HPPS_SMP_APP__RTPS_R52_SPLIT_0_SSW = 0"
definition HPPS_MBOX1_CHAN__RTPS_R52_SPLIT_0_SSW__HPPS_SMP_APP :: nat where "HPPS_MBOX1_CHAN__RTPS_R52_SPLIT_0_SSW__HPPS_SMP_APP = 1"
definition HPPS_MBOX1_CHAN__HPPS_SMP_APP__RTPS_R52_SPLIT_1_SSW :: nat where "HPPS_MBOX1_CHAN__HPPS_SMP_APP__RTPS_R52_SPLIT_1_SSW = 2"
definition HPPS_MBOX1_CHAN__RTPS_R52_SPLIT_1_SSW__HPPS_SMP_APP :: nat where "HPPS_MBOX1_CHAN__RTPS_R52_SPLIT_1_SSW__HPPS_SMP_APP = 3"
definition HPPS_MBOX1_CHAN__HPPS_SMP_APP__RTPS_R52_SMP_SSW :: nat where "HPPS_MBOX1_CHAN__HPPS_SMP_APP__RTPS_R52_SMP_SSW = 0"
definition HPPS_MBOX1_CHAN__RTPS_R52_SMP_SSW__HPPS_SMP_APP :: nat where "HPPS_MBOX1_CHAN__RTPS_R52_SMP_SSW__HPPS_SMP_APP = 1"

subsection \<open>Memory\<close>

definition RTPS_DDR_ADDR__RTPS_R52_LOCKSTEP :: nat where "RTPS_DDR_ADDR__RTPS_R52_LOCKSTEP = 0x40000000"
definition RTPS_DDR_SIZE__RTPS_R52_LOCKSTEP :: nat where "RTPS_DDR_SIZE__RTPS_R52_LOCKSTEP = 0x7e000000"
definition RTPS_PT_ADDR :: nat where "RTPS_PT_ADDR = 0x40060000"
definition RTPS_PT_SIZE :: nat where "RTPS_PT_SIZE = 0x200000"
definition RTPS_DMA_MCODE_ADDR :: nat where "RTPS_DMA_MCODE_ADDR = 0x40050000"
definition RTPS_DMA_MCODE_SIZE :: nat where "RTPS_DMA_MCODE_SIZE = 0x1000"
definition RTPS_DMA_SRC_ADDR :: nat where "RTPS_DMA_SRC_ADDR = 0x40051000"
definition RTPS_DMA_SIZE :: nat where "RTPS_DMA_SIZE = 0x200"
definition RTPS_DMA_DST_ADDR :: nat where "RTPS_DMA_DST_ADDR = 0x40052000"
definition RTPS_DMA_DST_REMAP_ADDR :: nat where "RTPS_DMA_DST_REMAP_ADDR = 0x40053000"
definition RTPS_DDR_ADDR__SHM__RTPS_R52_LOCKSTEP :: nat where "RTPS_DDR_ADDR__SHM__RTPS_R52_LOCKSTEP = 0x40260000"
definition RTPS_DDR_SIZE__SHM__RTPS_R52_LOCKSTEP :: nat where "RTPS_DDR_SIZE__SHM__RTPS_R52_LOCKSTEP = 0x40000"
definition RTPS_DDR_ADDR__SHM__RTPS_R52_SPLIT_0 :: nat where "RTPS_DDR_ADDR__SHM__RTPS_R52_SPLIT_0 = 0x40260000"
definition RTPS_DDR_SIZE__SHM__RTPS_R52_SPLIT_0 :: nat where "RTPS_DDR_SIZE__SHM__RTPS_R52_SPLIT_0 = 0x20000"
definition RTPS_DDR_ADDR__SHM__RTPS_R52_SPLIT_1 :: nat where "RTPS_DDR_ADDR__SHM__RTPS_R52_SPLIT_1 = 0x40280000"
definition RTPS_DDR_SIZE__SHM__RTPS_R52_SPLIT_1 :: nat where "RTPS_DDR_SIZE__SHM__RTPS_R52_SPLIT_1 = 0x20000"
definition RTPS_DDR_ADDR__SHM__RTPS_R52_SMP :: nat where "RTPS_DDR_ADDR__SHM__RTPS_R52_SMP = 0x40260000"
definition RTPS_DDR_SIZE__SHM__RTPS_R52_SMP :: nat where "RTPS_DDR_SIZE__SHM__RTPS_R52_SMP = 0x40000"
definition RTPS_DDR_ADDR__SHM__TRCH_SSW__RTPS_R52_LOCKSTEP_SSW :: nat where "RTPS_DDR_ADDR__SHM__TRCH_SSW__RTPS_R52_LOCKSTEP_SSW = 0x40260000"
definition RTPS_DDR_SIZE__SHM__TRCH_SSW__RTPS_R52_LOCKSTEP_SSW :: nat where "RTPS_DDR_SIZE__SHM__TRCH_SSW__RTPS_R52_LOCKSTEP_SSW = 0x8000"
definition RTPS_DDR_ADDR__SHM__RTPS_R52_LOCKSTEP_SSW__TRCH_SSW :: nat where "RTPS_DDR_ADDR__SHM__RTPS_R52_LOCKSTEP_SSW__TRCH_SSW = 0x40268000"
definition RTPS_DDR_SIZE__SHM__RTPS_R52_LOCKSTEP_SSW__TRCH_SSW :: nat where "RTPS_DDR_SIZE__SHM__RTPS_R52_LOCKSTEP_SSW__TRCH_SSW = 0x8000"
definition RTPS_DDR_ADDR__SHM__TRCH_SSW__RTPS_R52_SPLIT_0_SSW :: nat where "RTPS_DDR_ADDR__SHM__TRCH_SSW__RTPS_R52_SPLIT_0_SSW = 0x40260000"
definition RTPS_DDR_SIZE__SHM__TRCH_SSW__RTPS_R52_SPLIT_0_SSW :: nat where "RTPS_DDR_SIZE__SHM__TRCH_SSW__RTPS_R52_SPLIT_0_SSW = 0x8000"
definition RTPS_DDR_ADDR__SHM__RTPS_R52_SPLIT_0_SSW__TRCH_SSW :: nat where "RTPS_DDR_ADDR__SHM__RTPS_R52_SPLIT_0_SSW__TRCH_SSW = 0x40268000"
definition RTPS_DDR_SIZE__SHM__RTPS_R52_SPLIT_0_SSW__TRCH_SSW :: nat where "RTPS_DDR_SIZE__SHM__RTPS_R52_SPLIT_0_SSW__TRCH_SSW = 0x8000"
definition RTPS_DDR_ADDR__SHM__TRCH_SSW__RTPS_R52_SPLIT_1_SSW :: nat where "RTPS_DDR_ADDR__SHM__TRCH_SSW__RTPS_R52_SPLIT_1_SSW = 0x40260000"
definition RTPS_DDR_SIZE__SHM__TRCH_SSW__RTPS_R52_SPLIT_1_SSW :: nat where "RTPS_DDR_SIZE__SHM__TRCH_SSW__RTPS_R52_SPLIT_1_SSW = 0x8000"
definition RTPS_DDR_ADDR__SHM__RTPS_R52_SPLIT_1_SSW__TRCH_SSW :: nat where "RTPS_DDR_ADDR__SHM__RTPS_R52_SPLIT_1_SSW__TRCH_SSW = 0x40268000"
definition RTPS_DDR_SIZE__SHM__RTPS_R52_SPLIT_1_SSW__TRCH_SSW :: nat where "RTPS_DDR_SIZE__SHM__RTPS_R52_SPLIT_1_SSW__TRCH_SSW = 0x8000"
definition RTPS_DDR_ADDR__SHM__TRCH_SSW__RTPS_R52_SMP_SSW :: nat where "RTPS_DDR_ADDR__SHM__TRCH_SSW__RTPS_R52_SMP_SSW = 0x40280000"
definition RTPS_DDR_SIZE__SHM__TRCH_SSW__RTPS_R52_SMP_SSW :: nat where "RTPS_DDR_SIZE__SHM__TRCH_SSW__RTPS_R52_SMP_SSW = 0x8000"
definition RTPS_DDR_ADDR__SHM__RTPS_R52_SMP_SSW__TRCH_SSW :: nat where "RTPS_DDR_ADDR__SHM__RTPS_R52_SMP_SSW__TRCH_SSW = 0x40288000"
definition RTPS_DDR_SIZE__SHM__RTPS_R52_SMP_SSW__TRCH_SSW :: nat where "RTPS_DDR_SIZE__SHM__RTPS_R52_SMP_SSW__TRCH_SSW = 0x8000"
definition RTPS_DDR_ADDR__SHM__RTPS_R52_LOCKSTEP__FREE :: nat where "RTPS_DDR_ADDR__SHM__RTPS_R52_LOCKSTEP__FREE = 0x40280000"
definition RTPS_DDR_SIZE__SHM__RTPS_R52_LOCKSTEP__FREE :: nat where "RTPS_DDR_SIZE__SHM__RTPS_R52_LOCKSTEP__FREE = 0x20000"
definition RTPS_DDR_ADDR__SHM__RTPS_R52_SPLIT_0__FREE :: nat where "RTPS_DDR_ADDR__SHM__RTPS_R52_SPLIT_0__FREE = 0x402a0000"
definition RTPS_DDR_SIZE__SHM__RTPS_R52_SPLIT_0__FREE :: nat where "RTPS_DDR_SIZE__SHM__RTPS_R52_SPLIT_0__FREE = 0x0"
definition RTPS_DDR_ADDR__SHM__RTPS_R52_SPLIT_1__FREE :: nat where "RTPS_DDR_ADDR__SHM__RTPS_R52_SPLIT_1__FREE = 0x402a0000"
definition RTPS_DDR_SIZE__SHM__RTPS_R52_SPLIT_1__FREE :: nat where "RTPS_DDR_SIZE__SHM__RTPS_R52_SPLIT_1__FREE = 0x0"
definition RTPS_DDR_ADDR__SHM__RTPS_R52_SMP__FREE :: nat where "RTPS_DDR_ADDR__SHM__RTPS_R52_SMP__FREE = 0x40280000"
definition RTPS_DDR_SIZE__SHM__RTPS_R52_SMP__FREE :: nat where "RTPS_DDR_SIZE__SHM__RTPS_R52_SMP__FREE = 0x20000"
definition WINDOWS_TO_40BIT_ADDR :: nat where "WINDOWS_TO_40BIT_ADDR = 0xc0000000"
definition WINDOWS_TO_40BIT_SIZE :: nat where "WINDOWS_TO_40BIT_SIZE = 0x20000000"
definition RT_MMU_TEST_DATA_HI_0_WIN_ADDR :: nat where "RT_MMU_TEST_DATA_HI_0_WIN_ADDR = 0xc0000000"
definition RT_MMU_TEST_DATA_HI_1_WIN_ADDR :: nat where "RT_MMU_TEST_DATA_HI_1_WIN_ADDR = 0xc1000000"
definition RT_MMU_TEST_DATA_HI_0_ADDR :: nat where "RT_MMU_TEST_DATA_HI_0_ADDR = 0x100000000"
definition RT_MMU_TEST_DATA_HI_1_ADDR :: nat where "RT_MMU_TEST_DATA_HI_1_ADDR = 0x100010000"
definition RT_MMU_TEST_DATA_HI_SIZE :: nat where "RT_MMU_TEST_DATA_HI_SIZE = 0x10000"
definition RTPS_HPPS_PT_ADDR :: nat where "RTPS_HPPS_PT_ADDR = 0x87e00000"
definition RTPS_HPPS_PT_SIZE :: nat where "RTPS_HPPS_PT_SIZE = 0x1ff000"
definition RT_MMU_TEST_DATA_LO_0_ADDR :: nat where "RT_MMU_TEST_DATA_LO_0_ADDR = 0x87ffe000"
definition RT_MMU_TEST_DATA_LO_1_ADDR :: nat where "RT_MMU_TEST_DATA_LO_1_ADDR = 0x87fff000"
definition RT_MMU_TEST_DATA_LO_SIZE :: nat where "RT_MMU_TEST_DATA_LO_SIZE = 0x1000"
definition HPPS_DDR_LOW_ADDR__HPPS_SMP :: nat where "HPPS_DDR_LOW_ADDR__HPPS_SMP = 0x80000000"
definition HPPS_DDR_LOW_SIZE__HPPS_SMP :: nat where "HPPS_DDR_LOW_SIZE__HPPS_SMP = 0x40000000"
definition HPPS_DDR_ADDR__SHM__HPPS_SMP :: nat where "HPPS_DDR_ADDR__SHM__HPPS_SMP = 0x87600000"
definition HPPS_DDR_SIZE__SHM__HPPS_SMP :: nat where "HPPS_DDR_SIZE__SHM__HPPS_SMP = 0x400000"
definition HPPS_DDR_ADDR__SHM__HPPS_SMP_APP__TRCH_SSW :: nat where "HPPS_DDR_ADDR__SHM__HPPS_SMP_APP__TRCH_SSW = 0x87600000"
definition HPPS_DDR_SIZE__SHM__HPPS_SMP_APP__TRCH_SSW :: nat where "HPPS_DDR_SIZE__SHM__HPPS_SMP_APP__TRCH_SSW = 0x10000"
definition HPPS_DDR_ADDR__SHM__TRCH_SSW__HPPS_SMP_APP :: nat where "HPPS_DDR_ADDR__SHM__TRCH_SSW__HPPS_SMP_APP = 0x87610000"
definition HPPS_DDR_SIZE__SHM__TRCH_SSW__HPPS_SMP_APP :: nat where "HPPS_DDR_SIZE__SHM__TRCH_SSW__HPPS_SMP_APP = 0x10000"
definition HPPS_DDR_ADDR__SHM__HPPS_SMP_SSW__TRCH_SSW :: nat where "HPPS_DDR_ADDR__SHM__HPPS_SMP_SSW__TRCH_SSW = 0x879f0000"
definition HPPS_DDR_SIZE__SHM__HPPS_SMP_SSW__TRCH_SSW :: nat where "HPPS_DDR_SIZE__SHM__HPPS_SMP_SSW__TRCH_SSW = 0x8000"
definition HPPS_DDR_ADDR__SHM__TRCH_SSW__HPPS_SMP_SSW :: nat where "HPPS_DDR_ADDR__SHM__TRCH_SSW__HPPS_SMP_SSW = 0x879f8000"
definition HPPS_DDR_SIZE__SHM__TRCH_SSW__HPPS_SMP_SSW :: nat where "HPPS_DDR_SIZE__SHM__TRCH_SSW__HPPS_SMP_SSW = 0x8000"

lemmas mailbox_map_defs =
  LSIO_MBOX0_INT_EVT0__TRCH_SSW_def LSIO_MBOX0_INT_EVT1__TRCH_SSW_def
  LSIO_MBOX0_INT_EVT0__RTPS_R52_LOCKSTEP_SSW_def LSIO_MBOX0_INT_EVT1__RTPS_R52_LOCKSTEP_SSW_def
  LSIO_MBOX0_INT_EVT0__RTPS_R52_SPLIT_0_SSW_def LSIO_MBOX0_INT_EVT1__RTPS_R52_SPLIT_0_SSW_def
  LSIO_MBOX0_INT_EVT0__RTPS_R52_SPLIT_1_SSW_def LSIO_MBOX0_INT_EVT1__RTPS_R52_SPLIT_1_SSW_def
  LSIO_MBOX0_INT_EVT0__RTPS_R52_SMP_SSW_def LSIO_MBOX0_INT_EVT1__RTPS_R52_SMP_SSW_def
  LSIO_MBOX0_INT_EVT0__RTPS_A53_ATF_def LSIO_MBOX0_INT_EVT1__RTPS_A53_ATF_def
  LSIO_MBOX0_CHAN__RTPS_R52_LOCKSTEP_SSW__TRCH_SSW_def LSIO_MBOX0_CHAN__TRCH_SSW__RTPS_R52_LOCKSTEP_SSW_def
  LSIO_MBOX0_CHAN__RTPS_R52_SPLIT_0_SSW__TRCH_SSW_def LSIO_MBOX0_CHAN__TRCH_SSW__RTPS_R52_SPLIT_0_SSW_def
  LSIO_MBOX0_CHAN__RTPS_R52_SPLIT_1_SSW__TRCH_SSW_def LSIO_MBOX0_CHAN__TRCH_SSW__RTPS_R52_SPLIT_1_SSW_def
  LSIO_MBOX0_CHAN__RTPS_R52_SMP_SSW__TRCH_SSW_def LSIO_MBOX0_CHAN__TRCH_SSW__RTPS_R52_SMP_SSW_def
  LSIO_MBOX0_CHAN__RTPS_A53_ATF__TRCH_SSW__RQST_def LSIO_MBOX0_CHAN__RTPS_A53_ATF__TRCH_SSW__RPLY_def
  LSIO_MBOX0_CHAN__RTPS_R52_LOCKSTEP_SSW__LOOPBACK_def LSIO_MBOX0_CHAN__RTPS_R52_SPLIT_0_SSW__LOOPBACK_def
  LSIO_MBOX0_CHAN__RTPS_R52_SPLIT_1_SSW__LOOPBACK_def LSIO_MBOX0_CHAN__RTPS_R52_SMP_SSW__LOOPBACK_def
  HPPS_MBOX0_INT_EVT0__TRCH_SSW_def HPPS_MBOX0_INT_EVT1__TRCH_SSW_def HPPS_MBOX0_INT_EVT0__HPPS_SMP_SSW_def
  HPPS_MBOX0_INT_EVT1__HPPS_SMP_SSW_def HPPS_MBOX0_CHAN__HPPS_SMP_APP__TRCH_SSW_def
  HPPS_MBOX0_CHAN__TRCH_SSW__HPPS_SMP_APP_def HPPS_MBOX0_CHAN__TRCH_SSW__HPPS_SMP_APP_OWN_def
  HPPS_MBOX0_CHAN__HPPS_SMP_APP_OWN__TRCH_SSW_def HPPS_MBOX0_CHAN__HPPS_SMP_ATF__TRCH_SSW_def
  HPPS_MBOX0_CHAN__TRCH_SSW__HPPS_SMP_ATF_def HPPS_MBOX0_CHAN__HPPS_SMP_SSW__TRCH_SSW_def
  HPPS_MBOX0_CHAN__TRCH_SSW__HPPS_SMP_SSW_def HPPS_MBOX1_INT_EVT0__RTPS_R52_LOCKSTEP_SSW_def
  HPPS_MBOX1_INT_EVT1__RTPS_R52_LOCKSTEP_SSW_def HPPS_MBOX1_INT_EVT0__RTPS_R52_SPLIT_0_SSW_def
  HPPS_MBOX1_INT_EVT1__RTPS_R52_SPLIT_0_SSW_def HPPS_MBOX1_INT_EVT0__RTPS_R52_SPLIT_1_SSW_def
  HPPS_MBOX1_INT_EVT1__RTPS_R52_SPLIT_1_SSW_def HPPS_MBOX1_INT_EVT0__RTPS_R52_SMP_SSW_def
  HPPS_MBOX1_INT_EVT1__RTPS_R52_SMP_SSW_def HPPS_MBOX1_INT_EVT0__HPPS_SMP_SSW_def
  HPPS_MBOX1_INT_EVT1__HPPS_SMP_SSW_def HPPS_MBOX1_CHAN__HPPS_SMP_APP__RTPS_R52_LOCKSTEP_SSW_def
  HPPS_MBOX1_CHAN__RTPS_R52_LOCKSTEP_SSW__HPPS_SMP_APP_def HPPS_MBOX1_CHAN__HPPS_SMP_APP__RTPS_R52_SPLIT_0_SSW_def
  HPPS_MBOX1_CHAN__RTPS_R52_SPLIT_0_SSW__HPPS_SMP_APP_def HPPS_MBOX1_CHAN__HPPS_SMP_APP__RTPS_R52_SPLIT_1_SSW_def
  HPPS_MBOX1_CHAN__RTPS_R52_SPLIT_1_SSW__HPPS_SMP_APP_def HPPS_MBOX1_CHAN__HPPS_SMP_APP__RTPS_R52_SMP_SSW_def
  HPPS_MBOX1_CHAN__RTPS_R52_SMP_SSW__HPPS_SMP_APP_def

lemmas mem_map_defs =
  RTPS_DDR_ADDR__RTPS_R52_LOCKSTEP_def RTPS_DDR_SIZE__RTPS_R52_LOCKSTEP_def RTPS_PT_ADDR_def RTPS_PT_SIZE_def
  RTPS_DMA_MCODE_ADDR_def RTPS_DMA_MCODE_SIZE_def RTPS_DMA_SRC_ADDR_def RTPS_DMA_SIZE_def RTPS_DMA_DST_ADDR_def
  RTPS_DMA_DST_REMAP_ADDR_def RTPS_DDR_ADDR__SHM__RTPS_R52_LOCKSTEP_def RTPS_DDR_SIZE__SHM__RTPS_R52_LOCKSTEP_def
  RTPS_DDR_ADDR__SHM__RTPS_R52_SPLIT_0_def RTPS_DDR_SIZE__SHM__RTPS_R52_SPLIT_0_def
  RTPS_DDR_ADDR__SHM__RTPS_R52_SPLIT_1_def RTPS_DDR_SIZE__SHM__RTPS_R52_SPLIT_1_def
  RTPS_DDR_ADDR__SHM__RTPS_R52_SMP_def RTPS_DDR_SIZE__SHM__RTPS_R52_SMP_def
  RTPS_DDR_ADDR__SHM__TRCH_SSW__RTPS_R52_LOCKSTEP_SSW_def RTPS_DDR_SIZE__SHM__TRCH_SSW__RTPS_R52_LOCKSTEP_SSW_def
  RTPS_DDR_ADDR__SHM__RTPS_R52_LOCKSTEP_SSW__TRCH_SSW_def RTPS_DDR_SIZE__SHM__RTPS_R52_LOCKSTEP_SSW__TRCH_SSW_def
  RTPS_DDR_ADDR__SHM__TRCH_SSW__RTPS_R52_SPLIT_0_SSW_def RTPS_DDR_SIZE__SHM__TRCH_SSW__RTPS_R52_SPLIT_0_SSW_def
  RTPS_DDR_ADDR__SHM__RTPS_R52_SPLIT_0_SSW__TRCH_SSW_def RTPS_DDR_SIZE__SHM__RTPS_R52_SPLIT_0_SSW__TRCH_SSW_def
  RTPS_DDR_ADDR__SHM__TRCH_SSW__RTPS_R52_SPLIT_1_SSW_def RTPS_DDR_SIZE__SHM__TRCH_SSW__RTPS_R52_SPLIT_1_SSW_def
  RTPS_DDR_ADDR__SHM__RTPS_R52_SPLIT_1_SSW__TRCH_SSW_def RTPS_DDR_SIZE__SHM__RTPS_R52_SPLIT_1_SSW__TRCH_SSW_def
  RTPS_DDR_ADDR__SHM__TRCH_SSW__RTPS_R52_SMP_SSW_def RTPS_DDR_SIZE__SHM__TRCH_SSW__RTPS_R52_SMP_SSW_def
  RTPS_DDR_ADDR__SHM__RTPS_R52_SMP_SSW__TRCH_SSW_def RTPS_DDR_SIZE__SHM__RTPS_R52_SMP_SSW__TRCH_SSW_def
  RTPS_DDR_ADDR__SHM__RTPS_R52_LOCKSTEP__FREE_def RTPS_DDR_SIZE__SHM__RTPS_R52_LOCKSTEP__FREE_def
  RTPS_DDR_ADDR__SHM__RTPS_R52_SPLIT_0__FREE_def RTPS_DDR_SIZE__SHM__RTPS_R52_SPLIT_0__FREE_def
  RTPS_DDR_ADDR__SHM__RTPS_R52_SPLIT_1__FREE_def RTPS_DDR_SIZE__SHM__RTPS_R52_SPLIT_1__FREE_def
  RTPS_DDR_ADDR__SHM__RTPS_R52_SMP__FREE_def RTPS_DDR_SIZE__SHM__RTPS_R52_SMP__FREE_def WINDOWS_TO_40BIT_ADDR_def
  WINDOWS_TO_40BIT_SIZE_def RT_MMU_TEST_DATA_HI_0_WIN_ADDR_def RT_MMU_TEST_DATA_HI_1_WIN_ADDR_def
  RT_MMU_TEST_DATA_HI_0_ADDR_def RT_MMU_TEST_DATA_HI_1_ADDR_def RT_MMU_TEST_DATA_HI_SIZE_def RTPS_HPPS_PT_ADDR_def
  RTPS_HPPS_PT_SIZE_def RT_MMU_TEST_DATA_LO_0_ADDR_def RT_MMU_TEST_DATA_LO_1_ADDR_def RT_MMU_TEST_DATA_LO_SIZE_def
  HPPS_DDR_LOW_ADDR__HPPS_SMP_def HPPS_DDR_LOW_SIZE__HPPS_SMP_def HPPS_DDR_ADDR__SHM__HPPS_SMP_def
  HPPS_DDR_SIZE__SHM__HPPS_SMP_def HPPS_DDR_ADDR__SHM__HPPS_SMP_APP__TRCH_SSW_def
  HPPS_DDR_SIZE__SHM__HPPS_SMP_APP__TRCH_SSW_def HPPS_DDR_ADDR__SHM__TRCH_SSW__HPPS_SMP_APP_def
  HPPS_DDR_SIZE__SHM__TRCH_SSW__HPPS_SMP_APP_def HPPS_DDR_ADDR__SHM__HPPS_SMP_SSW__TRCH_SSW_def
  HPPS_DDR_SIZE__SHM__HPPS_SMP_SSW__TRCH_SSW_def HPPS_DDR_ADDR__SHM__TRCH_SSW__HPPS_SMP_SSW_def
  HPPS_DDR_SIZE__SHM__TRCH_SSW__HPPS_SMP_SSW_def

subsection \<open>Who runs at the same time\<close>

datatype r52_mode = Lockstep | Split | Smp

text \<open>Channels and interrupt lines of the LSIO block and of the second HPPS block, by mode.\<close>

fun lsio_channels :: "r52_mode \<Rightarrow> nat list" where
  "lsio_channels Lockstep = [LSIO_MBOX0_CHAN__RTPS_R52_LOCKSTEP_SSW__TRCH_SSW, LSIO_MBOX0_CHAN__TRCH_SSW__RTPS_R52_LOCKSTEP_SSW,
     LSIO_MBOX0_CHAN__RTPS_A53_ATF__TRCH_SSW__RQST, LSIO_MBOX0_CHAN__RTPS_A53_ATF__TRCH_SSW__RPLY]"
| "lsio_channels Split = [LSIO_MBOX0_CHAN__RTPS_R52_SPLIT_0_SSW__TRCH_SSW, LSIO_MBOX0_CHAN__TRCH_SSW__RTPS_R52_SPLIT_0_SSW,
     LSIO_MBOX0_CHAN__RTPS_R52_SPLIT_1_SSW__TRCH_SSW, LSIO_MBOX0_CHAN__TRCH_SSW__RTPS_R52_SPLIT_1_SSW,
     LSIO_MBOX0_CHAN__RTPS_A53_ATF__TRCH_SSW__RQST, LSIO_MBOX0_CHAN__RTPS_A53_ATF__TRCH_SSW__RPLY]"
| "lsio_channels Smp = [LSIO_MBOX0_CHAN__RTPS_R52_SMP_SSW__TRCH_SSW, LSIO_MBOX0_CHAN__TRCH_SSW__RTPS_R52_SMP_SSW,
     LSIO_MBOX0_CHAN__RTPS_A53_ATF__TRCH_SSW__RQST, LSIO_MBOX0_CHAN__RTPS_A53_ATF__TRCH_SSW__RPLY]"

fun lsio_loopbacks :: "r52_mode \<Rightarrow> nat list" where
  "lsio_loopbacks Lockstep = [LSIO_MBOX0_CHAN__RTPS_R52_LOCKSTEP_SSW__LOOPBACK]"
| "lsio_loopbacks Split = [LSIO_MBOX0_CHAN__RTPS_R52_SPLIT_0_SSW__LOOPBACK, LSIO_MBOX0_CHAN__RTPS_R52_SPLIT_1_SSW__LOOPBACK]"
| "lsio_loopbacks Smp = [LSIO_MBOX0_CHAN__RTPS_R52_SMP_SSW__LOOPBACK]"

fun lsio_ints :: "r52_mode \<Rightarrow> nat list" where
  "lsio_ints Lockstep = [LSIO_MBOX0_INT_EVT0__TRCH_SSW, LSIO_MBOX0_INT_EVT1__TRCH_SSW,
     LSIO_MBOX0_INT_EVT0__RTPS_R52_LOCKSTEP_SSW, LSIO_MBOX0_INT_EVT1__RTPS_R52_LOCKSTEP_SSW,
     LSIO_MBOX0_INT_EVT0__RTPS_A53_ATF, LSIO_MBOX0_INT_EVT1__RTPS_A53_ATF]"
| "lsio_ints Split = [LSIO_MBOX0_INT_EVT0__TRCH_SSW, LSIO_MBOX0_INT_EVT1__TRCH_SSW,
     LSIO_MBOX0_INT_EVT0__RTPS_R52_SPLIT_0_SSW, LSIO_MBOX0_INT_EVT1__RTPS_R52_SPLIT_0_SSW,
     LSIO_MBOX0_INT_EVT0__RTPS_R52_SPLIT_1_SSW, LSIO_MBOX0_INT_EVT1__RTPS_R52_SPLIT_1_SSW,
     LSIO_MBOX0_INT_EVT0__RTPS_A53_ATF, LSIO_MBOX0_INT_EVT1__RTPS_A53_ATF]"
| "lsio_ints Smp = [LSIO_MBOX0_INT_EVT0__TRCH_SSW, LSIO_MBOX0_INT_EVT1__TRCH_SSW,
     LSIO_MBOX0_INT_EVT0__RTPS_R52_SMP_SSW, LSIO_MBOX0_INT_EVT1__RTPS_R52_SMP_SSW,
     LSIO_MBOX0_INT_EVT0__RTPS_A53_ATF, LSIO_MBOX0_INT_EVT1__RTPS_A53_ATF]"

fun hpps1_channels :: "r52_mode \<Rightarrow> nat list" where
  "hpps1_channels Lockstep = [HPPS_MBOX1_CHAN__HPPS_SMP_APP__RTPS_R52_LOCKSTEP_SSW, HPPS_MBOX1_CHAN__RTPS_R52_LOCKSTEP_SSW__HPPS_SMP_APP]"
| "hpps1_channels Split = [HPPS_MBOX1_CHAN__HPPS_SMP_APP__RTPS_R52_SPLIT_0_SSW, HPPS_MBOX1_CHAN__RTPS_R52_SPLIT_0_SSW__HPPS_SMP_APP,
     HPPS_MBOX1_CHAN__HPPS_SMP_APP__RTPS_R52_SPLIT_1_SSW, HPPS_MBOX1_CHAN__RTPS_R52_SPLIT_1_SSW__HPPS_SMP_APP]"
| "hpps1_channels Smp = [HPPS_MBOX1_CHAN__HPPS_SMP_APP__RTPS_R52_SMP_SSW, HPPS_MBOX1_CHAN__RTPS_R52_SMP_SSW__HPPS_SMP_APP]"

fun hpps1_ints :: "r52_mode \<Rightarrow> nat list" where
  "hpps1_ints Lockstep = [HPPS_MBOX1_INT_EVT0__RTPS_R52_LOCKSTEP_SSW, HPPS_MBOX1_INT_EVT1__RTPS_R52_LOCKSTEP_SSW,
     HPPS_MBOX1_INT_EVT0__HPPS_SMP_SSW, HPPS_MBOX1_INT_EVT1__HPPS_SMP_SSW]"
| "hpps1_ints Split = [HPPS_MBOX1_INT_EVT0__RTPS_R52_SPLIT_0_SSW, HPPS_MBOX1_INT_EVT1__RTPS_R52_SPLIT_0_SSW,
     HPPS_MBOX1_INT_EVT0__RTPS_R52_SPLIT_1_SSW, HPPS_MBOX1_INT_EVT1__RTPS_R52_SPLIT_1_SSW,
     HPPS_MBOX1_INT_EVT0__HPPS_SMP_SSW, HPPS_MBOX1_INT_EVT1__HPPS_SMP_SSW]"
| "hpps1_ints Smp = [HPPS_MBOX1_INT_EVT0__RTPS_R52_SMP_SSW, HPPS_MBOX1_INT_EVT1__RTPS_R52_SMP_SSW,
     HPPS_MBOX1_INT_EVT0__HPPS_SMP_SSW, HPPS_MBOX1_INT_EVT1__HPPS_SMP_SSW]"

definition hpps0_channels :: "nat list" where
  "hpps0_channels = [HPPS_MBOX0_CHAN__HPPS_SMP_APP__TRCH_SSW, HPPS_MBOX0_CHAN__TRCH_SSW__HPPS_SMP_APP,
     HPPS_MBOX0_CHAN__TRCH_SSW__HPPS_SMP_APP_OWN, HPPS_MBOX0_CHAN__HPPS_SMP_APP_OWN__TRCH_SSW,
     HPPS_MBOX0_CHAN__HPPS_SMP_ATF__TRCH_SSW, HPPS_MBOX0_CHAN__TRCH_SSW__HPPS_SMP_ATF,
     HPPS_MBOX0_CHAN__HPPS_SMP_SSW__TRCH_SSW, HPPS_MBOX0_CHAN__TRCH_SSW__HPPS_SMP_SSW]"

definition hpps0_ints :: "nat list" where
  "hpps0_ints = [HPPS_MBOX0_INT_EVT0__TRCH_SSW, HPPS_MBOX0_INT_EVT1__TRCH_SSW,
     HPPS_MBOX0_INT_EVT0__HPPS_SMP_SSW, HPPS_MBOX0_INT_EVT1__HPPS_SMP_SSW]"

text \<open>Memory regions as address and size: what is set aside for messages in each mode, and the messages' regions in it.\<close>

type_synonym region = "nat \<times> nat"

definition overlap :: "region \<Rightarrow> region \<Rightarrow> bool" where
  "overlap r s \<longleftrightarrow> fst r < fst s + snd s \<and> fst s < fst r + snd r"

definition inside :: "region \<Rightarrow> region \<Rightarrow> bool" where
  "inside r s \<longleftrightarrow> fst s \<le> fst r \<and> fst r + snd r \<le> fst s + snd s"

fun disjoint_regions :: "region list \<Rightarrow> bool" where
  "disjoint_regions [] = True"
| "disjoint_regions (r # rs) \<longleftrightarrow> list_all (\<lambda>s. \<not> overlap r s) rs \<and> disjoint_regions rs"

text \<open>In split mode there are two systems; \<open>first\<close> tells them apart.\<close>

fun shm_reserved :: "r52_mode \<Rightarrow> bool \<Rightarrow> region" where
  "shm_reserved Lockstep _ = (RTPS_DDR_ADDR__SHM__RTPS_R52_LOCKSTEP, RTPS_DDR_SIZE__SHM__RTPS_R52_LOCKSTEP)"
| "shm_reserved Split first = (if first then (RTPS_DDR_ADDR__SHM__RTPS_R52_SPLIT_0, RTPS_DDR_SIZE__SHM__RTPS_R52_SPLIT_0)
     else (RTPS_DDR_ADDR__SHM__RTPS_R52_SPLIT_1, RTPS_DDR_SIZE__SHM__RTPS_R52_SPLIT_1))"
| "shm_reserved Smp _ = (RTPS_DDR_ADDR__SHM__RTPS_R52_SMP, RTPS_DDR_SIZE__SHM__RTPS_R52_SMP)"

fun shm_messages :: "r52_mode \<Rightarrow> bool \<Rightarrow> region list" where
  "shm_messages Lockstep _ =
     [(RTPS_DDR_ADDR__SHM__TRCH_SSW__RTPS_R52_LOCKSTEP_SSW, RTPS_DDR_SIZE__SHM__TRCH_SSW__RTPS_R52_LOCKSTEP_SSW),
      (RTPS_DDR_ADDR__SHM__RTPS_R52_LOCKSTEP_SSW__TRCH_SSW, RTPS_DDR_SIZE__SHM__RTPS_R52_LOCKSTEP_SSW__TRCH_SSW)]"
| "shm_messages Split first = (if first then
     [(RTPS_DDR_ADDR__SHM__TRCH_SSW__RTPS_R52_SPLIT_0_SSW, RTPS_DDR_SIZE__SHM__TRCH_SSW__RTPS_R52_SPLIT_0_SSW),
      (RTPS_DDR_ADDR__SHM__RTPS_R52_SPLIT_0_SSW__TRCH_SSW, RTPS_DDR_SIZE__SHM__RTPS_R52_SPLIT_0_SSW__TRCH_SSW)]
     else
     [(RTPS_DDR_ADDR__SHM__TRCH_SSW__RTPS_R52_SPLIT_1_SSW, RTPS_DDR_SIZE__SHM__TRCH_SSW__RTPS_R52_SPLIT_1_SSW),
      (RTPS_DDR_ADDR__SHM__RTPS_R52_SPLIT_1_SSW__TRCH_SSW, RTPS_DDR_SIZE__SHM__RTPS_R52_SPLIT_1_SSW__TRCH_SSW)])"
| "shm_messages Smp _ =
     [(RTPS_DDR_ADDR__SHM__TRCH_SSW__RTPS_R52_SMP_SSW, RTPS_DDR_SIZE__SHM__TRCH_SSW__RTPS_R52_SMP_SSW),
      (RTPS_DDR_ADDR__SHM__RTPS_R52_SMP_SSW__TRCH_SSW, RTPS_DDR_SIZE__SHM__RTPS_R52_SMP_SSW__TRCH_SSW)]"

fun shm_free :: "r52_mode \<Rightarrow> bool \<Rightarrow> region" where
  "shm_free Lockstep _ = (RTPS_DDR_ADDR__SHM__RTPS_R52_LOCKSTEP__FREE, RTPS_DDR_SIZE__SHM__RTPS_R52_LOCKSTEP__FREE)"
| "shm_free Split first = (if first then (RTPS_DDR_ADDR__SHM__RTPS_R52_SPLIT_0__FREE, RTPS_DDR_SIZE__SHM__RTPS_R52_SPLIT_0__FREE)
     else (RTPS_DDR_ADDR__SHM__RTPS_R52_SPLIT_1__FREE, RTPS_DDR_SIZE__SHM__RTPS_R52_SPLIT_1__FREE))"
| "shm_free Smp _ = (RTPS_DDR_ADDR__SHM__RTPS_R52_SMP__FREE, RTPS_DDR_SIZE__SHM__RTPS_R52_SMP__FREE)"

text \<open>The other users of the real-time node's memory, and the regions of the application processors' memory.\<close>

definition rtps_private :: "region list" where
  "rtps_private = [(RTPS_DMA_MCODE_ADDR, RTPS_DMA_MCODE_SIZE), (RTPS_DMA_SRC_ADDR, RTPS_DMA_SIZE), (RTPS_DMA_DST_ADDR, RTPS_DMA_SIZE),
     (RTPS_DMA_DST_REMAP_ADDR, RTPS_DMA_SIZE), (RTPS_PT_ADDR, RTPS_PT_SIZE)]"

definition hpps_shm :: "region list" where
  "hpps_shm = [(HPPS_DDR_ADDR__SHM__HPPS_SMP_APP__TRCH_SSW, HPPS_DDR_SIZE__SHM__HPPS_SMP_APP__TRCH_SSW),
     (HPPS_DDR_ADDR__SHM__TRCH_SSW__HPPS_SMP_APP, HPPS_DDR_SIZE__SHM__TRCH_SSW__HPPS_SMP_APP),
     (HPPS_DDR_ADDR__SHM__HPPS_SMP_SSW__TRCH_SSW, HPPS_DDR_SIZE__SHM__HPPS_SMP_SSW__TRCH_SSW),
     (HPPS_DDR_ADDR__SHM__TRCH_SSW__HPPS_SMP_SSW, HPPS_DDR_SIZE__SHM__TRCH_SSW__HPPS_SMP_SSW)]"

definition hpps_tests :: "region list" where
  "hpps_tests = [(RTPS_HPPS_PT_ADDR, RTPS_HPPS_PT_SIZE), (RT_MMU_TEST_DATA_LO_0_ADDR, RT_MMU_TEST_DATA_LO_SIZE),
     (RT_MMU_TEST_DATA_LO_1_ADDR, RT_MMU_TEST_DATA_LO_SIZE)]"

text \<open>The windows through which addresses above 32 bits are reached.\<close>

definition mmu_windows :: "region list" where
  "mmu_windows = [(RT_MMU_TEST_DATA_HI_0_WIN_ADDR, RT_MMU_TEST_DATA_HI_SIZE), (RT_MMU_TEST_DATA_HI_1_WIN_ADDR, RT_MMU_TEST_DATA_HI_SIZE)]"

definition mmu_targets :: "region list" where
  "mmu_targets = [(RT_MMU_TEST_DATA_HI_0_ADDR, RT_MMU_TEST_DATA_HI_SIZE), (RT_MMU_TEST_DATA_HI_1_ADDR, RT_MMU_TEST_DATA_HI_SIZE)]"

subsection \<open>Properties\<close>

theorem mailbox_allocations:
  "distinct (lsio_channels m @ [hd (lsio_loopbacks m)]) \<and> list_all (\<lambda>c. c < HPSC_MBOX_CHANNELS) (lsio_channels m @ lsio_loopbacks m) \<and>
   distinct (hpps1_channels m) \<and> list_all (\<lambda>c. c < HPSC_MBOX_CHANNELS) (hpps1_channels m) \<and>
   distinct hpps0_channels \<and> list_all (\<lambda>c. c < HPSC_MBOX_CHANNELS) hpps0_channels \<and>
   distinct (lsio_ints m) \<and> distinct (hpps1_ints m) \<and> distinct hpps0_ints \<and>
   (distinct (lsio_loopbacks m) \<longleftrightarrow> m \<noteq> Split)"
  by (cases m) (simp_all add: mailbox_map_defs hpps0_channels_def hpps0_ints_def)


end
