(* ===== verification/Gic.thy ===== *)
theory Gic
  imports Prelude
begin

text \<open>
  The interrupt controller helpers (\<open>rtps-r52/gic.h\<close>, \<open>rtps-r52/gic.c\<close>).  The configuration
  registers are indexed by name: the two banked ones of the redistributor and the array
  \<open>icdicfr\<close> of the distributor.  The BSP's \<open>gic_trigger_mode\<close> is an enumeration of the two
  values of a configuration bit; it is kept as the word that the code shifts.
\<close>

subsection \<open>Model\<close>

definition GIC_INTERNAL :: u32 where "GIC_INTERNAL = 32"
definition GIC_NR_SGIS :: u32 where "GIC_NR_SGIS = 16"

datatype gic_irq_type_t = GIC_IRQ_TYPE_SPI | GIC_IRQ_TYPE_LPI | GIC_IRQ_TYPE_PPI | GIC_IRQ_TYPE_SGI

fun gic_irq_to_rvn :: "u32 \<Rightarrow> gic_irq_type_t \<Rightarrow> u32 res" where
  "gic_irq_to_rvn irq GIC_IRQ_TYPE_SPI = Inr (GIC_INTERNAL + irq)"
| "gic_irq_to_rvn irq GIC_IRQ_TYPE_PPI = Inr (GIC_NR_SGIS + irq)"
| "gic_irq_to_rvn irq GIC_IRQ_TYPE_SGI = Inr irq"
| "gic_irq_to_rvn irq GIC_IRQ_TYPE_LPI = Inl Panic"

datatype gic_reg = Icspicfgr0 | Icspicfgr1 | Icdicfr u32

type_synonym gic_regs = "gic_reg \<Rightarrow> u32"

definition GIC_TRIGGER_BIT :: "u32 \<Rightarrow> u32" where
  "GIC_TRIGGER_BIT vec = 2 * (vec mod 16) + 1"

definition to_reg_ptr :: "u32 \<Rightarrow> gic_reg" where
  "to_reg_ptr vector =
     (if vector < 16 then Icspicfgr0
      else if vector < 32 then Icspicfgr1
      else Icdicfr (vector div 16))"

definition gic_trigger_get :: "u32 \<Rightarrow> gic_regs \<Rightarrow> u32" where
  "gic_trigger_get vector regs =
     (let b = GIC_TRIGGER_BIT vector; value = regs (to_reg_ptr vector)
      in drop_bit (unat b) value AND 1)"

definition gic_trigger_set :: "u32 \<Rightarrow> u32 \<Rightarrow> gic_regs \<Rightarrow> gic_regs" where
  "gic_trigger_set vector condition regs =
     (let b = GIC_TRIGGER_BIT vector;
          msk = push_bit (unat b) 1;
          bit_value = push_bit (unat b) condition;
          reg = to_reg_ptr vector;
          value = (regs reg AND NOT msk) OR bit_value
      in regs(reg := value))"

subsection \<open>Properties\<close>

lemma unat_trigger_bit: "unat (GIC_TRIGGER_BIT vec) = 2 * (unat vec mod 16) + 1"
proof -
  have m: "unat (vec mod 16) = unat vec mod 16" by (simp add: unat_mod)
  have "unat vec mod 16 < 16" by simp
  then show ?thesis
    unfolding GIC_TRIGGER_BIT_def
    by (simp add: unat_word_ariths m mod_less)
qed

lemma trigger_slot_inj:
  assumes "to_reg_ptr v = to_reg_ptr w" and "GIC_TRIGGER_BIT v = GIC_TRIGGER_BIT w"
  shows "v = w"
proof -
  from assms(2) have "unat v mod 16 = unat w mod 16"
    using unat_trigger_bit [of v] unat_trigger_bit [of w] by simp
  moreover have "unat v div 16 = unat w div 16"
  proof -
    have d: "unat x div 16 = (if x < 16 then 0 else if x < 32 then 1 else unat (x div 16))" for x :: u32
      by (auto simp: unat_div word_less_nat_alt)
    show ?thesis
      using assms(1) unfolding d [of v] d [of w] by (auto simp: to_reg_ptr_def split: if_splits)
  qed
  ultimately have "unat v = unat w" by (metis div_mult_mod_eq)
  then show ?thesis by (simp add: word_unat_eq_iff)
qed

lemma bit_trigger_set:
  assumes "c = 0 \<or> c = 1"
  shows "bit (gic_trigger_set v c regs r) n \<longleftrightarrow>
    (if r = to_reg_ptr v \<and> n = unat (GIC_TRIGGER_BIT v) then c = 1 else bit (regs r) n)"
proof -
  have "unat v mod 16 < 16" by simp
  then have "unat (GIC_TRIGGER_BIT v) < 32"
    unfolding unat_trigger_bit by linarith
  moreover have "bit (regs r) n \<Longrightarrow> n < 32" for r n
    using bit_imp_le_length [of "regs r" n] by simp
  ultimately show ?thesis
    using assms by (auto simp: gic_trigger_set_def Let_def bit_simps)
qed

lemma gic_trigger_get_bit: "gic_trigger_get v regs = of_bool (bit (regs (to_reg_ptr v)) (unat (GIC_TRIGGER_BIT v)))"
  by (rule bit_word_eqI) (auto simp: gic_trigger_get_def Let_def bit_simps)

theorem gic_trigger_set_get:
  assumes "c = 0 \<or> c = 1"
  shows "gic_trigger_get w (gic_trigger_set v c regs) = (if w = v then c else gic_trigger_get w regs) \<and>
    bit (gic_trigger_set v c regs r) n =
      (if r = to_reg_ptr v \<and> n = unat (GIC_TRIGGER_BIT v) then c = 1 else bit (regs r) n)"
  using assms trigger_slot_inj [of w v]
  by (auto simp: gic_trigger_get_bit bit_trigger_set word_unat_eq_iff [of "GIC_TRIGGER_BIT w"])

theorem gic_trigger_set_get_witness:
  "gic_trigger_get 37 (gic_trigger_set 37 1 (\<lambda>_. 0)) = 1 \<and> gic_trigger_get 38 (gic_trigger_set 37 1 (\<lambda>_. 0)) = 0"
  using gic_trigger_set_get [of 1 37 37 "\<lambda>_. 0"] gic_trigger_set_get [of 1 38 37 "\<lambda>_. 0"]
  by (simp add: gic_trigger_get_def Let_def)

lemma unat_of_vector:
  assumes "case t of GIC_IRQ_TYPE_SPI \<Rightarrow> irq < 988 | _ \<Rightarrow> irq < 16"
    and "gic_irq_to_rvn irq t = Inr v"
  shows "t \<noteq> GIC_IRQ_TYPE_LPI"
    and "unat v = unat irq + (case t of GIC_IRQ_TYPE_SPI \<Rightarrow> 32 | GIC_IRQ_TYPE_PPI \<Rightarrow> 16 | _ \<Rightarrow> 0)"
    and "case t of GIC_IRQ_TYPE_SPI \<Rightarrow> unat irq < 988 | _ \<Rightarrow> unat irq < 16"
  using assms
  by (cases t; auto simp: GIC_INTERNAL_def GIC_NR_SGIS_def word_less_nat_alt unat_word_ariths)+

theorem gic_vectors_of_classes:
  assumes "case t of GIC_IRQ_TYPE_SPI \<Rightarrow> irq < 988 | _ \<Rightarrow> irq < 16"
    and "case t' of GIC_IRQ_TYPE_SPI \<Rightarrow> irq' < 988 | _ \<Rightarrow> irq' < 16"
    and "gic_irq_to_rvn irq t = Inr v" and "gic_irq_to_rvn irq' t' = Inr v'"
  shows "(v = v' \<longleftrightarrow> irq = irq' \<and> t = t') \<and>
    (case t of GIC_IRQ_TYPE_SGI \<Rightarrow> to_reg_ptr v = Icspicfgr0
     | GIC_IRQ_TYPE_PPI \<Rightarrow> to_reg_ptr v = Icspicfgr1
     | _ \<Rightarrow> (\<exists>n. to_reg_ptr v = Icdicfr n \<and> 2 \<le> unat n \<and> unat n < 64))"
proof
  note u = unat_of_vector [OF assms(1,3)] and u' = unat_of_vector [OF assms(2,4)]
  show "v = v' \<longleftrightarrow> irq = irq' \<and> t = t'"
    using u u' by (cases t; cases t') (auto simp: word_unat_eq_iff)
  show "case t of GIC_IRQ_TYPE_SGI \<Rightarrow> to_reg_ptr v = Icspicfgr0
     | GIC_IRQ_TYPE_PPI \<Rightarrow> to_reg_ptr v = Icspicfgr1
     | _ \<Rightarrow> (\<exists>n. to_reg_ptr v = Icdicfr n \<and> 2 \<le> unat n \<and> unat n < 64)"
    using u by (cases t) (auto simp: to_reg_ptr_def word_less_nat_alt unat_div)
qed

theorem gic_vectors_of_classes_witness:
  "\<exists>n. to_reg_ptr (GIC_INTERNAL + 5) = Icdicfr n \<and> 2 \<le> unat n \<and> GIC_INTERNAL + 5 \<noteq> GIC_NR_SGIS + 5"
  using gic_vectors_of_classes [where t = GIC_IRQ_TYPE_SPI and irq = 5 and t' = GIC_IRQ_TYPE_PPI and irq' = 5
      and v = "GIC_INTERNAL + 5" and v' = "GIC_NR_SGIS + 5"]
  by auto

end
