(* ===== verification/Watchdog_Cpu.thy ===== *)
theory Watchdog_Cpu
  imports Link_Requests
begin

text \<open>
  The tasks that kick the watchdogs (\<open>lib/hpsc/watchdog-cpu.h\<close>, \<open>lib/hpsc/watchdog-cpu.c\<close>), one
  per processor.  The watchdog driver belongs to the board support package; the context that
  is passed to a task is designated by the number of its processor.
\<close>

subsection \<open>Model\<close>

definition WDT_TASK_EXIT :: rtems_event_set where "WDT_TASK_EXIT = RTEMS_EVENT_0"

definition upd_wdtc :: "nat \<Rightarrow> (watchdog_task_ctx \<Rightarrow> watchdog_task_ctx) \<Rightarrow> 'k world \<Rightarrow> 'k world" where
  "upd_wdtc cpu f w = w\<lparr>w_wdtc := (w_wdtc w)(cpu := f (w_wdtc w cpu))\<rparr>"

text \<open>
  One turn of the loop of \<open>watchdog_task\<close>.  The local variable \<open>events\<close> is never initialised, and
  a wait that times out does not store to it: its value goes in and out.  The first component
  of the result says whether the task has exited.
\<close>

definition watchdog_turn ::
  "'k sys \<Rightarrow> 'k env \<Rightarrow> nat \<Rightarrow> rtems_event_set \<Rightarrow> 'k world \<Rightarrow> (bool \<times> rtems_event_set \<times> 'k world) res" where
  "watchdog_turn sys env cpu events w =
     (let w1 = w\<lparr>w_ker := rt_wdt_kick (sys_K sys) (wt_wdt (w_wdtc w cpu)) (w_ker w)\<rparr> in
      res_bind (event_receive sys env WDT_TASK_EXIT (wt_ticks (w_wdtc w1 cpu)) w1) (\<lambda>(received, w2).
        let events' = (if received \<noteq> 0 then received else events) in
        if events' AND WDT_TASK_EXIT \<noteq> 0
        then let w3 = upd_wdtc cpu (\<lambda>c. c\<lparr>wt_running := False\<rparr>) w2
             in Inr (True, events', w3\<lparr>w_ker := rt_task_exit (sys_K sys) (w_ker w3)\<rparr>)
        else Inr (False, events', w2)))"

text \<open>At most \<open>length envs\<close> turns of the task.\<close>

fun watchdog_task ::
  "'k sys \<Rightarrow> 'k env list \<Rightarrow> nat \<Rightarrow> rtems_event_set \<Rightarrow> 'k world \<Rightarrow> (bool \<times> 'k world) res" where
  "watchdog_task sys [] cpu events w = Inr (False, w)"
| "watchdog_task sys (env # envs) cpu events w =
     res_bind (watchdog_turn sys env cpu events w) (\<lambda>(exited, events', w').
       if exited then Inr (True, w') else watchdog_task sys envs cpu events' w')"

definition watchdog_cpu_task_start ::
  "'k sys \<Rightarrow> ptr \<Rightarrow> rtems_id \<Rightarrow> rtems_interval \<Rightarrow> handler \<Rightarrow> ptr \<Rightarrow> 'k world \<Rightarrow> (rtems_status_code \<times> 'k world) res" where
  "watchdog_cpu_task_start sys wdt task_id ticks h arg w =
     c_assert (wdt \<noteq> NULL)
      (let cpu = rt_current_cpu (sys_K sys) (w_ker w) in
       if wt_running (w_wdtc w cpu) then Inr (RTEMS_UNSATISFIED, w)
       else
         let w1 = upd_wdtc cpu (\<lambda>_. \<lparr>wt_wdt = wdt, wt_tid = task_id, wt_ticks = ticks, wt_cb = h, wt_cb_arg = arg,
                    wt_running = True\<rparr>) w in
         case rt_wdt_handler_install (sys_K sys) wdt h arg (w_ker w1) of (sc, k) \<Rightarrow>
         if sc \<noteq> RTEMS_SUCCESSFUL
         then Inr (sc, upd_wdtc cpu (\<lambda>c. c\<lparr>wt_running := False\<rparr>) (w1\<lparr>w_ker := k\<rparr>))
         else
           case rt_task_start (sys_K sys) task_id Watchdog_task (of_nat cpu) (rt_wdt_enable (sys_K sys) wdt k) of (sc', k') \<Rightarrow>
           if sc' \<noteq> RTEMS_SUCCESSFUL
           then case rt_wdt_handler_remove (sys_K sys) wdt h arg k' of (sc_tmp, k'') \<Rightarrow>
             c_assert (sc_tmp = RTEMS_SUCCESSFUL)
               (Inr (sc', upd_wdtc cpu (\<lambda>c. c\<lparr>wt_running := False\<rparr>) (w1\<lparr>w_ker := k''\<rparr>)))
           else Inr (sc', w1\<lparr>w_ker := k'\<rparr>))"

definition watchdog_cpu_task_stop ::
  "'k sys \<Rightarrow> ('k world \<Rightarrow> 'k world res) \<Rightarrow> nat \<Rightarrow> 'k world \<Rightarrow> (rtems_status_code \<times> 'k world) res" where
  "watchdog_cpu_task_stop sys yield fuel w =
     (let cpu = rt_current_cpu (sys_K sys) (w_ker w); ctx = w_wdtc w cpu in
      if wt_running ctx
      then case rt_wdt_handler_remove (sys_K sys) (wt_wdt ctx) (wt_cb ctx) (wt_cb_arg ctx) (w_ker w) of (sc, k) \<Rightarrow>
        c_assert (sc = RTEMS_SUCCESSFUL)
         (case event_send sys (wt_tid ctx) WDT_TASK_EXIT (w\<lparr>w_ker := k\<rparr>) of (sc', w1) \<Rightarrow>
            if sc' = RTEMS_SUCCESSFUL
            then res_bind (wait_while (\<lambda>w. Inr (wt_running (w_wdtc w cpu))) yield fuel w1) (\<lambda>w2. Inr (sc', w2))
            else Inr (sc', w1))
      else Inr (RTEMS_NOT_DEFINED, w))"

lemma upd_wdtc_simps [simp]:
  "w_wdtc (upd_wdtc cpu f w) = (w_wdtc w)(cpu := f (w_wdtc w cpu))" "w_ker (upd_wdtc cpu f w) = w_ker w"
  "upd_wdtc cpu g (upd_wdtc cpu f w) = upd_wdtc cpu (g \<circ> f) w"
  "(upd_wdtc cpu f w)\<lparr>w_ker := k\<rparr> = upd_wdtc cpu f (w\<lparr>w_ker := k\<rparr>)"
  by (simp_all add: upd_wdtc_def)

subsection \<open>Kicking\<close>

text \<open>The other calls of the task do not kick; kicking has no effect on events and tasks.\<close>

definition kick_laws :: "'k rtems \<Rightarrow> ('k \<Rightarrow> rtems_id \<Rightarrow> rtems_event_set) \<Rightarrow> ('k \<Rightarrow> ptr \<Rightarrow> nat) \<Rightarrow> bool" where
  "kick_laws K pend kicks \<longleftrightarrow>
     (\<forall>p k. kicks (rt_wdt_kick K p k) = (kicks k)(p := Suc (kicks k p)) \<and> pend (rt_wdt_kick K p k) = pend k \<and>
        rt_task_self K (rt_wdt_kick K p k) = rt_task_self K k) \<and>
     (\<forall>m k. kicks (snd (rt_event_take K m k)) = kicks k)"

lemma kick_laws_kick:
  assumes "kick_laws K pend kicks"
  shows "kicks (rt_wdt_kick K p k) = (kicks k)(p := Suc (kicks k p))" "pend (rt_wdt_kick K p k) = pend k"
    "rt_task_self K (rt_wdt_kick K p k) = rt_task_self K k" "rt_event_take K m k = (ev, k') \<Longrightarrow> kicks k' = kicks k"
  using assms unfolding kick_laws_def by (metis snd_conv)+

lemma watchdog_turn_eq:
  assumes ev: "event_laws (sys_K sys) pend"
    and env: "env (wt_ticks (w_wdtc w cpu)) (w\<lparr>w_ker := rt_wdt_kick (sys_K sys) (wt_wdt (w_wdtc w cpu)) (w_ker w)\<rparr>) = Inr w1"
  shows "\<exists>k e. rt_event_take (sys_K sys) WDT_TASK_EXIT (w_ker w1) = (e, k) \<and>
    e = pend (w_ker w1) (rt_task_self (sys_K sys) (w_ker w1)) AND WDT_TASK_EXIT \<and>
    watchdog_turn sys env cpu events w =
      (if e = 0 \<and> events AND WDT_TASK_EXIT = 0 then Inr (False, events, w1\<lparr>w_ker := k\<rparr>)
       else Inr (True, if e = 0 then events else e,
         upd_wdtc cpu (\<lambda>c. c\<lparr>wt_running := False\<rparr>) (w1\<lparr>w_ker := rt_task_exit (sys_K sys) k\<rparr>)))"
proof -
  obtain e k where t: "rt_event_take (sys_K sys) WDT_TASK_EXIT (w_ker w1) = (e, k)" by fastforce
  note e = event_laws_take(1) [OF ev t]
  then have "e AND WDT_TASK_EXIT = e" by (simp add: and.assoc)
  then show ?thesis
    using t env e by (intro exI [of _ k] exI [of _ e]) (simp add: watchdog_turn_def event_receive_def Let_def)
qed

text \<open>C25. A watchdog task that is sent no exit event kicks its watchdog once in every interval and goes
  on, provided that its local variable \<open>events\<close>, which is never initialised, does not
  happen to contain the exit bit; if it does, the task ends after its first kick and nobody kicks the
  watchdog any more.\<close>

theorem watchdog_task_kicks:
  assumes ev: "event_laws (sys_K sys) pend" and kl: "kick_laws (sys_K sys) pend kicks"
    and quiet: "pend (w_ker w) (rt_task_self (sys_K sys) (w_ker w)) AND WDT_TASK_EXIT = 0"
  shows "if events AND WDT_TASK_EXIT = 0
    then \<exists>w'. watchdog_task sys (replicate n (\<lambda>_. Inr)) cpu events w = Inr (False, w') \<and> w_wdtc w' = w_wdtc w \<and>
      kicks (w_ker w') (wt_wdt (w_wdtc w cpu)) = kicks (w_ker w) (wt_wdt (w_wdtc w cpu)) + n
    else \<exists>w'. watchdog_task sys (replicate (Suc n) (\<lambda>_. Inr)) cpu events w = Inr (True, w') \<and>
      \<not> wt_running (w_wdtc w' cpu) \<and>
      watchdog_turn sys (\<lambda>_. Inr) cpu events w = Inr (True, events, w')"
proof (cases "events AND WDT_TASK_EXIT = 0")
  case True
  have "\<exists>w'. watchdog_task sys (replicate n (\<lambda>_. Inr)) cpu events w = Inr (False, w') \<and> w_wdtc w' = w_wdtc w \<and>
      kicks (w_ker w') (wt_wdt (w_wdtc w cpu)) = kicks (w_ker w) (wt_wdt (w_wdtc w cpu)) + n"
    using quiet
  proof (induction n arbitrary: w)
    case (Suc n)
    let ?w1 = "w\<lparr>w_ker := rt_wdt_kick (sys_K sys) (wt_wdt (w_wdtc w cpu)) (w_ker w)\<rparr>"
    obtain k e where k: "rt_event_take (sys_K sys) WDT_TASK_EXIT (w_ker ?w1) = (e, k)"
      "e = pend (w_ker ?w1) (rt_task_self (sys_K sys) (w_ker ?w1)) AND WDT_TASK_EXIT"
      "watchdog_turn sys (\<lambda>_. Inr) cpu events w =
        (if e = 0 \<and> events AND WDT_TASK_EXIT = 0 then Inr (False, events, ?w1\<lparr>w_ker := k\<rparr>)
         else Inr (True, if e = 0 then events else e,
           upd_wdtc cpu (\<lambda>c. c\<lparr>wt_running := False\<rparr>) (?w1\<lparr>w_ker := rt_task_exit (sys_K sys) k\<rparr>)))"
      using watchdog_turn_eq [OF ev, where env = "\<lambda>_. Inr" and w = w and cpu = cpu] by blast
    let ?w2 = "?w1\<lparr>w_ker := k\<rparr>"
    have e0: "e = 0" using k(2) Suc.prems by (simp add: kick_laws_kick [OF kl])
    have q: "pend (w_ker ?w2) (rt_task_self (sys_K sys) (w_ker ?w2)) AND WDT_TASK_EXIT = 0"
      using event_laws_take(2,3) [OF ev k(1)] by (simp add: and.assoc)
    have kk: "kicks k = (kicks (w_ker w))(wt_wdt (w_wdtc w cpu) := Suc (kicks (w_ker w) (wt_wdt (w_wdtc w cpu))))"
      using kick_laws_kick(4) [OF kl k(1)] by (simp add: kick_laws_kick [OF kl])
    show ?case
      using Suc.IH [OF q] k(3) e0 True kk by auto
  qed simp
  with True show ?thesis by simp
next
  case False
  have "\<exists>w'. watchdog_turn sys (\<lambda>_. Inr) cpu events w = Inr (True, events, w') \<and> \<not> wt_running (w_wdtc w' cpu)"
    using watchdog_turn_eq [OF ev, where env = "\<lambda>_. Inr" and w = w and cpu = cpu and events = events] quiet False
    by (auto simp: kick_laws_kick [OF kl])
  with False show ?thesis by auto
qed

lemma demo_kick_laws: "kick_laws demo_rtems dk_pend (\<lambda>k. count_list (dk_kicks k))"
  by (auto simp: kick_laws_def demo_rtems_def fun_eq_iff)

definition demo_wdt_ctx :: watchdog_task_ctx where
  "demo_wdt_ctx = \<lparr>wt_wdt = 0xf00, wt_tid = 4, wt_ticks = 50, wt_cb = Watchdog_timeout_isr, wt_cb_arg = 0xf00, wt_running = True\<rparr>"

definition demo_wdt_world :: "demo_kernel world" where
  "demo_wdt_world = demo_world\<lparr>w_wdtc := (w_wdtc demo_world)(0 := demo_wdt_ctx)\<rparr>"

theorem watchdog_task_kicks_witness:
  "(\<exists>w'. watchdog_task demo_sys (replicate 3 (\<lambda>_. Inr)) 0 0 demo_wdt_world = Inr (False, w') \<and>
      count_list (dk_kicks (w_ker w')) 0xf00 = 3) \<and>
   (\<exists>w'. watchdog_task demo_sys (replicate 3 (\<lambda>_. Inr)) 0 0xffffffff demo_wdt_world = Inr (True, w') \<and>
      \<not> wt_running (w_wdtc w' 0))"
proof -
  have q: "dk_pend (w_ker demo_wdt_world) (rt_task_self (sys_K demo_sys) (w_ker demo_wdt_world)) AND WDT_TASK_EXIT = 0"
    by (simp add: demo_wdt_world_def demo_k0_def)
  have laws: "event_laws (sys_K demo_sys) dk_pend" "kick_laws (sys_K demo_sys) dk_pend (\<lambda>k. count_list (dk_kicks k))"
    by (simp_all add: demo_event_laws demo_kick_laws)
  note kicks = watchdog_task_kicks [where sys = demo_sys and cpu = 0 and w = demo_wdt_world, OF laws q]
  have k0: "count_list (dk_kicks (w_ker demo_wdt_world)) 0xf00 = 0" "wt_wdt (w_wdtc demo_wdt_world 0) = 0xf00"
    by (simp_all add: demo_wdt_world_def demo_k0_def demo_wdt_ctx_def)
  have bit: "0xffffffff AND WDT_TASK_EXIT \<noteq> 0" by (simp add: WDT_TASK_EXIT_def)
  have "\<exists>w'. watchdog_task demo_sys (replicate 3 (\<lambda>_. Inr)) 0 0 demo_wdt_world = Inr (False, w') \<and>
      count_list (dk_kicks (w_ker w')) 0xf00 = 3"
    using kicks [of 0 3] k0 by auto
  moreover have "\<exists>w'. watchdog_task demo_sys (replicate (Suc 2) (\<lambda>_. Inr)) 0 0xffffffff demo_wdt_world = Inr (True, w') \<and>
      \<not> wt_running (w_wdtc w' 0)"
    using kicks [of "0xffffffff" 2] bit by auto
  ultimately show ?thesis by (simp add: numeral_3_eq_3 numeral_2_eq_2)
qed

subsection \<open>Starting and stopping\<close>

lemma watchdog_cpu_task_start_installs:
  assumes laws: "wdt_laws (sys_K sys) isrs armed" and idle: "\<not> wt_running (w_wdtc w cpu)"
    and cpu: "cpu = rt_current_cpu (sys_K sys) (w_ker w)" and p: "p \<noteq> NULL"
  shows "\<exists>sc ctx k. watchdog_cpu_task_start sys p tid ticks h arg w =
      Inr (sc, w\<lparr>w_wdtc := (w_wdtc w)(cpu := ctx), w_ker := k\<rparr>) \<and>
    (if sc = RTEMS_SUCCESSFUL
     then ctx = \<lparr>wt_wdt = p, wt_tid = tid, wt_ticks = ticks, wt_cb = h, wt_cb_arg = arg, wt_running = True\<rparr> \<and>
       isrs k = insert (p, h, arg) (isrs (w_ker w)) \<and> armed k = insert p (armed (w_ker w))
     else \<not> wt_running ctx \<and> isrs k = isrs (w_ker w) \<and>
       armed k = (if fst (rt_wdt_handler_install (sys_K sys) p h arg (w_ker w)) = RTEMS_SUCCESSFUL
         then insert p (armed (w_ker w)) else armed (w_ker w)))"
proof -
  obtain sc k where i: "rt_wdt_handler_install (sys_K sys) p h arg (w_ker w) = (sc, k)" by fastforce
  note li = wdt_laws_install [OF laws i]
  show ?thesis
  proof (cases "sc = RTEMS_SUCCESSFUL")
    case False
    let ?ctx = "\<lparr>wt_wdt = p, wt_tid = tid, wt_ticks = ticks, wt_cb = h, wt_cb_arg = arg, wt_running = False\<rparr>"
    have "watchdog_cpu_task_start sys p tid ticks h arg w = Inr (sc, w\<lparr>w_wdtc := (w_wdtc w)(cpu := ?ctx), w_ker := k\<rparr>)"
      using i p idle False unfolding cpu by (simp add: watchdog_cpu_task_start_def upd_wdtc_def Let_def)
    then show ?thesis
      using i li False by (intro exI [of _ sc] exI [of _ ?ctx] exI [of _ k]) simp
  next
    case True
    obtain sc' k' where s: "rt_task_start (sys_K sys) tid Watchdog_task (of_nat cpu) (rt_wdt_enable (sys_K sys) p k) = (sc', k')"
      by fastforce
    have k': "isrs k' = insert (p, h, arg) (isrs (w_ker w))" "armed k' = insert p (armed (w_ker w))"
      using wdt_laws_frame(3) [OF laws s] li True by (simp_all add: wdt_laws_frame(1,2) [OF laws])
    obtain sc'' k'' where r: "rt_wdt_handler_remove (sys_K sys) p h arg k' = (sc'', k'')" by fastforce
    note lr = wdt_laws_remove [OF laws r]
    have "isrs k'' = isrs (w_ker w)" "armed k'' = insert p (armed (w_ker w))" "sc'' = RTEMS_SUCCESSFUL"
      using lr k' li(3) [OF True] by auto
    note k'' = this
    let ?ctx = "\<lambda>b. \<lparr>wt_wdt = p, wt_tid = tid, wt_ticks = ticks, wt_cb = h, wt_cb_arg = arg, wt_running = b\<rparr>"
    let ?b = "sc' = RTEMS_SUCCESSFUL"
    let ?k = "if ?b then k' else k''"
    have "watchdog_cpu_task_start sys p tid ticks h arg w = Inr (sc', w\<lparr>w_wdtc := (w_wdtc w)(cpu := ?ctx ?b), w_ker := ?k\<rparr>)"
      using i s r k''(3) True p idle unfolding cpu by (simp add: watchdog_cpu_task_start_def upd_wdtc_def Let_def)
    then show ?thesis
      using i k' k'' True by (intro exI [of _ sc'] exI [of _ "?ctx ?b"] exI [of _ ?k]) simp
  qed
qed

theorem watchdog_cpu_task_start_outcome:
  assumes laws: "wdt_laws (sys_K sys) isrs armed" and p: "p \<noteq> NULL" and cpu: "cpu = rt_current_cpu (sys_K sys) (w_ker w)"
  shows "if wt_running (w_wdtc w cpu)
    then watchdog_cpu_task_start sys p tid ticks h arg w = Inr (RTEMS_UNSATISFIED, w)
    else \<exists>sc w'. watchdog_cpu_task_start sys p tid ticks h arg w = Inr (sc, w') \<and>
      (\<forall>c. c \<noteq> cpu \<longrightarrow> w_wdtc w' c = w_wdtc w c) \<and>
      (if sc = RTEMS_SUCCESSFUL
       then w_wdtc w' cpu = \<lparr>wt_wdt = p, wt_tid = tid, wt_ticks = ticks, wt_cb = h, wt_cb_arg = arg, wt_running = True\<rparr> \<and>
         isrs (w_ker w') = insert (p, h, arg) (isrs (w_ker w)) \<and> armed (w_ker w') = insert p (armed (w_ker w))
       else \<not> wt_running (w_wdtc w' cpu) \<and> isrs (w_ker w') = isrs (w_ker w) \<and>
         armed (w_ker w') = (if fst (rt_wdt_handler_install (sys_K sys) p h arg (w_ker w)) = RTEMS_SUCCESSFUL
           then insert p (armed (w_ker w)) else armed (w_ker w)))"
proof (cases "wt_running (w_wdtc w cpu)")
  case True
  then show ?thesis using p cpu by (simp add: watchdog_cpu_task_start_def Let_def)
next
  case False
  then show ?thesis
    using watchdog_cpu_task_start_installs [OF laws False cpu p, of tid ticks h arg] by (elim exE conjE) simp
qed

theorem watchdog_cpu_task_start_outcome_witness:
  "\<exists>w'. watchdog_cpu_task_start demo_sys 0xf00 9 50 Watchdog_timeout_isr 0xf00 demo_world = Inr (RTEMS_INVALID_ID, w') \<and>
     dk_wisrs (w_ker w') = [] \<and> set (dk_armed (w_ker w')) = {0xf00} \<and> \<not> wt_running (w_wdtc w' 0)"
proof -
  have cpu: "0 = rt_current_cpu (sys_K demo_sys) (w_ker demo_world)" by (simp add: demo_rtems_def demo_k0_def)
  have i: "fst (rt_wdt_handler_install (sys_K demo_sys) 0xf00 Watchdog_timeout_isr 0xf00 (w_ker demo_world)) = RTEMS_SUCCESSFUL"
    "\<not> wt_running (w_wdtc demo_world 0)" "dk_wisrs (w_ker demo_world) = []" "dk_armed (w_ker demo_world) = []"
    by (simp_all add: demo_rtems_def demo_k0_def demo_world_def)
  have "\<exists>w'. watchdog_cpu_task_start demo_sys 0xf00 9 50 Watchdog_timeout_isr 0xf00 demo_world = Inr (RTEMS_INVALID_ID, w')"
    by (simp add: watchdog_cpu_task_start_def Let_def demo_rtems_def demo_k0_def demo_world_def)
  then show ?thesis
    using watchdog_cpu_task_start_outcome [where sys = demo_sys and isrs = "\<lambda>k. set (dk_wisrs k)" and
        armed = "\<lambda>k. set (dk_armed k)" and w = demo_world and cpu = 0 and p = "0xf00" and tid = 9 and ticks = 50 and
        h = Watchdog_timeout_isr and arg = "0xf00", OF _ _ cpu] i demo_wdt_laws
    by auto
qed

theorem watchdog_cpu_task_stop_outcome:
  assumes laws: "wdt_laws (sys_K sys) isrs armed" and cpu: "cpu = rt_current_cpu (sys_K sys) (w_ker w)"
    and run: "wt_running (w_wdtc w cpu)"
    and inst: "(wt_wdt (w_wdtc w cpu), wt_cb (w_wdtc w cpu), wt_cb_arg (w_wdtc w cpu)) \<in> isrs (w_ker w)"
    and rem: "rt_wdt_handler_remove (sys_K sys) (wt_wdt (w_wdtc w cpu)) (wt_cb (w_wdtc w cpu)) (wt_cb_arg (w_wdtc w cpu)) (w_ker w) = (sc, k)"
    and stop: "rt_event_send (sys_K sys) (wt_tid (w_wdtc w cpu)) WDT_TASK_EXIT k = (sc', k')"
    and same: "rt_current_cpu (sys_K sys) k' = cpu"
    and fair: "I (w\<lparr>w_ker := k'\<rparr>)" "m (w\<lparr>w_ker := k'\<rparr>) \<le> fuel"
      "\<And>w. I w \<Longrightarrow> wt_running (w_wdtc w cpu) = (0 < m w)"
      "\<And>w. I w \<Longrightarrow> 0 < m w \<Longrightarrow> \<exists>w'. yield w = Inr w' \<and> I w' \<and> m w' < (m w :: nat)"
  shows "armed k' = armed (w_ker w) \<and>
    isrs k' = isrs (w_ker w) - {(wt_wdt (w_wdtc w cpu), wt_cb (w_wdtc w cpu), wt_cb_arg (w_wdtc w cpu))} \<and>
    (if sc' = RTEMS_SUCCESSFUL
     then \<exists>w'. watchdog_cpu_task_stop sys yield fuel w = Inr (RTEMS_SUCCESSFUL, w') \<and> I w' \<and> \<not> wt_running (w_wdtc w' cpu)
     else watchdog_cpu_task_stop sys yield fuel w = Inr (sc', w\<lparr>w_ker := k'\<rparr>) \<and>
       watchdog_cpu_task_stop sys yield fuel (w\<lparr>w_ker := k'\<rparr>) = Inl Assert_Failed)"
proof -
  note lr = wdt_laws_remove [OF laws rem]
  note ls = wdt_laws_frame(4) [OF laws stop]
  have sc: "sc = RTEMS_SUCCESSFUL" using lr inst by simp
  have isrs: "isrs k' = isrs (w_ker w) - {(wt_wdt (w_wdtc w cpu), wt_cb (w_wdtc w cpu), wt_cb_arg (w_wdtc w cpu))}"
    "armed k' = armed (w_ker w)" using lr ls sc by simp_all
  have cond: "(\<lambda>w. Inr (wt_running (w_wdtc w cpu))) v = Inr (0 < m v)" if "I v" for v
    using fair(3) [OF that] by simp
  obtain w2 where w2: "wait_while (\<lambda>w. Inr (wt_running (w_wdtc w cpu))) yield fuel (w\<lparr>w_ker := k'\<rparr>) = Inr w2" "I w2" "m w2 = 0"
    using wait_while_ends [where I = I and m = m and cond = "\<lambda>w. Inr (wt_running (w_wdtc w cpu))", OF fair(1,2) cond fair(4)]
    by blast
  have first: "watchdog_cpu_task_stop sys yield fuel w = Inr (sc', if sc' = RTEMS_SUCCESSFUL then w2 else w\<lparr>w_ker := k'\<rparr>)"
    using run rem stop sc w2(1) unfolding cpu by (simp add: watchdog_cpu_task_stop_def event_send_def Let_def)
  obtain sc2 k2 where again: "rt_wdt_handler_remove (sys_K sys) (wt_wdt (w_wdtc w cpu)) (wt_cb (w_wdtc w cpu))
      (wt_cb_arg (w_wdtc w cpu)) k' = (sc2, k2)" by fastforce
  have "sc2 \<noteq> RTEMS_SUCCESSFUL" using wdt_laws_remove(3) [OF laws again] isrs by simp
  then have "watchdog_cpu_task_stop sys yield fuel (w\<lparr>w_ker := k'\<rparr>) = Inl Assert_Failed"
    using run same again by (simp add: watchdog_cpu_task_stop_def Let_def)
  then show ?thesis
    using isrs first w2(2,3) fair(3) [OF w2(2)] by auto
qed

text \<open>While the caller yields, task 4 runs a turn of the watchdog task.\<close>

definition demo_wdt_slice :: "demo_kernel world \<Rightarrow> demo_kernel world res" where
  "demo_wdt_slice w = res_bind (watchdog_turn demo_sys (\<lambda>_. Inr) 0 0 (w\<lparr>w_ker := (w_ker w)\<lparr>dk_self := 4\<rparr>\<rparr>))
     (\<lambda>(exited, _, w'). Inr (w'\<lparr>w_ker := (w_ker w')\<lparr>dk_self := 1\<rparr>\<rparr>))"

definition demo_wdt_inv :: "demo_kernel world \<Rightarrow> bool" where
  "demo_wdt_inv w \<longleftrightarrow> (wt_running (w_wdtc w 0) \<longrightarrow> dk_pend (w_ker w) 4 AND WDT_TASK_EXIT \<noteq> 0)"

definition demo_wdt_left :: "demo_kernel world \<Rightarrow> nat" where
  "demo_wdt_left w = (if wt_running (w_wdtc w 0) then 1 else 0)"

lemma demo_wdt_slice_exits:
  assumes "demo_wdt_inv w" and "0 < demo_wdt_left w"
  shows "\<exists>w'. demo_wdt_slice w = Inr w' \<and> demo_wdt_inv w' \<and> demo_wdt_left w' < demo_wdt_left w"
  using assms
  by (auto simp: demo_wdt_slice_def demo_wdt_inv_def demo_wdt_left_def watchdog_turn_def event_receive_def Let_def
      demo_rtems_def and.assoc split: if_splits)

theorem watchdog_cpu_task_stop_outcome_witness:
  "\<exists>w'. watchdog_cpu_task_stop demo_sys demo_wdt_slice 1
      (demo_wdt_world\<lparr>w_ker := demo_k0\<lparr>dk_wisrs := [(0xf00, Watchdog_timeout_isr, 0xf00)]\<rparr>\<rparr>) = Inr (RTEMS_SUCCESSFUL, w') \<and>
     \<not> wt_running (w_wdtc w' 0)"
proof -
  let ?w = "demo_wdt_world\<lparr>w_ker := demo_k0\<lparr>dk_wisrs := [(0xf00, Watchdog_timeout_isr, 0xf00)]\<rparr>\<rparr>"
  let ?k' = "demo_k0\<lparr>dk_pend := (dk_pend demo_k0)(4 := WDT_TASK_EXIT)\<rparr>"
  have ctx: "w_wdtc ?w 0 = demo_wdt_ctx" by (simp add: demo_wdt_world_def)
  have cpu: "0 = rt_current_cpu (sys_K demo_sys) (w_ker ?w)" "rt_current_cpu (sys_K demo_sys) ?k' = 0"
    by (simp_all add: demo_rtems_def demo_k0_def)
  have run: "wt_running (w_wdtc ?w 0)" unfolding ctx by (simp add: demo_wdt_ctx_def)
  have inst: "(wt_wdt (w_wdtc ?w 0), wt_cb (w_wdtc ?w 0), wt_cb_arg (w_wdtc ?w 0)) \<in> set (dk_wisrs (w_ker ?w))"
    unfolding ctx by (simp add: demo_wdt_ctx_def)
  have rem: "rt_wdt_handler_remove (sys_K demo_sys) (wt_wdt (w_wdtc ?w 0)) (wt_cb (w_wdtc ?w 0)) (wt_cb_arg (w_wdtc ?w 0)) (w_ker ?w) =
      (RTEMS_SUCCESSFUL, demo_k0)"
    unfolding ctx by (simp add: demo_wdt_ctx_def demo_rtems_def demo_k0_def)
  have stop: "rt_event_send (sys_K demo_sys) (wt_tid (w_wdtc ?w 0)) WDT_TASK_EXIT demo_k0 = (RTEMS_SUCCESSFUL, ?k')"
    unfolding ctx by (simp add: demo_wdt_ctx_def demo_rtems_def demo_k0_def)
  have inv: "demo_wdt_inv (?w\<lparr>w_ker := ?k'\<rparr>)" "demo_wdt_left (?w\<lparr>w_ker := ?k'\<rparr>) \<le> 1"
    by (simp_all add: demo_wdt_inv_def demo_wdt_left_def WDT_TASK_EXIT_def)
  have laws: "wdt_laws (sys_K demo_sys) (\<lambda>k. set (dk_wisrs k)) (\<lambda>k. set (dk_armed k))" by (simp add: demo_wdt_laws)
  have left: "wt_running (w_wdtc v 0) = (0 < demo_wdt_left v)" for v by (simp add: demo_wdt_left_def)
  show ?thesis
    using watchdog_cpu_task_stop_outcome [where sys = demo_sys and armed = "\<lambda>k. set (dk_armed k)" and I = demo_wdt_inv
        and isrs = "\<lambda>k. set (dk_wisrs k)" and w = ?w and cpu = 0 and m = demo_wdt_left and yield = demo_wdt_slice, OF laws cpu(1) run inst rem stop cpu(2) inv left demo_wdt_slice_exits]
    by auto
qed

end
