(* ===== verification/Watchdog.thy ===== *)
theory Watchdog
  imports Watchdog_Cpu
begin

text \<open>
  The watchdog tasks of the real-time node (\<open>rtps-r52/watchdog.h\<close>, \<open>rtps-r52/watchdog.c\<close>): one
  task per processor, made while the caller is pinned to that processor.
\<close>

subsection \<open>Running code on every processor\<close>

text \<open>\<open>dev_cpu_for_each\<close>, and the per-processor calls on the node.\<close>

definition dev_cpu_for_each :: "'k sys \<Rightarrow> (nat \<Rightarrow> 'k world \<Rightarrow> 'k world res) \<Rightarrow> 'k world \<Rightarrow> 'k world res" where
  "dev_cpu_for_each sys body w = res_fold body [0..<rt_cpu_count (sys_K sys)] w"

definition pin_self :: "'k sys \<Rightarrow> nat \<Rightarrow> 'k world \<Rightarrow> 'k world res" where
  "pin_self sys cpu w = res_bind (affinity_pin_self_to_cpu (sys_K sys) cpu (w_ker w)) (\<lambda>k. Inr (w\<lparr>w_ker := k\<rparr>))"

definition this_cpu :: "'k sys \<Rightarrow> 'k world \<Rightarrow> nat" where
  "this_cpu sys w = rt_current_cpu (sys_K sys) (w_ker w)"

text \<open>Storing the affinity of the calling task before, and restoring it after, what \<open>body\<close> does.\<close>

definition keeping_affinity :: "'k sys \<Rightarrow> ('k world \<Rightarrow> 'k world res) \<Rightarrow> 'k world \<Rightarrow> 'k world res" where
  "keeping_affinity sys body w =
     (case rt_get_affinity (sys_K sys) RTEMS_SELF (w_ker w) of (sc, cpuset) \<Rightarrow>
        c_assert (sc = RTEMS_SUCCESSFUL)
         (res_bind (body w) (\<lambda>w1.
            case rt_set_affinity (sys_K sys) RTEMS_SELF cpuset (w_ker w1) of (sc', k) \<Rightarrow>
              c_assert (sc' = RTEMS_SUCCESSFUL) (Inr (w1\<lparr>w_ker := k\<rparr>)))))"

subsection \<open>Model\<close>

definition WDT_KICK_INTERVAL_TICKS :: "'k sys \<Rightarrow> rtems_interval" where
  "WDT_KICK_INTERVAL_TICKS sys = rt_us_to_ticks (sys_K sys) 500000"

definition watchdog_timeout_isr :: "'k sys \<Rightarrow> ptr \<Rightarrow> 'k world \<Rightarrow> 'k world res" where
  "watchdog_timeout_isr sys arg w =
     c_assert (arg \<noteq> NULL) (Inr (w\<lparr>w_ker := rt_wdt_timeout_clear (sys_K sys) arg 0 (w_ker w)\<rparr>))"

definition watchdog_task_create :: "'k sys \<Rightarrow> nat \<Rightarrow> ptr \<Rightarrow> nat \<Rightarrow> 'k world \<Rightarrow> 'k world res" where
  "watchdog_task_create sys priority wdt cpu w =
     c_assert (wdt \<noteq> NULL)
      (case rt_task_create (sys_K sys) (''WDT'' @ [char_of cpu]) priority (w_ker w) of (sc, task_id, k) \<Rightarrow>
       c_assert (sc = RTEMS_SUCCESSFUL)
        (res_bind (affinity_pin_to_cpu (sys_K sys) task_id cpu k) (\<lambda>(sc, k').
         c_assert (sc = RTEMS_SUCCESSFUL)
          (res_bind (watchdog_cpu_task_start sys wdt task_id (WDT_KICK_INTERVAL_TICKS sys) Watchdog_timeout_isr wdt
              (w\<lparr>w_ker := k'\<rparr>)) (\<lambda>(sc, w').
             if sc \<noteq> RTEMS_SUCCESSFUL then Inl Panic else Inr w')))))"

definition watchdog_tasks_create :: "'k sys \<Rightarrow> nat \<Rightarrow> 'k world \<Rightarrow> 'k world res" where
  "watchdog_tasks_create sys priority w =
     keeping_affinity sys (dev_cpu_for_each sys (\<lambda>cpu w.
       res_bind (pin_self sys cpu w) (\<lambda>w1.
       res_bind (dev_cpu_get_wdt (this_cpu sys w1) (w_devs w1)) (\<lambda>wdt.
         watchdog_task_create sys priority wdt cpu w1)))) w"

definition watchdog_tasks_destroy :: "'k sys \<Rightarrow> ('k world \<Rightarrow> 'k world res) \<Rightarrow> nat \<Rightarrow> 'k world \<Rightarrow> 'k world res" where
  "watchdog_tasks_destroy sys yield fuel w =
     keeping_affinity sys (dev_cpu_for_each sys (\<lambda>cpu w.
       res_bind (pin_self sys cpu w) (\<lambda>w1.
       res_bind (watchdog_cpu_task_stop sys yield fuel w1) (\<lambda>(sc, w2).
         if sc \<noteq> RTEMS_SUCCESSFUL \<and> sc \<noteq> RTEMS_NOT_DEFINED then Inl Panic else Inr w2)))) w"

subsection \<open>What creation relies on, and when it is not refused\<close>

text \<open>The calls that make and pin tasks do not touch the watchdogs, and none changes who is calling.\<close>

definition wdt_frame_laws :: "'k rtems \<Rightarrow> ('k \<Rightarrow> (ptr \<times> handler \<times> ptr) set) \<Rightarrow> ('k \<Rightarrow> ptr set) \<Rightarrow> bool" where
  "wdt_frame_laws K isrs armed \<longleftrightarrow>
     (\<forall>n p k. case rt_task_create K n p k of (sc, t, k') \<Rightarrow>
        isrs k' = isrs k \<and> armed k' = armed k \<and> rt_task_self K k' = rt_task_self K k \<and> rt_current_cpu K k' = rt_current_cpu K k) \<and>
     (\<forall>t cs k. isrs (snd (rt_set_affinity K t cs k)) = isrs k \<and> armed (snd (rt_set_affinity K t cs k)) = armed k) \<and>
     (\<forall>p h a k. rt_task_self K (snd (rt_wdt_handler_install K p h a k)) = rt_task_self K k) \<and>
     (\<forall>p h a k. rt_task_self K (snd (rt_wdt_handler_remove K p h a k)) = rt_task_self K k) \<and>
     (\<forall>p k. rt_task_self K (rt_wdt_enable K p k) = rt_task_self K k) \<and>
     (\<forall>t e a k. rt_task_self K (snd (rt_task_start K t e a k)) = rt_task_self K k) \<and>
     (\<forall>t e k. rt_task_self K (snd (rt_event_send K t e k)) = rt_task_self K k \<and>
        fst (rt_event_send K t e k) \<in> {RTEMS_SUCCESSFUL, RTEMS_INVALID_ID})"

text \<open>A kernel with room for every task, on which only what the laws exclude is refused; every event reaches its task.\<close>

definition accepts_tasks :: "'k rtems \<Rightarrow> ('k \<Rightarrow> (ptr \<times> handler \<times> ptr) set) \<Rightarrow> bool" where
  "accepts_tasks K isrs \<longleftrightarrow>
     (\<forall>n p k. fst (rt_task_create K n p k) = RTEMS_SUCCESSFUL) \<and>
     (\<forall>t e a k. fst (rt_task_start K t e a k) = RTEMS_SUCCESSFUL) \<and>
     (\<forall>t e k. fst (rt_event_send K t e k) = RTEMS_SUCCESSFUL) \<and>
     (\<forall>t cs k. cs \<noteq> {} \<and> cs \<subseteq> {..<rt_cpu_count K} \<longrightarrow> fst (rt_set_affinity K t cs k) = RTEMS_SUCCESSFUL) \<and>
     (\<forall>p h a k. (\<forall>h' a'. (p, h', a') \<notin> isrs k) \<longrightarrow> fst (rt_wdt_handler_install K p h a k) = RTEMS_SUCCESSFUL)"

lemma accepts_tasksD:
  assumes "accepts_tasks K isrs"
  shows "rt_task_create K n p k = (sc, t, k') \<Longrightarrow> sc = RTEMS_SUCCESSFUL"
    and "rt_task_start K t e a k = (sc, k') \<Longrightarrow> sc = RTEMS_SUCCESSFUL"
    and "rt_set_affinity K t cs k = (sc, k') \<Longrightarrow> cs \<noteq> {} \<Longrightarrow> cs \<subseteq> {..<rt_cpu_count K} \<Longrightarrow> sc = RTEMS_SUCCESSFUL"
    and "rt_wdt_handler_install K q h a k = (sc, k') \<Longrightarrow> \<forall>h' a'. (q, h', a') \<notin> isrs k \<Longrightarrow> sc = RTEMS_SUCCESSFUL"
    and "rt_event_send K t ev k = (sc, k') \<Longrightarrow> sc = RTEMS_SUCCESSFUL"
proof -
  note A = assms [unfolded accepts_tasks_def]
  show "rt_task_create K n p k = (sc, t, k') \<Longrightarrow> sc = RTEMS_SUCCESSFUL"
    using A [THEN conjunct1, rule_format, where n = n and p = p and k = k] by simp
  show "rt_task_start K t e a k = (sc, k') \<Longrightarrow> sc = RTEMS_SUCCESSFUL"
    using A [THEN conjunct2, THEN conjunct1, rule_format, where t = t and e = e and a = a and k = k] by simp
  show "rt_set_affinity K t cs k = (sc, k') \<Longrightarrow> cs \<noteq> {} \<Longrightarrow> cs \<subseteq> {..<rt_cpu_count K} \<Longrightarrow> sc = RTEMS_SUCCESSFUL"
    using A [THEN conjunct2, THEN conjunct2, THEN conjunct2, THEN conjunct1, rule_format, where t = t and cs = cs and k = k] by simp
  show "rt_wdt_handler_install K q h a k = (sc, k') \<Longrightarrow> \<forall>h' a'. (q, h', a') \<notin> isrs k \<Longrightarrow> sc = RTEMS_SUCCESSFUL"
    using A [THEN conjunct2, THEN conjunct2, THEN conjunct2, THEN conjunct2, rule_format, where p = q and h = h and a = a and k = k] by simp
  show "rt_event_send K t ev k = (sc, k') \<Longrightarrow> sc = RTEMS_SUCCESSFUL"
    using A [THEN conjunct2, THEN conjunct2, THEN conjunct1, rule_format, where t = t and e = ev and k = k] by simp
qed

text \<open>The outcome of initialisation code: it stops the node only when a call was refused.\<close>

definition stops :: "'a res \<Rightarrow> bool" where
  "stops r \<longleftrightarrow> r = Inl Panic \<or> r = Inl Assert_Failed"

lemma stops_simps [simp]: "stops (Inl Panic)" "stops (Inl Assert_Failed)" "\<not> stops (Inr x)"
  by (simp_all add: stops_def)

lemma pin_self_cases:
  assumes aff: "affinity_laws (sys_K sys) aff" and fr: "wdt_frame_laws (sys_K sys) isrs armed"
  obtains k where "pin_self sys cpu w = Inr (w\<lparr>w_ker := k\<rparr>)" "rt_current_cpu (sys_K sys) k = cpu"
      "isrs k = isrs (w_ker w)" "armed k = armed (w_ker w)" "rt_task_self (sys_K sys) k = rt_task_self (sys_K sys) (w_ker w)"
    | "stops (pin_self sys cpu w)" "accepts_tasks (sys_K sys) isrs \<Longrightarrow> \<not> cpu < rt_cpu_count (sys_K sys)"
proof -
  obtain sc k where s: "rt_set_affinity (sys_K sys) RTEMS_SELF {cpu} (w_ker w) = (sc, k)" by fastforce
  note l = affinity_laws_set [OF aff s]
  have f: "isrs k = isrs (w_ker w)" "armed k = armed (w_ker w)"
    using fr [unfolded wdt_frame_laws_def, THEN conjunct2, THEN conjunct1, rule_format, of RTEMS_SELF "{cpu}" "w_ker w"] s by simp_all
  show thesis
  proof (cases "sc = RTEMS_SUCCESSFUL")
    case True
    then show thesis
      using that(1) [of k] s f l by (simp add: pin_self_def affinity_pin_self_to_cpu_def affinity_pin_to_cpu_def)
  next
    case False
    have "stops (pin_self sys cpu w)"
      using False l(1,2) s by (auto simp: pin_self_def affinity_pin_self_to_cpu_def affinity_pin_to_cpu_def)
    moreover have "\<not> cpu < rt_cpu_count (sys_K sys)" if "accepts_tasks (sys_K sys) isrs"
      using that [unfolded accepts_tasks_def, THEN conjunct2, THEN conjunct2, THEN conjunct2, THEN conjunct1, rule_format, of "{cpu}" RTEMS_SELF "w_ker w"]
        False s by auto
    ultimately show thesis using that(2) by blast
  qed
qed

text \<open>A loop over the processors with the caller's affinity stored before and restored after it.\<close>

lemma keeping_affinity_cases:
  assumes aff: "affinity_laws (sys_K sys) aff" and fr: "wdt_frame_laws (sys_K sys) isrs armed"
    and t: "t = rt_task_self (sys_K sys) (w_ker w)"
    and set: "aff (w_ker w) t \<noteq> {}" "aff (w_ker w) t \<subseteq> {..<rt_cpu_count (sys_K sys)}"
    and body: "(\<exists>w1. body w = Inr w1 \<and> P w1) \<or> (\<exists>e. body w = Inl e \<and> \<not> accepts_tasks (sys_K sys) isrs \<and> e \<in> {Panic, Assert_Failed})"
    and self: "\<And>w1. P w1 \<Longrightarrow> rt_task_self (sys_K sys) (w_ker w1) = t"
    and ker: "\<And>w1 k. P w1 \<Longrightarrow> isrs k = isrs (w_ker w1) \<Longrightarrow> armed k = armed (w_ker w1) \<Longrightarrow> rt_task_self (sys_K sys) k = t \<Longrightarrow>
      P (w1\<lparr>w_ker := k\<rparr>)"
  shows "(\<exists>w'. keeping_affinity sys body w = Inr w' \<and> P w' \<and> aff (w_ker w') t = aff (w_ker w) t) \<or>
    \<not> accepts_tasks (sys_K sys) isrs \<and> stops (keeping_affinity sys body w)"
proof -
  have get: "rt_get_affinity (sys_K sys) RTEMS_SELF (w_ker w) = (RTEMS_SUCCESSFUL, aff (w_ker w) t)"
    using aff t unfolding affinity_laws_def by simp
  from body consider (ok) w1 where "body w = Inr w1" "P w1"
    | (no) e where "body w = Inl e" "\<not> accepts_tasks (sys_K sys) isrs" "e \<in> {Panic, Assert_Failed}" by blast
  then show ?thesis
  proof cases
    case no
    then show ?thesis using get by (auto simp: keeping_affinity_def stops_def)
  next
    case ok
    obtain sc k where s: "rt_set_affinity (sys_K sys) RTEMS_SELF (aff (w_ker w) t) (w_ker w1) = (sc, k)" by fastforce
    note la = affinity_laws_set [OF aff s]
    have f: "isrs k = isrs (w_ker w1)" "armed k = armed (w_ker w1)"
      using fr [unfolded wdt_frame_laws_def, THEN conjunct2, THEN conjunct1, rule_format, of RTEMS_SELF "aff (w_ker w) t" "w_ker w1"] s
      by simp_all
    have run: "keeping_affinity sys body w = (if sc = RTEMS_SUCCESSFUL then Inr (w1\<lparr>w_ker := k\<rparr>) else Inl Assert_Failed)"
      using get ok(1) s by (simp add: keeping_affinity_def)
    show ?thesis
    proof (cases "sc = RTEMS_SUCCESSFUL")
      case True
      have "P (w1\<lparr>w_ker := k\<rparr>)" using ker [OF ok(2) f] la(3) self [OF ok(2)] by simp
      then show ?thesis using run True la(4) self [OF ok(2)] by simp
    next
      case False
      then show ?thesis using run accepts_tasksD(3) [OF _ s set] by auto
    qed
  qed
qed

text \<open>The watchdog tasks of the processors \<open>S\<close> run, with their handlers installed.\<close>

definition watchdogs_on ::
  "('k \<Rightarrow> (ptr \<times> handler \<times> ptr) set) \<Rightarrow> ('k \<Rightarrow> ptr set) \<Rightarrow> 'k sys \<Rightarrow> 'k world \<Rightarrow> nat set \<Rightarrow> 'k world \<Rightarrow> bool" where
  "watchdogs_on isrs armed sys w S w' \<longleftrightarrow>
     (\<exists>c k. w' = w\<lparr>w_wdtc := c, w_ker := k\<rparr> \<and>
        (\<forall>cpu \<in> S. wt_running (c cpu) \<and> wt_wdt (c cpu) = wdts (w_devs w) cpu \<and> wt_cb (c cpu) = Watchdog_timeout_isr \<and>
           wt_cb_arg (c cpu) = wdts (w_devs w) cpu \<and> wt_ticks (c cpu) = WDT_KICK_INTERVAL_TICKS sys) \<and>
        (\<forall>cpu. cpu \<notin> S \<longrightarrow> c cpu = w_wdtc w cpu) \<and>
        isrs k = isrs (w_ker w) \<union> (\<lambda>cpu. (wdts (w_devs w) cpu, Watchdog_timeout_isr, wdts (w_devs w) cpu)) ` S \<and>
        armed k = armed (w_ker w) \<union> wdts (w_devs w) ` S \<and>
        rt_task_self (sys_K sys) k = rt_task_self (sys_K sys) (w_ker w))"

lemma watchdogs_on_frame:
  assumes "watchdogs_on isrs armed sys w S w1"
  shows "rt_task_self (sys_K sys) (w_ker w1) = rt_task_self (sys_K sys) (w_ker w)"
    and "isrs k = isrs (w_ker w1) \<Longrightarrow> armed k = armed (w_ker w1) \<Longrightarrow> rt_task_self (sys_K sys) k = rt_task_self (sys_K sys) (w_ker w) \<Longrightarrow>
      watchdogs_on isrs armed sys w S (w1\<lparr>w_ker := k\<rparr>)"
proof -
  obtain c k1 where o: "w1 = w\<lparr>w_wdtc := c, w_ker := k1\<rparr>"
    "\<forall>cpu \<in> S. wt_running (c cpu) \<and> wt_wdt (c cpu) = wdts (w_devs w) cpu \<and> wt_cb (c cpu) = Watchdog_timeout_isr \<and>
       wt_cb_arg (c cpu) = wdts (w_devs w) cpu \<and> wt_ticks (c cpu) = WDT_KICK_INTERVAL_TICKS sys"
    "\<forall>cpu. cpu \<notin> S \<longrightarrow> c cpu = w_wdtc w cpu"
    "isrs k1 = isrs (w_ker w) \<union> (\<lambda>cpu. (wdts (w_devs w) cpu, Watchdog_timeout_isr, wdts (w_devs w) cpu)) ` S"
    "armed k1 = armed (w_ker w) \<union> wdts (w_devs w) ` S" "rt_task_self (sys_K sys) k1 = rt_task_self (sys_K sys) (w_ker w)"
    using assms unfolding watchdogs_on_def by (elim exE conjE)
  show "rt_task_self (sys_K sys) (w_ker w1) = rt_task_self (sys_K sys) (w_ker w)" using o(1,6) by simp
  show "isrs k = isrs (w_ker w1) \<Longrightarrow> armed k = armed (w_ker w1) \<Longrightarrow> rt_task_self (sys_K sys) k = rt_task_self (sys_K sys) (w_ker w) \<Longrightarrow>
      watchdogs_on isrs armed sys w S (w1\<lparr>w_ker := k\<rparr>)"
    unfolding watchdogs_on_def by (intro exI [of _ c] exI [of _ k]) (use o in simp)
qed

text \<open>Every processor has a watchdog of its own, without handler and without running task.\<close>

definition watchdogs_ready :: "('k \<Rightarrow> (ptr \<times> handler \<times> ptr) set) \<Rightarrow> 'k sys \<Rightarrow> 'k world \<Rightarrow> bool" where
  "watchdogs_ready isrs sys w \<longleftrightarrow> inj_on (wdts (w_devs w)) {..<rt_cpu_count (sys_K sys)} \<and>
     (\<forall>cpu < rt_cpu_count (sys_K sys). wdts (w_devs w) cpu \<noteq> NULL \<and> \<not> wt_running (w_wdtc w cpu) \<and>
        (\<forall>h a. (wdts (w_devs w) cpu, h, a) \<notin> isrs (w_ker w)))"

lemma start_keeps_self:
  assumes fr: "wdt_frame_laws (sys_K sys) isrs armed" and st: "watchdog_cpu_task_start sys p tid ticks h arg w = Inr (sc, w')"
  shows "rt_task_self (sys_K sys) (w_ker w') = rt_task_self (sys_K sys) (w_ker w)"
proof -
  have f: "rt_task_self (sys_K sys) (rt_wdt_enable (sys_K sys) q k) = rt_task_self (sys_K sys) k"
    "rt_wdt_handler_install (sys_K sys) q g a k = (c, k') \<Longrightarrow> rt_task_self (sys_K sys) k' = rt_task_self (sys_K sys) k"
    "rt_wdt_handler_remove (sys_K sys) q g a k = (c, k') \<Longrightarrow> rt_task_self (sys_K sys) k' = rt_task_self (sys_K sys) k"
    "rt_task_start (sys_K sys) t e a k = (c, k') \<Longrightarrow> rt_task_self (sys_K sys) k' = rt_task_self (sys_K sys) k"
    for q g a k c k' t e
    using fr unfolding wdt_frame_laws_def by (metis snd_conv)+
  show ?thesis
    using st by (auto simp: watchdog_cpu_task_start_def Let_def f(1) split: prod.splits if_splits dest!: f(2-4))
qed

lemma start_accepted:
  assumes laws: "wdt_laws (sys_K sys) isrs armed" and acc: "accepts_tasks (sys_K sys) isrs"
    and new: "\<And>h' a'. (p, h', a') \<notin> isrs (w_ker w)" and idle: "\<not> wt_running (w_wdtc w (rt_current_cpu (sys_K sys) (w_ker w)))"
    and st: "watchdog_cpu_task_start sys p tid ticks h arg w = Inr (sc, w')"
  shows "sc = RTEMS_SUCCESSFUL"
proof -
  show ?thesis
    using st idle new accepts_tasksD(2,4) [OF acc]
    by (auto simp: watchdog_cpu_task_start_def Let_def split: prod.splits if_splits)
qed

text \<open>Creation of one watchdog task.\<close>

lemma watchdog_task_create_cases:
  assumes laws: "wdt_laws (sys_K sys) isrs armed" and aff: "affinity_laws (sys_K sys) aff"
    and fr: "wdt_frame_laws (sys_K sys) isrs armed"
    and cpu: "rt_current_cpu (sys_K sys) (w_ker w) = cpu" "cpu < rt_cpu_count (sys_K sys)"
    and p: "p \<noteq> NULL" and idle: "\<not> wt_running (w_wdtc w cpu)" and new: "\<And>h' a'. (p, h', a') \<notin> isrs (w_ker w)"
  shows "(\<exists>tid k. watchdog_task_create sys prio p cpu w = Inr (w\<lparr>w_wdtc := (w_wdtc w)(cpu := \<lparr>wt_wdt = p, wt_tid = tid,
        wt_ticks = WDT_KICK_INTERVAL_TICKS sys, wt_cb = Watchdog_timeout_isr, wt_cb_arg = p, wt_running = True\<rparr>), w_ker := k\<rparr>) \<and>
      isrs k = insert (p, Watchdog_timeout_isr, p) (isrs (w_ker w)) \<and> armed k = insert p (armed (w_ker w)) \<and>
      rt_task_self (sys_K sys) k = rt_task_self (sys_K sys) (w_ker w)) \<or>
    \<not> accepts_tasks (sys_K sys) isrs \<and> stops (watchdog_task_create sys prio p cpu w)"
proof -
  obtain sc tid k where c: "rt_task_create (sys_K sys) (''WDT'' @ [char_of cpu]) prio (w_ker w) = (sc, tid, k)"
    using prod_cases3 by blast
  have fc: "isrs k = isrs (w_ker w)" "armed k = armed (w_ker w)" "rt_task_self (sys_K sys) k = rt_task_self (sys_K sys) (w_ker w)"
    "rt_current_cpu (sys_K sys) k = cpu"
    using fr [unfolded wdt_frame_laws_def, THEN conjunct1, rule_format,
        where n = "''WDT'' @ [char_of cpu]" and p = prio and k = "w_ker w"] c cpu by simp_all
  obtain sc1 k1 where s: "rt_set_affinity (sys_K sys) tid {cpu} k = (sc1, k1)" by fastforce
  note la = affinity_laws_set [OF aff s]
  have fs: "isrs k1 = isrs k" "armed k1 = armed k"
    using fr [unfolded wdt_frame_laws_def, THEN conjunct2, THEN conjunct1, rule_format, where t = tid and cs = "{cpu}" and k = k] s by simp_all
  have here: "rt_current_cpu (sys_K sys) k1 = cpu"
    using aff [unfolded affinity_laws_def, THEN conjunct1, rule_format, where t = tid and cs = "{cpu}" and k = k] s fc(4)
    by (auto simp: Let_def split: if_splits)
  let ?w = "w\<lparr>w_ker := k1\<rparr>"
  have idle': "\<not> wt_running (w_wdtc ?w cpu)" "cpu = rt_current_cpu (sys_K sys) (w_ker ?w)" using idle here by simp_all
  obtain sc2 ctx k2 where t: "watchdog_cpu_task_start sys p tid (WDT_KICK_INTERVAL_TICKS sys) Watchdog_timeout_isr p ?w =
      Inr (sc2, ?w\<lparr>w_wdtc := (w_wdtc ?w)(cpu := ctx), w_ker := k2\<rparr>)"
    and out: "if sc2 = RTEMS_SUCCESSFUL
     then ctx = \<lparr>wt_wdt = p, wt_tid = tid, wt_ticks = WDT_KICK_INTERVAL_TICKS sys, wt_cb = Watchdog_timeout_isr,
         wt_cb_arg = p, wt_running = True\<rparr> \<and>
       isrs k2 = insert (p, Watchdog_timeout_isr, p) (isrs (w_ker ?w)) \<and> armed k2 = insert p (armed (w_ker ?w))
     else \<not> wt_running ctx"
    using watchdog_cpu_task_start_installs [OF laws idle' p, of tid "WDT_KICK_INTERVAL_TICKS sys" Watchdog_timeout_isr p]
    by (elim exE conjE) (simp split: if_splits)
  have self: "rt_task_self (sys_K sys) k2 = rt_task_self (sys_K sys) (w_ker w)"
    using start_keeps_self [OF fr t] la(3) fc(3) by simp
  have new': "(p, h', a') \<notin> isrs (w_ker ?w)" for h' a' using new fc fs by simp
  show ?thesis
  proof (cases "sc = RTEMS_SUCCESSFUL \<and> sc1 = RTEMS_SUCCESSFUL \<and> sc2 = RTEMS_SUCCESSFUL")
    case True
    then have "watchdog_task_create sys prio p cpu w = Inr (w\<lparr>w_wdtc := (w_wdtc w)(cpu := ctx), w_ker := k2\<rparr>)"
      using p c s t by (simp add: watchdog_task_create_def affinity_pin_to_cpu_def)
    with True out self fc fs show ?thesis by (intro disjI1 exI [of _ tid] exI [of _ k2]) simp
  next
    case False
    have "stops (watchdog_task_create sys prio p cpu w)"
      using False p c s t by (auto simp: watchdog_task_create_def affinity_pin_to_cpu_def)
    moreover have "\<not> accepts_tasks (sys_K sys) isrs"
    proof
      assume acc: "accepts_tasks (sys_K sys) isrs"
      have "sc = RTEMS_SUCCESSFUL" by (rule accepts_tasksD(1) [OF acc c])
      moreover have "sc1 = RTEMS_SUCCESSFUL" by (rule accepts_tasksD(3) [OF acc s]) (use cpu(2) in simp_all)
      moreover have "sc2 = RTEMS_SUCCESSFUL" by (rule start_accepted [OF laws acc new' _ t]) (use idle' in simp)
      ultimately show False using False by simp
    qed
    ultimately show ?thesis by blast
  qed
qed

lemma watchdogs_on_step:
  assumes laws: "wdt_laws (sys_K sys) isrs armed" and aff: "affinity_laws (sys_K sys) aff"
    and fr: "wdt_frame_laws (sys_K sys) isrs armed" and ready: "watchdogs_ready isrs sys w"
    and n: "n < rt_cpu_count (sys_K sys)" and on: "watchdogs_on isrs armed sys w {..<n} w1"
  shows "(\<exists>w2. res_bind (pin_self sys n w1) (\<lambda>w1. res_bind (dev_cpu_get_wdt (this_cpu sys w1) (w_devs w1)) (\<lambda>wdt.
         watchdog_task_create sys prio wdt n w1)) = Inr w2 \<and> watchdogs_on isrs armed sys w {..<Suc n} w2) \<or>
    (\<exists>e. res_bind (pin_self sys n w1) (\<lambda>w1. res_bind (dev_cpu_get_wdt (this_cpu sys w1) (w_devs w1)) (\<lambda>wdt.
         watchdog_task_create sys prio wdt n w1)) = Inl e \<and> \<not> accepts_tasks (sys_K sys) isrs \<and> e \<in> {Panic, Assert_Failed})"
proof -
  let ?p = "wdts (w_devs w)"
  obtain c k where w1: "w1 = w\<lparr>w_wdtc := c, w_ker := k\<rparr>"
    and c: "\<forall>cpu < n. wt_running (c cpu) \<and> wt_wdt (c cpu) = ?p cpu \<and> wt_cb (c cpu) = Watchdog_timeout_isr \<and>
        wt_cb_arg (c cpu) = ?p cpu \<and> wt_ticks (c cpu) = WDT_KICK_INTERVAL_TICKS sys"
      "\<forall>cpu. \<not> cpu < n \<longrightarrow> c cpu = w_wdtc w cpu"
    and k: "isrs k = isrs (w_ker w) \<union> (\<lambda>cpu. (?p cpu, Watchdog_timeout_isr, ?p cpu)) ` {..<n}"
      "armed k = armed (w_ker w) \<union> ?p ` {..<n}" "rt_task_self (sys_K sys) k = rt_task_self (sys_K sys) (w_ker w)"
    using on unfolding watchdogs_on_def by auto
  show ?thesis
  proof (cases rule: pin_self_cases [OF aff fr, of n w1])
    case (1 k')
    let ?w = "w1\<lparr>w_ker := k'\<rparr>"
    have inj: "?p i \<noteq> ?p n" if "i < n" for i
      using ready n that unfolding watchdogs_ready_def inj_on_def by fastforce
    have pre: "rt_current_cpu (sys_K sys) (w_ker ?w) = n" "?p n \<noteq> NULL" "\<not> wt_running (w_wdtc ?w n)"
      using 1 c(2) ready n w1 by (simp_all add: watchdogs_ready_def)
    have "isrs (w_ker ?w) = isrs (w_ker w) \<union> (\<lambda>cpu. (?p cpu, Watchdog_timeout_isr, ?p cpu)) ` {..<n}"
      using 1(3) k(1) w1 by simp
    then have new: "(?p n, h', a') \<notin> isrs (w_ker ?w)" for h' a'
      using ready n inj by (force simp: watchdogs_ready_def)
    have get: "dev_cpu_get_wdt (this_cpu sys ?w) (w_devs ?w) = Inr (?p n)"
      using 1(2) w1 by (simp add: dev_cpu_get_wdt_def this_cpu_def)
    from watchdog_task_create_cases [OF laws aff fr pre(1) n pre(2,3) new, of prio]
    consider (ok) tid k2 where "watchdog_task_create sys prio (?p n) n ?w = Inr (?w\<lparr>w_wdtc := (w_wdtc ?w)(n := \<lparr>wt_wdt = ?p n,
        wt_tid = tid, wt_ticks = WDT_KICK_INTERVAL_TICKS sys, wt_cb = Watchdog_timeout_isr, wt_cb_arg = ?p n, wt_running = True\<rparr>),
        w_ker := k2\<rparr>)" "isrs k2 = insert (?p n, Watchdog_timeout_isr, ?p n) (isrs k')" "armed k2 = insert (?p n) (armed k')"
        "rt_task_self (sys_K sys) k2 = rt_task_self (sys_K sys) k'"
      | (no) "\<not> accepts_tasks (sys_K sys) isrs" "stops (watchdog_task_create sys prio (?p n) n ?w)"
      by auto
    then show ?thesis
    proof cases
      case ok
      let ?c = "c(n := \<lparr>wt_wdt = ?p n, wt_tid = tid, wt_ticks = WDT_KICK_INTERVAL_TICKS sys, wt_cb = Watchdog_timeout_isr,
         wt_cb_arg = ?p n, wt_running = True\<rparr>)"
      have "watchdogs_on isrs armed sys w {..<Suc n} (w\<lparr>w_wdtc := ?c, w_ker := k2\<rparr>)"
        unfolding watchdogs_on_def
        by (intro exI [of _ ?c] exI [of _ k2]) (use ok(2-4) c k 1(3-5) w1 in \<open>auto simp: lessThan_Suc\<close>)
      then show ?thesis using 1(1) get ok(1) w1 by simp
    next
      case no
      then show ?thesis using 1(1) get by (auto simp: stops_def)
    qed
  next
    case 2
    then show ?thesis using n by (auto simp: stops_def)
  qed
qed

lemma watchdog_tasks_create_ok:
  assumes laws: "wdt_laws (sys_K sys) isrs armed" and aff: "affinity_laws (sys_K sys) aff"
    and fr: "wdt_frame_laws (sys_K sys) isrs armed" and ready: "watchdogs_ready isrs sys w"
    and t: "t = rt_task_self (sys_K sys) (w_ker w)"
    and set: "aff (w_ker w) t \<noteq> {}" "aff (w_ker w) t \<subseteq> {..<rt_cpu_count (sys_K sys)}"
  shows "(\<exists>w'. watchdog_tasks_create sys prio w = Inr w' \<and>
      watchdogs_on isrs armed sys w {..<rt_cpu_count (sys_K sys)} w' \<and> aff (w_ker w') t = aff (w_ker w) t) \<or>
    \<not> accepts_tasks (sys_K sys) isrs \<and> stops (watchdog_tasks_create sys prio w)"
  unfolding watchdog_tasks_create_def
proof (rule keeping_affinity_cases [OF aff fr t set])
  let ?n = "rt_cpu_count (sys_K sys)"
  let ?body = "\<lambda>cpu w. res_bind (pin_self sys cpu w) (\<lambda>w1. res_bind (dev_cpu_get_wdt (this_cpu sys w1) (w_devs w1)) (\<lambda>wdt.
         watchdog_task_create sys prio wdt cpu w1))"
  have "watchdogs_on isrs armed sys w {..<0} w"
    unfolding watchdogs_on_def by (intro exI [of _ "w_wdtc w"] exI [of _ "w_ker w"]) simp
  then have "(\<exists>w1. res_fold ?body [0..<?n] w = Inr w1 \<and> watchdogs_on isrs armed sys w {..<?n} w1) \<or>
    (\<exists>e. res_fold ?body [0..<?n] w = Inl e \<and> \<not> accepts_tasks (sys_K sys) isrs \<and> e \<in> {Panic, Assert_Failed})"
    by (rule res_fold_upt) (rule watchdogs_on_step [OF laws aff fr ready])
  then show "(\<exists>w1. dev_cpu_for_each sys ?body w = Inr w1 \<and> watchdogs_on isrs armed sys w {..<?n} w1) \<or>
    (\<exists>e. dev_cpu_for_each sys ?body w = Inl e \<and> \<not> accepts_tasks (sys_K sys) isrs \<and> e \<in> {Panic, Assert_Failed})"
    by (simp add: dev_cpu_for_each_def)
  show "rt_task_self (sys_K sys) (w_ker w1) = t" if "watchdogs_on isrs armed sys w {..<?n} w1" for w1
    using watchdogs_on_frame(1) [OF that] t by simp
  show "watchdogs_on isrs armed sys w {..<?n} (w1\<lparr>w_ker := k\<rparr>)"
    if "watchdogs_on isrs armed sys w {..<?n} w1" "isrs k = isrs (w_ker w1)" "armed k = armed (w_ker w1)" "rt_task_self (sys_K sys) k = t"
    for w1 k
    using watchdogs_on_frame(2) [OF that(1-3)] that(4) t by simp
qed

subsection \<open>Destruction\<close>

text \<open>
  A quiet node: a watchdog task that was sent its exit event by a caller on its processor leaves
  its loop within \<open>fuel\<close> slices of the scheduler, and nothing else happens meanwhile.
\<close>

definition watchdogs_end ::
  "('k \<Rightarrow> (ptr \<times> handler \<times> ptr) set) \<Rightarrow> ('k \<Rightarrow> ptr set) \<Rightarrow> 'k sys \<Rightarrow> ('k world \<Rightarrow> 'k world res) \<Rightarrow> nat \<Rightarrow> bool" where
  "watchdogs_end isrs armed sys yield fuel \<longleftrightarrow> (\<forall>w k0 sc k1 k cpu. cpu = rt_current_cpu (sys_K sys) k0 \<longrightarrow>
     wt_running (w_wdtc w cpu) \<longrightarrow>
     rt_wdt_handler_remove (sys_K sys) (wt_wdt (w_wdtc w cpu)) (wt_cb (w_wdtc w cpu)) (wt_cb_arg (w_wdtc w cpu)) k0 = (sc, k1) \<longrightarrow>
     rt_event_send (sys_K sys) (wt_tid (w_wdtc w cpu)) WDT_TASK_EXIT k1 = (RTEMS_SUCCESSFUL, k) \<longrightarrow>
     (\<exists>k'. wait_while (\<lambda>w. Inr (wt_running (w_wdtc w cpu))) yield fuel (w\<lparr>w_ker := k\<rparr>) =
         Inr (w\<lparr>w_wdtc := (w_wdtc w)(cpu := (w_wdtc w cpu)\<lparr>wt_running := False\<rparr>), w_ker := k'\<rparr>) \<and>
       isrs k' = isrs k \<and> armed k' = armed k \<and> rt_task_self (sys_K sys) k' = rt_task_self (sys_K sys) k))"

text \<open>The tasks of the first \<open>n\<close> processors have been stopped again.\<close>

definition watchdogs_stopped ::
  "('k \<Rightarrow> (ptr \<times> handler \<times> ptr) set) \<Rightarrow> ('k \<Rightarrow> ptr set) \<Rightarrow> 'k sys \<Rightarrow> 'k world \<Rightarrow> nat \<Rightarrow> 'k world \<Rightarrow> bool" where
  "watchdogs_stopped isrs armed sys w n w' \<longleftrightarrow>
     (let N = rt_cpu_count (sys_K sys); p = wdts (w_devs w) in
      \<exists>c k. w' = w\<lparr>w_wdtc := c, w_ker := k\<rparr> \<and> (\<forall>cpu < n. \<not> wt_running (c cpu)) \<and>
        (\<forall>cpu. n \<le> cpu \<and> cpu < N \<longrightarrow> wt_running (c cpu) \<and> wt_wdt (c cpu) = p cpu \<and> wt_cb (c cpu) = Watchdog_timeout_isr \<and>
           wt_cb_arg (c cpu) = p cpu) \<and>
        isrs k = isrs (w_ker w) \<union> (\<lambda>cpu. (p cpu, Watchdog_timeout_isr, p cpu)) ` {n..<N} \<and>
        armed k = armed (w_ker w) \<union> p ` {..<N} \<and>
        rt_task_self (sys_K sys) k = rt_task_self (sys_K sys) (w_ker w))"

lemma watchdogs_stopped_step:
  assumes laws: "wdt_laws (sys_K sys) isrs armed" and aff: "affinity_laws (sys_K sys) aff"
    and fr: "wdt_frame_laws (sys_K sys) isrs armed" and ready: "watchdogs_ready isrs sys w"
    and ends: "watchdogs_end isrs armed sys yield fuel"
    and n: "n < rt_cpu_count (sys_K sys)" and st: "watchdogs_stopped isrs armed sys w n w1"
  shows "(\<exists>w2. res_bind (pin_self sys n w1) (\<lambda>w1. res_bind (watchdog_cpu_task_stop sys yield fuel w1) (\<lambda>(sc, w2).
         if sc \<noteq> RTEMS_SUCCESSFUL \<and> sc \<noteq> RTEMS_NOT_DEFINED then Inl Panic else Inr w2)) = Inr w2 \<and>
       watchdogs_stopped isrs armed sys w (Suc n) w2) \<or>
    (\<exists>e. res_bind (pin_self sys n w1) (\<lambda>w1. res_bind (watchdog_cpu_task_stop sys yield fuel w1) (\<lambda>(sc, w2).
         if sc \<noteq> RTEMS_SUCCESSFUL \<and> sc \<noteq> RTEMS_NOT_DEFINED then Inl Panic else Inr w2)) = Inl e \<and>
       \<not> accepts_tasks (sys_K sys) isrs \<and> e \<in> {Panic, Assert_Failed})"
proof -
  let ?p = "wdts (w_devs w)" and ?N = "rt_cpu_count (sys_K sys)"
  let ?h = "\<lambda>cpu. (?p cpu, Watchdog_timeout_isr, ?p cpu)"
  obtain c k where w1: "w1 = w\<lparr>w_wdtc := c, w_ker := k\<rparr>" and c: "\<forall>cpu < n. \<not> wt_running (c cpu)"
      "\<forall>cpu. n \<le> cpu \<and> cpu < ?N \<longrightarrow> wt_running (c cpu) \<and> wt_wdt (c cpu) = ?p cpu \<and> wt_cb (c cpu) = Watchdog_timeout_isr \<and>
         wt_cb_arg (c cpu) = ?p cpu"
    and k: "isrs k = isrs (w_ker w) \<union> ?h ` {n..<?N}" "armed k = armed (w_ker w) \<union> ?p ` {..<?N}"
      "rt_task_self (sys_K sys) k = rt_task_self (sys_K sys) (w_ker w)"
    using st unfolding watchdogs_stopped_def Let_def by (elim exE conjE)
  have ctx: "wt_running (c n)" "wt_wdt (c n) = ?p n" "wt_cb (c n) = Watchdog_timeout_isr" "wt_cb_arg (c n) = ?p n"
    using c(2) n by auto
  show ?thesis
  proof (cases rule: pin_self_cases [OF aff fr, of n w1])
    case 2
    then show ?thesis using n by (auto simp: stops_def)
  next
    case (1 k0)
    let ?w = "w1\<lparr>w_ker := k0\<rparr>"
    obtain sc k1 where rem: "rt_wdt_handler_remove (sys_K sys) (?p n) Watchdog_timeout_isr (?p n) k0 = (sc, k1)" by fastforce
    note lr = wdt_laws_remove [OF laws rem]
    have sc: "sc = RTEMS_SUCCESSFUL" using lr(3) 1(3) k(1) w1 n by auto
    have old: "?h n \<notin> isrs (w_ker w)" using ready n by (simp add: watchdogs_ready_def)
    have "{n..<?N} = insert n {Suc n..<?N}" using n by auto
    moreover have "?h n \<notin> ?h ` {Suc n..<?N}"
      using ready n unfolding watchdogs_ready_def inj_on_def by fastforce
    ultimately have isrs1: "isrs k1 = isrs (w_ker w) \<union> ?h ` {Suc n..<?N}"
      using lr(1) sc 1(3) k(1) w1 old by auto
    obtain sc' k2 where send: "rt_event_send (sys_K sys) (wt_tid (c n)) WDT_TASK_EXIT k1 = (sc', k2)" by fastforce
    note ls = wdt_laws_frame(4) [OF laws send]
    have self: "rt_task_self (sys_K sys) k2 = rt_task_self (sys_K sys) k0"
    proof -
      have "rt_task_self (sys_K sys) k1 = rt_task_self (sys_K sys) k0"
        using fr [unfolded wdt_frame_laws_def, THEN conjunct2, THEN conjunct2, THEN conjunct2, THEN conjunct1, rule_format,
          of "?p n" Watchdog_timeout_isr "?p n" k0] rem by simp
      moreover have "rt_task_self (sys_K sys) k2 = rt_task_self (sys_K sys) k1"
        using fr [unfolded wdt_frame_laws_def, THEN conjunct2, THEN conjunct2, THEN conjunct2, THEN conjunct2, THEN conjunct2,
          THEN conjunct2, rule_format, of "wt_tid (c n)" WDT_TASK_EXIT k1] send by simp
      ultimately show ?thesis by simp
    qed
    show ?thesis
    proof (cases "sc' = RTEMS_SUCCESSFUL")
      case False
      then have "watchdog_cpu_task_stop sys yield fuel ?w = Inr (sc', w1\<lparr>w_ker := k2\<rparr>)"
        using rem sc send ctx 1(2) w1 by (simp add: watchdog_cpu_task_stop_def event_send_def Let_def)
      moreover have "sc' = RTEMS_INVALID_ID"
        using fr [unfolded wdt_frame_laws_def, THEN conjunct2, THEN conjunct2, THEN conjunct2, THEN conjunct2, THEN conjunct2,
          THEN conjunct2, rule_format, of "wt_tid (c n)" WDT_TASK_EXIT k1] send False by simp
      moreover have "\<not> accepts_tasks (sys_K sys) isrs" using accepts_tasksD(5) [OF _ send] False by blast
      ultimately show ?thesis using 1(1) by simp
    next
      case True
      obtain k3 where k3: "wait_while (\<lambda>w. Inr (wt_running (w_wdtc w n))) yield fuel (w1\<lparr>w_ker := k2\<rparr>) =
          Inr (w1\<lparr>w_wdtc := c(n := (c n)\<lparr>wt_running := False\<rparr>), w_ker := k3\<rparr>)"
        "isrs k3 = isrs k2" "armed k3 = armed k2" "rt_task_self (sys_K sys) k3 = rt_task_self (sys_K sys) k2"
        using ends [unfolded watchdogs_end_def, rule_format, where w = w1 and cpu = n and ?k0.0 = k0 and ?k1.0 = k1 and k = k2 and sc = sc]
          rem sc send ctx 1(2) True w1 by auto
      let ?c = "c(n := (c n)\<lparr>wt_running := False\<rparr>)"
      have "watchdog_cpu_task_stop sys yield fuel ?w = Inr (RTEMS_SUCCESSFUL, w\<lparr>w_wdtc := ?c, w_ker := k3\<rparr>)"
        using rem sc send ctx 1(2) w1 k3(1) True by (simp add: watchdog_cpu_task_stop_def event_send_def Let_def)
      moreover have "watchdogs_stopped isrs armed sys w (Suc n) (w\<lparr>w_wdtc := ?c, w_ker := k3\<rparr>)"
        unfolding watchdogs_stopped_def Let_def
        by (intro exI [of _ ?c] exI [of _ k3])
          (use c k isrs1 k3 ls lr(2) 1(3-5) self w1 in \<open>auto simp: less_Suc_eq\<close>)
      ultimately show ?thesis using 1(1) by simp
    qed
  qed
qed

lemma watchdogs_stopped_frame:
  assumes "watchdogs_stopped isrs armed sys w n w1"
  shows "rt_task_self (sys_K sys) (w_ker w1) = rt_task_self (sys_K sys) (w_ker w)"
    and "isrs k = isrs (w_ker w1) \<Longrightarrow> armed k = armed (w_ker w1) \<Longrightarrow> rt_task_self (sys_K sys) k = rt_task_self (sys_K sys) (w_ker w) \<Longrightarrow>
      watchdogs_stopped isrs armed sys w n (w1\<lparr>w_ker := k\<rparr>)"
proof -
  let ?p = "wdts (w_devs w)" and ?N = "rt_cpu_count (sys_K sys)"
  obtain c k1 where o: "w1 = w\<lparr>w_wdtc := c, w_ker := k1\<rparr>" "\<forall>cpu < n. \<not> wt_running (c cpu)"
    "\<forall>cpu. n \<le> cpu \<and> cpu < ?N \<longrightarrow> wt_running (c cpu) \<and> wt_wdt (c cpu) = ?p cpu \<and> wt_cb (c cpu) = Watchdog_timeout_isr \<and>
       wt_cb_arg (c cpu) = ?p cpu"
    "isrs k1 = isrs (w_ker w) \<union> (\<lambda>cpu. (?p cpu, Watchdog_timeout_isr, ?p cpu)) ` {n..<?N}" "armed k1 = armed (w_ker w) \<union> ?p ` {..<?N}"
    "rt_task_self (sys_K sys) k1 = rt_task_self (sys_K sys) (w_ker w)"
    using assms unfolding watchdogs_stopped_def Let_def by (elim exE conjE)
  show "rt_task_self (sys_K sys) (w_ker w1) = rt_task_self (sys_K sys) (w_ker w)" using o(1,6) by simp
  show "isrs k = isrs (w_ker w1) \<Longrightarrow> armed k = armed (w_ker w1) \<Longrightarrow> rt_task_self (sys_K sys) k = rt_task_self (sys_K sys) (w_ker w) \<Longrightarrow>
      watchdogs_stopped isrs armed sys w n (w1\<lparr>w_ker := k\<rparr>)"
    unfolding watchdogs_stopped_def Let_def by (intro exI [of _ c] exI [of _ k]) (use o in simp)
qed

lemma watchdogs_on_stopped_0:
  assumes "watchdogs_on isrs armed sys w {..<rt_cpu_count (sys_K sys)} w1"
  shows "watchdogs_stopped isrs armed sys w 0 w1"
proof -
  obtain c k1 where "w1 = w\<lparr>w_wdtc := c, w_ker := k1\<rparr>"
    "\<forall>cpu \<in> {..<rt_cpu_count (sys_K sys)}. wt_running (c cpu) \<and> wt_wdt (c cpu) = wdts (w_devs w) cpu \<and>
       wt_cb (c cpu) = Watchdog_timeout_isr \<and> wt_cb_arg (c cpu) = wdts (w_devs w) cpu \<and> wt_ticks (c cpu) = WDT_KICK_INTERVAL_TICKS sys"
    "isrs k1 = isrs (w_ker w) \<union> (\<lambda>cpu. (wdts (w_devs w) cpu, Watchdog_timeout_isr, wdts (w_devs w) cpu)) ` {..<rt_cpu_count (sys_K sys)}"
    "armed k1 = armed (w_ker w) \<union> wdts (w_devs w) ` {..<rt_cpu_count (sys_K sys)}"
    "rt_task_self (sys_K sys) k1 = rt_task_self (sys_K sys) (w_ker w)"
    using assms unfolding watchdogs_on_def by (elim exE conjE)
  then show ?thesis
    unfolding watchdogs_stopped_def Let_def
    by (intro exI [of _ c] exI [of _ k1]) (simp add: atLeast0LessThan)
qed

lemma watchdog_tasks_destroy_ok:
  assumes laws: "wdt_laws (sys_K sys) isrs armed" and aff: "affinity_laws (sys_K sys) aff"
    and fr: "wdt_frame_laws (sys_K sys) isrs armed" and ready: "watchdogs_ready isrs sys w"
    and ends: "watchdogs_end isrs armed sys yield fuel" and t: "t = rt_task_self (sys_K sys) (w_ker w)"
    and set: "aff (w_ker w1) t \<noteq> {}" "aff (w_ker w1) t \<subseteq> {..<rt_cpu_count (sys_K sys)}"
    and st: "watchdogs_stopped isrs armed sys w 0 w1"
  shows "(\<exists>w'. watchdog_tasks_destroy sys yield fuel w1 = Inr w' \<and>
      watchdogs_stopped isrs armed sys w (rt_cpu_count (sys_K sys)) w' \<and> aff (w_ker w') t = aff (w_ker w1) t) \<or>
    \<not> accepts_tasks (sys_K sys) isrs \<and> stops (watchdog_tasks_destroy sys yield fuel w1)"
  unfolding watchdog_tasks_destroy_def
proof (rule keeping_affinity_cases [OF aff fr _ set])
  let ?n = "rt_cpu_count (sys_K sys)"
  let ?body = "\<lambda>cpu w. res_bind (pin_self sys cpu w) (\<lambda>w1. res_bind (watchdog_cpu_task_stop sys yield fuel w1) (\<lambda>(sc, w2).
         if sc \<noteq> RTEMS_SUCCESSFUL \<and> sc \<noteq> RTEMS_NOT_DEFINED then Inl Panic else Inr w2))"
  show "t = rt_task_self (sys_K sys) (w_ker w1)" using watchdogs_stopped_frame(1) [OF st] t by simp
  have "(\<exists>w1'. res_fold ?body [0..<?n] w1 = Inr w1' \<and> watchdogs_stopped isrs armed sys w ?n w1') \<or>
    (\<exists>e. res_fold ?body [0..<?n] w1 = Inl e \<and> \<not> accepts_tasks (sys_K sys) isrs \<and> e \<in> {Panic, Assert_Failed})"
    by (rule res_fold_upt [where P = "watchdogs_stopped isrs armed sys w", OF st]) (rule watchdogs_stopped_step [OF laws aff fr ready ends])
  then show "(\<exists>w1'. dev_cpu_for_each sys ?body w1 = Inr w1' \<and> watchdogs_stopped isrs armed sys w ?n w1') \<or>
    (\<exists>e. dev_cpu_for_each sys ?body w1 = Inl e \<and> \<not> accepts_tasks (sys_K sys) isrs \<and> e \<in> {Panic, Assert_Failed})"
    by (simp add: dev_cpu_for_each_def)
  show "rt_task_self (sys_K sys) (w_ker w2) = t" if "watchdogs_stopped isrs armed sys w ?n w2" for w2
    using watchdogs_stopped_frame(1) [OF that] t by simp
  show "watchdogs_stopped isrs armed sys w ?n (w2\<lparr>w_ker := k\<rparr>)"
    if "watchdogs_stopped isrs armed sys w ?n w2" "isrs k = isrs (w_ker w2)" "armed k = armed (w_ker w2)" "rt_task_self (sys_K sys) k = t"
    for w2 k
    using watchdogs_stopped_frame(2) [OF that(1-3)] that(4) t by simp
qed

subsection \<open>Properties\<close>

text \<open>C26. Creating the watchdog tasks ends with a running task on every processor for the watchdog of
  that processor, whose handler is installed and which is armed, and with the affinity of the caller
  as before; nothing else on the node changes. Otherwise the node stops, which happens only when the
  kernel refuses a call.\<close>

theorem watchdog_tasks_create_outcome:
  assumes laws: "wdt_laws (sys_K sys) isrs armed" and aff: "affinity_laws (sys_K sys) aff"
    and fr: "wdt_frame_laws (sys_K sys) isrs armed" and ready: "watchdogs_ready isrs sys w"
    and t: "t = rt_task_self (sys_K sys) (w_ker w)"
    and set: "aff (w_ker w) t \<noteq> {}" "aff (w_ker w) t \<subseteq> {..<rt_cpu_count (sys_K sys)}"
  shows "(\<exists>w' c k. watchdog_tasks_create sys prio w = Inr w' \<and> w' = w\<lparr>w_wdtc := c, w_ker := k\<rparr> \<and>
      (\<forall>cpu < rt_cpu_count (sys_K sys). wt_running (c cpu) \<and> wt_wdt (c cpu) = wdts (w_devs w) cpu \<and>
         wt_ticks (c cpu) = WDT_KICK_INTERVAL_TICKS sys \<and> wdts (w_devs w) cpu \<in> armed k \<and>
         (wdts (w_devs w) cpu, Watchdog_timeout_isr, wdts (w_devs w) cpu) \<in> isrs k) \<and>
      aff k t = aff (w_ker w) t) \<or>
    \<not> accepts_tasks (sys_K sys) isrs \<and> stops (watchdog_tasks_create sys prio w)"
  using watchdog_tasks_create_ok [OF laws aff fr ready t set, of prio]
proof (elim disjE exE conjE)
  fix w'
  assume c: "watchdog_tasks_create sys prio w = Inr w'" "aff (w_ker w') t = aff (w_ker w) t"
    and on: "watchdogs_on isrs armed sys w {..<rt_cpu_count (sys_K sys)} w'"
  from on show ?thesis
    unfolding watchdogs_on_def using c
    by (intro disjI1 exI [of _ w'] exI [of _ "w_wdtc w'"] exI [of _ "w_ker w'"]) auto
qed blast


text \<open>
  A node with two processors whose kernel makes any number of tasks, and on which the watchdog
  task of the caller's processor leaves its loop as soon as it can.
\<close>

definition busy_rtems :: "demo_kernel rtems" where
  "busy_rtems = demo_rtems\<lparr>rt_task_create := (\<lambda>_ _ k. (RTEMS_SUCCESSFUL, 7, k)),
     rt_task_start := (\<lambda>_ _ _ k. (RTEMS_SUCCESSFUL, k)), rt_event_send := (\<lambda>_ _ k. (RTEMS_SUCCESSFUL, k))\<rparr>"

definition busy_sys :: "demo_kernel sys" where
  "busy_sys = \<lparr>sys_K = busy_rtems, sys_hw = demo_hw, sys_handled = (\<lambda>_ _ _. Inr)\<rparr>"

definition busy_slice :: "demo_kernel world \<Rightarrow> demo_kernel world res" where
  "busy_slice w = Inr (upd_wdtc (dk_cpu (w_ker w)) (\<lambda>c. c\<lparr>wt_running := False\<rparr>) w)"

definition busy_world :: "demo_kernel world" where
  "busy_world = demo_world\<lparr>w_devs := devices_init\<lparr>wdts := (\<lambda>cpu. 0xf00 + of_nat cpu)\<rparr>\<rparr>"

lemma busy_laws:
  "wdt_laws (sys_K busy_sys) (\<lambda>k. set (dk_wisrs k)) (\<lambda>k. set (dk_armed k))"
  "affinity_laws (sys_K busy_sys) dk_aff"
  "wdt_frame_laws (sys_K busy_sys) (\<lambda>k. set (dk_wisrs k)) (\<lambda>k. set (dk_armed k))"
  "accepts_tasks (sys_K busy_sys) (\<lambda>k. set (dk_wisrs k))"
  "watchdogs_ready (\<lambda>k. set (dk_wisrs k)) busy_sys busy_world"
proof -
  have n: "{..<2 :: nat} = {0, 1}" by auto
  have all2: "(\<forall>cpu < 2 :: nat. P cpu) = (P 0 \<and> P 1)" for P by (auto simp: less_2_cases_iff)
  show "wdt_laws (sys_K busy_sys) (\<lambda>k. set (dk_wisrs k)) (\<lambda>k. set (dk_armed k))"
    by (force simp: wdt_laws_def busy_sys_def busy_rtems_def demo_rtems_def image_iff)
  show "affinity_laws (sys_K busy_sys) dk_aff"
    by (auto simp: affinity_laws_def busy_sys_def busy_rtems_def demo_rtems_def Let_def)
  show "wdt_frame_laws (sys_K busy_sys) (\<lambda>k. set (dk_wisrs k)) (\<lambda>k. set (dk_armed k))"
    by (simp add: wdt_frame_laws_def busy_sys_def busy_rtems_def demo_rtems_def)
  show "accepts_tasks (sys_K busy_sys) (\<lambda>k. set (dk_wisrs k))"
    by (auto simp: accepts_tasks_def busy_sys_def busy_rtems_def demo_rtems_def n image_iff) blast
  show "watchdogs_ready (\<lambda>k. set (dk_wisrs k)) busy_sys busy_world"
    unfolding watchdogs_ready_def
    by (simp add: busy_sys_def busy_rtems_def demo_rtems_def busy_world_def demo_world_def demo_k0_def n all2)
qed

lemma busy_ends: "watchdogs_end (\<lambda>k. set (dk_wisrs k)) (\<lambda>k. set (dk_armed k)) busy_sys busy_slice 1"
  unfolding watchdogs_end_def
proof (intro allI impI)
  fix w :: "demo_kernel world" and k0 sc k1 k cpu
  assume cpu: "cpu = rt_current_cpu (sys_K busy_sys) k0" and run: "wt_running (w_wdtc w cpu)"
    and rem: "rt_wdt_handler_remove (sys_K busy_sys) (wt_wdt (w_wdtc w cpu)) (wt_cb (w_wdtc w cpu)) (wt_cb_arg (w_wdtc w cpu)) k0 = (sc, k1)"
    and send: "rt_event_send (sys_K busy_sys) (wt_tid (w_wdtc w cpu)) WDT_TASK_EXIT k1 = (RTEMS_SUCCESSFUL, k)"
  have "dk_cpu k1 = dk_cpu k0"
    using rem by (simp add: busy_sys_def busy_rtems_def demo_rtems_def split: if_splits) auto
  then have "dk_cpu k = cpu" using send cpu by (simp add: busy_sys_def busy_rtems_def demo_rtems_def)
  then have "busy_slice (w\<lparr>w_ker := k\<rparr>) = Inr (w\<lparr>w_wdtc := (w_wdtc w)(cpu := (w_wdtc w cpu)\<lparr>wt_running := False\<rparr>), w_ker := k\<rparr>)"
    by (simp add: busy_slice_def upd_wdtc_def)
  then show "\<exists>k'. wait_while (\<lambda>w. Inr (wt_running (w_wdtc w cpu))) busy_slice 1 (w\<lparr>w_ker := k\<rparr>) =
       Inr (w\<lparr>w_wdtc := (w_wdtc w)(cpu := (w_wdtc w cpu)\<lparr>wt_running := False\<rparr>), w_ker := k'\<rparr>) \<and>
     set (dk_wisrs k') = set (dk_wisrs k) \<and> set (dk_armed k') = set (dk_armed k) \<and>
     rt_task_self (sys_K busy_sys) k' = rt_task_self (sys_K busy_sys) k"
    using run by (intro exI [of _ k]) simp
qed

lemma busy_caller: "1 = rt_task_self (sys_K busy_sys) (w_ker busy_world)" "dk_aff (w_ker busy_world) 1 \<noteq> {}"
  "dk_aff (w_ker busy_world) 1 \<subseteq> {..<rt_cpu_count (sys_K busy_sys)}"
  by (auto simp: busy_sys_def busy_rtems_def demo_rtems_def busy_world_def demo_k0_def)

lemma busy_created:
  "\<exists>w1. watchdog_tasks_create busy_sys 1 busy_world = Inr w1"
  using watchdog_tasks_create_ok [OF busy_laws(1-3,5) busy_caller, of 1] busy_laws(4) by blast

theorem watchdog_tasks_create_outcome_witness:
  "\<exists>w'. watchdog_tasks_create busy_sys 1 busy_world = Inr w' \<and> wt_running (w_wdtc w' 1) \<and> 0xf01 \<in> set (dk_armed (w_ker w'))"
proof -
  have "wdts (w_devs busy_world) 1 = 0xf01" "1 < rt_cpu_count (sys_K busy_sys)"
    by (simp_all add: busy_world_def busy_sys_def busy_rtems_def demo_rtems_def)
  then show ?thesis
    using watchdog_tasks_create_outcome [OF busy_laws(1-3,5) busy_caller, of 1] busy_laws(4) by fastforce
qed


end
