(* ===== verification/Shutdown.thy ===== *)
theory Shutdown
  imports Link_Setup_Shmem Watchdog
begin

text \<open>
  Shutting the real-time node down (\<open>rtps-r52/shutdown.h\<close>, \<open>rtps-r52/shutdown.c\<close>), phase by phase.
  The command of the shell only calls \<open>shutdown\<close>; the call of \<open>exit\<close> at the end is where the
  model stops.
\<close>

subsection \<open>Model\<close>

definition devs_do :: "(devices \<Rightarrow> devices res) \<Rightarrow> 'k world \<Rightarrow> 'k world res" where
  "devs_do f w = res_bind (f (w_devs w)) (\<lambda>d. Inr (w\<lparr>w_devs := d\<rparr>))"

definition shutdown_task_visitor :: "'k sys \<Rightarrow> rtems_id \<Rightarrow> 'k world \<Rightarrow> 'k world res" where
  "shutdown_task_visitor sys task w =
     (if rt_task_self (sys_K sys) (w_ker w) = task then Inr w
      else case rt_task_suspend (sys_K sys) task (w_ker w) of (sc, k) \<Rightarrow>
        c_assert (sc = RTEMS_SUCCESSFUL \<or> sc = RTEMS_ALREADY_SUSPENDED) (Inr (w\<lparr>w_ker := k\<rparr>)))"

text \<open>Disconnecting the stored links; at most \<open>n\<close> of them.\<close>

fun shutdown_links :: "'k sys \<Rightarrow> ('k world \<Rightarrow> 'k world res) \<Rightarrow> nat \<Rightarrow> nat \<Rightarrow> 'k world \<Rightarrow> 'k world res" where
  "shutdown_links sys yield fuel n w =
     (case link_store_extract_first (sys_K sys) (w_store w) (w_ker w) of (l, store, k) \<Rightarrow>
        let w1 = w\<lparr>w_store := store, w_ker := k\<rparr> in
        if l = NULL then Inr w1
        else (case n of 0 \<Rightarrow> Inl Out_Of_Fuel
          | Suc n' \<Rightarrow> c_deref (w_link w1 l) (\<lambda>_.
              res_bind (link_disconnect sys yield fuel l w1) (\<lambda>(_, w2). shutdown_links sys yield fuel n' w2))))"

declare shutdown_links.simps [simp del]

definition remove_mbox :: "'k sys \<Rightarrow> ptr \<Rightarrow> 'k world \<Rightarrow> (rtems_status_code \<times> 'k world) res" where
  "remove_mbox sys m w =
     c_deref (w_mbox w m) (\<lambda>mb.
       res_bind (hpsc_mbox_remove (sys_K sys) (sys_hw sys) m \<lparr>st_mbox = mb, st_regs = w_mreg w\<rparr> (w_ker w)) (\<lambda>(sc, s, k).
         Inr (sc, w\<lparr>w_mbox := (w_mbox w)(m := None), w_mreg := st_regs s, w_ker := k\<rparr>)))"

definition shutdown_mbox :: "'k sys \<Rightarrow> nat \<Rightarrow> 'k world \<Rightarrow> 'k world res" where
  "shutdown_mbox sys i w =
     res_bind (dev_get_mbox i (w_devs w)) (\<lambda>m.
       if m = NULL then Inr w
       else res_bind (devs_do (dev_set_mbox i NULL) w) (\<lambda>w1.
            res_bind (remove_mbox sys m w1) (\<lambda>(sc, w2).
              if sc \<noteq> RTEMS_SUCCESSFUL then Inl Panic else Inr w2)))"

definition remove_rtit :: "'k sys \<Rightarrow> ptr \<Rightarrow> 'k world \<Rightarrow> (rtems_status_code \<times> 'k world) res" where
  "remove_rtit sys p w =
     c_deref (w_rtit w p) (\<lambda>t.
       res_bind (hpsc_rti_timer_remove (sys_K sys) p t (w_ker w)) (\<lambda>(sc, t', k).
         Inr (sc, w\<lparr>w_rtit := (w_rtit w)(p := t'), w_ker := k\<rparr>)))"

definition shutdown_rtit :: "'k sys \<Rightarrow> nat \<Rightarrow> 'k world \<Rightarrow> 'k world res" where
  "shutdown_rtit sys cpu w =
     res_bind (pin_self sys cpu w) (\<lambda>w1.
     res_bind (dev_cpu_get_rtit (this_cpu sys w1) (w_devs w1)) (\<lambda>rtit.
       if rtit = NULL then Inr w1
       else res_bind (devs_do (dev_cpu_set_rtit (this_cpu sys w1) NULL) w1) (\<lambda>w2.
            res_bind (remove_rtit sys rtit w2) (\<lambda>(sc, w3).
              if sc \<noteq> RTEMS_SUCCESSFUL then Inl Panic else Inr w3))))"

definition shutdown_wdt :: "'k sys \<Rightarrow> nat \<Rightarrow> 'k world \<Rightarrow> 'k world res" where
  "shutdown_wdt sys cpu w =
     res_bind (pin_self sys cpu w) (\<lambda>w1.
     res_bind (dev_cpu_get_wdt (this_cpu sys w1) (w_devs w1)) (\<lambda>wdt.
       if wdt = NULL then Inr w1
       else res_bind (devs_do (dev_cpu_set_wdt (this_cpu sys w1) NULL) w1) (\<lambda>w2.
              Inr (w2\<lparr>w_ker := rt_wdt_uninit (sys_K sys) wdt (w_ker w2)\<rparr>))))"

text \<open>The part after the watchdog tasks have been stopped, and all of it.\<close>

definition shutdown_rest :: "'k sys \<Rightarrow> 'k world \<Rightarrow> 'k world res" where
  "shutdown_rest sys w =
     res_bind (res_fold (shutdown_task_visitor sys) (rt_task_list (sys_K sys) (w_ker w)) w) (\<lambda>w1.
     res_bind (res_fold (shutdown_mbox sys) [0..<dev_id_code DEV_ID_MBOX_COUNT] w1) (\<lambda>w2.
     res_bind (dev_cpu_for_each sys (shutdown_rtit sys) w2) (\<lambda>w3.
       dev_cpu_for_each sys (shutdown_wdt sys) w3)))"

definition shutdown :: "'k sys \<Rightarrow> ('k world \<Rightarrow> 'k world res) \<Rightarrow> nat \<Rightarrow> nat \<Rightarrow> 'k world \<Rightarrow> 'k world res" where
  "shutdown sys yield fuel n w =
     res_bind (cmd_handle_task_destroy sys yield fuel w) (\<lambda>(_, w1).
     res_bind (shutdown_links sys yield fuel n w1) (\<lambda>w2.
       let w3 = w2\<lparr>w_cmdq := snd (cmd_drop_all (w_cmdq w2))\<rparr> in
       res_bind (watchdog_tasks_destroy sys yield fuel w3) (shutdown_rest sys)))"

subsection \<open>Disconnecting mailbox links\<close>

text \<open>A mailbox link whose objects all exist and whose channels have been claimed.\<close>

definition mlink_closable :: "ptr \<Rightarrow> 'k world \<Rightarrow> bool" where
  "mlink_closable l w \<longleftrightarrow> (\<exists>lk ml mb. w_link w l = Some lk \<and> l_close lk = Link_mbox_close \<and> w_mlink w (l_priv lk) = Some ml \<and>
     ml_mbox ml \<noteq> NULL \<and> w_mbox w (ml_mbox ml) = Some mb \<and> mbox_wf mb \<and> chan_from ml < 32 \<and> chan_to ml < 32 \<and>
     ch_base (mb_chans mb ! chan_from ml) \<noteq> None \<and> ch_base (mb_chans mb ! chan_to ml) \<noteq> None)"

definition link_priv :: "'k world \<Rightarrow> ptr \<Rightarrow> ptr" where
  "link_priv w l = l_priv (the (w_link w l))"

text \<open>The driver structures keep their shape: which channels have been claimed at some time, and the interrupts.\<close>

definition mbox_kept :: "hpsc_mbox \<Rightarrow> hpsc_mbox \<Rightarrow> bool" where
  "mbox_kept mb mb' \<longleftrightarrow> (mbox_wf mb \<longrightarrow> mbox_wf mb' \<and> (\<forall>i < 32. (ch_base (mb_chans mb' ! i) = None) = (ch_base (mb_chans mb ! i) = None))) \<and>
     mb_int_a mb' = mb_int_a mb \<and> mb_int_b mb' = mb_int_b mb"

definition mboxes_kept :: "'k world \<Rightarrow> 'k world \<Rightarrow> bool" where
  "mboxes_kept w w' \<longleftrightarrow> (\<forall>m mb. w_mbox w m = Some mb \<longrightarrow> (\<exists>mb'. w_mbox w' m = Some mb' \<and> mbox_kept mb mb'))"

lemma mbox_kept_refl [simp]: "mbox_kept mb mb"
  by (simp add: mbox_kept_def)

lemma mbox_kept_trans: "mbox_kept a b \<Longrightarrow> mbox_kept b c \<Longrightarrow> mbox_kept a c"
  by (auto simp: mbox_kept_def)

lemma mboxes_kept_refl [simp]: "w_mbox w' = w_mbox w \<Longrightarrow> mboxes_kept w w'"
  by (simp add: mboxes_kept_def)

lemma mboxes_kept_trans: "mboxes_kept a b \<Longrightarrow> mboxes_kept b c \<Longrightarrow> mboxes_kept a c"
  unfolding mboxes_kept_def by (meson mbox_kept_trans)

lemma release_chan_kept:
  assumes m: "m \<noteq> NULL" "w_mbox w m = Some mb" and wf: "mbox_wf mb" and i: "i < 32" and base: "ch_base (mb_chans mb ! i) \<noteq> None"
    and task: "\<not> rt_int_in_progress (sys_K sys) (w_ker w)"
  shows "\<exists>mb' rg. release_chan sys m i w = Inr (RTEMS_SUCCESSFUL, w\<lparr>w_mbox := (w_mbox w)(m \<mapsto> mb'), w_mreg := rg\<rparr>) \<and>
    mbox_kept mb mb' \<and> mbox_wf mb'"
proof -
  let ?s = "\<lparr>st_mbox = mb, st_regs = w_mreg w\<rparr>"
  obtain a where "ch_base (chan_of ?s i) = Some a" using base by auto
  from release_claimed [of ?s i a "sys_hw sys", OF _ i this] wf
  obtain s' where s': "hpsc_mbox_chan_release (sys_hw sys) False i ?s = Inr (RTEMS_SUCCESSFUL, s')" "mbox_wf (st_mbox s')"
    "mb_int_a (st_mbox s') = mb_int_a mb" "mb_int_b (st_mbox s') = mb_int_b mb" "ch_base (chan_of s' i) = Some a"
    "\<forall>j. j \<noteq> i \<longrightarrow> chan_of s' j = mb_chans mb ! j" by auto
  have "mbox_kept mb (st_mbox s')"
    unfolding mbox_kept_def using s' base by (metis option.distinct(1))
  with s'(1,2) m task show ?thesis
    by (intro exI [of _ "st_mbox s'"] exI [of _ "st_regs s'"]) (simp add: release_chan_def mbox_run_def)
qed

lemma close_mlink:
  assumes heap: "heap_laws (sys_K sys) live" and irq: "irq_laws (sys_K sys) irqs" and isr: "isr_laws (sys_K sys)"
    and l: "mlink_closable l w" and task: "\<not> rt_int_in_progress (sys_K sys) (w_ker w)"
  shows "\<exists>mbx rg k. link_disconnect sys yield fuel l w = Inr (0, w\<lparr>w_link := (w_link w)(l := None),
      w_mlink := (w_mlink w)(link_priv w l := None), w_mbox := mbx, w_mreg := rg, w_ker := k\<rparr>) \<and>
    mboxes_kept w (w\<lparr>w_mbox := mbx\<rparr>) \<and> live k = live (w_ker w) - {l, link_priv w l} \<and> irqs k = irqs (w_ker w) \<and>
    \<not> rt_int_in_progress (sys_K sys) k"
proof -
  obtain lk ml mb where lk: "w_link w l = Some lk" "l_close lk = Link_mbox_close" "w_mlink w (l_priv lk) = Some ml" "ml_mbox ml \<noteq> NULL"
    and mb: "w_mbox w (ml_mbox ml) = Some mb" "mbox_wf mb" "chan_from ml < 32" "chan_to ml < 32"
      "ch_base (mb_chans mb ! chan_from ml) \<noteq> None" "ch_base (mb_chans mb ! chan_to ml) \<noteq> None"
    using l unfolding mlink_closable_def by (elim exE conjE)
  from release_chan_kept [OF lk(4) mb(1,2,3,5) task]
  obtain mb1 rg1 where r1: "release_chan sys (ml_mbox ml) (chan_from ml) w =
      Inr (RTEMS_SUCCESSFUL, w\<lparr>w_mbox := (w_mbox w)(ml_mbox ml \<mapsto> mb1), w_mreg := rg1\<rparr>)" "mbox_kept mb mb1" "mbox_wf mb1" by blast
  let ?w1 = "w\<lparr>w_mbox := (w_mbox w)(ml_mbox ml \<mapsto> mb1), w_mreg := rg1\<rparr>"
  have "ch_base (mb_chans mb1 ! chan_to ml) \<noteq> None" using r1(2) mb by (simp add: mbox_kept_def)
  with release_chan_kept [OF lk(4), of ?w1 mb1 "chan_to ml" sys] r1(3) mb(4) task
  obtain mb2 rg2 where r2: "release_chan sys (ml_mbox ml) (chan_to ml) ?w1 =
      Inr (RTEMS_SUCCESSFUL, ?w1\<lparr>w_mbox := (w_mbox ?w1)(ml_mbox ml \<mapsto> mb2), w_mreg := rg2\<rparr>)" "mbox_kept mb1 mb2" by auto
  let ?k = "rt_free (sys_K sys) l (rt_free (sys_K sys) (l_priv lk) (w_ker w))"
  let ?mbx = "(w_mbox w)(ml_mbox ml \<mapsto> mb2)"
  have "link_disconnect sys yield fuel l w = Inr (0, w\<lparr>w_link := (w_link w)(l := None),
      w_mlink := (w_mlink w)(link_priv w l := None), w_mbox := ?mbx, w_mreg := rg2, w_ker := ?k\<rparr>)"
    using lk r1(1) r2(1) by (simp add: link_disconnect_def link_mbox_close_def free_link_def free_mlink_def w_free_def link_priv_def)
  moreover have "mboxes_kept w (w\<lparr>w_mbox := ?mbx\<rparr>)"
    using mbox_kept_trans [OF r1(2) r2(2)] mb(1) by (simp add: mboxes_kept_def)
  moreover have "live ?k = live (w_ker w) - {l, link_priv w l}" "irqs ?k = irqs (w_ker w)" "\<not> rt_int_in_progress (sys_K sys) ?k"
    using lk(1) task by (auto simp: heap_laws_frame(1) [OF heap] irq_laws_heap(2) [OF irq] isr_laws_frame(2) [OF isr] link_priv_def)
  ultimately show ?thesis by blast
qed

lemma closable_after_close:
  assumes "mlink_closable l' w" and "l' \<noteq> l" and "link_priv w l' \<noteq> link_priv w l" and "mboxes_kept w (w\<lparr>w_mbox := mbx\<rparr>)"
  shows "mlink_closable l' (w\<lparr>w_store := st, w_link := (w_link w)(l := None), w_mlink := (w_mlink w)(link_priv w l := None), w_mbox := mbx,
    w_mreg := rg, w_ker := k\<rparr>)"
proof -
  obtain lk ml mb where lk: "w_link w l' = Some lk" "l_close lk = Link_mbox_close" "w_mlink w (l_priv lk) = Some ml" "ml_mbox ml \<noteq> NULL"
    and mb: "w_mbox w (ml_mbox ml) = Some mb" "mbox_wf mb" "chan_from ml < 32" "chan_to ml < 32"
      "ch_base (mb_chans mb ! chan_from ml) \<noteq> None" "ch_base (mb_chans mb ! chan_to ml) \<noteq> None"
    using assms(1) unfolding mlink_closable_def by (elim exE conjE)
  obtain mb' where mb': "mbx (ml_mbox ml) = Some mb'" "mbox_kept mb mb'"
    using assms(4) mb(1) unfolding mboxes_kept_def by auto
  have "mbox_wf mb'" "ch_base (mb_chans mb' ! chan_from ml) \<noteq> None" "ch_base (mb_chans mb' ! chan_to ml) \<noteq> None"
    using mb'(2) mb by (simp_all add: mbox_kept_def)
  moreover have "l_priv lk \<noteq> link_priv w l" using assms(3) lk(1) by (simp add: link_priv_def)
  ultimately show ?thesis
    unfolding mlink_closable_def using lk mb(3,4) mb'(1) assms(2)
    by (intro exI [of _ lk] exI [of _ ml] exI [of _ mb']) simp
qed

text \<open>A store of mailbox links that share no object.\<close>

definition mlinks_stored :: "('k \<Rightarrow> ptr set) \<Rightarrow> 'k world \<Rightarrow> bool" where
  "mlinks_stored live w \<longleftrightarrow> store_wf (live (w_ker w)) (w_store w) \<and>
     distinct (map sn_link (w_store w)) \<and> inj_on (link_priv w) (set (map sn_link (w_store w))) \<and>
     (\<forall>n \<in> set (w_store w). mlink_closable (sn_link n) w) \<and>
     set (map sn_node (w_store w)) \<inter> (set (map sn_link (w_store w)) \<union> link_priv w ` set (map sn_link (w_store w))) = {}"

definition stored_objects :: "'k world \<Rightarrow> ptr set" where
  "stored_objects w = set (map sn_node (w_store w)) \<union> set (map sn_link (w_store w)) \<union> link_priv w ` set (map sn_link (w_store w))"

text \<open>What is left when the links have been disconnected.\<close>

definition links_gone :: "('k \<Rightarrow> ptr set) \<Rightarrow> ('k \<Rightarrow> (rtems_vector_number \<times> handler \<times> ptr) set) \<Rightarrow> 'k sys \<Rightarrow> 'k world \<Rightarrow> 'k world \<Rightarrow> bool" where
  "links_gone live irqs sys w w' \<longleftrightarrow> w_store w' = [] \<and>
     (\<forall>n \<in> set (w_store w). w_link w' (sn_link n) = None \<and> w_mlink w' (link_priv w (sn_link n)) = None) \<and>
     (\<forall>l. l \<notin> set (map sn_link (w_store w)) \<longrightarrow> w_link w' l = w_link w l) \<and>
     (\<forall>p. p \<notin> link_priv w ` set (map sn_link (w_store w)) \<longrightarrow> w_mlink w' p = w_mlink w p) \<and>
     mboxes_kept w w' \<and> live (w_ker w') = live (w_ker w) - stored_objects w \<and> irqs (w_ker w') = irqs (w_ker w) \<and>
     rt_int_in_progress (sys_K sys) (w_ker w') = rt_int_in_progress (sys_K sys) (w_ker w) \<and>
     w_devs w' = w_devs w \<and> w_cmdq w' = w_cmdq w \<and> w_handler w' = w_handler w \<and> w_rtit w' = w_rtit w \<and> w_wdtc w' = w_wdtc w"

text \<open>One step of the loop: the first node and its link leave the store.\<close>

definition without_first :: "link_store_node \<Rightarrow> link_store_node list \<Rightarrow> (ptr \<Rightarrow> hpsc_mbox option) \<Rightarrow> (u32 \<Rightarrow> hpsc_mbox_chan_base) \<Rightarrow> 'k \<Rightarrow>
  'k world \<Rightarrow> 'k world" where
  "without_first x xs mbx rg k w = w\<lparr>w_store := xs, w_link := (w_link w)(sn_link x := None),
     w_mlink := (w_mlink w)(link_priv w (sn_link x) := None), w_mbox := mbx, w_mreg := rg, w_ker := k\<rparr>"

lemma without_first_simps [simp]:
  "w_store (without_first x xs mbx rg k w) = xs" "w_link (without_first x xs mbx rg k w) = (w_link w)(sn_link x := None)"
  "w_mlink (without_first x xs mbx rg k w) = (w_mlink w)(link_priv w (sn_link x) := None)"
  "w_mbox (without_first x xs mbx rg k w) = mbx" "w_ker (without_first x xs mbx rg k w) = k"
  "w_devs (without_first x xs mbx rg k w) = w_devs w" "w_cmdq (without_first x xs mbx rg k w) = w_cmdq w"
  "w_handler (without_first x xs mbx rg k w) = w_handler w" "w_rtit (without_first x xs mbx rg k w) = w_rtit w"
  "w_wdtc (without_first x xs mbx rg k w) = w_wdtc w"
  by (simp_all add: without_first_def)

lemma mlinks_stored_first:
  assumes "mlinks_stored live w" and "w_store w = x # xs"
  shows "sn_link x \<noteq> NULL" and "mlink_closable (sn_link x) w" and "sn_link x \<notin> sn_link ` set xs"
    and "link_priv w (sn_link x) \<notin> link_priv w ` sn_link ` set xs"
  using assms by (auto simp: mlinks_stored_def store_wf_def)

lemma link_priv_without_first:
  assumes "mlinks_stored live w" and "w_store w = x # xs"
  shows "y \<in> set xs \<Longrightarrow> link_priv (without_first x xs mbx rg k w) (sn_link y) = link_priv w (sn_link y)"
    and "link_priv (without_first x xs mbx rg k w) ` sn_link ` set xs = link_priv w ` sn_link ` set xs"
proof -
  show eq: "link_priv (without_first x xs mbx rg k w) (sn_link y) = link_priv w (sn_link y)" if "y \<in> set xs" for y
  proof -
    have "sn_link y \<noteq> sn_link x" using mlinks_stored_first(3) [OF assms] that by (metis image_eqI)
    then show ?thesis by (simp add: link_priv_def)
  qed
  then show "link_priv (without_first x xs mbx rg k w) ` sn_link ` set xs = link_priv w ` sn_link ` set xs"
    by (simp add: image_image)
qed

lemma mlinks_stored_without_first:
  assumes st: "mlinks_stored live w" "w_store w = x # xs" and kept: "mboxes_kept w (w\<lparr>w_mbox := mbx\<rparr>)"
    and live: "live k = live (w_ker w) - {sn_node x, sn_link x, link_priv w (sn_link x)}"
  shows "mlinks_stored live (without_first x xs mbx rg k w)"
proof -
  note s = st(1) [unfolded mlinks_stored_def st(2)]
  have "store_wf (live k) xs"
  proof -
    have "sn_node x \<notin> sn_node ` set xs" "sn_link x \<notin> sn_node ` set xs" "link_priv w (sn_link x) \<notin> sn_node ` set xs"
      using s by (auto simp: store_wf_def)
    then show ?thesis using s live by (simp add: store_wf_def subset_Diff_insert)
  qed
  moreover have "inj_on (link_priv (without_first x xs mbx rg k w)) (sn_link ` set xs)"
    using s link_priv_without_first(1) [OF st] by (auto simp: inj_on_def)
  moreover have "sn_node ` set xs \<inter> (sn_link ` set xs \<union> link_priv (without_first x xs mbx rg k w) ` sn_link ` set xs) = {}"
    unfolding link_priv_without_first(2) [OF st] using s by auto
  moreover have "mlink_closable (sn_link y) (without_first x xs mbx rg k w)" if "y \<in> set xs" for y
  proof -
    have "mlink_closable (sn_link y) w" using s that by simp
    moreover have "sn_link y \<noteq> sn_link x" using mlinks_stored_first(3) [OF st] that by (metis image_eqI)
    moreover have "link_priv w (sn_link y) \<noteq> link_priv w (sn_link x)"
      using mlinks_stored_first(4) [OF st] that by (metis image_eqI)
    ultimately have "mlink_closable (sn_link y) w" "sn_link y \<noteq> sn_link x" "link_priv w (sn_link y) \<noteq> link_priv w (sn_link x)" .
    from closable_after_close [OF this kept] show ?thesis by (simp add: without_first_def)
  qed
  ultimately show ?thesis using s by (simp add: mlinks_stored_def)
qed

lemma links_gone_without_first:
  assumes st: "mlinks_stored live w" "w_store w = x # xs" and kept: "mboxes_kept w (w\<lparr>w_mbox := mbx\<rparr>)"
    and live: "live k = live (w_ker w) - {sn_node x, sn_link x, link_priv w (sn_link x)}"
    and k: "irqs k = irqs (w_ker w)" "rt_int_in_progress (sys_K sys) k = rt_int_in_progress (sys_K sys) (w_ker w)"
    and g: "links_gone live irqs sys (without_first x xs mbx rg k w) w'"
  shows "links_gone live irqs sys w w'"
  unfolding links_gone_def
proof (intro conjI)
  let ?w1 = "without_first x xs mbx rg k w"
  have g1: "\<forall>n \<in> set xs. w_link w' (sn_link n) = None \<and> w_mlink w' (link_priv w (sn_link n)) = None"
    "\<forall>l. l \<notin> sn_link ` set xs \<longrightarrow> w_link w' l = ((w_link w)(sn_link x := None)) l"
    "\<forall>p. p \<notin> link_priv w ` sn_link ` set xs \<longrightarrow> w_mlink w' p = ((w_mlink w)(link_priv w (sn_link x) := None)) p"
    "live (w_ker w') = live k - (sn_node ` set xs \<union> sn_link ` set xs \<union> link_priv w ` sn_link ` set xs)"
    using g link_priv_without_first [OF st] unfolding links_gone_def stored_objects_def by simp_all
  show "\<forall>n \<in> set (w_store w). w_link w' (sn_link n) = None \<and> w_mlink w' (link_priv w (sn_link n)) = None"
    using g1(1) g1(2,3) [rule_format] mlinks_stored_first(3,4) [OF st] st(2) by simp
  show "\<forall>l. l \<notin> set (map sn_link (w_store w)) \<longrightarrow> w_link w' l = w_link w l"
    using g1(2) st(2) by simp
  show "\<forall>p. p \<notin> link_priv w ` set (map sn_link (w_store w)) \<longrightarrow> w_mlink w' p = w_mlink w p"
    using g1(3) st(2) by simp
  have "mboxes_kept w ?w1" using kept by (simp add: mboxes_kept_def)
  moreover have "mboxes_kept ?w1 w'" using g by (simp add: links_gone_def)
  ultimately show "mboxes_kept w w'" by (rule mboxes_kept_trans)
  show "live (w_ker w') = live (w_ker w) - stored_objects w"
    unfolding g1(4) live stored_objects_def st(2) by auto
qed (use g k in \<open>simp_all add: links_gone_def\<close>)

lemma shutdown_links_closes:
  assumes heap: "heap_laws (sys_K sys) live" and irq: "irq_laws (sys_K sys) irqs" and isr: "isr_laws (sys_K sys)"
    and st: "mlinks_stored live w" and task: "\<not> rt_int_in_progress (sys_K sys) (w_ker w)" and n: "length (w_store w) \<le> n"
  shows "\<exists>w'. shutdown_links sys yield fuel n w = Inr w' \<and> links_gone live irqs sys w w'"
  using st task n
proof (induction n arbitrary: w)
  case 0
  then show ?case
    by (subst shutdown_links.simps)
      (simp add: link_store_extract_first_def stored_objects_def links_gone_def)
next
  case (Suc n)
  show ?case
  proof (cases "w_store w")
    case Nil
    then show ?thesis
      by (subst shutdown_links.simps)
        (use Suc.prems in \<open>simp add: link_store_extract_first_def stored_objects_def links_gone_def\<close>)
  next
    case (Cons x xs)
    let ?l = "sn_link x" and ?k0 = "rt_free (sys_K sys) (sn_node x) (w_ker w)"
    let ?w0 = "w\<lparr>w_store := xs, w_ker := ?k0\<rparr>"
    note x = mlinks_stored_first [OF Suc.prems(1) Cons]
    have k0: "live ?k0 = live (w_ker w) - {sn_node x}" "irqs ?k0 = irqs (w_ker w)" "\<not> rt_int_in_progress (sys_K sys) ?k0"
      using Suc.prems(2) by (simp_all add: heap_laws_frame(1) [OF heap] irq_laws_heap(2) [OF irq] isr_laws_frame(2) [OF isr])
    have l0: "mlink_closable ?l ?w0" "\<not> rt_int_in_progress (sys_K sys) (w_ker ?w0)" "link_priv ?w0 = link_priv w"
      using x(2) k0(3) by (simp_all add: mlink_closable_def link_priv_def fun_eq_iff)
    from close_mlink [OF heap irq isr l0(1,2), of yield fuel]
    obtain mbx rg k where c: "link_disconnect sys yield fuel ?l ?w0 = Inr (0, without_first x xs mbx rg k w)"
      "mboxes_kept ?w0 (?w0\<lparr>w_mbox := mbx\<rparr>)" "live k = live ?k0 - {?l, link_priv w ?l}" "irqs k = irqs ?k0"
      "\<not> rt_int_in_progress (sys_K sys) k" by (auto simp: l0(3) without_first_def)
    have kept: "mboxes_kept w (w\<lparr>w_mbox := mbx\<rparr>)" using c(2) by (simp add: mboxes_kept_def)
    have live: "live k = live (w_ker w) - {sn_node x, ?l, link_priv w ?l}" using c(3) k0(1) by auto
    note st1 = mlinks_stored_without_first [OF Suc.prems(1) Cons kept live, of rg]
    from Suc.IH [OF st1] obtain w' where w': "shutdown_links sys yield fuel n (without_first x xs mbx rg k w) = Inr w'"
      "links_gone live irqs sys (without_first x xs mbx rg k w) w'"
      using c(5) Suc.prems(3) Cons by auto
    obtain lk where lk: "w_link w ?l = Some lk" using x(2) by (auto simp: mlink_closable_def)
    have "shutdown_links sys yield fuel (Suc n) w = Inr w'"
      using x(1) lk c(1) w'(1) Cons by (subst shutdown_links.simps) (simp add: link_store_extract_first_def)
    moreover have "links_gone live irqs sys w w'"
      by (rule links_gone_without_first [OF Suc.prems(1) Cons kept live _ _ w'(2)]) (use c(4,5) k0(2) Suc.prems(2) in simp_all)
    ultimately show ?thesis by blast
  qed
qed

subsection \<open>The loop over the links\<close>


text \<open>A node with one stored link.\<close>

definition linked_world :: "demo_kernel world" where
  "linked_world = demo_world\<lparr>w_store := [\<lparr>sn_node = 0xa00, sn_link = 0x200\<rparr>],
     w_ker := demo_k0\<lparr>dk_live := [0x100, 0x200, 0x300, 0xa00]\<rparr>\<rparr>"

lemma linked_world_stored: "mlinks_stored (\<lambda>k. set (dk_live k)) linked_world"
  by (simp add: mlinks_stored_def store_wf_def linked_world_def demo_world_def mlink_closable_def link_priv_def demo_link_mbox_def
      demo_node_mbox_chans)

end
