(* ===== verification/Shutdown_Devices.thy ===== *)
theory Shutdown_Devices
  imports Shutdown
begin

text \<open>
  The second half of shutting down (\<open>shutdown_rest\<close>): suspending the other tasks, removing the
  mailboxes, and emptying the slots of the timers and the watchdogs on every processor.
\<close>

subsection \<open>What the second half relies on\<close>

text \<open>
  \<open>susp\<close> are the suspended tasks.  A task that the iteration finds can be suspended; no other call
  resumes it, and pinning and suspending touch neither memory nor handlers.
\<close>

definition suspend_laws ::
  "'k rtems \<Rightarrow> ('k \<Rightarrow> ptr set) \<Rightarrow> ('k \<Rightarrow> (rtems_vector_number \<times> handler \<times> ptr) set) \<Rightarrow> ('k \<Rightarrow> rtems_id set) \<Rightarrow> bool" where
  "suspend_laws K live irqs susp \<longleftrightarrow>
     (\<forall>t k. t \<in> set (rt_task_list K k) \<longrightarrow> (case rt_task_suspend K t k of (sc, k') \<Rightarrow>
        sc \<in> {RTEMS_SUCCESSFUL, RTEMS_ALREADY_SUSPENDED} \<and> susp k' = insert t (susp k) \<and> live k' = live k \<and> irqs k' = irqs k \<and>
        rt_int_in_progress K k' = rt_int_in_progress K k \<and> rt_task_self K k' = rt_task_self K k \<and> rt_task_list K k' = rt_task_list K k)) \<and>
     (\<forall>v h a k. susp (snd (rt_int_remove K v h a k)) = susp k) \<and>
     (\<forall>p k. susp (rt_free K p k) = susp k) \<and>
     (\<forall>t cs k. susp (snd (rt_set_affinity K t cs k)) = susp k \<and> live (snd (rt_set_affinity K t cs k)) = live k \<and>
        irqs (snd (rt_set_affinity K t cs k)) = irqs k) \<and>
     (\<forall>p k. susp (rt_wdt_uninit K p k) = susp k \<and> live (rt_wdt_uninit K p k) = live k \<and> irqs (rt_wdt_uninit K p k) = irqs k)"

lemma suspend_lawsD:
  assumes "suspend_laws K live irqs susp"
  shows "t \<in> set (rt_task_list K k) \<Longrightarrow> rt_task_suspend K t k = (sc, k') \<Longrightarrow>
      sc \<in> {RTEMS_SUCCESSFUL, RTEMS_ALREADY_SUSPENDED} \<and> susp k' = insert t (susp k) \<and> live k' = live k \<and> irqs k' = irqs k \<and>
        rt_int_in_progress K k' = rt_int_in_progress K k \<and> rt_task_self K k' = rt_task_self K k \<and> rt_task_list K k' = rt_task_list K k"
    and "rt_int_remove K v h a k = (sc', k1) \<Longrightarrow> susp k1 = susp k"
    and "susp (rt_free K p k) = susp k"
    and "rt_set_affinity K u cs k = (sc2, k2) \<Longrightarrow> susp k2 = susp k \<and> live k2 = live k \<and> irqs k2 = irqs k"
    and "susp (rt_wdt_uninit K p k) = susp k \<and> live (rt_wdt_uninit K p k) = live k \<and> irqs (rt_wdt_uninit K p k) = irqs k"
proof -
  note L = assms [unfolded suspend_laws_def]
  show "t \<in> set (rt_task_list K k) \<Longrightarrow> rt_task_suspend K t k = (sc, k') \<Longrightarrow>
      sc \<in> {RTEMS_SUCCESSFUL, RTEMS_ALREADY_SUSPENDED} \<and> susp k' = insert t (susp k) \<and> live k' = live k \<and> irqs k' = irqs k \<and>
        rt_int_in_progress K k' = rt_int_in_progress K k \<and> rt_task_self K k' = rt_task_self K k \<and> rt_task_list K k' = rt_task_list K k"
    using L [THEN conjunct1, rule_format, where t = t and k = k] by simp
  show "rt_int_remove K v h a k = (sc', k1) \<Longrightarrow> susp k1 = susp k"
    using L [THEN conjunct2, THEN conjunct1, rule_format, where v = v and h = h and a = a and k = k] by simp
  show "susp (rt_free K p k) = susp k" using L by blast
  show "rt_set_affinity K u cs k = (sc2, k2) \<Longrightarrow> susp k2 = susp k \<and> live k2 = live k \<and> irqs k2 = irqs k"
    using L [THEN conjunct2, THEN conjunct2, THEN conjunct2, THEN conjunct1, rule_format, where t = u and cs = cs and k = k] by simp
  show "susp (rt_wdt_uninit K p k) = susp k \<and> live (rt_wdt_uninit K p k) = live k \<and> irqs (rt_wdt_uninit K p k) = irqs k"
    using L by blast
qed

text \<open>The kernel lets the caller move to each of the processors.\<close>

definition can_pin :: "'k rtems \<Rightarrow> bool" where
  "can_pin K \<longleftrightarrow> (\<forall>cpu < rt_cpu_count K. \<forall>k. fst (rt_set_affinity K RTEMS_SELF {cpu} k) = RTEMS_SUCCESSFUL)"

lemma pin_self_moves:
  assumes aff: "affinity_laws (sys_K sys) aff" and fr: "suspend_laws (sys_K sys) live irqs susp"
  obtains k where "pin_self sys cpu w = Inr (w\<lparr>w_ker := k\<rparr>)" "this_cpu sys (w\<lparr>w_ker := k\<rparr>) = cpu"
      "live k = live (w_ker w)" "irqs k = irqs (w_ker w)" "susp k = susp (w_ker w)"
    | "pin_self sys cpu w = Inl Panic" "\<not> (can_pin (sys_K sys) \<and> cpu < rt_cpu_count (sys_K sys))"
proof -
  obtain sc k where s: "rt_set_affinity (sys_K sys) RTEMS_SELF {cpu} (w_ker w) = (sc, k)" by fastforce
  note a = affinity_laws_set [OF aff s] and f = suspend_lawsD(4) [OF fr s]
  show thesis
  proof (cases "sc = RTEMS_SUCCESSFUL")
    case True
    then show thesis
      using that(1) [of k] s a f by (simp add: pin_self_def affinity_pin_self_to_cpu_def affinity_pin_to_cpu_def this_cpu_def)
  next
    case False
    then have "\<not> (can_pin (sys_K sys) \<and> cpu < rt_cpu_count (sys_K sys))"
      using s unfolding can_pin_def by (metis fst_conv)
    then show thesis
      using that(2) False s a(1,2) by (auto simp: pin_self_def affinity_pin_self_to_cpu_def affinity_pin_to_cpu_def)
  qed
qed

subsection \<open>Suspending the other tasks\<close>

lemma shutdown_tasks_suspends:
  assumes "suspend_laws (sys_K sys) live irqs susp" and "set ts \<subseteq> set (rt_task_list (sys_K sys) (w_ker w))"
  shows "\<exists>k. res_fold (shutdown_task_visitor sys) ts w = Inr (w\<lparr>w_ker := k\<rparr>) \<and>
    susp k = susp (w_ker w) \<union> (set ts - {rt_task_self (sys_K sys) (w_ker w)}) \<and> live k = live (w_ker w) \<and> irqs k = irqs (w_ker w) \<and>
    rt_int_in_progress (sys_K sys) k = rt_int_in_progress (sys_K sys) (w_ker w)"
  using assms(2)
proof (induction ts arbitrary: w)
  case Nil
  then show ?case by (intro exI [of _ "w_ker w"]) simp
next
  case (Cons t ts)
  show ?case
  proof (cases "rt_task_self (sys_K sys) (w_ker w) = t")
    case True
    then have "shutdown_task_visitor sys t w = Inr w" by (simp add: shutdown_task_visitor_def)
    then show ?thesis using Cons.IH [of w] Cons.prems True by simp
  next
    case False
    obtain sc k1 where s: "rt_task_suspend (sys_K sys) t (w_ker w) = (sc, k1)" by fastforce
    note l = suspend_lawsD(1) [OF assms(1) _ s]
    have v: "shutdown_task_visitor sys t w = Inr (w\<lparr>w_ker := k1\<rparr>)"
      using False s l Cons.prems by (auto simp: shutdown_task_visitor_def)
    obtain k where "res_fold (shutdown_task_visitor sys) ts (w\<lparr>w_ker := k1\<rparr>) = Inr (w\<lparr>w_ker := k\<rparr>)"
      "susp k = susp k1 \<union> (set ts - {rt_task_self (sys_K sys) k1})" "live k = live k1" "irqs k = irqs k1"
      "rt_int_in_progress (sys_K sys) k = rt_int_in_progress (sys_K sys) k1"
      using Cons.IH [of "w\<lparr>w_ker := k1\<rparr>"] Cons.prems l by auto
    then show ?thesis using v l Cons.prems False by (intro exI [of _ k]) auto
  qed
qed


subsection \<open>Removing the mailboxes\<close>

text \<open>The handlers of a driver structure; a registered mailbox with its handlers installed; one all of
  whose channels have been claimed at some time.\<close>

definition mbox_handlers :: "ptr \<Rightarrow> hpsc_mbox \<Rightarrow> (rtems_vector_number \<times> handler \<times> ptr) set" where
  "mbox_handlers p mb = {(irq_n (mb_int_a mb), Hpsc_mbox_isr_a, p), (irq_n (mb_int_b mb), Hpsc_mbox_isr_b, p)}"

definition all_claimed :: "hpsc_mbox \<Rightarrow> bool" where
  "all_claimed mb \<longleftrightarrow> (\<forall>i < HPSC_MBOX_CHANNELS. ch_base (mb_chans mb ! i) \<noteq> None)"

lemma remove_mbox_outcome:
  assumes irq: "irq_laws (sys_K sys) irqs" and heap: "heap_laws (sys_K sys) live" and isr: "isr_laws (sys_K sys)"
    and susp: "suspend_laws (sys_K sys) live irqs susp"
    and mb: "w_mbox w m = Some mb" "mbox_wf mb" "mbox_handlers m mb \<subseteq> irqs (w_ker w)"
    and task: "\<not> rt_int_in_progress (sys_K sys) (w_ker w)"
  shows "if all_claimed mb
    then \<exists>rg k. remove_mbox sys m w = Inr (RTEMS_SUCCESSFUL, w\<lparr>w_mbox := (w_mbox w)(m := None), w_mreg := rg, w_ker := k\<rparr>) \<and>
      irqs k = irqs (w_ker w) - mbox_handlers m mb \<and> live k = live (w_ker w) - {m} \<and> susp k = susp (w_ker w) \<and>
      \<not> rt_int_in_progress (sys_K sys) k
    else remove_mbox sys m w = Inl Undef"
proof -
  let ?s = "\<lparr>st_mbox = mb, st_regs = w_mreg w\<rparr>" and ?K = "sys_K sys"
  have claimed: "(\<forall>i < HPSC_MBOX_CHANNELS. ch_base (chan_of ?s i) \<noteq> None) = all_claimed mb"
    by (simp add: all_claimed_def)
  note o = mbox_remove_outcome [OF irq heap, where s = ?s and p = m and k = "w_ker w" and hw = "sys_hw sys",
      unfolded claimed]
  show ?thesis
  proof (cases "all_claimed mb")
    case False
    then show ?thesis using o mb task by (simp add: remove_mbox_def mbox_handlers_def)
  next
    case True
    then obtain s' k' where r: "hpsc_mbox_remove ?K (sys_hw sys) m ?s (w_ker w) = Inr (RTEMS_SUCCESSFUL, s', k')"
      "irqs k' = irqs (w_ker w) - mbox_handlers m mb" "live k' = live (w_ker w) - {m}"
      using o mb task by (auto simp: mbox_handlers_def)
    obtain v1 v2 where k: "k' = rt_free ?K m (snd (rt_int_remove ?K v2 Hpsc_mbox_isr_b m (snd (rt_int_remove ?K v1 Hpsc_mbox_isr_a m (w_ker w)))))"
      using hpsc_mbox_remove_kernel [OF r(1)] by blast
    have "susp k' = susp (w_ker w)" "\<not> rt_int_in_progress ?K k'"
      using task by (simp_all add: k suspend_lawsD(2) [OF susp surjective_pairing] suspend_lawsD(3) [OF susp]
        isr_laws_frame(3) [OF isr surjective_pairing] isr_laws_frame(2) [OF isr])
    then show ?thesis using True r mb(1)
      by (simp add: remove_mbox_def) (intro exI [of _ "st_regs s'"] exI [of _ k'], simp)
  qed
qed

text \<open>The registered mailboxes are different objects that exist, with their handlers installed.\<close>

definition mboxes_registered :: "('k \<Rightarrow> (rtems_vector_number \<times> handler \<times> ptr) set) \<Rightarrow> 'k world \<Rightarrow> bool" where
  "mboxes_registered irqs w \<longleftrightarrow> (\<forall>i < 3. devs_mbox (w_devs w) i \<noteq> NULL \<longrightarrow>
     (\<exists>mb. w_mbox w (devs_mbox (w_devs w) i) = Some mb \<and> mbox_wf mb \<and> mbox_handlers (devs_mbox (w_devs w) i) mb \<subseteq> irqs (w_ker w)) \<and>
     (\<forall>j < i. devs_mbox (w_devs w) j \<noteq> devs_mbox (w_devs w) i))"

definition mboxes_claimed :: "'k world \<Rightarrow> bool" where
  "mboxes_claimed w \<longleftrightarrow> (\<forall>i < 3. devs_mbox (w_devs w) i \<noteq> NULL \<longrightarrow>
     (\<exists>mb. w_mbox w (devs_mbox (w_devs w) i) = Some mb \<and> all_claimed mb))"

definition registered_mboxes :: "nat \<Rightarrow> 'k world \<Rightarrow> ptr set" where
  "registered_mboxes n w = devs_mbox (w_devs w) ` {..<n} - {NULL}"

definition registered_handlers :: "nat \<Rightarrow> 'k world \<Rightarrow> (rtems_vector_number \<times> handler \<times> ptr) set" where
  "registered_handlers n w = (\<Union>p \<in> registered_mboxes n w. mbox_handlers p (the (w_mbox w p)))"

lemma registered_Suc:
  "registered_mboxes (Suc n) w = (if devs_mbox (w_devs w) n = NULL then registered_mboxes n w
     else insert (devs_mbox (w_devs w) n) (registered_mboxes n w))"
  "registered_handlers (Suc n) w = (if devs_mbox (w_devs w) n = NULL then registered_handlers n w
     else mbox_handlers (devs_mbox (w_devs w) n) (the (w_mbox w (devs_mbox (w_devs w) n))) \<union> registered_handlers n w)"
  by (auto simp: registered_mboxes_def registered_handlers_def lessThan_Suc)

text \<open>The state when the first \<open>n\<close> mailboxes have been removed.\<close>

definition mboxes_removed ::
  "('k \<Rightarrow> ptr set) \<Rightarrow> ('k \<Rightarrow> (rtems_vector_number \<times> handler \<times> ptr) set) \<Rightarrow> ('k \<Rightarrow> rtems_id set) \<Rightarrow> 'k sys \<Rightarrow>
   'k world \<Rightarrow> nat \<Rightarrow> 'k world \<Rightarrow> bool" where
  "mboxes_removed live irqs susp sys w n w' \<longleftrightarrow>
     (\<exists>rg k. w' = w\<lparr>w_mbox := (\<lambda>p. if p \<in> registered_mboxes n w then None else w_mbox w p), w_mreg := rg,
        w_devs := (w_devs w)\<lparr>devs_mbox := (\<lambda>i. if i < n then NULL else devs_mbox (w_devs w) i)\<rparr>, w_ker := k\<rparr> \<and>
        live k = live (w_ker w) - registered_mboxes n w \<and> irqs k = irqs (w_ker w) - registered_handlers n w \<and>
        susp k = susp (w_ker w) \<and> \<not> rt_int_in_progress (sys_K sys) k)"

lemma shutdown_mbox_step:
  assumes irq: "irq_laws (sys_K sys) irqs" and heap: "heap_laws (sys_K sys) live" and isr: "isr_laws (sys_K sys)"
    and susp: "suspend_laws (sys_K sys) live irqs susp" and reg: "mboxes_registered irqs w"
    and n: "n < 3" and v: "mboxes_removed live irqs susp sys w n v"
  shows "if devs_mbox (w_devs w) n \<noteq> NULL \<and> \<not> all_claimed (the (w_mbox w (devs_mbox (w_devs w) n)))
    then shutdown_mbox sys n v = Inl Undef
    else \<exists>v'. shutdown_mbox sys n v = Inr v' \<and> mboxes_removed live irqs susp sys w (Suc n) v'"
proof -
  let ?p = "devs_mbox (w_devs w) n"
  obtain rg k where v': "v = w\<lparr>w_mbox := (\<lambda>p. if p \<in> registered_mboxes n w then None else w_mbox w p), w_mreg := rg,
        w_devs := (w_devs w)\<lparr>devs_mbox := (\<lambda>i. if i < n then NULL else devs_mbox (w_devs w) i)\<rparr>, w_ker := k\<rparr>"
    and k: "live k = live (w_ker w) - registered_mboxes n w" "irqs k = irqs (w_ker w) - registered_handlers n w"
      "susp k = susp (w_ker w)" "\<not> rt_int_in_progress (sys_K sys) k"
    using v unfolding mboxes_removed_def by (elim exE conjE)
  have get: "dev_get_mbox n (w_devs v) = Inr ?p" using n v' by (simp add: dev_get_mbox_def)
  show ?thesis
  proof (cases "?p = NULL")
    case True
    have "(\<lambda>i. if i < Suc n then NULL else devs_mbox (w_devs w) i) = (\<lambda>i. if i < n then NULL else devs_mbox (w_devs w) i)"
      using True by (auto simp: less_Suc_eq)
    then have "mboxes_removed live irqs susp sys w (Suc n) v"
      unfolding mboxes_removed_def registered_Suc if_P [OF True] using v' k by (intro exI [of _ rg] exI [of _ k]) simp
    then show ?thesis using True get by (simp add: shutdown_mbox_def)
  next
    case False
    obtain mb where mb: "w_mbox w ?p = Some mb" "mbox_wf mb" "mbox_handlers ?p mb \<subseteq> irqs (w_ker w)" and new: "\<forall>j < n. devs_mbox (w_devs w) j \<noteq> ?p"
      using reg n False unfolding mboxes_registered_def by blast
    let ?d = "(w_devs w)\<lparr>devs_mbox := (\<lambda>i. if i < Suc n then NULL else devs_mbox (w_devs w) i)\<rparr>"
    let ?v = "v\<lparr>w_devs := ?d\<rparr>"
    have "(\<lambda>i. if i < n then NULL else devs_mbox (w_devs w) i)(n := NULL) = (\<lambda>i. if i < Suc n then NULL else devs_mbox (w_devs w) i)"
      by (auto simp: fun_eq_iff less_Suc_eq)
    then have set: "devs_do (dev_set_mbox n NULL) v = Inr ?v"
      using n v' by (simp add: devs_do_def dev_set_mbox_def)
    have notin: "?p \<notin> registered_mboxes n w" using new by (auto simp: registered_mboxes_def)
    then have "mbox_handlers ?p mb \<inter> registered_handlers n w = {}"
      by (auto simp: registered_handlers_def mbox_handlers_def)
    then have hs: "mbox_handlers ?p mb \<subseteq> irqs (w_ker ?v)" using mb(3) k(2) v' by auto
    have mbv: "w_mbox ?v ?p = Some mb" using mb(1) notin v' by simp
    have kv: "\<not> rt_int_in_progress (sys_K sys) (w_ker ?v)" using k(4) v' by simp
    note o = remove_mbox_outcome [OF irq heap isr susp mbv mb(2) hs kv]
    show ?thesis
    proof (cases "all_claimed mb")
      case no: False
      then show ?thesis using o False get set mb(1) by (simp add: shutdown_mbox_def)
    next
      case True
      then obtain rg' k' where r: "remove_mbox sys ?p ?v = Inr (RTEMS_SUCCESSFUL, ?v\<lparr>w_mbox := (w_mbox ?v)(?p := None), w_mreg := rg', w_ker := k'\<rparr>)"
        "irqs k' = irqs k - mbox_handlers ?p mb" "live k' = live k - {?p}" "susp k' = susp k" "\<not> rt_int_in_progress (sys_K sys) k'"
        using o v' by auto
      have "(\<lambda>p. if p \<in> registered_mboxes n w then None else w_mbox w p)(?p := None) =
          (\<lambda>p. if p \<in> registered_mboxes (Suc n) w then None else w_mbox w p)"
        using False by (auto simp: fun_eq_iff registered_Suc)
      then have "mboxes_removed live irqs susp sys w (Suc n) (?v\<lparr>w_mbox := (w_mbox ?v)(?p := None), w_mreg := rg', w_ker := k'\<rparr>)"
        unfolding mboxes_removed_def
        by (intro exI [of _ rg'] exI [of _ k']) (use r(2-5) k False mb(1) v' in \<open>auto simp: registered_Suc\<close>)
      then show ?thesis using True False get set r(1) mb(1) by (simp add: shutdown_mbox_def)
    qed
  qed
qed

lemma shutdown_mboxes_removes:
  assumes irq: "irq_laws (sys_K sys) irqs" and heap: "heap_laws (sys_K sys) live" and isr: "isr_laws (sys_K sys)"
    and susp: "suspend_laws (sys_K sys) live irqs susp" and reg: "mboxes_registered irqs w"
    and task: "\<not> rt_int_in_progress (sys_K sys) (w_ker w)"
  shows "if mboxes_claimed w
    then \<exists>w'. res_fold (shutdown_mbox sys) [0..<3] w = Inr w' \<and> mboxes_removed live irqs susp sys w 3 w'
    else res_fold (shutdown_mbox sys) [0..<3] w = Inl Undef"
proof -
  let ?bad = "\<lambda>n. devs_mbox (w_devs w) n \<noteq> NULL \<and> \<not> all_claimed (the (w_mbox w (devs_mbox (w_devs w) n)))"
  let ?P = "\<lambda>n v. mboxes_removed live irqs susp sys w n v \<and> (\<forall>i < n. \<not> ?bad i)"
  have "mboxes_claimed w = (\<forall>i < 3. \<not> ?bad i)"
    using reg unfolding mboxes_claimed_def mboxes_registered_def by (metis option.sel)
  have "?P 0 w"
    unfolding mboxes_removed_def registered_mboxes_def registered_handlers_def
    by (intro conjI exI [of _ "w_mreg w"] exI [of _ "w_ker w"]) (use task in simp_all)
  then have "(\<exists>w'. res_fold (shutdown_mbox sys) [0..<3] w = Inr w' \<and> ?P 3 w') \<or>
    (\<exists>e. res_fold (shutdown_mbox sys) [0..<3] w = Inl e \<and> e = Undef \<and> (\<exists>i < 3. ?bad i))"
  proof (rule res_fold_upt)
    fix n v assume n: "n < 3" and P: "?P n v"
    then show "(\<exists>v'. shutdown_mbox sys n v = Inr v' \<and> ?P (Suc n) v') \<or> (\<exists>e. shutdown_mbox sys n v = Inl e \<and> e = Undef \<and> (\<exists>i < 3. ?bad i))"
      using shutdown_mbox_step [OF irq heap isr susp reg n conjunct1 [OF P]] less_Suc_eq by (auto split: if_splits)
  qed
  then show ?thesis
    using \<open>mboxes_claimed w = _\<close> by auto
qed

subsection \<open>Timers and watchdogs\<close>

text \<open>The timers in the slots of the processors are different objects that exist.\<close>

definition rtits_registered :: "'k sys \<Rightarrow> 'k world \<Rightarrow> bool" where
  "rtits_registered sys w \<longleftrightarrow> (\<forall>i < rt_cpu_count (sys_K sys). rtits (w_devs w) i \<noteq> NULL \<longrightarrow>
     w_rtit w (rtits (w_devs w) i) \<noteq> None \<and> (\<forall>j < i. rtits (w_devs w) j \<noteq> rtits (w_devs w) i))"

definition rtits_idle :: "'k sys \<Rightarrow> 'k world \<Rightarrow> bool" where
  "rtits_idle sys w \<longleftrightarrow> (\<forall>i < rt_cpu_count (sys_K sys). \<forall>t. rtits (w_devs w) i \<noteq> NULL \<longrightarrow>
     w_rtit w (rtits (w_devs w) i) = Some t \<longrightarrow> \<not> is_started t)"

definition registered_rtits :: "nat \<Rightarrow> 'k world \<Rightarrow> ptr set" where
  "registered_rtits n w = rtits (w_devs w) ` {..<n} - {NULL}"

lemma registered_rtits_Suc:
  "registered_rtits (Suc n) w = (if rtits (w_devs w) n = NULL then registered_rtits n w
     else insert (rtits (w_devs w) n) (registered_rtits n w))"
  by (auto simp: registered_rtits_def lessThan_Suc)

definition rtits_removed ::
  "('k \<Rightarrow> ptr set) \<Rightarrow> ('k \<Rightarrow> (rtems_vector_number \<times> handler \<times> ptr) set) \<Rightarrow> ('k \<Rightarrow> rtems_id set) \<Rightarrow>
   'k world \<Rightarrow> nat \<Rightarrow> 'k world \<Rightarrow> bool" where
  "rtits_removed live irqs susp w n w' \<longleftrightarrow>
     (\<exists>k. w' = w\<lparr>w_rtit := (\<lambda>p. if p \<in> registered_rtits n w then None else w_rtit w p),
        w_devs := (w_devs w)\<lparr>rtits := (\<lambda>i. if i < n then NULL else rtits (w_devs w) i)\<rparr>, w_ker := k\<rparr> \<and>
        live k = live (w_ker w) - registered_rtits n w \<and> irqs k = irqs (w_ker w) \<and> susp k = susp (w_ker w))"

lemma upd_upto: "(\<lambda>i. if i < n then c else f i)(n := c) = (\<lambda>i. if i < Suc n then c else f i)"
  by (auto simp: fun_eq_iff less_Suc_eq)

lemma shutdown_rtit_step:
  assumes irq: "irq_laws (sys_K sys) irqs" and heap: "heap_laws (sys_K sys) live" and aff: "affinity_laws (sys_K sys) aff"
    and susp: "suspend_laws (sys_K sys) live irqs susp" and reg: "rtits_registered sys w"
    and n: "n < rt_cpu_count (sys_K sys)" and v: "rtits_removed live irqs susp w n v"
  shows "(\<exists>v'. shutdown_rtit sys n v = Inr v' \<and> rtits_removed live irqs susp w (Suc n) v') \<or>
    (\<exists>e. shutdown_rtit sys n v = Inl e \<and> e = Panic \<and> \<not> (can_pin (sys_K sys) \<and> rtits_idle sys w))"
proof -
  let ?p = "rtits (w_devs w) n" and ?K = "sys_K sys"
  obtain k where v': "v = w\<lparr>w_rtit := (\<lambda>p. if p \<in> registered_rtits n w then None else w_rtit w p),
        w_devs := (w_devs w)\<lparr>rtits := (\<lambda>i. if i < n then NULL else rtits (w_devs w) i)\<rparr>, w_ker := k\<rparr>"
    and k: "live k = live (w_ker w) - registered_rtits n w" "irqs k = irqs (w_ker w)" "susp k = susp (w_ker w)"
    using v unfolding rtits_removed_def by (elim exE conjE)
  show ?thesis
  proof (cases rule: pin_self_moves [OF aff susp, of n v])
    case 2
    then show ?thesis using n by (simp add: shutdown_rtit_def)
  next
    case (1 k1)
    let ?v = "v\<lparr>w_ker := k1\<rparr>"
    have get: "dev_cpu_get_rtit (this_cpu sys ?v) (w_devs ?v) = Inr ?p"
      unfolding 1(2) using v' by (simp add: dev_cpu_get_rtit_def)
    show ?thesis
    proof (cases "?p = NULL")
      case True
      have "(\<lambda>i. if i < Suc n then NULL else rtits (w_devs w) i) = (\<lambda>i. if i < n then NULL else rtits (w_devs w) i)"
        using True by (auto simp: less_Suc_eq)
      then have "rtits_removed live irqs susp w (Suc n) ?v"
        unfolding rtits_removed_def registered_rtits_Suc if_P [OF True] using v' k 1(3-5) by (intro exI [of _ k1]) simp
      then show ?thesis using True get 1(1) by (simp add: shutdown_rtit_def)
    next
      case False
      obtain t where t: "w_rtit w ?p = Some t" and new: "\<forall>j < n. rtits (w_devs w) j \<noteq> ?p"
        using reg n False unfolding rtits_registered_def by blast
      let ?d = "(w_devs w)\<lparr>rtits := (\<lambda>i. if i < Suc n then NULL else rtits (w_devs w) i)\<rparr>"
      let ?v1 = "?v\<lparr>w_devs := ?d\<rparr>"
      have set: "devs_do (dev_cpu_set_rtit (this_cpu sys ?v) NULL) ?v = Inr ?v1"
        unfolding 1(2) using v' upd_upto [of n NULL "rtits (w_devs w)"] by (simp add: devs_do_def dev_cpu_set_rtit_def)
      have tv: "w_rtit ?v1 ?p = Some t" using t new v' by (auto simp: registered_rtits_def)
      show ?thesis
      proof (cases "is_started t")
        case True
        then have "\<not> rtits_idle sys w" using t False n unfolding rtits_idle_def by blast
        moreover have "shutdown_rtit sys n v = Inl Panic"
          using True False get set tv 1(1) by (simp add: shutdown_rtit_def remove_rtit_def hpsc_rti_timer_remove_def)
        ultimately show ?thesis by blast
      next
        case stopped: False
        let ?k = "rt_free ?K ?p k1"
        let ?v2 = "?v1\<lparr>w_rtit := (w_rtit ?v1)(?p := None), w_ker := ?k\<rparr>"
        have "shutdown_rtit sys n v = Inr ?v2"
          using stopped False get set tv 1(1) by (simp add: shutdown_rtit_def remove_rtit_def hpsc_rti_timer_remove_def)
        moreover have "(\<lambda>p. if p \<in> registered_rtits n w then None else w_rtit w p)(?p := None) =
            (\<lambda>p. if p \<in> registered_rtits (Suc n) w then None else w_rtit w p)"
          using False by (auto simp: fun_eq_iff registered_rtits_Suc)
        then have "rtits_removed live irqs susp w (Suc n) ?v2"
          unfolding rtits_removed_def
          by (intro exI [of _ ?k]) (use 1(3-5) k False v' in
            \<open>auto simp: registered_rtits_Suc heap_laws_frame(1) [OF heap] irq_laws_heap(2) [OF irq] suspend_lawsD(3) [OF susp]\<close>)
        ultimately show ?thesis by blast
      qed
    qed
  qed
qed

lemma shutdown_rtits_removes:
  assumes irq: "irq_laws (sys_K sys) irqs" and heap: "heap_laws (sys_K sys) live" and aff: "affinity_laws (sys_K sys) aff"
    and susp: "suspend_laws (sys_K sys) live irqs susp" and reg: "rtits_registered sys w"
  shows "(\<exists>w'. dev_cpu_for_each sys (shutdown_rtit sys) w = Inr w' \<and> rtits_removed live irqs susp w (rt_cpu_count (sys_K sys)) w') \<or>
    (\<exists>e. dev_cpu_for_each sys (shutdown_rtit sys) w = Inl e \<and> e = Panic \<and> \<not> (can_pin (sys_K sys) \<and> rtits_idle sys w))"
  unfolding dev_cpu_for_each_def
proof (rule res_fold_upt)
  show "rtits_removed live irqs susp w 0 w"
    unfolding rtits_removed_def registered_rtits_def by (intro exI [of _ "w_ker w"]) simp
qed (rule shutdown_rtit_step [OF irq heap aff susp reg])

definition wdts_removed ::
  "('k \<Rightarrow> ptr set) \<Rightarrow> ('k \<Rightarrow> (rtems_vector_number \<times> handler \<times> ptr) set) \<Rightarrow> ('k \<Rightarrow> rtems_id set) \<Rightarrow>
   'k world \<Rightarrow> nat \<Rightarrow> 'k world \<Rightarrow> bool" where
  "wdts_removed live irqs susp w n w' \<longleftrightarrow>
     (\<exists>k. w' = w\<lparr>w_devs := (w_devs w)\<lparr>wdts := (\<lambda>i. if i < n then NULL else wdts (w_devs w) i)\<rparr>, w_ker := k\<rparr> \<and>
        live k = live (w_ker w) \<and> irqs k = irqs (w_ker w) \<and> susp k = susp (w_ker w))"

lemma shutdown_wdt_step:
  assumes aff: "affinity_laws (sys_K sys) aff" and susp: "suspend_laws (sys_K sys) live irqs susp"
    and n: "n < rt_cpu_count (sys_K sys)" and v: "wdts_removed live irqs susp w n v"
  shows "(\<exists>v'. shutdown_wdt sys n v = Inr v' \<and> wdts_removed live irqs susp w (Suc n) v') \<or>
    (\<exists>e. shutdown_wdt sys n v = Inl e \<and> e = Panic \<and> \<not> can_pin (sys_K sys))"
proof -
  let ?p = "wdts (w_devs w) n"
  obtain k where v': "v = w\<lparr>w_devs := (w_devs w)\<lparr>wdts := (\<lambda>i. if i < n then NULL else wdts (w_devs w) i)\<rparr>, w_ker := k\<rparr>"
    and k: "live k = live (w_ker w)" "irqs k = irqs (w_ker w)" "susp k = susp (w_ker w)"
    using v unfolding wdts_removed_def by (elim exE conjE)
  show ?thesis
  proof (cases rule: pin_self_moves [OF aff susp, of n v])
    case 2
    then show ?thesis using n by (simp add: shutdown_wdt_def)
  next
    case (1 k1)
    let ?v = "v\<lparr>w_ker := k1\<rparr>"
    let ?k = "if ?p = NULL then k1 else rt_wdt_uninit (sys_K sys) ?p k1"
    let ?v1 = "w\<lparr>w_devs := (w_devs w)\<lparr>wdts := (\<lambda>i. if i < Suc n then NULL else wdts (w_devs w) i)\<rparr>, w_ker := ?k\<rparr>"
    have get: "dev_cpu_get_wdt (this_cpu sys ?v) (w_devs ?v) = Inr ?p"
      unfolding 1(2) using v' by (simp add: dev_cpu_get_wdt_def)
    have upd: "?p = NULL \<Longrightarrow> (\<lambda>i. if i < Suc n then NULL else wdts (w_devs w) i) = (\<lambda>i. if i < n then NULL else wdts (w_devs w) i)"
      by (auto simp: less_Suc_eq)
    have set: "devs_do (dev_cpu_set_wdt (this_cpu sys ?v) NULL) ?v =
        Inr (?v\<lparr>w_devs := (w_devs w)\<lparr>wdts := (\<lambda>i. if i < Suc n then NULL else wdts (w_devs w) i)\<rparr>\<rparr>)"
      unfolding 1(2) using v' upd_upto [of n NULL "wdts (w_devs w)"] by (simp add: devs_do_def dev_cpu_set_wdt_def)
    have "shutdown_wdt sys n v = Inr ?v1"
      using 1(1) get set upd v' by (simp add: shutdown_wdt_def)
    moreover have "wdts_removed live irqs susp w (Suc n) ?v1"
      unfolding wdts_removed_def using v' 1(3-5) k suspend_lawsD(5) [OF susp] by (intro exI [of _ ?k]) simp
    ultimately show ?thesis by blast
  qed
qed

lemma shutdown_wdts_removes:
  assumes aff: "affinity_laws (sys_K sys) aff" and susp: "suspend_laws (sys_K sys) live irqs susp"
  shows "(\<exists>w'. dev_cpu_for_each sys (shutdown_wdt sys) w = Inr w' \<and> wdts_removed live irqs susp w (rt_cpu_count (sys_K sys)) w') \<or>
    (\<exists>e. dev_cpu_for_each sys (shutdown_wdt sys) w = Inl e \<and> e = Panic \<and> \<not> can_pin (sys_K sys))"
  unfolding dev_cpu_for_each_def
proof (rule res_fold_upt)
  show "wdts_removed live irqs susp w 0 w"
    unfolding wdts_removed_def by (intro exI [of _ "w_ker w"]) simp
qed (rule shutdown_wdt_step [OF aff susp])


subsection \<open>The second half as a whole\<close>

lemma mboxes_removed_then_rtits:
  assumes "mboxes_removed live irqs susp sys w n w1"
  shows "rtits_registered sys w1 = rtits_registered sys w" and "rtits_idle sys w1 = rtits_idle sys w"
    and "registered_rtits m w1 = registered_rtits m w"
  using assms by (auto simp: mboxes_removed_def rtits_registered_def rtits_idle_def registered_rtits_def)

lemma shutdown_rest_cases:
  assumes irq: "irq_laws (sys_K sys) irqs" and heap: "heap_laws (sys_K sys) live" and isr: "isr_laws (sys_K sys)"
    and aff: "affinity_laws (sys_K sys) aff" and susp: "suspend_laws (sys_K sys) live irqs susp"
    and mreg: "mboxes_registered irqs w" and treg: "rtits_registered sys w"
    and task: "\<not> rt_int_in_progress (sys_K sys) (w_ker w)" and N: "N = rt_cpu_count (sys_K sys)"
  shows "if \<not> mboxes_claimed w then shutdown_rest sys w = Inl Undef
    else (\<exists>w'. shutdown_rest sys w = Inr w' \<and>
        set (rt_task_list (sys_K sys) (w_ker w)) - {rt_task_self (sys_K sys) (w_ker w)} \<subseteq> susp (w_ker w') \<and>
        (\<forall>i < 3. devs_mbox (w_devs w') i = NULL) \<and> (\<forall>cpu < N. rtits (w_devs w') cpu = NULL \<and> wdts (w_devs w') cpu = NULL) \<and>
        (\<forall>p \<in> registered_mboxes 3 w. w_mbox w' p = None) \<and> (\<forall>p \<in> registered_rtits N w. w_rtit w' p = None) \<and>
        live (w_ker w') = live (w_ker w) - registered_mboxes 3 w - registered_rtits N w \<and>
        irqs (w_ker w') = irqs (w_ker w) - registered_handlers 3 w) \<or>
      shutdown_rest sys w = Inl Panic \<and> \<not> (can_pin (sys_K sys) \<and> rtits_idle sys w)"
proof -
  let ?K = "sys_K sys" and ?ts = "rt_task_list (sys_K sys) (w_ker w)"
  obtain k1 where s: "res_fold (shutdown_task_visitor sys) ?ts w = Inr (w\<lparr>w_ker := k1\<rparr>)"
    "susp k1 = susp (w_ker w) \<union> (set ?ts - {rt_task_self ?K (w_ker w)})" "live k1 = live (w_ker w)" "irqs k1 = irqs (w_ker w)"
    "rt_int_in_progress ?K k1 = rt_int_in_progress ?K (w_ker w)"
    using shutdown_tasks_suspends [OF susp, of ?ts w] by auto
  let ?w1 = "w\<lparr>w_ker := k1\<rparr>"
  have m1: "mboxes_registered irqs ?w1" "mboxes_claimed ?w1 = mboxes_claimed w"
      "registered_mboxes 3 ?w1 = registered_mboxes 3 w" "registered_handlers 3 ?w1 = registered_handlers 3 w"
    using mreg s(4) by (simp_all add: mboxes_registered_def mboxes_claimed_def registered_mboxes_def registered_handlers_def)
  have t1: "\<not> rt_int_in_progress ?K (w_ker ?w1)" using task s(5) by simp
  note m = shutdown_mboxes_removes [OF irq heap isr susp m1(1) t1, unfolded m1(2)]
  show ?thesis
  proof (cases "mboxes_claimed w")
    case False
    then show ?thesis using m s(1) by (simp add: shutdown_rest_def)
  next
    case True
    then obtain w2 where w2: "res_fold (shutdown_mbox sys) [0..<3] ?w1 = Inr w2" "mboxes_removed live irqs susp sys ?w1 3 w2"
      using m by auto
    have same: "rtits_registered sys ?w1 = rtits_registered sys w" "rtits_idle sys ?w1 = rtits_idle sys w"
      "registered_rtits N ?w1 = registered_rtits N w"
      by (simp_all add: rtits_registered_def rtits_idle_def registered_rtits_def)
    note r = mboxes_removed_then_rtits [OF w2(2), unfolded same]
    have reg2: "rtits_registered sys w2" using treg r(1) by simp
    from shutdown_rtits_removes [OF irq heap aff susp reg2]
    consider (no) "dev_cpu_for_each sys (shutdown_rtit sys) w2 = Inl Panic" "\<not> (can_pin ?K \<and> rtits_idle sys w)"
      | (ok) w3 where "dev_cpu_for_each sys (shutdown_rtit sys) w2 = Inr w3" "rtits_removed live irqs susp w2 N w3"
      unfolding r(2) N by blast
    then show ?thesis
    proof cases
      case no
      then show ?thesis using True s(1) w2(1) by (simp add: shutdown_rest_def)
    next
      case ok
      from shutdown_wdts_removes [OF aff susp, of w3]
      consider (no) "dev_cpu_for_each sys (shutdown_wdt sys) w3 = Inl Panic" "\<not> can_pin ?K"
        | (fin) w4 where "dev_cpu_for_each sys (shutdown_wdt sys) w3 = Inr w4" "wdts_removed live irqs susp w3 N w4"
        unfolding N by blast
      then show ?thesis
      proof cases
        case no
        then show ?thesis using True s(1) w2(1) ok(1) by (simp add: shutdown_rest_def)
      next
        case fin
        have "shutdown_rest sys w = Inr w4" using s(1) w2(1) ok(1) fin(1) by (simp add: shutdown_rest_def)
        moreover have d3: "devs_mbox (w_devs w3) = devs_mbox (w_devs w2)" "rtits (w_devs w3) = (\<lambda>i. if i < N then NULL else rtits (w_devs w2) i)"
          "w_mbox w3 = w_mbox w2" "w_rtit w3 = (\<lambda>p. if p \<in> registered_rtits N w2 then None else w_rtit w2 p)"
          "live (w_ker w3) = live (w_ker w2) - registered_rtits N w2" "irqs (w_ker w3) = irqs (w_ker w2)" "susp (w_ker w3) = susp (w_ker w2)"
          using ok(2) by (auto simp: rtits_removed_def)
        moreover have d4: "devs_mbox (w_devs w4) = devs_mbox (w_devs w3)" "rtits (w_devs w4) = rtits (w_devs w3)"
          "wdts (w_devs w4) = (\<lambda>i. if i < N then NULL else wdts (w_devs w3) i)" "w_mbox w4 = w_mbox w3" "w_rtit w4 = w_rtit w3"
          "live (w_ker w4) = live (w_ker w3)" "irqs (w_ker w4) = irqs (w_ker w3)" "susp (w_ker w4) = susp (w_ker w3)"
          using fin(2) by (auto simp: wdts_removed_def)
        moreover have d2: "devs_mbox (w_devs w2) = (\<lambda>i. if i < 3 then NULL else devs_mbox (w_devs w) i)"
          "w_mbox w2 = (\<lambda>p. if p \<in> registered_mboxes 3 w then None else w_mbox w p)"
          "live (w_ker w2) = live k1 - registered_mboxes 3 w" "irqs (w_ker w2) = irqs k1 - registered_handlers 3 w" "susp (w_ker w2) = susp k1"
          using w2(2) by (auto simp: mboxes_removed_def m1(3,4))
        ultimately show ?thesis using True s(2-4) r(3) [of N] same(3) by simp
      qed
    qed
  qed
qed

text \<open>C32. After the watchdog tasks have been stopped, shutting down runs into undefined behaviour if one
  of the registered mailboxes has a channel that was never claimed. Otherwise it suspends all tasks
  but the caller, removes every registered mailbox with its two handlers and every registered timer,
  gives back their memory, and empties all slots for mailboxes, timers and watchdogs; it stops the
  node with a panic only if the caller cannot be moved to a processor or a timer is still started.\<close>

theorem shutdown_rest_outcome:
  assumes irq: "irq_laws (sys_K sys) irqs" and heap: "heap_laws (sys_K sys) live" and isr: "isr_laws (sys_K sys)"
    and aff: "affinity_laws (sys_K sys) aff" and susp: "suspend_laws (sys_K sys) live irqs susp"
    and mreg: "mboxes_registered irqs w" and treg: "rtits_registered sys w"
    and task: "\<not> rt_int_in_progress (sys_K sys) (w_ker w)" and N: "N = rt_cpu_count (sys_K sys)"
  shows "if \<not> mboxes_claimed w then shutdown_rest sys w = Inl Undef
    else (\<exists>w'. shutdown_rest sys w = Inr w' \<and>
        set (rt_task_list (sys_K sys) (w_ker w)) - {rt_task_self (sys_K sys) (w_ker w)} \<subseteq> susp (w_ker w') \<and>
        (\<forall>i < 3. devs_mbox (w_devs w') i = NULL) \<and> (\<forall>cpu < N. rtits (w_devs w') cpu = NULL \<and> wdts (w_devs w') cpu = NULL) \<and>
        (\<forall>p \<in> registered_mboxes 3 w. w_mbox w' p = None) \<and> (\<forall>p \<in> registered_rtits N w. w_rtit w' p = None) \<and>
        live (w_ker w') = live (w_ker w) - registered_mboxes 3 w - registered_rtits N w \<and>
        irqs (w_ker w') = irqs (w_ker w) - registered_handlers 3 w) \<or>
      shutdown_rest sys w = Inl Panic \<and> \<not> (can_pin (sys_K sys) \<and> rtits_idle sys w)"
  by (rule shutdown_rest_cases [OF assms])

text \<open>A node with one mailbox none of whose channels was ever claimed, and one timer.\<close>

definition idle_node :: "demo_kernel world" where
  "idle_node = demo_world\<lparr>w_mbox := [0x100 \<mapsto> st_mbox demo_mbox], w_rtit := [0x500 \<mapsto> hpsc_rti_timer_init ''RTI'' 0x3000 26],
     w_devs := devices_init\<lparr>devs_mbox := (\<lambda>_. NULL)(1 := 0x100), rtits := (\<lambda>_. NULL)(0 := 0x500)\<rparr>,
     w_ker := demo_k0\<lparr>dk_irqs := [(34, Hpsc_mbox_isr_a, 0x100), (35, Hpsc_mbox_isr_b, 0x100)], dk_live := [0x100, 0x500]\<rparr>\<rparr>"

text \<open>The same without the mailbox.\<close>

definition timer_node :: "demo_kernel world" where
  "timer_node = idle_node\<lparr>w_devs := devices_init\<lparr>rtits := (\<lambda>_. NULL)(0 := 0x500)\<rparr>\<rparr>"

lemma demo_suspend_laws:
  "suspend_laws demo_rtems (\<lambda>k. set (dk_live k)) (\<lambda>k. set (dk_irqs k)) (\<lambda>k. set (dk_suspended k))"
  by (auto simp: suspend_laws_def demo_rtems_def)

lemma idle_nodes_ready:
  "mboxes_registered (\<lambda>k. set (dk_irqs k)) idle_node" "rtits_registered demo_sys idle_node" "\<not> mboxes_claimed idle_node"
  "mboxes_registered (\<lambda>k. set (dk_irqs k)) timer_node" "rtits_registered demo_sys timer_node" "mboxes_claimed timer_node"
  "rtits_idle demo_sys timer_node" "can_pin demo_rtems"
proof -
  have ints: "irq_n (mb_int_a (st_mbox demo_mbox)) = 34" "irq_n (mb_int_b (st_mbox demo_mbox)) = 35"
    by (simp_all add: demo_mbox_def hpsc_mbox_init_def)
  show "mboxes_registered (\<lambda>k. set (dk_irqs k)) idle_node"
    by (simp add: mboxes_registered_def idle_node_def mbox_handlers_def ints)
  have "\<not> all_claimed (st_mbox demo_mbox)"
    using demo_mbox_chan [of 0] by (auto simp: all_claimed_def demo_chan_def intro: exI [of _ 0])
  then show "\<not> mboxes_claimed idle_node"
    by (auto simp: mboxes_claimed_def idle_node_def intro: exI [of _ 1])
qed (simp_all add: mboxes_registered_def rtits_registered_def rtits_idle_def mboxes_claimed_def idle_node_def timer_node_def
  devices_init_def hpsc_rti_timer_init_def can_pin_def demo_rtems_def less_2_cases_iff)

theorem shutdown_rest_outcome_witness:
  "shutdown_rest demo_sys idle_node = Inl Undef \<and>
   (\<exists>w'. shutdown_rest demo_sys timer_node = Inr w' \<and> rtits (w_devs w') 0 = NULL \<and> w_rtit w' 0x500 = None \<and> 2 \<in> set (dk_suspended (w_ker w')))"
proof -
  have self: "\<not> rt_int_in_progress (sys_K demo_sys) (w_ker idle_node)" "\<not> rt_int_in_progress (sys_K demo_sys) (w_ker timer_node)"
    by (simp_all add: idle_node_def timer_node_def demo_k0_def demo_rtems_def)
  have laws: "irq_laws (sys_K demo_sys) (\<lambda>k. set (dk_irqs k))" "heap_laws (sys_K demo_sys) (\<lambda>k. set (dk_live k))" "isr_laws (sys_K demo_sys)"
    "affinity_laws (sys_K demo_sys) dk_aff"
    "suspend_laws (sys_K demo_sys) (\<lambda>k. set (dk_live k)) (\<lambda>k. set (dk_irqs k)) (\<lambda>k. set (dk_suspended k))" "can_pin (sys_K demo_sys)"
    using demo_irq_laws demo_heap_laws demo_isr_laws demo_affinity_laws demo_suspend_laws idle_nodes_ready(8) by simp_all
  have n: "2 = rt_cpu_count (sys_K demo_sys)" by (simp add: demo_rtems_def)
  have "shutdown_rest demo_sys idle_node = Inl Undef"
    using shutdown_rest_outcome [OF laws(1-5) idle_nodes_ready(1,2) self(1) n] idle_nodes_ready(3) by simp
  moreover have "0x500 \<in> registered_rtits 2 timer_node"
    by (simp add: registered_rtits_def timer_node_def image_iff)
  moreover have "2 \<in> set (rt_task_list (sys_K demo_sys) (w_ker timer_node)) - {rt_task_self (sys_K demo_sys) (w_ker timer_node)}"
    by (simp add: timer_node_def idle_node_def demo_rtems_def demo_k0_def)
  ultimately show ?thesis
    using shutdown_rest_outcome [OF laws(1-5) idle_nodes_ready(4,5) self(2) n] idle_nodes_ready(6,7) laws(6) by fastforce
qed

end
