(* ===== verification/Boot.thy ===== *)
theory Boot
  imports Platform Gic Shutdown_Devices
begin

text \<open>
  Start-up of the real-time node (\<open>rtps-r52/init.c\<close>, \<open>rtps-r52/link-names.h\<close>): the initialisation
  entry for the extra drivers, and \<open>POSIX_Init\<close> with the functions it calls.  The build flags are a
  record of their values; an \<open>#if\<close> is a conditional on them.  Addresses and interrupt numbers of the board
  support package are a record, as are the tests that are run during start-up, of which this code uses
  the result only.
\<close>

subsection \<open>Configuration\<close>

record config =
  CONFIG_MBOX_LSIO :: bool
  CONFIG_MBOX_HPPS_RTPS :: bool
  CONFIG_RTI_TIMER :: bool
  CONFIG_WDT :: bool
  CONFIG_LINK_MBOX_TRCH_CLIENT :: bool
  CONFIG_LINK_MBOX_HPPS_SERVER :: bool
  CONFIG_LINK_SHMEM_TRCH_CLIENT :: bool
  CONFIG_SHELL :: bool
  TEST_COMMAND :: bool
  TEST_LSIO_SRAM :: bool
  TEST_LSIO_SRAM_DMA :: bool
  TEST_MBOX_LSIO_LOOPBACK :: bool
  TEST_RTI_TIMER :: bool
  TEST_RTPS_DMA :: bool
  TEST_RTPS_MMU :: bool
  TEST_SHMEM :: bool
  TEST_COMMAND_SERVER :: bool
  TEST_LINK_SHMEM :: bool
  TEST_MBOX_LINK_TRCH :: bool
  TEST_SHMEM_LINK_TRCH :: bool

text \<open>The combinations that compile.\<close>

definition config_compiles :: "config \<Rightarrow> bool" where
  "config_compiles c \<longleftrightarrow> (CONFIG_LINK_MBOX_TRCH_CLIENT c \<longrightarrow> CONFIG_MBOX_LSIO c) \<and>
     (CONFIG_LINK_MBOX_HPPS_SERVER c \<longrightarrow> CONFIG_MBOX_HPPS_RTPS c)"

text \<open>The board: interrupt numbers and addresses, and the addresses of the static watchdog objects.\<close>

record board =
  RTPS_IRQ__TR_MBOX_0 :: u32
  RTPS_IRQ__HR_MBOX_0 :: u32
  PPI_IRQ__RTI_TIMER :: u32
  PPI_IRQ__WDT :: u32
  MBOX_LSIO__BASE :: u32
  MBOX_HPPS_RTPS__BASE :: u32
  rtit_bases :: "nat \<Rightarrow> ptr"
  wdt_bases :: "nat \<Rightarrow> ptr"
  wdt_objects :: "nat \<Rightarrow> ptr"
  GIC_EDGE_TRIGGERED :: u32
  MASTER_ID_RTPS_CPU0 :: u8
  MASTER_ID_HPPS_CPU0 :: u8
  mbox_raw :: "nat \<Rightarrow> hpsc_mbox_chan"
  link_raw :: link

definition CMD_TIMEOUT_TICKS :: rtems_interval where "CMD_TIMEOUT_TICKS = 10000"
definition SHMEM_POLL_TICKS :: rtems_interval where "SHMEM_POLL_TICKS = 100"
definition TASK_PRI_WDT :: nat where "TASK_PRI_WDT = 1"
definition TASK_PRI_SHMEM_POLL_TRCH :: nat where "TASK_PRI_SHMEM_POLL_TRCH = 10"
definition TASK_PRI_CMDH :: nat where "TASK_PRI_CMDH = 20"
definition TASK_PRI_SHELL :: nat where "TASK_PRI_SHELL = 100"
definition NAME_MBOX_TRCH :: string where "NAME_MBOX_TRCH = ''TRCH-RTPS Mailbox''"
definition NAME_MBOX_HPPS :: string where "NAME_MBOX_HPPS = ''HPPS-RTPS Mailbox''"

definition LINK_NAME__MBOX__TRCH_CLIENT :: string where "LINK_NAME__MBOX__TRCH_CLIENT = ''LINK_MBOX_TRCH_CLIENT''"
definition LINK_NAME__SHMEM__TRCH_CLIENT :: string where "LINK_NAME__SHMEM__TRCH_CLIENT = ''LINK_SHMEM_TRCH_CLIENT''"
definition LINK_NAME__MBOX__HPPS_SERVER :: string where "LINK_NAME__MBOX__HPPS_SERVER = ''LINK_MBOX_HPPS_SERVER''"

definition rtit_names :: "string list" where "rtit_names = [''RTPS-R52-RTIT-0'', ''RTPS-R52-RTIT-1'']"
definition wdt_names :: "string list" where "wdt_names = [''RTPS-R52-WDT-0'', ''RTPS-R52-WDT-1'']"

subsection \<open>Drivers\<close>

text \<open>Probing a mailbox block and storing it; the interrupt numbers are given relative to the block's first one.\<close>

definition init_mbox ::
  "'k sys \<Rightarrow> board \<Rightarrow> dev_id_mbox \<Rightarrow> string \<Rightarrow> u32 \<Rightarrow> u32 \<Rightarrow> nat \<Rightarrow> nat \<Rightarrow> 'k world \<Rightarrow> 'k world res" where
  "init_mbox sys b i name base irq0 evt0 evt1 w =
     res_bind (gic_irq_to_rvn (irq0 + of_nat evt0) GIC_IRQ_TYPE_SPI) (\<lambda>vec_a.
     res_bind (gic_irq_to_rvn (irq0 + of_nat evt1) GIC_IRQ_TYPE_SPI) (\<lambda>vec_b.
     res_bind (hpsc_mbox_probe (sys_K sys) (mbox_raw b) name base vec_a evt0 vec_b evt1 (w_ker w)) (\<lambda>(sc, p, mo, k).
       if sc \<noteq> RTEMS_SUCCESSFUL then Inl Panic
       else devs_do (dev_set_mbox (dev_id_code i) p) (w\<lparr>w_mbox := (w_mbox w)(p := mo), w_ker := k\<rparr>))))"

definition init_mbox_lsio :: "'k sys \<Rightarrow> board \<Rightarrow> 'k world \<Rightarrow> 'k world res" where
  "init_mbox_lsio sys b = init_mbox sys b DEV_ID_MBOX_LSIO NAME_MBOX_TRCH (MBOX_LSIO__BASE b) (RTPS_IRQ__TR_MBOX_0 b)
     LSIO_MBOX0_INT_EVT0__RTPS_R52_LOCKSTEP_SSW LSIO_MBOX0_INT_EVT1__RTPS_R52_LOCKSTEP_SSW"

definition init_mbox_hpps :: "'k sys \<Rightarrow> board \<Rightarrow> 'k world \<Rightarrow> 'k world res" where
  "init_mbox_hpps sys b = init_mbox sys b DEV_ID_MBOX_HPPS_RTPS NAME_MBOX_HPPS (MBOX_HPPS_RTPS__BASE b) (RTPS_IRQ__HR_MBOX_0 b)
     HPPS_MBOX1_INT_EVT0__RTPS_R52_LOCKSTEP_SSW HPPS_MBOX1_INT_EVT1__RTPS_R52_LOCKSTEP_SSW"

definition init_rtit :: "'k sys \<Rightarrow> board \<Rightarrow> rtems_vector_number \<Rightarrow> nat \<Rightarrow> 'k world \<Rightarrow> 'k world res" where
  "init_rtit sys b vec cpu w =
     c_assert (cpu < length rtit_names)
      (res_bind (pin_self sys cpu w) (\<lambda>w1.
       case hpsc_rti_timer_probe (sys_K sys) (rtit_names ! cpu) (rtit_bases b cpu) vec (w_ker w1) of (sc, p, t, k) \<Rightarrow>
         if sc \<noteq> RTEMS_SUCCESSFUL then Inl Panic
         else let w2 = w1\<lparr>w_rtit := (w_rtit w1)(p := t), w_ker := k\<rparr> in
              devs_do (dev_cpu_set_rtit (this_cpu sys w2) p) w2))"

definition init_wdt :: "'k sys \<Rightarrow> board \<Rightarrow> rtems_vector_number \<Rightarrow> nat \<Rightarrow> 'k world \<Rightarrow> 'k world res" where
  "init_wdt sys b vec cpu w =
     c_assert (cpu < length wdt_names)
      (res_bind (pin_self sys cpu w) (\<lambda>w1.
         let w2 = w1\<lparr>w_ker := rt_wdt_init_target (sys_K sys) (wdt_objects b cpu) (wdt_names ! cpu) (wdt_bases b cpu) vec (w_ker w1)\<rparr> in
         devs_do (dev_cpu_set_wdt (this_cpu sys w2) (wdt_objects b cpu)) w2))"

text \<open>Code under a build flag.\<close>

definition when_set :: "bool \<Rightarrow> ('s \<Rightarrow> 's res) \<Rightarrow> 's \<Rightarrow> 's res" where
  "when_set flag f s = (if flag then f s else Inr s)"

text \<open>The whole entry; its result is the new contents of the interrupt controller's registers and of the node.\<close>

definition init_extra_drivers :: "'k sys \<Rightarrow> config \<Rightarrow> board \<Rightarrow> gic_regs \<Rightarrow> 'k world \<Rightarrow> (gic_regs \<times> 'k world) res" where
  "init_extra_drivers sys c b regs w =
     res_bind (when_set (CONFIG_MBOX_LSIO c) (init_mbox_lsio sys b) w) (\<lambda>w1.
     res_bind (when_set (CONFIG_MBOX_HPPS_RTPS c) (init_mbox_hpps sys b) w1) (\<lambda>w2.
     res_bind (gic_irq_to_rvn (PPI_IRQ__RTI_TIMER b) GIC_IRQ_TYPE_PPI) (\<lambda>rtit_vec.
     res_bind (gic_irq_to_rvn (PPI_IRQ__WDT b) GIC_IRQ_TYPE_PPI) (\<lambda>wdt_vec.
     res_bind (keeping_affinity sys (\<lambda>w.
         res_bind (when_set (CONFIG_RTI_TIMER c) (dev_cpu_for_each sys (init_rtit sys b rtit_vec)) w) (\<lambda>w3.
           when_set (CONFIG_WDT c) (dev_cpu_for_each sys (init_wdt sys b wdt_vec)) w3)) w2) (\<lambda>w4.
       Inr (if CONFIG_RTI_TIMER c then gic_trigger_set rtit_vec (GIC_EDGE_TRIGGERED b) regs else regs, w4))))))"

subsection \<open>Links\<close>

definition store_append :: "'k sys \<Rightarrow> ptr \<Rightarrow> 'k world \<Rightarrow> 'k world res" where
  "store_append sys l w =
     res_bind (link_store_append (sys_K sys) l (w_store w) (w_ker w)) (\<lambda>(_, store, k). Inr (w\<lparr>w_store := store, w_ker := k\<rparr>))"

definition init_mbox_link ::
  "'k sys \<Rightarrow> board \<Rightarrow> dev_id_mbox \<Rightarrow> string \<Rightarrow> nat \<Rightarrow> nat \<Rightarrow> u8 \<Rightarrow> u8 \<Rightarrow> 'k world \<Rightarrow> 'k world res" where
  "init_mbox_link sys b i name from to server client w =
     res_bind (dev_get_mbox (dev_id_code i) (w_devs w)) (\<lambda>mbox.
       c_assert (mbox \<noteq> NULL)
        (res_bind (link_mbox_connect sys (link_raw b) name mbox from to server client w) (\<lambda>(l, w1).
           if l = NULL then Inl Panic else store_append sys l w1)))"

definition init_mbox_trch_client :: "'k sys \<Rightarrow> board \<Rightarrow> 'k world \<Rightarrow> 'k world res" where
  "init_mbox_trch_client sys b = init_mbox_link sys b DEV_ID_MBOX_LSIO LINK_NAME__MBOX__TRCH_CLIENT
     LSIO_MBOX0_CHAN__TRCH_SSW__RTPS_R52_LOCKSTEP_SSW LSIO_MBOX0_CHAN__RTPS_R52_LOCKSTEP_SSW__TRCH_SSW
     0 (MASTER_ID_RTPS_CPU0 b)"

definition init_shmem_trch_client :: "'k sys \<Rightarrow> board \<Rightarrow> ('k world \<Rightarrow> 'k world res) \<Rightarrow> nat \<Rightarrow> 'k world \<Rightarrow> 'k world res" where
  "init_shmem_trch_client sys b yield fuel w =
     (case rt_task_create (sys_K sys) ''TSCR'' TASK_PRI_SHMEM_POLL_TRCH (w_ker w) of (sc, tid_recv, k) \<Rightarrow>
      c_assert (sc = RTEMS_SUCCESSFUL)
       (case rt_task_create (sys_K sys) ''TSCA'' TASK_PRI_SHMEM_POLL_TRCH k of (sc', tid_ack, k') \<Rightarrow>
        c_assert (sc' = RTEMS_SUCCESSFUL)
         (res_bind (link_shmem_connect sys yield fuel (link_raw b) LINK_NAME__SHMEM__TRCH_CLIENT
             (of_nat RTPS_DDR_ADDR__SHM__RTPS_R52_LOCKSTEP_SSW__TRCH_SSW) (of_nat RTPS_DDR_ADDR__SHM__TRCH_SSW__RTPS_R52_LOCKSTEP_SSW)
             False SHMEM_POLL_TICKS tid_recv tid_ack (w\<lparr>w_ker := k'\<rparr>)) (\<lambda>(l, w1).
            if l = NULL then Inl Panic else store_append sys l w1))))"

definition init_client_links :: "'k sys \<Rightarrow> config \<Rightarrow> board \<Rightarrow> ('k world \<Rightarrow> 'k world res) \<Rightarrow> nat \<Rightarrow> 'k world \<Rightarrow> 'k world res" where
  "init_client_links sys c b yield fuel w =
     res_bind (when_set (CONFIG_LINK_MBOX_TRCH_CLIENT c) (init_mbox_trch_client sys b) w)
       (when_set (CONFIG_LINK_SHMEM_TRCH_CLIENT c) (init_shmem_trch_client sys b yield fuel))"

definition init_mbox_hpps_server :: "'k sys \<Rightarrow> board \<Rightarrow> 'k world \<Rightarrow> 'k world res" where
  "init_mbox_hpps_server sys b = init_mbox_link sys b DEV_ID_MBOX_HPPS_RTPS LINK_NAME__MBOX__HPPS_SERVER
     HPPS_MBOX1_CHAN__HPPS_SMP_APP__RTPS_R52_LOCKSTEP_SSW HPPS_MBOX1_CHAN__RTPS_R52_LOCKSTEP_SSW__HPPS_SMP_APP
     (MASTER_ID_RTPS_CPU0 b) (MASTER_ID_HPPS_CPU0 b)"

definition init_server_links :: "'k sys \<Rightarrow> config \<Rightarrow> board \<Rightarrow> 'k world \<Rightarrow> 'k world res" where
  "init_server_links sys c b = when_set (CONFIG_LINK_MBOX_HPPS_SERVER c) (init_mbox_hpps_server sys b)"

subsection \<open>Tasks\<close>

definition early_tasks :: "'k sys \<Rightarrow> 'k world \<Rightarrow> 'k world res" where
  "early_tasks sys w =
     (case rt_task_create (sys_K sys) ''CMDH'' TASK_PRI_CMDH (w_ker w) of (sc, task_id, k) \<Rightarrow>
      c_assert (sc = RTEMS_SUCCESSFUL)
       (res_bind (cmd_handle_task_start sys task_id (Some Server_process) CMD_TIMEOUT_TICKS (w\<lparr>w_ker := k\<rparr>)) (\<lambda>(sc', w1).
          if sc' \<noteq> RTEMS_SUCCESSFUL then Inl Panic else Inr w1)))"

definition init_tasks :: "'k sys \<Rightarrow> config \<Rightarrow> 'k world \<Rightarrow> 'k world res" where
  "init_tasks sys c = when_set (CONFIG_WDT c) (watchdog_tasks_create sys TASK_PRI_WDT)"

text \<open>\<open>shell\<close> is the call of \<open>rtems_shell_init\<close> with the priority of the shell's task.\<close>

definition late_tasks :: "(nat \<Rightarrow> 'k \<Rightarrow> rtems_status_code \<times> 'k) \<Rightarrow> config \<Rightarrow> 'k world \<Rightarrow> 'k world res" where
  "late_tasks shell c = when_set (CONFIG_SHELL c) (\<lambda>w.
     case shell TASK_PRI_SHELL (w_ker w) of (sc, k) \<Rightarrow> if sc \<noteq> RTEMS_SUCCESSFUL then Inl Panic else Inr (w\<lparr>w_ker := k\<rparr>))"

subsection \<open>Start-up\<close>

text \<open>The tests; each returns its result and the node afterwards.\<close>

type_synonym 'k test = "'k world \<Rightarrow> (int \<times> 'k world) res"

record 'k tests =
  test_command :: "'k test"
  test_lsio_sram :: "'k test"
  test_lsio_sram_dma :: "'k test"
  test_mbox_lsio_loopback :: "'k test"
  test_cpu_rti_timers :: "'k test"
  test_rtps_mmu :: "bool \<Rightarrow> 'k test"
  test_shmem :: "'k test"
  test_command_server :: "'k test"
  test_link_shmem :: "'k test"
  test_link_mbox_trch :: "'k test"
  test_link_shmem_trch :: "'k test"

definition run_test :: "'k test \<Rightarrow> 'k world \<Rightarrow> 'k world res" where
  "run_test t w = res_bind (t w) (\<lambda>(rc, w'). if rc \<noteq> 0 then Inl Panic else Inr w')"

fun in_order :: "('s \<Rightarrow> 's res) list \<Rightarrow> 's \<Rightarrow> 's res" where
  "in_order [] s = Inr s"
| "in_order (f # fs) s = res_bind (f s) (in_order fs)"

definition standalone_tests :: "config \<Rightarrow> 'k tests \<Rightarrow> 'k world \<Rightarrow> 'k world res" where
  "standalone_tests c ts = in_order
     [when_set (TEST_COMMAND c) (run_test (test_command ts)),
      when_set (TEST_LSIO_SRAM c) (run_test (test_lsio_sram ts)),
      when_set (TEST_LSIO_SRAM_DMA c) (run_test (test_lsio_sram_dma ts)),
      when_set (TEST_MBOX_LSIO_LOOPBACK c \<and> CONFIG_MBOX_LSIO c) (run_test (test_mbox_lsio_loopback ts)),
      when_set (TEST_RTI_TIMER c \<and> CONFIG_RTI_TIMER c) (run_test (test_cpu_rti_timers ts)),
      when_set (TEST_RTPS_MMU c) (run_test (test_rtps_mmu ts (TEST_RTPS_DMA c))),
      when_set (TEST_SHMEM c) (run_test (test_shmem ts))]"

definition runtime_tests :: "config \<Rightarrow> 'k tests \<Rightarrow> 'k world \<Rightarrow> 'k world res" where
  "runtime_tests c ts = in_order
     [when_set (TEST_COMMAND_SERVER c) (run_test (test_command_server ts)),
      when_set (TEST_LINK_SHMEM c) (run_test (test_link_shmem ts))]"

definition external_tests :: "config \<Rightarrow> 'k tests \<Rightarrow> 'k world \<Rightarrow> 'k world res" where
  "external_tests c ts = in_order
     [when_set (TEST_MBOX_LINK_TRCH c \<and> CONFIG_LINK_MBOX_TRCH_CLIENT c) (run_test (test_link_mbox_trch ts)),
      when_set (TEST_SHMEM_LINK_TRCH c \<and> CONFIG_LINK_SHMEM_TRCH_CLIENT c) (run_test (test_link_shmem_trch ts))]"

definition POSIX_Init ::
  "'k sys \<Rightarrow> config \<Rightarrow> board \<Rightarrow> 'k tests \<Rightarrow> (nat \<Rightarrow> 'k \<Rightarrow> rtems_status_code \<times> 'k) \<Rightarrow> ('k world \<Rightarrow> 'k world res) \<Rightarrow> nat \<Rightarrow>
   'k world \<Rightarrow> 'k world res" where
  "POSIX_Init sys c b ts shell yield fuel w = in_order
     [standalone_tests c ts, early_tasks sys, runtime_tests c ts, init_client_links sys c b yield fuel, init_server_links sys c b,
      init_tasks sys c, external_tests c ts, late_tasks shell c, \<lambda>w. Inr (w\<lparr>w_ker := rt_task_exit (sys_K sys) (w_ker w)\<rparr>)] w"

end
