(* ===== verification/Boot_Drivers.thy ===== *)
theory Boot_Drivers
  imports Boot
begin

text \<open>
  What start-up establishes.  The drivers' entry ends with all configured devices probed, stored in
  their slots and ready for the operations of the other components, or the node stops.
\<close>

subsection \<open>What the drivers' entry relies on\<close>

text \<open>\<open>aff\<close> are the affinities of the tasks.  Allocating, installing handlers and initialising watchdogs leave the
  caller and all affinities alone; pinning and initialising watchdogs leave memory and handlers alone.\<close>

definition boot_laws ::
  "'k rtems \<Rightarrow> ('k \<Rightarrow> ptr set) \<Rightarrow> ('k \<Rightarrow> (rtems_vector_number \<times> handler \<times> ptr) set) \<Rightarrow> ('k \<Rightarrow> rtems_id \<Rightarrow> nat set) \<Rightarrow> bool" where
  "boot_laws K live irqs aff \<longleftrightarrow>
     (\<forall>k. rt_task_self K (snd (rt_malloc K k)) = rt_task_self K k \<and> aff (snd (rt_malloc K k)) = aff k \<and>
        rt_current_cpu K (snd (rt_malloc K k)) = rt_current_cpu K k) \<and>
     (\<forall>v h a k. rt_task_self K (snd (rt_int_install K v h a k)) = rt_task_self K k \<and> aff (snd (rt_int_install K v h a k)) = aff k) \<and>
     (\<forall>t cs k. live (snd (rt_set_affinity K t cs k)) = live k \<and> irqs (snd (rt_set_affinity K t cs k)) = irqs k) \<and>
     (\<forall>p n a v k. live (rt_wdt_init_target K p n a v k) = live k \<and> irqs (rt_wdt_init_target K p n a v k) = irqs k \<and>
        rt_task_self K (rt_wdt_init_target K p n a v k) = rt_task_self K k \<and> rt_current_cpu K (rt_wdt_init_target K p n a v k) = rt_current_cpu K k)"

lemma boot_lawsD:
  assumes "boot_laws K live irqs aff"
  shows "rt_malloc K k = (p, k1) \<Longrightarrow> rt_task_self K k1 = rt_task_self K k \<and> aff k1 = aff k \<and> rt_current_cpu K k1 = rt_current_cpu K k"
    and "rt_int_install K v h a k = (sc, k2) \<Longrightarrow> rt_task_self K k2 = rt_task_self K k \<and> aff k2 = aff k"
    and "rt_set_affinity K t cs k = (sc3, k3) \<Longrightarrow> live k3 = live k \<and> irqs k3 = irqs k"
    and "live (rt_wdt_init_target K p n b v k) = live k \<and> irqs (rt_wdt_init_target K p n b v k) = irqs k \<and>
        rt_task_self K (rt_wdt_init_target K p n b v k) = rt_task_self K k \<and> rt_current_cpu K (rt_wdt_init_target K p n b v k) = rt_current_cpu K k"
proof -
  note L = assms [unfolded boot_laws_def]
  show "rt_malloc K k = (p, k1) \<Longrightarrow> rt_task_self K k1 = rt_task_self K k \<and> aff k1 = aff k \<and> rt_current_cpu K k1 = rt_current_cpu K k"
    using L [THEN conjunct1, rule_format, where k = k] by simp
  show "rt_int_install K v h a k = (sc, k2) \<Longrightarrow> rt_task_self K k2 = rt_task_self K k \<and> aff k2 = aff k"
    using L [THEN conjunct2, THEN conjunct1, rule_format, where v = v and h = h and a = a and k = k] by simp
  show "rt_set_affinity K t cs k = (sc3, k3) \<Longrightarrow> live k3 = live k \<and> irqs k3 = irqs k"
    using L [THEN conjunct2, THEN conjunct2, THEN conjunct1, rule_format, where t = t and cs = cs and k = k] by simp
  show "live (rt_wdt_init_target K p n b v k) = live k \<and> irqs (rt_wdt_init_target K p n b v k) = irqs k \<and>
        rt_task_self K (rt_wdt_init_target K p n b v k) = rt_task_self K k \<and> rt_current_cpu K (rt_wdt_init_target K p n b v k) = rt_current_cpu K k"
    using L [THEN conjunct2, THEN conjunct2, THEN conjunct2, rule_format, where p = p and n = n and a = b and v = v and k = k] by simp
qed

subsection \<open>Mailboxes\<close>

lemma probe_kernel:
  assumes boot: "boot_laws K live irqs aff" and p: "hpsc_mbox_probe K raw info base va ia vb ib k = Inr (RTEMS_SUCCESSFUL, p, mo, k')"
  shows "rt_task_self K k' = rt_task_self K k" and "aff k' = aff k"
proof -
  obtain q k1 where m: "rt_malloc K k = (q, k1)" by fastforce
  obtain sc k2 where a: "rt_int_install K va Hpsc_mbox_isr_a q k1 = (sc, k2)" by fastforce
  obtain sc' k3 where b: "rt_int_install K vb Hpsc_mbox_isr_b q k2 = (sc', k3)" by fastforce
  have "k' = k3"
    using p m a b by (auto simp: hpsc_mbox_probe_def Let_def split: if_splits prod.splits)
  then show "rt_task_self K k' = rt_task_self K k" "aff k' = aff k"
    using boot_lawsD(1) [OF boot m] boot_lawsD(2) [OF boot a] boot_lawsD(2) [OF boot b] by simp_all
qed

text \<open>The state after a block was probed and stored at \<open>i\<close>.\<close>

definition with_mbox :: "nat \<Rightarrow> ptr \<Rightarrow> hpsc_mbox \<Rightarrow> 'k \<Rightarrow> 'k world \<Rightarrow> 'k world" where
  "with_mbox i p mb k w = w\<lparr>w_mbox := (w_mbox w)(p \<mapsto> mb), w_devs := (w_devs w)\<lparr>devs_mbox := (devs_mbox (w_devs w))(i := p)\<rparr>, w_ker := k\<rparr>"

lemma init_mbox_cases:
  assumes irq: "irq_laws (sys_K sys) irqs" and heap: "heap_laws (sys_K sys) live" and boot: "boot_laws (sys_K sys) live irqs aff"
    and base: "base \<noteq> 0" and i: "dev_id_code i < 3" "devs_mbox (w_devs w) (dev_id_code i) = NULL"
  shows "(\<exists>p mb k. init_mbox sys b i name base irq0 e0 e1 w = Inr (with_mbox (dev_id_code i) p mb k w) \<and> p \<noteq> NULL \<and> p \<notin> live (w_ker w) \<and>
      mbox_wf mb \<and> ch_base (mb_chans mb ! 0) = None \<and> live k = insert p (live (w_ker w)) \<and>
      irqs k = mbox_handlers p mb \<union> irqs (w_ker w) \<and> rt_task_self (sys_K sys) k = rt_task_self (sys_K sys) (w_ker w) \<and> aff k = aff (w_ker w)) \<or>
    init_mbox sys b i name base irq0 e0 e1 w = Inl Panic"
proof -
  let ?va = "GIC_INTERNAL + (irq0 + of_nat e0)" and ?vb = "GIC_INTERNAL + (irq0 + of_nat e1)"
  let ?mb = "hpsc_mbox_init (mbox_raw b) name base ?va e0 ?vb e1"
  obtain sc p mo k where pr: "hpsc_mbox_probe (sys_K sys) (mbox_raw b) name base ?va e0 ?vb e1 (w_ker w) = Inr (sc, p, mo, k)"
    and out: "if sc = RTEMS_SUCCESSFUL then mo = Some ?mb \<and> p \<noteq> NULL \<and> p \<notin> live (w_ker w) \<and> live k = insert p (live (w_ker w)) \<and>
        irqs k = {(?va, Hpsc_mbox_isr_a, p), (?vb, Hpsc_mbox_isr_b, p)} \<union> irqs (w_ker w)
      else mo = None \<and> live k = live (w_ker w) \<and> irqs k = irqs (w_ker w)"
    using hpsc_mbox_probe_outcome [OF irq heap base, of "mbox_raw b" name ?va e0 ?vb e1 "w_ker w"] by blast
  show ?thesis
  proof (cases "sc = RTEMS_SUCCESSFUL")
    case False
    then show ?thesis using pr by (simp add: init_mbox_def)
  next
    case True
    have "init_mbox sys b i name base irq0 e0 e1 w = Inr (with_mbox (dev_id_code i) p ?mb k w)"
      using pr True out i by (simp add: init_mbox_def devs_do_def dev_set_mbox_def with_mbox_def)
    moreover have "ch_base (mb_chans ?mb ! 0) = None" "mbox_handlers p ?mb = {(?va, Hpsc_mbox_isr_a, p), (?vb, Hpsc_mbox_isr_b, p)}"
      by (simp_all add: hpsc_mbox_init_def mbox_handlers_def)
    moreover note probe_kernel [OF boot pr [unfolded True]]
    ultimately show ?thesis using True out by (intro disjI1 exI [of _ p] exI [of _ ?mb] exI [of _ k]) simp
  qed
qed

subsection \<open>Timers and watchdogs of the processors\<close>

lemma pin_self_boot:
  assumes aff: "affinity_laws (sys_K sys) aff" and boot: "boot_laws (sys_K sys) live irqs aff"
  obtains k where "pin_self sys cpu w = Inr (w\<lparr>w_ker := k\<rparr>)" "rt_current_cpu (sys_K sys) k = cpu"
      "live k = live (w_ker w)" "irqs k = irqs (w_ker w)" "rt_task_self (sys_K sys) k = rt_task_self (sys_K sys) (w_ker w)"
    | "pin_self sys cpu w = Inl Panic"
proof -
  obtain sc k where s: "rt_set_affinity (sys_K sys) RTEMS_SELF {cpu} (w_ker w) = (sc, k)" by fastforce
  note a = affinity_laws_set [OF aff s] and f = boot_lawsD(3) [OF boot s]
  show thesis
  proof (cases "sc = RTEMS_SUCCESSFUL")
    case True
    then show thesis
      using that(1) [of k] s a f by (simp add: pin_self_def affinity_pin_self_to_cpu_def affinity_pin_to_cpu_def)
  next
    case False
    then show thesis
      using that(2) s a(1,2) by (auto simp: pin_self_def affinity_pin_self_to_cpu_def affinity_pin_to_cpu_def)
  qed
qed

text \<open>The timers of the first \<open>n\<close> processors have been probed and stored.\<close>

definition rtits_up ::
  "('k \<Rightarrow> ptr set) \<Rightarrow> ('k \<Rightarrow> (rtems_vector_number \<times> handler \<times> ptr) set) \<Rightarrow> 'k sys \<Rightarrow> board \<Rightarrow> rtems_vector_number \<Rightarrow>
   'k world \<Rightarrow> nat \<Rightarrow> 'k world \<Rightarrow> bool" where
  "rtits_up live irqs sys b vec w n w' \<longleftrightarrow>
     (\<exists>r f k. w' = w\<lparr>w_rtit := r, w_devs := (w_devs w)\<lparr>rtits := f\<rparr>, w_ker := k\<rparr> \<and>
        (\<forall>cpu < n. f cpu \<noteq> NULL \<and> f cpu \<notin> live (w_ker w) \<and>
           r (f cpu) = Some (hpsc_rti_timer_init (rtit_names ! cpu) (rtit_bases b cpu) vec) \<and> (\<forall>j < cpu. f j \<noteq> f cpu)) \<and>
        (\<forall>cpu. n \<le> cpu \<longrightarrow> f cpu = NULL) \<and> (\<forall>p. p \<notin> f ` {..<n} \<longrightarrow> r p = w_rtit w p) \<and>
        live k = live (w_ker w) \<union> f ` {..<n} \<and> irqs k = irqs (w_ker w) \<and>
        rt_task_self (sys_K sys) k = rt_task_self (sys_K sys) (w_ker w))"

lemma init_rtit_step:
  assumes irq: "irq_laws (sys_K sys) irqs" and heap: "heap_laws (sys_K sys) live" and aff: "affinity_laws (sys_K sys) aff"
    and boot: "boot_laws (sys_K sys) live irqs aff" and v: "rtits_up live irqs sys b vec w n v"
  shows "(\<exists>v'. init_rtit sys b vec n v = Inr v' \<and> rtits_up live irqs sys b vec w (Suc n) v') \<or>
    (\<exists>e. init_rtit sys b vec n v = Inl e \<and> e \<in> {Panic, Assert_Failed})"
proof -
  obtain r f k where v': "v = w\<lparr>w_rtit := r, w_devs := (w_devs w)\<lparr>rtits := f\<rparr>, w_ker := k\<rparr>"
    and f: "\<forall>cpu < n. f cpu \<noteq> NULL \<and> f cpu \<notin> live (w_ker w) \<and>
           r (f cpu) = Some (hpsc_rti_timer_init (rtit_names ! cpu) (rtit_bases b cpu) vec) \<and> (\<forall>j < cpu. f j \<noteq> f cpu)"
      "\<forall>cpu. n \<le> cpu \<longrightarrow> f cpu = NULL" "\<forall>p. p \<notin> f ` {..<n} \<longrightarrow> r p = w_rtit w p"
    and k: "live k = live (w_ker w) \<union> f ` {..<n}" "irqs k = irqs (w_ker w)" "rt_task_self (sys_K sys) k = rt_task_self (sys_K sys) (w_ker w)"
    using v unfolding rtits_up_def by (elim exE conjE)
  show ?thesis
  proof (cases "n < length rtit_names")
    case False
    then show ?thesis by (simp add: init_rtit_def)
  next
    case n: True
    show ?thesis
    proof (cases rule: pin_self_boot [OF aff boot, of n v])
      case 2
      then show ?thesis using n by (simp add: init_rtit_def)
    next
      case (1 k1)
      obtain p k2 where m: "rt_malloc (sys_K sys) k1 = (p, k2)" by fastforce
      note hm = heap_laws_malloc [OF heap m] and bm = boot_lawsD(1) [OF boot m]
      show ?thesis
      proof (cases "p = NULL")
        case True
        then show ?thesis using n 1(1) m by (simp add: init_rtit_def hpsc_rti_timer_probe_def)
      next
        case False
        let ?t = "hpsc_rti_timer_init (rtit_names ! n) (rtit_bases b n) vec"
        let ?v = "w\<lparr>w_rtit := r(p \<mapsto> ?t), w_devs := (w_devs w)\<lparr>rtits := f(n := p)\<rparr>, w_ker := k2\<rparr>"
        have "init_rtit sys b vec n v = Inr ?v"
          using n 1(1,2) m False bm f(2) v'
          by (simp add: init_rtit_def hpsc_rti_timer_probe_def this_cpu_def devs_do_def dev_cpu_set_rtit_def)
        moreover have new: "p \<notin> live (w_ker w)" "p \<notin> f ` {..<n}" "live k2 = insert p (live (w_ker w) \<union> f ` {..<n})"
          using hm False 1(3) k(1) v' by auto
        have "rtits_up live irqs sys b vec w (Suc n) ?v"
          unfolding rtits_up_def
        proof (intro exI [of _ "r(p \<mapsto> ?t)"] exI [of _ "f(n := p)"] exI [of _ k2] conjI)
          have "f j \<noteq> p" if "j < n" for j using new(2) that by auto
          then show "\<forall>cpu<Suc n. (f(n := p)) cpu \<noteq> NULL \<and> (f(n := p)) cpu \<notin> live (w_ker w) \<and>
             (r(p \<mapsto> ?t)) ((f(n := p)) cpu) = Some (hpsc_rti_timer_init (rtit_names ! cpu) (rtit_bases b cpu) vec) \<and>
             (\<forall>j<cpu. (f(n := p)) j \<noteq> (f(n := p)) cpu)"
            using f(1) False new(1) by (auto simp: less_Suc_eq)
          have im: "(f(n := p)) ` {..<Suc n} = insert p (f ` {..<n})" by (auto simp: lessThan_Suc)
          show "\<forall>q. q \<notin> (f(n := p)) ` {..<Suc n} \<longrightarrow> (r(p \<mapsto> ?t)) q = w_rtit w q" unfolding im using f(3) by simp
          show "live k2 = live (w_ker w) \<union> (f(n := p)) ` {..<Suc n}" unfolding im new(3) by auto
        qed (use f(2) k(2,3) 1(4,5) bm irq_laws_heap(1) [OF irq m] v' in auto)
        ultimately show ?thesis by blast
      qed
    qed
  qed
qed

definition wdts_up ::
  "('k \<Rightarrow> ptr set) \<Rightarrow> ('k \<Rightarrow> (rtems_vector_number \<times> handler \<times> ptr) set) \<Rightarrow> 'k sys \<Rightarrow> board \<Rightarrow> 'k world \<Rightarrow> nat \<Rightarrow> 'k world \<Rightarrow> bool" where
  "wdts_up live irqs sys b w n w' \<longleftrightarrow>
     (\<exists>k. w' = w\<lparr>w_devs := (w_devs w)\<lparr>wdts := (\<lambda>cpu. if cpu < n then wdt_objects b cpu else NULL)\<rparr>, w_ker := k\<rparr> \<and>
        live k = live (w_ker w) \<and> irqs k = irqs (w_ker w) \<and> rt_task_self (sys_K sys) k = rt_task_self (sys_K sys) (w_ker w))"

lemma init_wdt_step:
  assumes aff: "affinity_laws (sys_K sys) aff" and boot: "boot_laws (sys_K sys) live irqs aff" and v: "wdts_up live irqs sys b w n v"
  shows "(\<exists>v'. init_wdt sys b vec n v = Inr v' \<and> wdts_up live irqs sys b w (Suc n) v') \<or>
    (\<exists>e. init_wdt sys b vec n v = Inl e \<and> e \<in> {Panic, Assert_Failed})"
proof -
  obtain k where v': "v = w\<lparr>w_devs := (w_devs w)\<lparr>wdts := (\<lambda>cpu. if cpu < n then wdt_objects b cpu else NULL)\<rparr>, w_ker := k\<rparr>"
    and k: "live k = live (w_ker w)" "irqs k = irqs (w_ker w)" "rt_task_self (sys_K sys) k = rt_task_self (sys_K sys) (w_ker w)"
    using v unfolding wdts_up_def by (elim exE conjE)
  show ?thesis
  proof (cases "n < length wdt_names")
    case False
    then show ?thesis by (simp add: init_wdt_def)
  next
    case n: True
    show ?thesis
    proof (cases rule: pin_self_boot [OF aff boot, of n v])
      case 2
      then show ?thesis using n by (simp add: init_wdt_def)
    next
      case (1 k1)
      let ?k = "rt_wdt_init_target (sys_K sys) (wdt_objects b n) (wdt_names ! n) (wdt_bases b n) vec k1"
      let ?v = "w\<lparr>w_devs := (w_devs w)\<lparr>wdts := (\<lambda>cpu. if cpu < Suc n then wdt_objects b cpu else NULL)\<rparr>, w_ker := ?k\<rparr>"
      note bi = boot_lawsD(4) [OF boot, of "wdt_objects b n" "wdt_names ! n" "wdt_bases b n" vec k1]
      have "(\<lambda>cpu. if cpu < n then wdt_objects b cpu else NULL)(n := wdt_objects b n) = (\<lambda>cpu. if cpu < Suc n then wdt_objects b cpu else NULL)"
        by (auto simp: fun_eq_iff less_Suc_eq)
      then have "init_wdt sys b vec n v = Inr ?v"
        using n 1(1,2) bi v' by (simp add: init_wdt_def this_cpu_def devs_do_def dev_cpu_set_wdt_def)
      moreover have "wdts_up live irqs sys b w (Suc n) ?v"
        unfolding wdts_up_def using bi 1(3-5) k v' by (intro exI [of _ ?k]) simp
      ultimately show ?thesis by blast
    qed
  qed
qed


subsection \<open>The entry as a whole\<close>

text \<open>The mailbox blocks with the identifiers \<open>I\<close> have been probed and stored.\<close>

definition mboxes_up ::
  "('k \<Rightarrow> ptr set) \<Rightarrow> ('k \<Rightarrow> (rtems_vector_number \<times> handler \<times> ptr) set) \<Rightarrow> ('k \<Rightarrow> rtems_id \<Rightarrow> nat set) \<Rightarrow> 'k sys \<Rightarrow>
   'k world \<Rightarrow> nat set \<Rightarrow> 'k world \<Rightarrow> bool" where
  "mboxes_up live irqs aff sys w I w' \<longleftrightarrow>
     (\<exists>mbx d k. w' = w\<lparr>w_mbox := mbx, w_devs := (w_devs w)\<lparr>devs_mbox := d\<rparr>, w_ker := k\<rparr> \<and>
        (\<forall>i \<in> I. d i \<noteq> NULL \<and> d i \<in> live k \<and>
           (\<exists>mb. mbx (d i) = Some mb \<and> mbox_wf mb \<and> ch_base (mb_chans mb ! 0) = None \<and> mbox_handlers (d i) mb \<subseteq> irqs k)) \<and>
        (\<forall>i. i \<notin> I \<longrightarrow> d i = NULL) \<and> inj_on d I \<and> live (w_ker w) \<subseteq> live k \<and> irqs (w_ker w) \<subseteq> irqs k \<and>
        rt_task_self (sys_K sys) k = rt_task_self (sys_K sys) (w_ker w) \<and> aff k = aff (w_ker w))"

lemma init_mbox_step:
  assumes irq: "irq_laws (sys_K sys) irqs" and heap: "heap_laws (sys_K sys) live" and boot: "boot_laws (sys_K sys) live irqs aff"
    and base: "base \<noteq> 0" and i: "dev_id_code i < 3" "dev_id_code i \<notin> I" and v: "mboxes_up live irqs aff sys w I v"
  shows "(\<exists>v'. init_mbox sys b i name base irq0 e0 e1 v = Inr v' \<and> mboxes_up live irqs aff sys w (insert (dev_id_code i) I) v') \<or>
    init_mbox sys b i name base irq0 e0 e1 v = Inl Panic"
proof -
  let ?i = "dev_id_code i"
  obtain mbx d k where v': "v = w\<lparr>w_mbox := mbx, w_devs := (w_devs w)\<lparr>devs_mbox := d\<rparr>, w_ker := k\<rparr>"
    and d: "\<forall>i \<in> I. d i \<noteq> NULL \<and> d i \<in> live k \<and>
           (\<exists>mb. mbx (d i) = Some mb \<and> mbox_wf mb \<and> ch_base (mb_chans mb ! 0) = None \<and> mbox_handlers (d i) mb \<subseteq> irqs k)"
      "\<forall>i. i \<notin> I \<longrightarrow> d i = NULL" "inj_on d I" "live (w_ker w) \<subseteq> live k" "irqs (w_ker w) \<subseteq> irqs k"
      "rt_task_self (sys_K sys) k = rt_task_self (sys_K sys) (w_ker w)" "aff k = aff (w_ker w)"
    using v unfolding mboxes_up_def by (elim exE conjE)
  have "devs_mbox (w_devs v) ?i = NULL" using d(2) i(2) v' by simp
  from init_mbox_cases [OF irq heap boot base i(1) this, of b name irq0 e0 e1]
  consider (ok) p mb k' where "init_mbox sys b i name base irq0 e0 e1 v = Inr (with_mbox ?i p mb k' v)" "p \<noteq> NULL" "p \<notin> live k"
      "mbox_wf mb" "ch_base (mb_chans mb ! 0) = None" "live k' = insert p (live k)" "irqs k' = mbox_handlers p mb \<union> irqs k"
      "rt_task_self (sys_K sys) k' = rt_task_self (sys_K sys) k" "aff k' = aff k"
    | (no) "init_mbox sys b i name base irq0 e0 e1 v = Inl Panic"
    using v' by auto
  then show ?thesis
  proof cases
    case no
    then show ?thesis by blast
  next
    case ok
    have old: "d j \<noteq> p" "j \<noteq> ?i" if "j \<in> I" for j using d(1) ok(3) i(2) that by auto
    have "mboxes_up live irqs aff sys w (insert ?i I) (with_mbox ?i p mb k' v)"
      unfolding mboxes_up_def
    proof (intro exI [of _ "mbx(p \<mapsto> mb)"] exI [of _ "d(?i := p)"] exI [of _ k'] conjI)
      show "inj_on (d(?i := p)) (insert ?i I)" using d(3) old by (auto simp: inj_on_def)
      show "\<forall>j \<in> insert ?i I. (d(?i := p)) j \<noteq> NULL \<and> (d(?i := p)) j \<in> live k' \<and>
         (\<exists>mb'. (mbx(p \<mapsto> mb)) ((d(?i := p)) j) = Some mb' \<and> mbox_wf mb' \<and> ch_base (mb_chans mb' ! 0) = None \<and>
            mbox_handlers ((d(?i := p)) j) mb' \<subseteq> irqs k')"
        using d(1) old ok(2,4-7) by (simp add: le_supI2) (meson le_supI2)
    qed (use d(2,4-7) ok(6-9) v' in \<open>auto simp: with_mbox_def\<close>)
    then show ?thesis using ok(1) by blast
  qed
qed

text \<open>Everything the drivers' entry makes.\<close>

definition drivers_up ::
  "('k \<Rightarrow> (rtems_vector_number \<times> handler \<times> ptr) set) \<Rightarrow> 'k sys \<Rightarrow> config \<Rightarrow> board \<Rightarrow> 'k world \<Rightarrow> bool" where
  "drivers_up irqs sys c b w \<longleftrightarrow> mboxes_registered irqs w \<and> rtits_registered sys w \<and>
     (devs_mbox (w_devs w) 0 \<noteq> NULL \<longleftrightarrow> CONFIG_MBOX_LSIO c) \<and> devs_mbox (w_devs w) 1 = NULL \<and>
     (devs_mbox (w_devs w) 2 \<noteq> NULL \<longleftrightarrow> CONFIG_MBOX_HPPS_RTPS c) \<and>
     (mboxes_claimed w \<longleftrightarrow> \<not> CONFIG_MBOX_LSIO c \<and> \<not> CONFIG_MBOX_HPPS_RTPS c) \<and>
     (\<forall>cpu < rt_cpu_count (sys_K sys).
        (if CONFIG_RTI_TIMER c then rtits (w_devs w) cpu \<noteq> NULL \<and> w_rtit w (rtits (w_devs w) cpu) =
           Some (hpsc_rti_timer_init (rtit_names ! cpu) (rtit_bases b cpu) (GIC_NR_SGIS + PPI_IRQ__RTI_TIMER b))
         else rtits (w_devs w) cpu = NULL) \<and>
        wdts (w_devs w) cpu = (if CONFIG_WDT c then wdt_objects b cpu else NULL))"

text \<open>The part that runs on every processor, with the caller's affinity kept.\<close>

lemma init_cpu_devices:
  assumes irq: "irq_laws (sys_K sys) irqs" and heap: "heap_laws (sys_K sys) live" and aff: "affinity_laws (sys_K sys) aff"
    and boot: "boot_laws (sys_K sys) live irqs aff" and devs: "rtits (w_devs w) = (\<lambda>_. NULL)" "wdts (w_devs w) = (\<lambda>_. NULL)"
    and N: "N = rt_cpu_count (sys_K sys)"
  shows "(\<exists>w3 w4. when_set (CONFIG_RTI_TIMER c) (dev_cpu_for_each sys (init_rtit sys b rv)) w = Inr w3 \<and>
      when_set (CONFIG_WDT c) (dev_cpu_for_each sys (init_wdt sys b wv)) w3 = Inr w4 \<and>
      rtits_up live irqs sys b rv w (if CONFIG_RTI_TIMER c then N else 0) w3 \<and>
      wdts_up live irqs sys b w3 (if CONFIG_WDT c then N else 0) w4) \<or>
    stops (res_bind (when_set (CONFIG_RTI_TIMER c) (dev_cpu_for_each sys (init_rtit sys b rv)) w)
      (when_set (CONFIG_WDT c) (dev_cpu_for_each sys (init_wdt sys b wv))))"
proof -
  have r0: "rtits_up live irqs sys b rv w 0 w"
    unfolding rtits_up_def by (intro exI [of _ "w_rtit w"] exI [of _ "rtits (w_devs w)"] exI [of _ "w_ker w"]) (use devs in simp)
  have "(\<exists>w3. when_set (CONFIG_RTI_TIMER c) (dev_cpu_for_each sys (init_rtit sys b rv)) w = Inr w3 \<and>
      rtits_up live irqs sys b rv w (if CONFIG_RTI_TIMER c then N else 0) w3) \<or>
    stops (when_set (CONFIG_RTI_TIMER c) (dev_cpu_for_each sys (init_rtit sys b rv)) w)"
  proof (cases "CONFIG_RTI_TIMER c")
    case True
    have "(\<exists>w3. res_fold (init_rtit sys b rv) [0..<N] w = Inr w3 \<and> rtits_up live irqs sys b rv w N w3) \<or>
      (\<exists>e. res_fold (init_rtit sys b rv) [0..<N] w = Inl e \<and> e \<in> {Panic, Assert_Failed})"
      by (rule res_fold_upt [where P = "rtits_up live irqs sys b rv w", OF r0]) (rule init_rtit_step [OF irq heap aff boot])
    then show ?thesis using True N by (auto simp: when_set_def dev_cpu_for_each_def stops_def)
  qed (use r0 in \<open>simp add: when_set_def\<close>)
  then show ?thesis
  proof (elim disjE exE conjE)
    fix w3 assume w3: "when_set (CONFIG_RTI_TIMER c) (dev_cpu_for_each sys (init_rtit sys b rv)) w = Inr w3"
      "rtits_up live irqs sys b rv w (if CONFIG_RTI_TIMER c then N else 0) w3"
    have d3: "wdts (w_devs w3) = (\<lambda>_. NULL)" using w3(2) devs(2) by (auto simp: rtits_up_def)
    have v0: "wdts_up live irqs sys b w3 0 w3"
      unfolding wdts_up_def by (intro exI [of _ "w_ker w3"]) (use d3 in simp)
    have "(\<exists>w4. when_set (CONFIG_WDT c) (dev_cpu_for_each sys (init_wdt sys b wv)) w3 = Inr w4 \<and>
        wdts_up live irqs sys b w3 (if CONFIG_WDT c then N else 0) w4) \<or>
      stops (when_set (CONFIG_WDT c) (dev_cpu_for_each sys (init_wdt sys b wv)) w3)"
    proof (cases "CONFIG_WDT c")
      case True
      have "(\<exists>w4. res_fold (init_wdt sys b wv) [0..<N] w3 = Inr w4 \<and> wdts_up live irqs sys b w3 N w4) \<or>
        (\<exists>e. res_fold (init_wdt sys b wv) [0..<N] w3 = Inl e \<and> e \<in> {Panic, Assert_Failed})"
        by (rule res_fold_upt [where P = "wdts_up live irqs sys b w3", OF v0]) (rule init_wdt_step [OF aff boot])
      then show ?thesis using True N by (auto simp: when_set_def dev_cpu_for_each_def stops_def)
    qed (use v0 in \<open>simp add: when_set_def\<close>)
    then show ?thesis using w3 by auto
  next
    assume "stops (when_set (CONFIG_RTI_TIMER c) (dev_cpu_for_each sys (init_rtit sys b rv)) w)"
    then show ?thesis by (auto simp: stops_def)
  qed
qed

lemma keeping_affinity_boot:
  assumes aff: "affinity_laws (sys_K sys) aff" and boot: "boot_laws (sys_K sys) live irqs aff"
    and body: "body w = Inr w1" "rt_task_self (sys_K sys) (w_ker w1) = rt_task_self (sys_K sys) (w_ker w)"
  shows "(\<exists>k. keeping_affinity sys body w = Inr (w1\<lparr>w_ker := k\<rparr>) \<and> live k = live (w_ker w1) \<and> irqs k = irqs (w_ker w1) \<and>
      aff k (rt_task_self (sys_K sys) (w_ker w)) = aff (w_ker w) (rt_task_self (sys_K sys) (w_ker w))) \<or>
    stops (keeping_affinity sys body w)"
proof -
  let ?t = "rt_task_self (sys_K sys) (w_ker w)"
  have get: "rt_get_affinity (sys_K sys) RTEMS_SELF (w_ker w) = (RTEMS_SUCCESSFUL, aff (w_ker w) ?t)"
    using aff unfolding affinity_laws_def by simp
  obtain sc k where s: "rt_set_affinity (sys_K sys) RTEMS_SELF (aff (w_ker w) ?t) (w_ker w1) = (sc, k)" by fastforce
  show ?thesis
  proof (cases "sc = RTEMS_SUCCESSFUL")
    case True
    then show ?thesis
      using get body s affinity_laws_set(4) [OF aff s] boot_lawsD(3) [OF boot s]
      by (intro disjI1 exI [of _ k]) (simp add: keeping_affinity_def)
  qed (use get body s in \<open>simp add: keeping_affinity_def\<close>)
qed

lemma drivers_up_parts:
  assumes up: "mboxes_up live irqs aff sys w ((if CONFIG_MBOX_HPPS_RTPS c then {2} else {}) \<union> (if CONFIG_MBOX_LSIO c then {0} else {})) w2"
    and r: "rtits_up live irqs sys b (GIC_NR_SGIS + PPI_IRQ__RTI_TIMER b) w2 (if CONFIG_RTI_TIMER c then rt_cpu_count (sys_K sys) else 0) w3"
    and d: "wdts_up live irqs sys b w3 (if CONFIG_WDT c then rt_cpu_count (sys_K sys) else 0) w4" and k: "irqs k = irqs (w_ker w4)"
  shows "drivers_up irqs sys c b (w4\<lparr>w_ker := k\<rparr>)"
proof -
  let ?I = "(if CONFIG_MBOX_HPPS_RTPS c then {2} else {}) \<union> (if CONFIG_MBOX_LSIO c then {0} else {}) :: nat set"
  let ?N = "rt_cpu_count (sys_K sys)" and ?w = "w4\<lparr>w_ker := k\<rparr>" and ?d = "devs_mbox (w_devs w2)"
  have m: "\<forall>i \<in> ?I. ?d i \<noteq> NULL \<and> (\<exists>mb. w_mbox w2 (?d i) = Some mb \<and> mbox_wf mb \<and> ch_base (mb_chans mb ! 0) = None \<and>
        mbox_handlers (?d i) mb \<subseteq> irqs (w_ker w2))" "\<forall>i. i \<notin> ?I \<longrightarrow> ?d i = NULL" "inj_on ?d ?I"
    using up by (auto simp: mboxes_up_def)
  have w: "w_mbox ?w = w_mbox w2" "devs_mbox (w_devs ?w) = ?d" "irqs (w_ker ?w) = irqs (w_ker w2)" "rtits (w_devs ?w) = rtits (w_devs w3)"
      "w_rtit ?w = w_rtit w3" "wdts (w_devs ?w) = (\<lambda>cpu. if cpu < (if CONFIG_WDT c then ?N else 0) then wdt_objects b cpu else NULL)"
    using r d k by (auto simp: rtits_up_def wdts_up_def)
  have rt: "\<forall>cpu < (if CONFIG_RTI_TIMER c then ?N else 0). rtits (w_devs w3) cpu \<noteq> NULL \<and>
         w_rtit w3 (rtits (w_devs w3) cpu) = Some (hpsc_rti_timer_init (rtit_names ! cpu) (rtit_bases b cpu) (GIC_NR_SGIS + PPI_IRQ__RTI_TIMER b)) \<and>
         (\<forall>j < cpu. rtits (w_devs w3) j \<noteq> rtits (w_devs w3) cpu)"
      "\<forall>cpu. (if CONFIG_RTI_TIMER c then ?N else 0) \<le> cpu \<longrightarrow> rtits (w_devs w3) cpu = NULL"
    using r by (auto simp: rtits_up_def)
  have reg: "mboxes_registered irqs ?w"
    unfolding mboxes_registered_def w(1-3)
  proof (intro allI impI conjI)
    fix i :: nat assume "?d i \<noteq> NULL"
    then have i: "i \<in> ?I" using m(2) by blast
    then show "\<exists>mb. w_mbox w2 (?d i) = Some mb \<and> mbox_wf mb \<and> mbox_handlers (?d i) mb \<subseteq> irqs (w_ker w2)" using m(1) by blast
    fix j assume "j < i"
    then show "?d j \<noteq> ?d i" using m i unfolding inj_on_def by (metis less_irrefl)
  qed
  have "rtits_registered sys ?w"
    unfolding rtits_registered_def w(4,5) using rt by (auto split: if_splits)
  then have treg: "rtits_registered sys ?w" .
  have claimed: "mboxes_claimed ?w \<longleftrightarrow> ?I = {}"
  proof
    assume all: "mboxes_claimed ?w"
    show "?I = {}"
    proof (rule equals0I)
      fix i assume i: "i \<in> ?I"
      obtain mb where mb: "?d i \<noteq> NULL" "w_mbox w2 (?d i) = Some mb" "ch_base (mb_chans mb ! 0) = None" using m(1) i by blast
      have "i < 3" using i by (auto split: if_splits)
      then have "all_claimed mb" using all mb(1,2) unfolding mboxes_claimed_def w(1,2) by fastforce
      then have "ch_base (mb_chans mb ! 0) \<noteq> None" unfolding all_claimed_def by (simp only: HPSC_MBOX_CHANNELS_def) simp
      then show False using mb(3) by simp
    qed
  next
    assume "?I = {}"
    then show "mboxes_claimed ?w" unfolding mboxes_claimed_def w(1,2) using m(2) by simp
  qed
  have "(?d 0 \<noteq> NULL) = (0 \<in> ?I)" "(?d 1 \<noteq> NULL) = (1 \<in> ?I)" "(?d 2 \<noteq> NULL) = (2 \<in> ?I)"
    using m(1,2) by blast+
  then have slots: "(?d 0 \<noteq> NULL) = CONFIG_MBOX_LSIO c" "?d 1 = NULL" "(?d 2 \<noteq> NULL) = CONFIG_MBOX_HPPS_RTPS c"
    by (simp_all split: if_splits)
  have empty: "?I = {} \<longleftrightarrow> \<not> CONFIG_MBOX_LSIO c \<and> \<not> CONFIG_MBOX_HPPS_RTPS c" by simp
  show ?thesis
    unfolding drivers_up_def claimed empty
    by (intro conjI reg treg) (use slots w rt in simp_all)
qed

lemma init_extra_drivers_ready:
  assumes irq: "irq_laws (sys_K sys) irqs" and heap: "heap_laws (sys_K sys) live" and aff: "affinity_laws (sys_K sys) aff"
    and boot: "boot_laws (sys_K sys) live irqs aff" and devs: "w_devs w = devices_init"
    and base: "MBOX_LSIO__BASE b \<noteq> 0" "MBOX_HPPS_RTPS__BASE b \<noteq> 0" and edge: "GIC_EDGE_TRIGGERED b = 1"
    and t: "t = rt_task_self (sys_K sys) (w_ker w)"
  shows "(\<exists>regs' w'. init_extra_drivers sys c b regs w = Inr (regs', w') \<and> drivers_up irqs sys c b w' \<and>
      aff (w_ker w') t = aff (w_ker w) t \<and> live (w_ker w) \<subseteq> live (w_ker w') \<and> irqs (w_ker w) \<subseteq> irqs (w_ker w') \<and>
      (if CONFIG_RTI_TIMER c then gic_trigger_get (GIC_NR_SGIS + PPI_IRQ__RTI_TIMER b) regs' = GIC_EDGE_TRIGGERED b else regs' = regs)) \<or>
    stops (init_extra_drivers sys c b regs w)"
proof -
  let ?K = "sys_K sys" and ?N = "rt_cpu_count (sys_K sys)"
  let ?rv = "GIC_NR_SGIS + PPI_IRQ__RTI_TIMER b" and ?wv = "GIC_NR_SGIS + PPI_IRQ__WDT b"
  let ?I = "(if CONFIG_MBOX_HPPS_RTPS c then {2} else {}) \<union> (if CONFIG_MBOX_LSIO c then {0} else {})"
  have "mboxes_up live irqs aff sys w {} w"
    unfolding mboxes_up_def by (intro exI [of _ "w_mbox w"] exI [of _ "\<lambda>_. NULL"] exI [of _ "w_ker w"]) (simp add: devs devices_init_def)
  then have "(\<exists>w1. when_set (CONFIG_MBOX_LSIO c) (init_mbox_lsio sys b) w = Inr w1 \<and>
      mboxes_up live irqs aff sys w (if CONFIG_MBOX_LSIO c then {0} else {}) w1) \<or>
    when_set (CONFIG_MBOX_LSIO c) (init_mbox_lsio sys b) w = Inl Panic"
    using init_mbox_step [OF irq heap boot base(1), where i = DEV_ID_MBOX_LSIO and I = "{}" and w = w and v = w]
    by (simp add: when_set_def init_mbox_lsio_def)
  then have "(\<exists>w1 w2. when_set (CONFIG_MBOX_LSIO c) (init_mbox_lsio sys b) w = Inr w1 \<and>
      when_set (CONFIG_MBOX_HPPS_RTPS c) (init_mbox_hpps sys b) w1 = Inr w2 \<and> mboxes_up live irqs aff sys w ?I w2) \<or>
    init_extra_drivers sys c b regs w = Inl Panic"
  proof (elim disjE exE conjE)
    fix w1 assume w1: "when_set (CONFIG_MBOX_LSIO c) (init_mbox_lsio sys b) w = Inr w1"
      "mboxes_up live irqs aff sys w (if CONFIG_MBOX_LSIO c then {0} else {}) w1"
    then show ?thesis
      using init_mbox_step [OF irq heap boot base(2), where i = DEV_ID_MBOX_HPPS_RTPS and w = w and v = w1
          and I = "if CONFIG_MBOX_LSIO c then {0} else {}", of b NAME_MBOX_HPPS "RTPS_IRQ__HR_MBOX_0 b"
          HPPS_MBOX1_INT_EVT0__RTPS_R52_LOCKSTEP_SSW HPPS_MBOX1_INT_EVT1__RTPS_R52_LOCKSTEP_SSW]
      by (auto simp: when_set_def init_mbox_hpps_def init_extra_drivers_def)
  qed (simp add: init_extra_drivers_def)
  then show ?thesis
  proof (elim disjE exE conjE)
    fix w1 w2 assume w12: "when_set (CONFIG_MBOX_LSIO c) (init_mbox_lsio sys b) w = Inr w1"
      "when_set (CONFIG_MBOX_HPPS_RTPS c) (init_mbox_hpps sys b) w1 = Inr w2" and up: "mboxes_up live irqs aff sys w ?I w2"
    let ?body = "\<lambda>w. res_bind (when_set (CONFIG_RTI_TIMER c) (dev_cpu_for_each sys (init_rtit sys b ?rv)) w) (\<lambda>w3.
           when_set (CONFIG_WDT c) (dev_cpu_for_each sys (init_wdt sys b ?wv)) w3)"
    have run: "init_extra_drivers sys c b regs w = res_bind (keeping_affinity sys ?body w2) (\<lambda>w4.
       Inr (if CONFIG_RTI_TIMER c then gic_trigger_set ?rv (GIC_EDGE_TRIGGERED b) regs else regs, w4))"
      using w12 by (simp add: init_extra_drivers_def)
    have w2: "rtits (w_devs w2) = (\<lambda>_. NULL)" "wdts (w_devs w2) = (\<lambda>_. NULL)" "rt_task_self ?K (w_ker w2) = t" "aff (w_ker w2) = aff (w_ker w)"
        "live (w_ker w) \<subseteq> live (w_ker w2)" "irqs (w_ker w) \<subseteq> irqs (w_ker w2)"
      using up devs t by (auto simp: mboxes_up_def devices_init_def)
    from init_cpu_devices [OF irq heap aff boot w2(1,2) refl, of c b ?rv ?wv]
    show ?thesis
    proof (elim disjE exE conjE)
      fix w3 w4 assume c3: "when_set (CONFIG_RTI_TIMER c) (dev_cpu_for_each sys (init_rtit sys b ?rv)) w2 = Inr w3"
        and c4: "when_set (CONFIG_WDT c) (dev_cpu_for_each sys (init_wdt sys b ?wv)) w3 = Inr w4"
        and r: "rtits_up live irqs sys b ?rv w2 (if CONFIG_RTI_TIMER c then ?N else 0) w3"
        and d: "wdts_up live irqs sys b w3 (if CONFIG_WDT c then ?N else 0) w4"
      have body: "?body w2 = Inr w4" using c3 c4 by simp
      have ks: "rt_task_self ?K (w_ker w4) = rt_task_self ?K (w_ker w2)" "live (w_ker w2) \<subseteq> live (w_ker w4)" "irqs (w_ker w4) = irqs (w_ker w2)"
        using r d by (auto simp: rtits_up_def wdts_up_def)
      from keeping_affinity_boot [where body = ?body, OF aff boot body ks(1)] show ?thesis
      proof (elim disjE exE conjE)
        fix k assume k: "keeping_affinity sys ?body w2 = Inr (w4\<lparr>w_ker := k\<rparr>)" "live k = live (w_ker w4)" "irqs k = irqs (w_ker w4)"
          "aff k (rt_task_self ?K (w_ker w2)) = aff (w_ker w2) (rt_task_self ?K (w_ker w2))"
        have "drivers_up irqs sys c b (w4\<lparr>w_ker := k\<rparr>)" by (rule drivers_up_parts [OF up r d k(3)])
        moreover have "gic_trigger_get ?rv (gic_trigger_set ?rv (GIC_EDGE_TRIGGERED b) regs) = GIC_EDGE_TRIGGERED b"
          using gic_trigger_set_get [of "GIC_EDGE_TRIGGERED b" ?rv ?rv regs] edge by simp
        ultimately show ?thesis using run k w2 ks by auto
      qed (use run in \<open>auto simp: stops_def\<close>)
    qed (use run in \<open>auto simp: stops_def keeping_affinity_def split: prod.splits\<close>)
  qed simp
qed


text \<open>C8. The initialisation entry for the drivers either stops the node with a panic or a failed assert,
  or ends with every configured mailbox block, processor timer and watchdog probed, its handlers
  installed, stored in the slot from which the other components take it, and in the state they rely
  on; the caller's affinity is as before, nothing is freed or uninstalled, and the timers' vector
  triggers on the edge exactly as configured.\<close>

theorem init_extra_drivers_outcome:
  assumes irq: "irq_laws (sys_K sys) irqs" and heap: "heap_laws (sys_K sys) live" and aff: "affinity_laws (sys_K sys) aff"
    and boot: "boot_laws (sys_K sys) live irqs aff" and devs: "w_devs w = devices_init"
    and base: "MBOX_LSIO__BASE b \<noteq> 0" "MBOX_HPPS_RTPS__BASE b \<noteq> 0" and edge: "GIC_EDGE_TRIGGERED b = 1"
    and t: "t = rt_task_self (sys_K sys) (w_ker w)"
  shows "(\<exists>regs' w'. init_extra_drivers sys c b regs w = Inr (regs', w') \<and> drivers_up irqs sys c b w' \<and>
      aff (w_ker w') t = aff (w_ker w) t \<and> live (w_ker w) \<subseteq> live (w_ker w') \<and> irqs (w_ker w) \<subseteq> irqs (w_ker w') \<and>
      (if CONFIG_RTI_TIMER c then gic_trigger_get (GIC_NR_SGIS + PPI_IRQ__RTI_TIMER b) regs' = GIC_EDGE_TRIGGERED b else regs' = regs)) \<or>
    stops (init_extra_drivers sys c b regs w)"
  by (rule init_extra_drivers_ready [OF assms])

text \<open>A board and a node before start-up, with everything configured.\<close>

definition demo_board :: board where
  "demo_board = \<lparr>RTPS_IRQ__TR_MBOX_0 = 100, RTPS_IRQ__HR_MBOX_0 = 200, PPI_IRQ__RTI_TIMER = 8, PPI_IRQ__WDT = 9,
     MBOX_LSIO__BASE = 0x30000000, MBOX_HPPS_RTPS__BASE = 0x30010000, rtit_bases = (\<lambda>cpu. 0x31000000 + of_nat cpu),
     wdt_bases = (\<lambda>cpu. 0x32000000 + of_nat cpu), wdt_objects = (\<lambda>cpu. 0xf00 + of_nat cpu), GIC_EDGE_TRIGGERED = 1,
     MASTER_ID_RTPS_CPU0 = 0x2d, MASTER_ID_HPPS_CPU0 = 0x80, mbox_raw = (\<lambda>_. demo_chan), link_raw = demo_link_mbox\<rparr>"

definition demo_config :: config where
  "demo_config = \<lparr>CONFIG_MBOX_LSIO = True, CONFIG_MBOX_HPPS_RTPS = True, CONFIG_RTI_TIMER = True, CONFIG_WDT = True,
     CONFIG_LINK_MBOX_TRCH_CLIENT = True, CONFIG_LINK_MBOX_HPPS_SERVER = True, CONFIG_LINK_SHMEM_TRCH_CLIENT = True,
     CONFIG_SHELL = True, TEST_COMMAND = True, TEST_LSIO_SRAM = False, TEST_LSIO_SRAM_DMA = False, TEST_MBOX_LSIO_LOOPBACK = True,
     TEST_RTI_TIMER = True, TEST_RTPS_DMA = True, TEST_RTPS_MMU = True, TEST_SHMEM = True, TEST_COMMAND_SERVER = True,
     TEST_LINK_SHMEM = False, TEST_MBOX_LINK_TRCH = True, TEST_SHMEM_LINK_TRCH = False\<rparr>"

definition fresh_world :: "demo_kernel world" where
  "fresh_world = demo_bare_world\<lparr>w_mbox := Map.empty\<rparr>"

lemma demo_boot_laws: "boot_laws demo_rtems (\<lambda>k. set (dk_live k)) (\<lambda>k. set (dk_irqs k)) dk_aff"
  by (auto simp: boot_laws_def demo_rtems_def)

lemma fresh_world_simps [simp]: "w_devs fresh_world = devices_init" "w_ker fresh_world = demo_k0"
  by (simp_all add: fresh_world_def demo_bare_world_def demo_block_world_def demo_world_def)

lemma demo_probe:
  assumes "dk_next k \<noteq> 0" "dk_next k \<notin> set (dk_live k)" "va \<notin> fst ` set (dk_irqs k)" "vb \<notin> fst ` set (dk_irqs k)" "va \<noteq> vb" "base \<noteq> 0"
  shows "hpsc_mbox_probe demo_rtems raw info base va ia vb ib k = Inr (RTEMS_SUCCESSFUL, dk_next k,
    Some (hpsc_mbox_init raw info base va ia vb ib),
    k\<lparr>dk_live := dk_next k # dk_live k, dk_next := dk_next k + 256,
      dk_irqs := (vb, Hpsc_mbox_isr_b, dk_next k) # (va, Hpsc_mbox_isr_a, dk_next k) # dk_irqs k\<rparr>)"
  using assms by (simp add: hpsc_mbox_probe_def demo_rtems_def Let_def)

lemma demo_drivers_start:
  "\<exists>regs' w'. init_extra_drivers demo_sys demo_config demo_board (\<lambda>_. 0) fresh_world = Inr (regs', w') \<and>
     \<not> rt_int_in_progress demo_rtems (w_ker w')"
proof -
  have two: "[0..<2] = [0, 1]" by (simp add: upt_rec)
  show ?thesis
    by (simp add: init_extra_drivers_def when_set_def demo_config_def init_mbox_lsio_def init_mbox_hpps_def init_mbox_def
      demo_board_def mailbox_map_defs demo_probe devs_do_def dev_set_mbox_def GIC_INTERNAL_def GIC_NR_SGIS_def demo_k0_def devices_init_def)
      (simp add: keeping_affinity_def dev_cpu_for_each_def two init_rtit_def init_wdt_def pin_self_def this_cpu_def devs_do_def
      affinity_pin_self_to_cpu_def affinity_pin_to_cpu_def hpsc_rti_timer_probe_def dev_cpu_set_rtit_def dev_cpu_set_wdt_def
      rtit_names_def wdt_names_def demo_rtems_def)
qed

theorem init_extra_drivers_outcome_witness:
  "\<exists>regs' w'. init_extra_drivers demo_sys demo_config demo_board (\<lambda>_. 0) fresh_world = Inr (regs', w') \<and>
     devs_mbox (w_devs w') 0 \<noteq> NULL \<and> wdts (w_devs w') 1 = 0xf01 \<and> gic_trigger_get 24 regs' = 1 \<and> \<not> mboxes_claimed w'"
proof -
  obtain regs' w' where s: "init_extra_drivers demo_sys demo_config demo_board (\<lambda>_. 0) fresh_world = Inr (regs', w')"
    using demo_drivers_start by auto
  have b: "MBOX_LSIO__BASE demo_board \<noteq> 0" "MBOX_HPPS_RTPS__BASE demo_board \<noteq> 0" "GIC_EDGE_TRIGGERED demo_board = 1"
    and n: "1 < rt_cpu_count (sys_K demo_sys)"
    and c: "CONFIG_MBOX_LSIO demo_config" "CONFIG_WDT demo_config" "CONFIG_RTI_TIMER demo_config"
    and v: "wdt_objects demo_board 1 = 0xf01" "GIC_NR_SGIS + PPI_IRQ__RTI_TIMER demo_board = 24"
    by (simp_all add: demo_board_def demo_config_def demo_rtems_def GIC_NR_SGIS_def)
  have "drivers_up (\<lambda>k. set (dk_irqs k)) demo_sys demo_config demo_board w' \<and> gic_trigger_get 24 regs' = 1"
    using init_extra_drivers_outcome [of demo_sys "\<lambda>k. set (dk_irqs k)" "\<lambda>k. set (dk_live k)" dk_aff fresh_world demo_board
        "rt_task_self demo_rtems demo_k0" demo_config "\<lambda>_. 0"]
      demo_irq_laws demo_heap_laws demo_affinity_laws demo_boot_laws b s c v by simp
  then show ?thesis using s n c v by (simp add: drivers_up_def)
qed

end
