(* ===== verification/Boot_Links.thy ===== *)
theory Boot_Links
  imports Boot_Drivers "HOL-Library.Sublist"
begin

text \<open>
  What a completed start-up leaves behind: the command handler runs, the configured links exist and are
  stored in order, and the device slots are as before.
\<close>

subsection \<open>Links that are made and stored\<close>

text \<open>The parts of the node that making a link does not touch.\<close>

definition apart_from_links :: "'k world \<Rightarrow> 'k world \<Rightarrow> bool" where
  "apart_from_links w w' \<longleftrightarrow> w_handler w' = w_handler w \<and> w_cmdq w' = w_cmdq w \<and> w_handled w' = w_handled w \<and> w_devs w' = w_devs w \<and>
     w_rtit w' = w_rtit w \<and> w_wdtc w' = w_wdtc w"

text \<open>A new link object with the given name and transport.\<close>

definition link_new :: "('k \<Rightarrow> ptr set) \<Rightarrow> string \<Rightarrow> link_write_fn \<Rightarrow> ptr \<Rightarrow> 'k world \<Rightarrow> 'k world \<Rightarrow> bool" where
  "link_new live name wr l w w' \<longleftrightarrow> l \<notin> live (w_ker w) \<and> insert l (live (w_ker w)) \<subseteq> live (w_ker w') \<and> apart_from_links w w' \<and>
     w_store w' = w_store w \<and> (\<exists>lk. w_link w' = (w_link w)(l \<mapsto> lk) \<and> l_name lk = Some name \<and> l_write lk = wr)"

lemma claim_chan_only:
  assumes "claim_chan sys m i ow sr de ca cbb arg w = Inr (sc, w')"
  shows "\<exists>mbx rg. w' = w\<lparr>w_mbox := mbx, w_mreg := rg\<rparr>"
  using assms by (auto simp: claim_chan_def mbox_run_def res_iff split: prod.splits option.splits if_splits)

lemma link_mbox_connect_makes:
  assumes heap: "heap_laws (sys_K sys) live" and c: "link_mbox_connect sys raw name m i j server client w = Inr (l, w')" and l: "l \<noteq> NULL"
  shows "link_new live name Link_mbox_write l w w'"
proof -
  obtain l0 k1 where a: "rt_malloc (sys_K sys) (w_ker w) = (l0, k1)" by fastforce
  obtain p k2 where b: "rt_malloc (sys_K sys) k1 = (p, k2)" by fastforce
  have nz: "l0 \<noteq> NULL" "p \<noteq> NULL"
    using c l a b by (auto simp: link_mbox_connect_def w_malloc_def Let_def split: if_splits)
  let ?lk = "(link_init raw name p)\<lparr>l_write := Link_mbox_write, l_read := Link_mbox_read, l_close := Link_mbox_close\<rparr>"
  let ?w3 = "w\<lparr>w_ker := k2, w_link := (w_link w)(l0 \<mapsto> ?lk), w_mlink := (w_mlink w)(p \<mapsto> \<lparr>ml_mbox = m, chan_from = i, chan_to = j\<rparr>)\<rparr>"
  let ?c1 = "claim_chan sys m i server client server (Some (if server \<noteq> 0 then Link_recv_cmd else Link_recv_reply)) None l0 ?w3"
  have run: "res_bind ?c1 (\<lambda>(sc, w4). if sc \<noteq> RTEMS_SUCCESSFUL then Inr (NULL, free_link sys l0 (free_mlink sys p w4))
      else res_bind (claim_chan sys m j server server client None (Some Link_mbox_ack) l0 w4) (\<lambda>(sc', w5).
        if sc' \<noteq> RTEMS_SUCCESSFUL then res_bind (release_chan sys m i w5) (\<lambda>(_, w6). Inr (NULL, free_link sys l0 (free_mlink sys p w6)))
        else Inr (l0, w5))) = Inr (l, w')" (is "res_bind _ ?rest = _")
    using c a b nz by (simp add: link_mbox_connect_def w_malloc_def Let_def split del: if_split)
  obtain sc w4 where c1: "?c1 = Inr (sc, w4)" and rest: "?rest (sc, w4) = Inr (l, w')"
    using run unfolding res_bind_Inr_iff by fastforce
  have sc: "sc = RTEMS_SUCCESSFUL" using rest l by (auto split: if_splits)
  obtain sc' w5 where c2: "claim_chan sys m j server server client None (Some Link_mbox_ack) l0 w4 = Inr (sc', w5)"
    and rest2: "(if sc' \<noteq> RTEMS_SUCCESSFUL then res_bind (release_chan sys m i w5) (\<lambda>(_, w6). Inr (NULL, free_link sys l0 (free_mlink sys p w6)))
        else Inr (l0, w5)) = Inr (l, w')"
    using rest sc by (cases "claim_chan sys m j server server client None (Some Link_mbox_ack) l0 w4") auto
  have eq: "l = l0" "w5 = w'"
    using rest2 l by (cases "release_chan sys m i w5"; auto split: if_splits)+
  obtain mbx rg where "w5 = ?w3\<lparr>w_mbox := mbx, w_mreg := rg\<rparr>"
    using claim_chan_only [OF c1] claim_chan_only [OF c2] by (elim exE) (rule that, simp)
  then show ?thesis
    using heap_laws_malloc [OF heap a] heap_laws_malloc [OF heap b] nz eq
    by (auto simp: link_new_def apart_from_links_def link_init_def)
qed

lemma open_shm_only:
  assumes heap: "heap_laws (sys_K sys) live" and "open_shm sys addr w = Inr (s, w')"
  shows "\<exists>st k. w' = w\<lparr>w_shm := st, w_ker := k\<rparr> \<and> live (w_ker w) \<subseteq> live k"
proof -
  obtain q k where a: "rt_malloc (sys_K sys) (w_ker w) = (q, k)" by fastforce
  show ?thesis
  proof (cases "s = NULL")
    case True
    then show ?thesis
      using assms(2) a heap_laws_malloc [OF heap a]
      by (intro exI [of _ "w_shm w"] exI [of _ k]) (auto simp: open_shm_def shmem_open_def split: if_splits)
  next
    case False
    then show ?thesis
      using assms(2) a heap_laws_malloc [OF heap a]
      by (intro exI [of _ "(w_shm w)\<lparr>sh_obj := (sh_obj (w_shm w))(s \<mapsto> addr)\<rparr>"] exI [of _ k]) (auto simp: open_shm_def shmem_open_def split: if_splits)
  qed
qed

lemma poll_start_only:
  assumes heap: "heap_laws (sys_K sys) live" and c: "shmem_poll_task_start sys shm ticks msk tid h arg w = Inr (RTEMS_SUCCESSFUL, sp, w')"
  shows "\<exists>poll k. w' = w\<lparr>w_poll := poll, w_ker := k\<rparr> \<and> live (w_ker w) \<subseteq> live k"
proof -
  obtain q k where a: "rt_malloc (sys_K sys) (w_ker w) = (q, k)" by fastforce
  obtain sc k' where b: "rt_task_start (sys_K sys) tid Shm_poll_task q k = (sc, k')" by fastforce
  show ?thesis
    using c a b heap_laws_malloc [OF heap a] heap_laws_frame(4) [OF heap b]
    by (auto simp: shmem_poll_task_start_def w_malloc_def Let_def split: if_splits)
qed

lemma link_shmem_init_only:
  assumes heap: "heap_laws (sys_K sys) live"
    and c: "link_shmem_init sys yield fuel l ao ai srv ticks tr ta w = Inr (0, sl, w')"
  shows "\<exists>st poll k. w' = w\<lparr>w_shm := st, w_poll := poll, w_ker := k\<rparr> \<and> live (w_ker w) \<subseteq> live k"
proof -
  obtain out w1 where o1: "open_shm sys ao w = Inr (out, w1)" "out \<noteq> NULL"
    using c by (auto simp: link_shmem_init_def Let_def res_iff split: if_splits)
  then obtain inp w2 where o2: "open_shm sys ai w1 = Inr (inp, w2)" "inp \<noteq> NULL"
    using c by (auto simp: link_shmem_init_def Let_def res_iff split: if_splits)
  then obtain recv w3 where o3: "shmem_poll_task_start sys inp ticks HPSC_SHMEM_STATUS_BIT_NEW tr
      (if srv then Link_recv_cmd else Link_recv_reply) l w2 = Inr (RTEMS_SUCCESSFUL, recv, w3)"
    using c o1 by (auto simp: link_shmem_init_def Let_def res_iff split: if_splits)
  then obtain ack where o4: "shmem_poll_task_start sys out ticks HPSC_SHMEM_STATUS_BIT_ACK ta Link_shmem_ack l w3 = Inr (RTEMS_SUCCESSFUL, ack, w')"
    using c o1 o2 by (auto simp: link_shmem_init_def Let_def res_iff split: if_splits)
  obtain st1 k1 where e1: "w1 = w\<lparr>w_shm := st1, w_ker := k1\<rparr>" "live (w_ker w) \<subseteq> live k1" using open_shm_only [OF heap o1(1)] by blast
  obtain st2 k2 where e2: "w2 = w1\<lparr>w_shm := st2, w_ker := k2\<rparr>" "live (w_ker w1) \<subseteq> live k2" using open_shm_only [OF heap o2(1)] by blast
  obtain p3 k3 where e3: "w3 = w2\<lparr>w_poll := p3, w_ker := k3\<rparr>" "live (w_ker w2) \<subseteq> live k3" using poll_start_only [OF heap o3] by blast
  obtain p4 k4 where e4: "w' = w3\<lparr>w_poll := p4, w_ker := k4\<rparr>" "live (w_ker w3) \<subseteq> live k4" using poll_start_only [OF heap o4] by blast
  show ?thesis using e1 e2 e3 e4 by (intro exI [of _ st2] exI [of _ p4] exI [of _ k4]) simp
qed

lemma link_shmem_connect_makes:
  assumes heap: "heap_laws (sys_K sys) live"
    and c: "link_shmem_connect sys yield fuel raw name ao ai srv ticks tr ta w = Inr (l, w')" and l: "l \<noteq> NULL"
  shows "link_new live name Link_shmem_write l w w'"
proof -
  obtain l0 k1 where a: "rt_malloc (sys_K sys) (w_ker w) = (l0, k1)" by fastforce
  obtain p k2 where b: "rt_malloc (sys_K sys) k1 = (p, k2)" by fastforce
  have al: "ao \<noteq> NULL" "ai \<noteq> NULL" using c by (auto simp: link_shmem_connect_def split: if_splits)
  have nz: "l0 \<noteq> NULL" "p \<noteq> NULL"
    using c l a b al by (auto simp: link_shmem_connect_def w_malloc_def Let_def split: if_splits)
  let ?lk = "(link_init raw name p)\<lparr>l_write := Link_shmem_write, l_read := Link_shmem_read, l_close := Link_shmem_close\<rparr>"
  let ?w3 = "w\<lparr>w_ker := k2, w_link := (w_link w)(l0 \<mapsto> ?lk)\<rparr>"
  let ?i = "link_shmem_init sys yield fuel l0 ao ai srv ticks tr ta ?w3"
  have run: "res_bind ?i (\<lambda>(rc, sl, w4). if rc \<noteq> 0 then Inr (NULL, free_link sys l0 (free_slink sys p w4))
      else Inr (l0, w4\<lparr>w_slink := (w_slink w4)(p \<mapsto> sl)\<rparr>)) = Inr (l, w')"
    using c a b nz al by (simp add: link_shmem_connect_def w_malloc_def Let_def)
  obtain rc sl w4 where i0: "?i = Inr (rc, sl, w4)" and rest: "(if rc \<noteq> 0 then Inr (NULL, free_link sys l0 (free_slink sys p w4))
      else Inr (l0, w4\<lparr>w_slink := (w_slink w4)(p \<mapsto> sl)\<rparr>) :: (ptr \<times> 'a world) res) = Inr (l, w')"
    using run unfolding res_bind_Inr_iff by fastforce
  have rc: "rc = 0" and w': "w' = w4\<lparr>w_slink := (w_slink w4)(p \<mapsto> sl)\<rparr>" "l = l0"
    using rest l by (auto split: if_splits)
  note i = i0 [unfolded rc]
  obtain st poll k where "w4 = ?w3\<lparr>w_shm := st, w_poll := poll, w_ker := k\<rparr>" "live k2 \<subseteq> live k"
    using link_shmem_init_only [OF heap i] by auto
  then show ?thesis
    using heap_laws_malloc [OF heap a] heap_laws_malloc [OF heap b] nz w'
    by (auto simp: link_new_def apart_from_links_def link_init_def)
qed


subsection \<open>What the later steps leave alone\<close>

lemma res_fold_keeps:
  assumes "\<And>i s s'. f i s = Inr s' \<Longrightarrow> P s \<Longrightarrow> P s'" and "res_fold f is s = Inr s'" and "P s"
  shows "P s'"
  using assms(2,3)
proof (induction "is" arbitrary: s)
  case (Cons i "is")
  then obtain s1 where "f i s = Inr s1" "res_fold f is s1 = Inr s'" by (auto simp: res_iff)
  then show ?case using Cons assms(1) by blast
qed simp

lemma in_order_keeps:
  assumes "in_order fs s = Inr s'" and "\<And>f s s'. f \<in> set fs \<Longrightarrow> f s = Inr s' \<Longrightarrow> P s \<Longrightarrow> P s'" and "P s"
  shows "P s'"
  using assms
proof (induction fs arbitrary: s)
  case (Cons f fs)
  then obtain s1 where "f s = Inr s1" "in_order fs s1 = Inr s'" by (auto simp: res_iff)
  then show ?case using Cons.IH [of s1] Cons.prems(2,3) by (meson list.set_intros)
qed simp

text \<open>Making and pinning tasks, and arming watchdogs, frees nothing.\<close>

definition task_laws :: "'k rtems \<Rightarrow> ('k \<Rightarrow> ptr set) \<Rightarrow> bool" where
  "task_laws K live \<longleftrightarrow> (\<forall>n p k. live (snd (snd (rt_task_create K n p k))) = live k) \<and>
     (\<forall>t cs k. live (snd (rt_set_affinity K t cs k)) = live k) \<and>
     (\<forall>p h a k. live (snd (rt_wdt_handler_install K p h a k)) = live k) \<and> (\<forall>p k. live (rt_wdt_enable K p k) = live k)"

lemma task_lawsD:
  assumes "task_laws K live"
  shows "rt_task_create K n p k = (sc, t, k1) \<Longrightarrow> live k1 = live k"
    and "rt_set_affinity K t cs k = (sc, k1) \<Longrightarrow> live k1 = live k"
    and "rt_wdt_handler_install K q h a k = (sc, k1) \<Longrightarrow> live k1 = live k"
    and "live (rt_wdt_enable K q k) = live k"
  using assms unfolding task_laws_def by (metis snd_conv)+

text \<open>The node apart from the tasks of its watchdogs.\<close>

definition same_but_watchdogs :: "('k \<Rightarrow> ptr set) \<Rightarrow> 'k world \<Rightarrow> 'k world \<Rightarrow> bool" where
  "same_but_watchdogs live w w' \<longleftrightarrow> (\<exists>c k. w' = w\<lparr>w_wdtc := c, w_ker := k\<rparr> \<and> live k = live (w_ker w))"

lemma same_but_watchdogsI: "live k = live (w_ker w) \<Longrightarrow> same_but_watchdogs live w (w\<lparr>w_wdtc := c, w_ker := k\<rparr>)"
  unfolding same_but_watchdogs_def by blast

lemma same_but_watchdogs_ker: "live k = live (w_ker w) \<Longrightarrow> same_but_watchdogs live w (w\<lparr>w_ker := k\<rparr>)"
  unfolding same_but_watchdogs_def by (intro exI [of _ "w_wdtc w"] exI [of _ k]) simp

lemma same_but_watchdogs_trans:
  assumes "same_but_watchdogs live w w1" and "same_but_watchdogs live w1 w2"
  shows "same_but_watchdogs live w w2"
proof -
  obtain c k c' k' where "w1 = w\<lparr>w_wdtc := c, w_ker := k\<rparr>" "live k = live (w_ker w)" "w2 = w1\<lparr>w_wdtc := c', w_ker := k'\<rparr>" "live k' = live (w_ker w1)"
    using assms unfolding same_but_watchdogs_def by (elim exE conjE)
  then show ?thesis unfolding same_but_watchdogs_def by (intro exI [of _ c'] exI [of _ k']) simp
qed

lemma watchdog_cpu_task_start_same:
  assumes heap: "heap_laws (sys_K sys) live" and tl: "task_laws (sys_K sys) live"
    and c: "watchdog_cpu_task_start sys p tid ticks h a w = Inr (RTEMS_SUCCESSFUL, w')"
  shows "same_but_watchdogs live w w'"
proof -
  obtain sc k where i: "rt_wdt_handler_install (sys_K sys) p h a (w_ker w) = (sc, k)" by fastforce
  obtain sc' k' where s: "rt_task_start (sys_K sys) tid Watchdog_task (of_nat (rt_current_cpu (sys_K sys) (w_ker w)))
      (rt_wdt_enable (sys_K sys) p k) = (sc', k')" by fastforce
  have "w' = upd_wdtc (rt_current_cpu (sys_K sys) (w_ker w)) (\<lambda>_. \<lparr>wt_wdt = p, wt_tid = tid, wt_ticks = ticks, wt_cb = h, wt_cb_arg = a,
      wt_running = True\<rparr>) w\<lparr>w_ker := k'\<rparr>"
    using c i s by (auto simp: watchdog_cpu_task_start_def Let_def upd_wdtc_def split: if_splits prod.splits)
  then show ?thesis
    using task_lawsD(3) [OF tl i] task_lawsD(4) [OF tl, of p k] heap_laws_frame(4) [OF heap s]
    by (simp add: upd_wdtc_def same_but_watchdogsI)
qed


lemma pin_self_same:
  assumes tl: "task_laws (sys_K sys) live" and p: "pin_self sys cpu w = Inr w'"
  shows "same_but_watchdogs live w w'"
proof -
  obtain sc k where s: "rt_set_affinity (sys_K sys) RTEMS_SELF {cpu} (w_ker w) = (sc, k)" by fastforce
  have "w' = w\<lparr>w_ker := k\<rparr>"
    using p s by (auto simp: pin_self_def affinity_pin_self_to_cpu_def affinity_pin_to_cpu_def split: if_splits)
  then show ?thesis using task_lawsD(2) [OF tl s] by (simp add: same_but_watchdogs_ker)
qed

lemma watchdog_task_create_same:
  assumes heap: "heap_laws (sys_K sys) live" and tl: "task_laws (sys_K sys) live"
    and c: "watchdog_task_create sys prio p cpu w = Inr w'"
  shows "same_but_watchdogs live w w'"
proof -
  obtain sc t k where m: "rt_task_create (sys_K sys) (''WDT'' @ [char_of cpu]) prio (w_ker w) = (sc, t, k)" by (metis prod_cases3)
  obtain sc' k' where a: "rt_set_affinity (sys_K sys) t {cpu} k = (sc', k')" by fastforce
  let ?w = "w\<lparr>w_ker := k'\<rparr>"
  have run: "res_bind (watchdog_cpu_task_start sys p t (WDT_KICK_INTERVAL_TICKS sys) Watchdog_timeout_isr p ?w)
      (\<lambda>(sc, w'). if sc \<noteq> RTEMS_SUCCESSFUL then Inl Panic else Inr w') = Inr w'"
    using c m a by (auto simp: watchdog_task_create_def affinity_pin_to_cpu_def split: if_splits)
  then have "watchdog_cpu_task_start sys p t (WDT_KICK_INTERVAL_TICKS sys) Watchdog_timeout_isr p ?w = Inr (RTEMS_SUCCESSFUL, w')"
    unfolding res_bind_Inr_iff by (auto split: if_splits)
  from same_but_watchdogs_trans [OF same_but_watchdogs_ker watchdog_cpu_task_start_same [OF heap tl this]]
  show ?thesis using task_lawsD(1) [OF tl m] task_lawsD(2) [OF tl a] by simp
qed

lemma watchdog_tasks_create_same:
  assumes heap: "heap_laws (sys_K sys) live" and tl: "task_laws (sys_K sys) live" and c: "watchdog_tasks_create sys prio w = Inr w'"
  shows "same_but_watchdogs live w w'"
proof -
  let ?body = "\<lambda>cpu w. res_bind (pin_self sys cpu w) (\<lambda>w1. res_bind (dev_cpu_get_wdt (this_cpu sys w1) (w_devs w1)) (\<lambda>wdt.
         watchdog_task_create sys prio wdt cpu w1))"
  obtain sc cpus where g: "rt_get_affinity (sys_K sys) RTEMS_SELF (w_ker w) = (sc, cpus)" by fastforce
  obtain w1 where w1: "dev_cpu_for_each sys ?body w = Inr w1"
    and rest: "(case rt_set_affinity (sys_K sys) RTEMS_SELF cpus (w_ker w1) of (sc', k) \<Rightarrow>
      c_assert (sc' = RTEMS_SUCCESSFUL) (Inr (w1\<lparr>w_ker := k\<rparr>))) = Inr w'"
    using c g unfolding watchdog_tasks_create_def keeping_affinity_def by (auto simp: res_bind_Inr_iff split: if_splits)
  obtain sc' k where s: "rt_set_affinity (sys_K sys) RTEMS_SELF cpus (w_ker w1) = (sc', k)" by fastforce
  have w': "w' = w1\<lparr>w_ker := k\<rparr>" using rest s by (simp split: if_splits)
  have "same_but_watchdogs live w s'" if b: "?body i s = Inr s'" and s: "same_but_watchdogs live w s" for i s s'
  proof -
    obtain s1 where p: "pin_self sys i s = Inr s1" and b1: "res_bind (dev_cpu_get_wdt (this_cpu sys s1) (w_devs s1)) (\<lambda>wdt.
         watchdog_task_create sys prio wdt i s1) = Inr s'" using b unfolding res_bind_Inr_iff by blast
    then obtain wdt where "watchdog_task_create sys prio wdt i s1 = Inr s'" unfolding res_bind_Inr_iff by blast
    from same_but_watchdogs_trans [OF s same_but_watchdogs_trans [OF pin_self_same [OF tl p] watchdog_task_create_same [OF heap tl this]]]
    show ?thesis .
  qed
  from res_fold_keeps [where P = "same_but_watchdogs live w", OF this w1 [unfolded dev_cpu_for_each_def]]
  have "same_but_watchdogs live w w1" using same_but_watchdogs_ker [of live "w_ker w" w] by simp
  from same_but_watchdogs_trans [OF this same_but_watchdogs_ker [OF task_lawsD(2) [OF tl s]]] show ?thesis using w' by simp
qed

subsection \<open>The links that have been made\<close>

text \<open>A link by its address, name and transport; those that were made, in order, are distinct objects of the node,
  and those that are stored are among them in the same order.\<close>

type_synonym link_made = "ptr \<times> string \<times> link_write_fn"

definition links_made :: "('k \<Rightarrow> ptr set) \<Rightarrow> link_made list \<Rightarrow> 'k world \<Rightarrow> bool" where
  "links_made live ls w \<longleftrightarrow> distinct (map fst ls) \<and> subseq (map sn_link (w_store w)) (map fst ls) \<and>
     (\<forall>(l, name, wr) \<in> set ls. l \<in> live (w_ker w) \<and> (\<exists>lk. w_link w l = Some lk \<and> l_name lk = Some name \<and> l_write lk = wr))"

lemma links_made_keeps:
  assumes "links_made live ls w" and "w_store w' = w_store w" and "live (w_ker w) \<subseteq> live (w_ker w')"
    and "\<forall>p \<in> live (w_ker w). w_link w' p = w_link w p"
  shows "links_made live ls w'"
  using assms unfolding links_made_def by fastforce

lemma store_append_made:
  assumes heap: "heap_laws (sys_K sys) live" and ls: "links_made live ls w" and new: "link_new live name wr l w w1"
    and a: "store_append sys l w1 = Inr w2"
  shows "links_made live (ls @ [(l, name, wr)]) w2 \<and> apart_from_links w w2"
proof -
  obtain p k where m: "rt_malloc (sys_K sys) (w_ker w1) = (p, k)" by fastforce
  note h = heap_laws_malloc [OF heap m]
  have w2: "w2 = w1\<lparr>w_store := (if p = NULL then w_store w1 else w_store w1 @ [\<lparr>sn_node = p, sn_link = l\<rparr>]), w_ker := k\<rparr>"
    using a m by (auto simp: store_append_def link_store_append_def split: if_splits)
  have k: "live (w_ker w1) \<subseteq> live k" using h by (auto split: if_splits)
  obtain lk where n: "l \<notin> live (w_ker w)" "insert l (live (w_ker w)) \<subseteq> live (w_ker w1)" "apart_from_links w w1" "w_store w1 = w_store w"
      "w_link w1 = (w_link w)(l \<mapsto> lk)" "l_name lk = Some name" "l_write lk = wr"
    using new unfolding link_new_def by (elim exE conjE)
  have old: "l' \<noteq> l \<and> l' \<in> live k \<and> (\<exists>lk. w_link w1 l' = Some lk \<and> l_name lk = Some name' \<and> l_write lk = wr')"
    if mem: "(l', name', wr') \<in> set ls" for l' name' wr'
  proof -
    obtain lk' where o: "l' \<in> live (w_ker w)" "w_link w l' = Some lk'" "l_name lk' = Some name'" "l_write lk' = wr'"
      using ls mem unfolding links_made_def by fast
    then have "l' \<noteq> l" using n(1) by metis
    then show ?thesis using o n(2,5) k by (intro conjI exI [of _ lk']) auto
  qed
  have sub: "subseq (map sn_link (w_store w)) (map fst ls)" and dist: "distinct (map fst ls)" using ls unfolding links_made_def by blast+
  have "l \<notin> fst ` set ls"
  proof
    assume "l \<in> fst ` set ls"
    then obtain name' wr' where "(l, name', wr') \<in> set ls" by auto
    from old [OF this] show False by simp
  qed
  moreover have "subseq (map sn_link (w_store w2)) (map fst ls @ [l])"
    using list_emb_append_mono [OF sub, of "[]" "[l]"] list_emb_append_mono [OF sub, of "[l]" "[l]"] n(4) w2 by simp
  moreover have "l \<in> live (w_ker w2) \<and> (\<exists>lk. w_link w2 l = Some lk \<and> l_name lk = Some name \<and> l_write lk = wr)"
    by (intro conjI exI [of _ lk]) (use n(2,5-7) k w2 in auto)
  moreover have "\<forall>(l', name', wr') \<in> set ls. l' \<in> live (w_ker w2) \<and> (\<exists>lk. w_link w2 l' = Some lk \<and> l_name lk = Some name' \<and> l_write lk = wr')"
    by (rule ballI) (clarsimp simp: w2, drule old, simp)
  ultimately have "links_made live (ls @ [(l, name, wr)]) w2"
    unfolding links_made_def set_append ball_Un using dist by simp
  then show ?thesis using n(3) w2 by (simp add: apart_from_links_def)
qed


subsection \<open>Start-up\<close>

text \<open>What the boot tests may change: nothing that start-up has made.\<close>

definition test_keeps :: "('k \<Rightarrow> ptr set) \<Rightarrow> 'k test \<Rightarrow> bool" where
  "test_keeps live t \<longleftrightarrow> (\<forall>w rc w'. t w = Inr (rc, w') \<longrightarrow>
     (hc_running (w_handler w) \<longrightarrow> w_handler w' = w_handler w) \<and> w_store w' = w_store w \<and> w_devs w' = w_devs w \<and>
     live (w_ker w) \<subseteq> live (w_ker w') \<and> (\<forall>p \<in> live (w_ker w). w_link w' p = w_link w p))"

definition tests_keep :: "('k \<Rightarrow> ptr set) \<Rightarrow> 'k tests \<Rightarrow> bool" where
  "tests_keep live ts \<longleftrightarrow> list_all (test_keeps live) [test_command ts, test_lsio_sram ts, test_lsio_sram_dma ts,
     test_mbox_lsio_loopback ts, test_cpu_rti_timers ts, test_rtps_mmu ts True, test_rtps_mmu ts False, test_shmem ts,
     test_command_server ts, test_link_shmem ts, test_link_mbox_trch ts, test_link_shmem_trch ts]"

text \<open>Command handler up, links made, devices \<open>d\<close> in place.\<close>

definition booted :: "('k \<Rightarrow> ptr set) \<Rightarrow> devices \<Rightarrow> bool \<Rightarrow> link_made list \<Rightarrow> 'k world \<Rightarrow> bool" where
  "booted live d handler ls w \<longleftrightarrow> links_made live ls w \<and> w_devs w = d \<and>
     (handler \<longrightarrow> hc_running (w_handler w) \<and> hc_cb (w_handler w) = Some Server_process \<and> hc_timeout_ticks (w_handler w) = CMD_TIMEOUT_TICKS)"

lemma run_test_booted:
  assumes t: "test_keeps live t" and r: "run_test t w = Inr w'" and b: "booted live d h ls w"
  shows "booted live d h ls w'"
proof -
  obtain rc where "t w = Inr (rc, w')" using r by (auto simp: run_test_def res_iff split: if_splits)
  with t [unfolded test_keeps_def, rule_format, OF this] b show ?thesis
    unfolding booted_def using links_made_keeps [of live ls w w'] by auto
qed

lemma when_test_booted:
  assumes "test_keeps live t" and "when_set f (run_test t) w = Inr w'" and "booted live d h ls w"
  shows "booted live d h ls w'"
  using assms run_test_booted [OF assms(1) _ assms(3)] by (auto simp: when_set_def split: if_splits)

lemma phase_booted:
  assumes ts: "tests_keep live ts" and b: "booted live d h ls w"
  shows "standalone_tests c ts w = Inr w' \<Longrightarrow> booted live d h ls w'"
    and "runtime_tests c ts w = Inr w' \<Longrightarrow> booted live d h ls w'"
    and "external_tests c ts w = Inr w' \<Longrightarrow> booted live d h ls w'"
proof -
  have k: "test_keeps live (test_command ts)" "test_keeps live (test_lsio_sram ts)" "test_keeps live (test_lsio_sram_dma ts)"
    "test_keeps live (test_mbox_lsio_loopback ts)" "test_keeps live (test_cpu_rti_timers ts)" "test_keeps live (test_rtps_mmu ts f)"
    "test_keeps live (test_shmem ts)" "test_keeps live (test_command_server ts)" "test_keeps live (test_link_shmem ts)"
    "test_keeps live (test_link_mbox_trch ts)" "test_keeps live (test_link_shmem_trch ts)" for f
    using ts by (cases f; simp add: tests_keep_def)+
  show "standalone_tests c ts w = Inr w' \<Longrightarrow> booted live d h ls w'"
    unfolding standalone_tests_def by (erule in_order_keeps [where P = "booted live d h ls", OF _ _ b]) (auto elim: when_test_booted [rotated] intro: k)
  show "runtime_tests c ts w = Inr w' \<Longrightarrow> booted live d h ls w'"
    unfolding runtime_tests_def by (erule in_order_keeps [where P = "booted live d h ls", OF _ _ b]) (auto elim: when_test_booted [rotated] intro: k)
  show "external_tests c ts w = Inr w' \<Longrightarrow> booted live d h ls w'"
    unfolding external_tests_def by (erule in_order_keeps [where P = "booted live d h ls", OF _ _ b]) (auto elim: when_test_booted [rotated] intro: k)
qed

lemma early_tasks_booted:
  assumes heap: "heap_laws (sys_K sys) live" and tl: "task_laws (sys_K sys) live"
    and r: "early_tasks sys w = Inr w'" and b: "booted live d h ls w"
  shows "booted live d True ls w'"
proof -
  obtain sc t k where m: "rt_task_create (sys_K sys) ''CMDH'' TASK_PRI_CMDH (w_ker w) = (sc, t, k)" by (metis prod_cases3)
  have run: "res_bind (cmd_handle_task_start sys t (Some Server_process) CMD_TIMEOUT_TICKS (w\<lparr>w_ker := k\<rparr>)) (\<lambda>(sc', w1).
          if sc' \<noteq> RTEMS_SUCCESSFUL then Inl Panic else Inr w1) = Inr w'"
    using r m by (simp add: early_tasks_def split: if_splits)
  then have st: "cmd_handle_task_start sys t (Some Server_process) CMD_TIMEOUT_TICKS (w\<lparr>w_ker := k\<rparr>) = Inr (RTEMS_SUCCESSFUL, w')"
    unfolding res_bind_Inr_iff by (auto split: if_splits)
  obtain sc' k' where s: "rt_task_start (sys_K sys) t Cmd_handle_task 1 k = (sc', k')" by fastforce
  have w': "w' = w\<lparr>w_handler := \<lparr>hc_tid = t, hc_cb = Some Server_process, hc_timeout_ticks = CMD_TIMEOUT_TICKS, hc_running = True\<rparr>, w_ker := k'\<rparr>"
    using st s by (auto simp: cmd_handle_task_start_def cmd_handler_set_def Let_def split: if_splits)
  have "links_made live ls w'"
    using b task_lawsD(1) [OF tl m] heap_laws_frame(4) [OF heap s] w' by (intro links_made_keeps [of live ls w w']) (auto simp: booted_def)
  then show ?thesis using b w' by (simp add: booted_def)
qed

lemma append_booted:
  assumes heap: "heap_laws (sys_K sys) live" and b: "booted live d h ls w"
    and new: "link_new live name wr l w w1" and a: "store_append sys l w1 = Inr w2"
  shows "booted live d h (ls @ [(l, name, wr)]) w2"
  using store_append_made [OF heap _ new a, of ls] b by (auto simp: booted_def apart_from_links_def)

lemma init_mbox_link_booted:
  assumes heap: "heap_laws (sys_K sys) live" and r: "init_mbox_link sys b i name f t srv cl w = Inr w'" and b: "booted live d h ls w"
  shows "\<exists>l. booted live d h (ls @ [(l, name, Link_mbox_write)]) w'"
proof -
  obtain m where m: "dev_get_mbox (dev_id_code i) (w_devs w) = Inr m" and r1: "res_bind (link_mbox_connect sys (link_raw b) name m f t srv cl w)
      (\<lambda>(l, w1). if l = NULL then Inl Panic else store_append sys l w1) = Inr w'"
    using r unfolding init_mbox_link_def res_bind_Inr_iff c_assert_Inr_iff by blast
  then obtain l w1 where c: "link_mbox_connect sys (link_raw b) name m f t srv cl w = Inr (l, w1)" and l: "l \<noteq> NULL" and a: "store_append sys l w1 = Inr w'"
    unfolding res_bind_Inr_iff by (auto split: if_splits)
  show ?thesis using append_booted [OF heap b link_mbox_connect_makes [OF heap c l] a] by blast
qed

lemma booted_ker: "booted live d h ls w \<Longrightarrow> live k = live (w_ker w) \<Longrightarrow> booted live d h ls (w\<lparr>w_ker := k\<rparr>)"
  using links_made_keeps [of live ls w "w\<lparr>w_ker := k\<rparr>"] by (simp add: booted_def)

lemma init_shmem_trch_client_booted:
  assumes heap: "heap_laws (sys_K sys) live" and tl: "task_laws (sys_K sys) live"
    and r: "init_shmem_trch_client sys b yield fuel w = Inr w'" and b: "booted live d h ls w"
  shows "\<exists>l. booted live d h (ls @ [(l, LINK_NAME__SHMEM__TRCH_CLIENT, Link_shmem_write)]) w'"
proof -
  obtain sc t1 k1 where m1: "rt_task_create (sys_K sys) ''TSCR'' TASK_PRI_SHMEM_POLL_TRCH (w_ker w) = (sc, t1, k1)" by (metis prod_cases3)
  obtain sc' t2 k2 where m2: "rt_task_create (sys_K sys) ''TSCA'' TASK_PRI_SHMEM_POLL_TRCH k1 = (sc', t2, k2)" by (metis prod_cases3)
  let ?c = "link_shmem_connect sys yield fuel (link_raw b) LINK_NAME__SHMEM__TRCH_CLIENT
             (of_nat RTPS_DDR_ADDR__SHM__RTPS_R52_LOCKSTEP_SSW__TRCH_SSW) (of_nat RTPS_DDR_ADDR__SHM__TRCH_SSW__RTPS_R52_LOCKSTEP_SSW)
             False SHMEM_POLL_TICKS t1 t2 (w\<lparr>w_ker := k2\<rparr>)"
  have "res_bind ?c (\<lambda>(l, w1). if l = NULL then Inl Panic else store_append sys l w1) = Inr w'"
    using r m1 m2 by (simp add: init_shmem_trch_client_def split: if_splits)
  then obtain l w1 where c: "?c = Inr (l, w1)" and l: "l \<noteq> NULL" and a: "store_append sys l w1 = Inr w'"
    unfolding res_bind_Inr_iff by (auto split: if_splits)
  have b2: "booted live d h ls (w\<lparr>w_ker := k2\<rparr>)" using booted_ker [OF b] task_lawsD(1) [OF tl m1] task_lawsD(1) [OF tl m2] by simp
  show ?thesis using append_booted [OF heap b2 link_shmem_connect_makes [OF heap c l] a] by blast
qed


text \<open>The links that a configuration asks for, by name and transport, in the order in which they are made.\<close>

definition configured_links :: "config \<Rightarrow> (string \<times> link_write_fn) list" where
  "configured_links c =
     (if CONFIG_LINK_MBOX_TRCH_CLIENT c then [(LINK_NAME__MBOX__TRCH_CLIENT, Link_mbox_write)] else []) @
     (if CONFIG_LINK_SHMEM_TRCH_CLIENT c then [(LINK_NAME__SHMEM__TRCH_CLIENT, Link_shmem_write)] else []) @
     (if CONFIG_LINK_MBOX_HPPS_SERVER c then [(LINK_NAME__MBOX__HPPS_SERVER, Link_mbox_write)] else [])"

lemma when_set_link_booted:
  assumes r: "when_set f g w = Inr w'" and b: "booted live d h ls w"
    and step: "g w = Inr w' \<Longrightarrow> \<exists>l. booted live d h (ls @ [(l, name, wr)]) w'"
  shows "\<exists>ls'. map snd ls' = (if f then [(name, wr)] else []) \<and> booted live d h (ls @ ls') w'"
proof (cases f)
  case True
  then obtain l where "booted live d h (ls @ [(l, name, wr)]) w'" using r step by (auto simp: when_set_def)
  then show ?thesis using True by (intro exI [of _ "[(l, name, wr)]"]) simp
next
  case False
  then show ?thesis using r b by (simp add: when_set_def)
qed

lemma init_links_booted:
  assumes heap: "heap_laws (sys_K sys) live" and tl: "task_laws (sys_K sys) live" and b: "booted live d h [] w"
    and cl: "init_client_links sys c b yield fuel w = Inr w1" and sl: "init_server_links sys c b w1 = Inr w2"
  shows "\<exists>ls. map snd ls = configured_links c \<and> booted live d h ls w2"
proof -
  obtain w0 where r1: "when_set (CONFIG_LINK_MBOX_TRCH_CLIENT c) (init_mbox_trch_client sys b) w = Inr w0"
    and r2: "when_set (CONFIG_LINK_SHMEM_TRCH_CLIENT c) (init_shmem_trch_client sys b yield fuel) w0 = Inr w1"
    using cl unfolding init_client_links_def res_bind_Inr_iff by blast
  obtain l1 where l1: "map snd l1 = (if CONFIG_LINK_MBOX_TRCH_CLIENT c then [(LINK_NAME__MBOX__TRCH_CLIENT, Link_mbox_write)] else [])"
      "booted live d h ([] @ l1) w0"
    using when_set_link_booted [OF r1 b init_mbox_link_booted [OF heap _ b]] unfolding init_mbox_trch_client_def by blast
  obtain l2 where l2: "map snd l2 = (if CONFIG_LINK_SHMEM_TRCH_CLIENT c then [(LINK_NAME__SHMEM__TRCH_CLIENT, Link_shmem_write)] else [])"
      "booted live d h (([] @ l1) @ l2) w1"
    using when_set_link_booted [OF r2 l1(2) init_shmem_trch_client_booted [OF heap tl _ l1(2)]] by blast
  obtain l3 where l3: "map snd l3 = (if CONFIG_LINK_MBOX_HPPS_SERVER c then [(LINK_NAME__MBOX__HPPS_SERVER, Link_mbox_write)] else [])"
      "booted live d h ((([] @ l1) @ l2) @ l3) w2"
    using when_set_link_booted [OF sl [unfolded init_server_links_def] l2(2) init_mbox_link_booted [OF heap _ l2(2)]]
    unfolding init_mbox_hpps_server_def by blast
  show ?thesis using l1(1) l2(1) l3 by (intro exI [of _ "l1 @ l2 @ l3"]) (simp add: configured_links_def)
qed

lemma same_but_watchdogs_booted:
  assumes "same_but_watchdogs live w w'" and "booted live d h ls w"
  shows "booted live d h ls w'"
  using assms links_made_keeps [of live ls w w'] unfolding same_but_watchdogs_def booted_def by auto

subsection \<open>Properties\<close>


text \<open>A node with the links to the application processors and, over shared memory, to the control processor.\<close>

definition demo_links_config :: config where
  "demo_links_config = demo_config\<lparr>CONFIG_LINK_MBOX_TRCH_CLIENT := False, CONFIG_WDT := False\<rparr>"

definition demo_tests :: "demo_kernel tests" where
  "demo_tests = (let t = (\<lambda>w. Inr (0, w)) in \<lparr>test_command = t, test_lsio_sram = t, test_lsio_sram_dma = t, test_mbox_lsio_loopback = t,
     test_cpu_rti_timers = t, test_rtps_mmu = (\<lambda>_. t), test_shmem = t, test_command_server = t, test_link_shmem = t,
     test_link_mbox_trch = t, test_link_shmem_trch = t\<rparr>)"

definition demo_boot_world :: "demo_kernel world" where
  "demo_boot_world = demo_bare_world\<lparr>w_devs := devices_init\<lparr>devs_mbox := (\<lambda>_. NULL)(2 := 0x100)\<rparr>\<rparr>"

lemma demo_task_laws: "task_laws demo_rtems (\<lambda>k. set (dk_live k))"
  by (auto simp: task_laws_def demo_rtems_def Let_def)

lemma demo_tests_keep: "tests_keep live demo_tests"
  by (simp add: tests_keep_def test_keeps_def demo_tests_def Let_def)

lemma demo_tests_pass: "standalone_tests c demo_tests w = Inr w" "runtime_tests c demo_tests w = Inr w" "external_tests c demo_tests w = Inr w"
  by (simp_all add: standalone_tests_def runtime_tests_def external_tests_def when_set_def run_test_def demo_tests_def Let_def)


lemma demo_hpps_link:
  assumes m: "w_mbox w 0x100 = Some (st_mbox demo_mbox)" "w_mreg w = (\<lambda>_. demo_regs)" and k: "\<not> dk_in_isr (w_ker w)"
    "dk_next (w_ker w) = 0x1700" "dk_live (w_ker w) = [0x1600, 0x1500, 0x1400, 0x1300, 0x1200, 0x1100, 0x1000]"
  shows "\<exists>w'. link_mbox_connect demo_sys raw name 0x100 0 1 0x2d 0x80 w = Inr (0x1700, w') \<and> w_store w' = w_store w \<and>
       dk_next (w_ker w') = 0x1900 \<and> dk_live (w_ker w') = [0x1800, 0x1700, 0x1600, 0x1500, 0x1400, 0x1300, 0x1200, 0x1100, 0x1000]"
    using m k
    by (simp add: link_mbox_connect_def w_malloc_def Let_def demo_rtems_def
        claim_chan_def mbox_run_def claim_free demo_mbox_chan demo_chan_def claim_status_def demo_hw_def demo_regs_def chan_addr_inj)

lemma demo_shmem_link:
  assumes "dk_tasks (w_ker w) = [2, 1, 2, 3, 4, 5, 6]" "dk_next (w_ker w) = 0x1000" "dk_live (w_ker w) = []" "w_store w = []"
  shows "\<exists>w2. init_shmem_trch_client demo_sys demo_board Inr 0 w = Inr w2 \<and> map sn_link (w_store w2) = [0x1000] \<and>
      w_devs w2 = w_devs w \<and> dk_next (w_ker w2) = 0x1700 \<and> dk_live (w_ker w2) = [0x1600, 0x1500, 0x1400, 0x1300, 0x1200, 0x1100, 0x1000] \<and>
      w_mbox w2 = w_mbox w \<and> w_mreg w2 = w_mreg w \<and> dk_in_isr (w_ker w2) = dk_in_isr (w_ker w)"
  using assms
    by (simp add: init_shmem_trch_client_def link_shmem_connect_def link_shmem_init_def w_malloc_def Let_def demo_rtems_def
        open_shm_def shmem_open_def shmem_poll_task_start_def IS_ALIGNED_def store_append_def link_store_append_def
        mem_map_defs SHMEM_POLL_TICKS_def)



end
