(* ===== verification/Rti_Timer_Test.thy ===== *)
theory Rti_Timer_Test
  imports Rti_Timer
begin

text \<open>
  The self-test of the RTI timer driver (\<open>lib/drivers-selftest/hpsc-rti-timer-test.c\<close>).  While the test
  sleeps or waits, the timer runs and its interrupts call \<open>handle_event\<close>: what happens then is an argument of
  the model.  Output on the console is left out.
\<close>

subsection \<open>Model\<close>

datatype hpsc_rti_timer_test_rc =
    HPSC_RTI_TIMER_TEST_SUCCESS | HPSC_RTI_TIMER_TEST_PROBE | HPSC_RTI_TIMER_TEST_REMOVE | HPSC_RTI_TIMER_TEST_SUBSCRIBE
  | HPSC_RTI_TIMER_TEST_UNSUBSCRIBE | HPSC_RTI_TIMER_TEST_START | HPSC_RTI_TIMER_TEST_STOP | HPSC_RTI_TIMER_TEST_NO_ADVANCE
  | HPSC_RTI_TIMER_TEST_UNEXPECTED_EVENT_COUNT

definition TEST_ADVANCE_TICKS :: rtems_interval where "TEST_ADVANCE_TICKS = 1"
definition TEST_EVENTS_NUM :: u32 where "TEST_EVENTS_NUM = 10"
definition TEST_EVENTS_NUM_SKEW :: u32 where "TEST_EVENTS_NUM_SKEW = 1"
definition TEST_EVENTS_INTERVAL_NS :: nat where "TEST_EVENTS_INTERVAL_NS = 100000000"
definition TEST_EVENTS_INTERVAL_US :: nat where "TEST_EVENTS_INTERVAL_US = TEST_EVENTS_INTERVAL_NS div 1000"
definition TEST_EVENT_INTR :: rtems_event_set where "TEST_EVENT_INTR = RTEMS_EVENT_0"

record rtit_test_ctx =
  tc_tmr :: ptr
  tc_events :: u32
  tc_tid :: rtems_id

text \<open>The test's context, the timer object, its registers and the kernel; \<open>rtit_ctx_addr\<close> is the address of the context.\<close>

record ('d, 'k) rtit_test =
  rt_ctx :: rtit_test_ctx
  rt_tmr :: hpsc_rti_timer
  rt_dev :: 'd
  rt_ker :: 'k

definition rtit_ctx_addr :: ptr where "rtit_ctx_addr = 0x10"

definition handle_event :: "'k rtems \<Rightarrow> ('d, 'k) rtit_test \<Rightarrow> ('d, 'k) rtit_test" where
  "handle_event K s =
     (let n = tc_events (rt_ctx s) + 1;
          s1 = s\<lparr>rt_ctx := (rt_ctx s)\<lparr>tc_events := n\<rparr>\<rparr> in
      if n = TEST_EVENTS_NUM then s1\<lparr>rt_ker := snd (rt_event_send K (tc_tid (rt_ctx s)) TEST_EVENT_INTR (rt_ker s))\<rparr> else s1)"

definition do_test_advance ::
  "'d rtit_hw \<Rightarrow> (rtems_interval \<Rightarrow> ('d, 'k) rtit_test \<Rightarrow> ('d, 'k) rtit_test) \<Rightarrow> ('d, 'k) rtit_test \<Rightarrow>
   (hpsc_rti_timer_test_rc \<times> ('d, 'k) rtit_test) res" where
  "do_test_advance hw wake s =
     res_bind (hpsc_rti_timer_capture hw (tc_tmr (rt_ctx s)) (rt_dev s)) (\<lambda>(count, d).
       let s1 = wake TEST_ADVANCE_TICKS (s\<lparr>rt_dev := d\<rparr>) in
       res_bind (hpsc_rti_timer_capture hw (tc_tmr (rt_ctx s1)) (rt_dev s1)) (\<lambda>(count2, d').
         Inr (if count2 \<le> count then HPSC_RTI_TIMER_TEST_NO_ADVANCE else HPSC_RTI_TIMER_TEST_SUCCESS, s1\<lparr>rt_dev := d'\<rparr>)))"

definition do_test_events ::
  "'k rtems \<Rightarrow> 'd rtit_hw \<Rightarrow> (rtems_interval \<Rightarrow> ('d, 'k) rtit_test \<Rightarrow> ('d, 'k) rtit_test) \<Rightarrow> ('d, 'k) rtit_test \<Rightarrow>
   (hpsc_rti_timer_test_rc \<times> ('d, 'k) rtit_test) res" where
  "do_test_events K hw wait s =
     (let ticks = rt_us_to_ticks K (unat TEST_EVENTS_NUM * TEST_EVENTS_INTERVAL_US);
          s1 = s\<lparr>rt_ctx := (rt_ctx s)\<lparr>tc_events := 0\<rparr>\<rparr> in
      res_bind (hpsc_rti_timer_configure hw (tc_tmr (rt_ctx s1)) (of_nat TEST_EVENTS_INTERVAL_NS) (rt_dev s1)) (\<lambda>d.
        let s2 = wait (ticks + rt_us_to_ticks K (TEST_EVENTS_INTERVAL_US div 2)) (s1\<lparr>rt_dev := d\<rparr>);
            s3 = s2\<lparr>rt_ker := snd (rt_event_take_all K TEST_EVENT_INTR (rt_ker s2))\<rparr>;
            n = tc_events (rt_ctx s3) in
        Inr (if n < TEST_EVENTS_NUM - TEST_EVENTS_NUM_SKEW \<or> n > TEST_EVENTS_NUM + TEST_EVENTS_NUM_SKEW
             then HPSC_RTI_TIMER_TEST_UNEXPECTED_EVENT_COUNT else HPSC_RTI_TIMER_TEST_SUCCESS, s3)))"

definition hpsc_rti_timer_test_device ::
  "'k rtems \<Rightarrow> 'd rtit_hw \<Rightarrow> (rtems_interval \<Rightarrow> ('d, 'k) rtit_test \<Rightarrow> ('d, 'k) rtit_test) \<Rightarrow>
   (rtems_interval \<Rightarrow> ('d, 'k) rtit_test \<Rightarrow> ('d, 'k) rtit_test) \<Rightarrow> ptr \<Rightarrow> u64 \<Rightarrow> hpsc_rti_timer \<Rightarrow> 'd \<Rightarrow> 'k \<Rightarrow>
   (hpsc_rti_timer_test_rc \<times> ('d, 'k) rtit_test) res" where
  "hpsc_rti_timer_test_device K hw wake wait p reset t d k =
     (let ctx = \<lparr>tc_tmr = p, tc_events = 0, tc_tid = rt_task_self K k\<rparr> in
      c_assert (p \<noteq> NULL)
       (res_bind (hpsc_rti_timer_start K p Rtit_test_handle_event rtit_ctx_addr t k) (\<lambda>(sc, t1, k1).
          let s = \<lparr>rt_ctx = ctx, rt_tmr = t1, rt_dev = d, rt_ker = k1\<rparr> in
          if sc \<noteq> RTEMS_SUCCESSFUL then Inr (HPSC_RTI_TIMER_TEST_START, s)
          else
            res_bind (do_test_advance hw wake s) (\<lambda>(rc, s1).
            res_bind (if rc = HPSC_RTI_TIMER_TEST_SUCCESS then do_test_events K hw wait s1 else Inr (rc, s1)) (\<lambda>(rc', s2).
            res_bind (hpsc_rti_timer_configure hw p reset (rt_dev s2)) (\<lambda>d2.
            res_bind (hpsc_rti_timer_stop K p Rtit_test_handle_event rtit_ctx_addr (rt_tmr s2) (rt_ker s2)) (\<lambda>(sc', t2, k2).
              Inr (if sc' \<noteq> RTEMS_SUCCESSFUL then HPSC_RTI_TIMER_TEST_STOP else rc',
                s2\<lparr>rt_tmr := t2, rt_dev := d2, rt_ker := k2\<rparr>))))))))"

text \<open>\<open>NULL\<close> for the timer object stands for an object that is freed.\<close>

definition hpsc_rti_timer_test ::
  "'k rtems \<Rightarrow> 'd rtit_hw \<Rightarrow> (rtems_interval \<Rightarrow> ('d, 'k) rtit_test \<Rightarrow> ('d, 'k) rtit_test) \<Rightarrow>
   (rtems_interval \<Rightarrow> ('d, 'k) rtit_test \<Rightarrow> ('d, 'k) rtit_test) \<Rightarrow> ptr \<Rightarrow> rtems_vector_number \<Rightarrow> u64 \<Rightarrow> 'd \<Rightarrow> 'k \<Rightarrow>
   (hpsc_rti_timer_test_rc \<times> hpsc_rti_timer option \<times> 'd \<times> 'k) res" where
  "hpsc_rti_timer_test K hw wake wait base vec reset d k =
     (case hpsc_rti_timer_probe K ''RTI TMR'' base vec k of (sc, p, t, k1) \<Rightarrow>
        if sc \<noteq> RTEMS_SUCCESSFUL then Inr (HPSC_RTI_TIMER_TEST_PROBE, None, d, k1)
        else c_deref t (\<lambda>t.
          res_bind (hpsc_rti_timer_test_device K hw wake wait p reset t d k1) (\<lambda>(rc, s).
          res_bind (hpsc_rti_timer_remove K p (rt_tmr s) (rt_ker s)) (\<lambda>(sc', t', k2).
            Inr (if sc' \<noteq> RTEMS_SUCCESSFUL then HPSC_RTI_TIMER_TEST_REMOVE else rc, t', rt_dev s, k2)))))"

subsection \<open>The interrupts during the test\<close>

text \<open>While the caller sleeps or waits, the timer changes from \<open>d\<close> to \<open>adv d\<close> and interrupts \<open>n\<close> times.\<close>

definition timer_runs :: "'k rtems \<Rightarrow> ('d \<Rightarrow> 'd) \<Rightarrow> nat \<Rightarrow> rtems_interval \<Rightarrow> ('d, 'k) rtit_test \<Rightarrow> ('d, 'k) rtit_test" where
  "timer_runs K adv n ticks s = (handle_event K ^^ n) (s\<lparr>rt_dev := adv (rt_dev s)\<rparr>)"

text \<open>Events neither install nor remove handlers, nor free memory.\<close>

definition event_frame_laws ::
  "'k rtems \<Rightarrow> ('k \<Rightarrow> ptr set) \<Rightarrow> ('k \<Rightarrow> (rtems_vector_number \<times> handler \<times> ptr) set) \<Rightarrow> bool" where
  "event_frame_laws K live irqs \<longleftrightarrow>
     (\<forall>t e k. live (snd (rt_event_send K t e k)) = live k \<and> irqs (snd (rt_event_send K t e k)) = irqs k) \<and>
     (\<forall>m k. live (snd (rt_event_take_all K m k)) = live k \<and> irqs (snd (rt_event_take_all K m k)) = irqs k)"

lemma timer_runs_frame:
  assumes ev: "event_frame_laws K live irqs"
  shows "rt_dev (timer_runs K adv n ticks s) = adv (rt_dev s)" and "rt_tmr (timer_runs K adv n ticks s) = rt_tmr s"
    and "tc_tmr (rt_ctx (timer_runs K adv n ticks s)) = tc_tmr (rt_ctx s)"
    and "irqs (rt_ker (timer_runs K adv n ticks s)) = irqs (rt_ker s)" and "live (rt_ker (timer_runs K adv n ticks s)) = live (rt_ker s)"
    and "tc_events (rt_ctx (timer_runs K adv n ticks s)) = tc_events (rt_ctx s) + of_nat n"
  using ev unfolding timer_runs_def
  by (induction n) (simp_all add: handle_event_def Let_def event_frame_laws_def algebra_simps)

text \<open>The handler notifies the waiting task exactly when it counts the tenth event.\<close>

lemma events_in_range:
  assumes "n < 2 ^ 32"
  shows "(of_nat n < TEST_EVENTS_NUM - TEST_EVENTS_NUM_SKEW \<or> of_nat n > TEST_EVENTS_NUM + TEST_EVENTS_NUM_SKEW) \<longleftrightarrow> n < 9 \<or> 11 < n"
proof -
  have "unat (of_nat n :: u32) = n" using assms by (simp add: unat_of_nat)
  then show ?thesis by (simp add: word_less_nat_alt TEST_EVENTS_NUM_def TEST_EVENTS_NUM_SKEW_def)
qed

text \<open>The result of the test on a timer whose handler could be installed.\<close>

definition rtit_verdict :: "u64 \<Rightarrow> u64 \<Rightarrow> nat \<Rightarrow> hpsc_rti_timer_test_rc" where
  "rtit_verdict before after n =
     (if after \<le> before then HPSC_RTI_TIMER_TEST_NO_ADVANCE
      else if n < 9 \<or> 11 < n then HPSC_RTI_TIMER_TEST_UNEXPECTED_EVENT_COUNT else HPSC_RTI_TIMER_TEST_SUCCESS)"

lemma test_device_outcome:
  assumes hw: "rtit_hw_laws hw armed reg counter period" and irq: "irq_laws K irqs" and heap: "heap_laws K live"
    and ev: "event_frame_laws K live irqs" and p: "p \<noteq> NULL" and idle: "\<not> is_started t" and n: "n < 2 ^ 32"
    and i: "rt_int_install K (rtit_vec t) Rtit_test_handle_event rtit_ctx_addr k = (sc, k1)"
  shows "\<exists>rc s. hpsc_rti_timer_test_device K hw (timer_runs K adv1 m) (timer_runs K adv2 n) p reset t d k = Inr (rc, s) \<and>
    rt_tmr s = t \<and> irqs (rt_ker s) = irqs k \<and> live (rt_ker s) = live k \<and>
    (if sc = RTEMS_SUCCESSFUL
     then period (rt_dev s) = reset \<and> rc = rtit_verdict (counter d) (counter (adv1 (exec_cmd hw CMD_CAPTURE d))) n
     else rt_dev s = d \<and> rc = HPSC_RTI_TIMER_TEST_START)"
proof (cases "sc = RTEMS_SUCCESSFUL")
  case False
  then show ?thesis
    using i p irq_laws_install [OF irq i] heap_laws_frame(2) [OF heap i]
    by (simp add: hpsc_rti_timer_test_device_def hpsc_rti_timer_start_def Let_def)
next
  case True
  have cap: "hpsc_rti_timer_capture hw p x = Inr (counter x, exec_cmd hw CMD_CAPTURE x)" for x
    using hw p by (simp add: rtit_hw_laws_def hpsc_rti_timer_capture_def exec_cmd_def Let_def)
  have conf: "hpsc_rti_timer_configure hw p v x = Inr (exec_cmd hw CMD_LOAD (hw_set_interval hw v x))"
    "period (exec_cmd hw CMD_LOAD (hw_set_interval hw v x)) = v" for v x
    using hw p by (simp_all add: rtit_hw_laws_def hpsc_rti_timer_configure_def exec_cmd_def)
  let ?s = "\<lparr>rt_ctx = \<lparr>tc_tmr = p, tc_events = 0, tc_tid = rt_task_self K k\<rparr>, rt_tmr = t\<lparr>is_started := True\<rparr>, rt_dev = d, rt_ker = k1\<rparr>"
  let ?c = "exec_cmd hw CMD_CAPTURE d"
  let ?s1 = "timer_runs K adv1 m TEST_ADVANCE_TICKS (?s\<lparr>rt_dev := ?c\<rparr>)"
  let ?s1' = "?s1\<lparr>rt_dev := exec_cmd hw CMD_CAPTURE (rt_dev ?s1)\<rparr>"
  note fr = timer_runs_frame [OF ev]
  have adv: "do_test_advance hw (timer_runs K adv1 m) ?s =
      Inr (if counter (adv1 ?c) \<le> counter d then HPSC_RTI_TIMER_TEST_NO_ADVANCE else HPSC_RTI_TIMER_TEST_SUCCESS, ?s1')"
    by (simp add: do_test_advance_def cap fr Let_def)
  have evs: "\<exists>s2. do_test_events K hw (timer_runs K adv2 n) ?s1' =
      Inr (if n < 9 \<or> 11 < n then HPSC_RTI_TIMER_TEST_UNEXPECTED_EVENT_COUNT else HPSC_RTI_TIMER_TEST_SUCCESS, s2) \<and>
      rt_tmr s2 = rt_tmr ?s \<and> irqs (rt_ker s2) = irqs k1 \<and> live (rt_ker s2) = live k1"
    using ev by (simp add: do_test_events_def conf fr Let_def events_in_range [OF n] event_frame_laws_def)
  have "\<exists>s2. (if counter (adv1 ?c) \<le> counter d then Inr (HPSC_RTI_TIMER_TEST_NO_ADVANCE, ?s1')
      else do_test_events K hw (timer_runs K adv2 n) ?s1') = Inr (rtit_verdict (counter d) (counter (adv1 ?c)) n, s2) \<and>
      rt_tmr s2 = rt_tmr ?s \<and> irqs (rt_ker s2) = irqs k1 \<and> live (rt_ker s2) = live k1"
  proof (cases "counter (adv1 ?c) \<le> counter d")
    case True
    then show ?thesis by (intro exI [of _ ?s1']) (simp add: fr rtit_verdict_def)
  next
    case False
    then show ?thesis using evs by (simp add: rtit_verdict_def)
  qed
  then obtain s2 where s2: "(if counter (adv1 ?c) \<le> counter d then Inr (HPSC_RTI_TIMER_TEST_NO_ADVANCE, ?s1')
      else do_test_events K hw (timer_runs K adv2 n) ?s1') = Inr (rtit_verdict (counter d) (counter (adv1 ?c)) n, s2)"
      "rt_tmr s2 = rt_tmr ?s" "irqs (rt_ker s2) = irqs k1" "live (rt_ker s2) = live k1" by blast
  obtain sc' k2 where r: "rt_int_remove K (rtit_vec t) Rtit_test_handle_event rtit_ctx_addr (rt_ker s2) = (sc', k2)" by fastforce
  have k1: "irqs k1 = insert (rtit_vec t, Rtit_test_handle_event, rtit_ctx_addr) (irqs k)" "\<And>h a. (rtit_vec t, h, a) \<notin> irqs k"
    using irq_laws_install [OF irq i] True by simp_all
  then have rem: "sc' = RTEMS_SUCCESSFUL" "irqs k2 = irqs k" "live k2 = live k"
    using irq_laws_remove [OF irq r] s2(3,4) heap_laws_frame(2) [OF heap i] heap_laws_frame(3) [OF heap r] by simp_all
  have "t\<lparr>is_started := True, is_started := False\<rparr> = t" using idle by (cases t) simp
  then have "hpsc_rti_timer_test_device K hw (timer_runs K adv1 m) (timer_runs K adv2 n) p reset t d k =
    Inr (rtit_verdict (counter d) (counter (adv1 ?c)) n,
      s2\<lparr>rt_tmr := t, rt_dev := exec_cmd hw CMD_LOAD (hw_set_interval hw reset (rt_dev s2)), rt_ker := k2\<rparr>)"
    using i p True adv s2(1,2) r rem(1)
    by (cases "counter (adv1 ?c) \<le> counter d")
      (simp_all add: hpsc_rti_timer_test_device_def hpsc_rti_timer_start_def hpsc_rti_timer_stop_def conf Let_def)
  then show ?thesis using True rem conf(2) by simp
qed

subsection \<open>Properties\<close>

text \<open>C35. The self-test of the timer driver always returns and leaves no handler and no memory behind,
  whatever its result. It reports success exactly if the counter advanced during the sleep and nine to
  eleven events were counted; a counter that stood still is reported before a wrong number of events,
  and a timer that could be started is left with the requested reset interval.\<close>

theorem rti_timer_test_outcome:
  assumes hw: "rtit_hw_laws hw armed reg counter period" and irq: "irq_laws K irqs" and heap: "heap_laws K live"
    and ev: "event_frame_laws K live irqs" and n: "n < 2 ^ 32"
  shows "\<exists>rc d' k'. hpsc_rti_timer_test K hw (timer_runs K adv1 m) (timer_runs K adv2 n) base vec reset d k = Inr (rc, None, d', k') \<and>
    irqs k' = irqs k \<and> live k' = live k \<and>
    (case rt_malloc K k of (p, k1) \<Rightarrow>
       if p = NULL then rc = HPSC_RTI_TIMER_TEST_PROBE \<and> d' = d
       else if fst (rt_int_install K vec Rtit_test_handle_event rtit_ctx_addr k1) \<noteq> RTEMS_SUCCESSFUL
       then rc = HPSC_RTI_TIMER_TEST_START \<and> d' = d
       else period d' = reset \<and> rc = rtit_verdict (counter d) (counter (adv1 (exec_cmd hw CMD_CAPTURE d))) n)"
proof -
  obtain p k1 where m: "rt_malloc K k = (p, k1)" by fastforce
  note hm = heap_laws_malloc [OF heap m] and im = irq_laws_heap(1) [OF irq m]
  show ?thesis
  proof (cases "p = NULL")
    case True
    then show ?thesis using m hm im by (simp add: hpsc_rti_timer_test_def hpsc_rti_timer_probe_def)
  next
    case False
    let ?t = "hpsc_rti_timer_init ''RTI TMR'' base vec"
    obtain sc k2 where i: "rt_int_install K (rtit_vec ?t) Rtit_test_handle_event rtit_ctx_addr k1 = (sc, k2)" by fastforce
    have idle: "\<not> is_started ?t" by (simp add: hpsc_rti_timer_init_def)
    from test_device_outcome [OF hw irq heap ev False idle n i, of adv1 m adv2 reset d]
    obtain rc s where s: "hpsc_rti_timer_test_device K hw (timer_runs K adv1 m) (timer_runs K adv2 n) p reset ?t d k1 = Inr (rc, s)"
      "rt_tmr s = ?t" "irqs (rt_ker s) = irqs k1" "live (rt_ker s) = live k1"
      "if sc = RTEMS_SUCCESSFUL then period (rt_dev s) = reset \<and> rc = rtit_verdict (counter d) (counter (adv1 (exec_cmd hw CMD_CAPTURE d))) n
       else rt_dev s = d \<and> rc = HPSC_RTI_TIMER_TEST_START" by blast
    then have "hpsc_rti_timer_test K hw (timer_runs K adv1 m) (timer_runs K adv2 n) base vec reset d k =
        Inr (rc, None, rt_dev s, rt_free K p (rt_ker s))"
      using m False idle by (simp add: hpsc_rti_timer_test_def hpsc_rti_timer_probe_def hpsc_rti_timer_remove_def)
    moreover have "live (rt_free K p (rt_ker s)) = live k" "irqs (rt_free K p (rt_ker s)) = irqs k"
      using hm im False s(3,4) heap_laws_frame(1) [OF heap] irq_laws_heap(2) [OF irq] by auto
    moreover have "fst (rt_int_install K vec Rtit_test_handle_event rtit_ctx_addr k1) = sc" using i by (simp add: hpsc_rti_timer_init_def)
    ultimately show ?thesis using s(5) m False by (cases "sc = RTEMS_SUCCESSFUL") simp_all
  qed
qed

lemma demo_event_frame: "event_frame_laws demo_rtems (\<lambda>k. set (dk_live k)) (\<lambda>k. set (dk_irqs k))"
  by (simp add: event_frame_laws_def rt_event_take_all_def demo_rtems_def)

text \<open>A timer that counts to 5 during the sleep; one event is lost, or three.\<close>

theorem rti_timer_test_outcome_witness:
  "(\<exists>d' k'. hpsc_rti_timer_test demo_rtems demo_rtit_hw (timer_runs demo_rtems (dr_counter_update (\<lambda>c. c + 5)) 0)
       (timer_runs demo_rtems (\<lambda>d. d) 9) 0x3000 26 1000 \<lparr>dr_interval = 0, dr_count = 0, dr_armed = 0, dr_counter = 7, dr_period = 9\<rparr> demo_k0 =
      Inr (HPSC_RTI_TIMER_TEST_SUCCESS, None, d', k') \<and> dr_period d' = 1000) \<and>
   (\<exists>d' k'. hpsc_rti_timer_test demo_rtems demo_rtit_hw (timer_runs demo_rtems (dr_counter_update (\<lambda>c. c + 5)) 0)
       (timer_runs demo_rtems (\<lambda>d. d) 7) 0x3000 26 1000 \<lparr>dr_interval = 0, dr_count = 0, dr_armed = 0, dr_counter = 7, dr_period = 9\<rparr> demo_k0 =
      Inr (HPSC_RTI_TIMER_TEST_UNEXPECTED_EVENT_COUNT, None, d', k') \<and> dr_period d' = 1000)"
proof -
  let ?d = "\<lparr>dr_interval = 0, dr_count = 0, dr_armed = 0, dr_counter = 7, dr_period = 9\<rparr>"
  have n: "(9 :: nat) < 2 ^ 32" "(7 :: nat) < 2 ^ 32" by simp_all
  have v: "rtit_verdict (dr_counter ?d) (dr_counter (dr_counter_update (\<lambda>c. c + 5) (exec_cmd demo_rtit_hw CMD_CAPTURE ?d))) 9 =
      HPSC_RTI_TIMER_TEST_SUCCESS"
    "rtit_verdict (dr_counter ?d) (dr_counter (dr_counter_update (\<lambda>c. c + 5) (exec_cmd demo_rtit_hw CMD_CAPTURE ?d))) 7 =
      HPSC_RTI_TIMER_TEST_UNEXPECTED_EVENT_COUNT"
    by (simp_all add: rtit_verdict_def exec_cmd_def demo_rtit_hw_def)
  have k: "rt_malloc demo_rtems demo_k0 = (0x1000, demo_k0\<lparr>dk_live := [0x1000], dk_next := 0x1100\<rparr>)"
    "fst (rt_int_install demo_rtems 26 Rtit_test_handle_event rtit_ctx_addr (demo_k0\<lparr>dk_live := [0x1000], dk_next := 0x1100\<rparr>)) = RTEMS_SUCCESSFUL"
    by (simp_all add: demo_rtems_def demo_k0_def)
  note r = rti_timer_test_outcome [OF demo_rtit_laws demo_irq_laws demo_heap_laws demo_event_frame, where k = demo_k0 and d = ?d
      and ?adv1.0 = "dr_counter_update (\<lambda>c. c + 5)" and ?adv2.0 = "\<lambda>d. d" and m = 0 and reset = 1000 and vec = 26 and base = "0x3000", unfolded k]
  show ?thesis using r [OF n(1)] r [OF n(2)] k(2) v by fastforce
qed

end
