(* ===== verification/Lib_Tests.thy ===== *)
theory Lib_Tests
  imports Link_Requests Boot
begin

text \<open>
  The tests of the library that run against the modelled code (\<open>lib/hpsc-test/link.c\<close>,
  \<open>lib/hpsc-test/shmem.c\<close>, \<open>rtps-r52/tests/link-external.c\<close>).  Their buffers are byte arrays on the stack
  without alignment; addresses and alignment of these are arguments.  Console output is left out.
\<close>

subsection \<open>Pinging over a link\<close>

text \<open>\<open>al\<close> says whether the array \<open>arg\<close> is word-aligned, \<open>rp\<close> is the address of \<open>reply\<close>, which exists during the call only.\<close>

definition hpsc_test_link_ping ::
  "'k sys \<Rightarrow> 'k env \<Rightarrow> 'k env \<Rightarrow> bool \<Rightarrow> ptr \<Rightarrow> ptr \<Rightarrow> rtems_interval \<Rightarrow> rtems_interval \<Rightarrow> rtems_event_set \<Rightarrow>
   'k world \<Rightarrow> (int \<times> 'k world) res" where
  "hpsc_test_link_ping sys env env' al rp l wticks rticks ev w =
     c_assert (l \<noteq> NULL)
      (res_bind (hpsc_msg_ping (Some (replicate HPSC_MSG_SIZE 0)) HPSC_MSG_SIZE (Some (bytes32 42)) 4) (\<lambda>arg.
       res_bind (link_request sys env env' l wticks (Some \<lparr>buf_aligned = al, buf_bytes = arg\<rparr>) HPSC_MSG_SIZE
           rticks rp HPSC_MSG_SIZE ev (w\<lparr>w_buf := (w_buf w)(rp \<mapsto> replicate HPSC_MSG_SIZE 0)\<rparr>)) (\<lambda>(sz, w').
       c_deref (w_buf w' rp) (\<lambda>reply.
         Inr (if sz \<le> 0 \<or> reply ! 0 \<noteq> msg_code PONG then 1 else 0, w'\<lparr>w_buf := (w_buf w')(rp := None)\<rparr>)))))"

definition WTIMEOUT_TICKS :: rtems_interval where "WTIMEOUT_TICKS = 5000"
definition RTIMEOUT_TICKS :: rtems_interval where "RTIMEOUT_TICKS = 5000"
definition LINK_EVENT_WAIT :: rtems_event_set where "LINK_EVENT_WAIT = RTEMS_EVENT_0"

text \<open>The tests of the links to the control processor; \<open>get_link\<close> is \<open>link_store_get\<close> on the node.\<close>

definition get_link :: "string \<Rightarrow> 'k world \<Rightarrow> ptr res" where
  "get_link name w = link_store_get (\<lambda>l. map_option l_name (w_link w l)) (Some name) (w_store w)"

definition test_link_mbox_trch :: "'k sys \<Rightarrow> 'k env \<Rightarrow> 'k env \<Rightarrow> bool \<Rightarrow> ptr \<Rightarrow> 'k world \<Rightarrow> (int \<times> 'k world) res" where
  "test_link_mbox_trch sys env env' al rp w = res_bind (get_link LINK_NAME__MBOX__TRCH_CLIENT w) (\<lambda>l.
     hpsc_test_link_ping sys env env' al rp l WTIMEOUT_TICKS RTIMEOUT_TICKS LINK_EVENT_WAIT w)"

definition test_link_shmem_trch :: "'k sys \<Rightarrow> 'k env \<Rightarrow> 'k env \<Rightarrow> bool \<Rightarrow> ptr \<Rightarrow> 'k world \<Rightarrow> (int \<times> 'k world) res" where
  "test_link_shmem_trch sys env env' al rp w = res_bind (get_link LINK_NAME__SHMEM__TRCH_CLIENT w) (\<lambda>l.
     hpsc_test_link_ping sys env env' al rp l WTIMEOUT_TICKS RTIMEOUT_TICKS LINK_EVENT_WAIT w)"

definition ping_msg :: "u8 list" where
  "ping_msg = overwrite 4 (bytes32 42) ((replicate 64 0)[0 := msg_code PING])"

lemma ping_msg_made: "hpsc_msg_ping (Some (replicate 64 0)) 64 (Some (bytes32 42)) 4 = Inr ping_msg" "length ping_msg = 64"
  by (simp_all add: hpsc_msg_ping_def msg_fill_def ping_msg_def HPSC_MSG_PAYLOAD_OFFSET_def HPSC_MSG_PAYLOAD_SIZE_def overwrite_def)

lemma link_up_buf: "link_up sys l (w\<lparr>w_buf := b\<rparr>) = link_up sys l w"
  by (simp add: link_up_def mlink_up_def slink_up_def)

text \<open>C37. The ping test over a link of either transport passes exactly if the message that answers it is
  a pong, and then the link names no requester. If no acknowledgement comes the test fails but the
  link still holds the address of the test's local reply buffer: a reply that arrives after the test
  has returned is undefined behaviour.\<close>

theorem link_ping_test_outcome:
  assumes ev: "event_laws (sys_K sys) pend" and t: "t = rt_task_self (sys_K sys) (w_ker w)" "task_live (sys_K sys) t"
    and up: "link_up sys l w" and l: "l \<noteq> NULL" and rp: "rp \<noteq> NULL" "IS_ALIGNED rp" and e: "e \<noteq> 0"
    and rem: "remote_writes (link_up sys) link_inbox l msg f" and len: "length msg = 64"
  shows "(\<exists>w' lk. hpsc_test_link_ping sys (\<lambda>_. link_ack_cb sys l) (\<lambda>_ w. link_recv_reply sys l (f w)) True rp l wticks rticks e w =
       Inr (if hd msg = msg_code PONG then 0 else 1, w') \<and> w_link w' l = Some lk \<and> tid_requester (l_rctx lk) = RTEMS_ID_NONE) \<and>
    (pend (w_ker w) t AND e = 0 \<longrightarrow>
      (\<exists>w'. hpsc_test_link_ping sys (\<lambda>_. Inr) env' True rp l wticks rticks e w = Inr (1, w') \<and> link_recv_reply sys l w' = Inl Undef))"
proof (intro conjI impI)
  let ?w = "w\<lparr>w_buf := (w_buf w)(rp \<mapsto> replicate 64 0)\<rparr>"
  let ?b = "\<lparr>buf_aligned = True, buf_bytes = ping_msg\<rparr>"
  have h: "t = rt_task_self (sys_K sys) (w_ker ?w)" "link_up sys l ?w" "buf_aligned ?b" "0 < (64 :: nat)" "(64 :: nat) \<le> 64" "(64 :: nat) mod 4 = 0"
    "64 \<le> length (buf_bytes ?b)" "w_buf ?w rp = Some (replicate 64 0)" "64 \<le> length (replicate 64 (0 :: u8))"
    using t up ping_msg_made by (simp_all add: link_up_buf)
  obtain w' lk where r: "link_request sys (\<lambda>_. link_ack_cb sys l) (\<lambda>_ w. link_recv_reply sys l (f w)) l wticks (Some ?b) 64 rticks rp 64 e ?w
      = Inr (64, w')" "w_buf w' rp = Some (msg @ drop 64 (replicate 64 0))" "w_link w' l = Some lk" "tid_requester (l_rctx lk) = RTEMS_ID_NONE"
    using any_link.request_answered [OF ev h(1) t(2) h(2-7) e rem rp h(8,9), of wticks rticks] by blast
  have "hd msg = msg ! 0" using len by (cases msg) simp_all
  then show "\<exists>w' lk. hpsc_test_link_ping sys (\<lambda>_. link_ack_cb sys l) (\<lambda>_ w. link_recv_reply sys l (f w)) True rp l wticks rticks e w =
       Inr (if hd msg = msg_code PONG then 0 else 1, w') \<and> w_link w' l = Some lk \<and> tid_requester (l_rctx lk) = RTEMS_ID_NONE"
    using r l len by (intro exI [of _ "w'\<lparr>w_buf := (w_buf w')(rp := None)\<rparr>"] exI [of _ lk])
      (simp add: hpsc_test_link_ping_def ping_msg_made nth_append)
  assume quiet: "pend (w_ker w) t AND e = 0"
  then have q: "pend (w_ker ?w) t AND e = 0" by simp
  obtain w' lk where r: "link_request sys (\<lambda>_. Inr) env' l wticks (Some ?b) 64 rticks rp 64 e ?w = Inr (-1, w')"
    "w_link w' l = Some lk" "reply (l_rctx lk) = rp" "w_buf w' rp = Some (replicate 64 0)"
    using any_link.request_timeout_keeps_requester [OF ev h(1) t(2) h(2-7) q rem rp h(8,9), of env' wticks rticks] by blast
  then show "\<exists>w'. hpsc_test_link_ping sys (\<lambda>_. Inr) env' True rp l wticks rticks e w = Inr (1, w') \<and> link_recv_reply sys l w' = Inl Undef"
    using l rp(1) by (intro exI [of _ "w'\<lparr>w_buf := (w_buf w')(rp := None)\<rparr>"])
      (simp add: hpsc_test_link_ping_def ping_msg_made link_recv_reply_def Let_def)
qed

text \<open>A remote end that answers with sevens, which is no pong.\<close>

theorem link_ping_test_outcome_witness:
  "(\<exists>w'. hpsc_test_link_ping demo_sys (\<lambda>_. link_ack_cb demo_sys 0x600) (\<lambda>_ w. link_recv_reply demo_sys 0x600 (demo_remote w))
      True 0x440 0x600 100 100 4 demo_world = Inr (1, w')) \<and>
   (\<exists>w'. hpsc_test_link_ping demo_sys (\<lambda>_. Inr) (\<lambda>_. Inr) True 0x440 0x600 100 100 4 demo_world = Inr (1, w') \<and>
      link_recv_reply demo_sys 0x600 w' = Inl Undef)"
proof -
  have "IS_ALIGNED 0x440" "(0x600 :: ptr) \<noteq> NULL" "(0x440 :: ptr) \<noteq> NULL" "length (replicate 64 (7 :: u8)) = 64" "hd (replicate 64 (7 :: u8)) \<noteq> msg_code PONG"
    by (simp_all add: IS_ALIGNED_def)
  then show ?thesis
    using link_ping_test_outcome [OF demo_request_hyps(1-3) demo_request_hyps(5) _ _ _ demo_request_hyps(11) demo_remote_writes,
        of "0x440" 100 100 "\<lambda>_. Inr"] demo_request_hyps(16) by auto
qed

subsection \<open>A shared memory region\<close>

definition test_message :: "u8 list" where
  "test_message = [0x54, 0x65, 0x73, 0x74, 0x20, 0x4d, 0x65, 0x73, 0x73, 0x61, 0x67, 0x65, 0]"

text \<open>\<open>sizeof(msg)\<close> is the size of a pointer.\<close>

definition sizeof_msg :: nat where "sizeof_msg = 4"

definition shmem_do_test :: "ptr \<Rightarrow> bool \<Rightarrow> bool \<Rightarrow> shm_st \<Rightarrow> (int \<times> shm_st) res" where
  "shmem_do_test s ma ba st =
     res_bind (shmem_get_status s st) (\<lambda>status.
     if status \<noteq> 0 then Inr (1, st) else
     res_bind (shmem_write s (Some \<lparr>buf_aligned = ma, buf_bytes = test_message\<rparr>) sizeof_msg st) (\<lambda>(sz, st1).
     if sz \<noteq> sizeof_msg then Inr (1, st1) else
     res_bind (shmem_set_new s True st1) (\<lambda>st2.
     res_bind (shmem_is_new s st2) (\<lambda>new.
     if \<not> new then Inr (1, st2) else
     res_bind (shmem_read s (Some \<lparr>buf_aligned = ba, buf_bytes = replicate HPSC_SHMEM_REGION_SZ 0\<rparr>) HPSC_SHMEM_REGION_SZ st2) (\<lambda>(sz, _).
     if sz \<noteq> HPSC_MSG_SIZE then Inr (1, st2) else
     res_bind (shmem_set_new s False st2) (\<lambda>st3.
     res_bind (shmem_is_new s st3) (\<lambda>new.
     if new then Inr (1, st3) else
     res_bind (shmem_set_ack s True st3) (\<lambda>st4.
     res_bind (shmem_is_ack s st4) (\<lambda>ack.
     if \<not> ack then Inr (1, st4) else
     res_bind (shmem_set_ack s False st4) (\<lambda>st5.
     res_bind (shmem_get_status s st5) (\<lambda>status.
     Inr (if status \<noteq> 0 then 1 else 0, st5))))))))))))"

text \<open>The region is a local array at \<open>addr\<close>.\<close>

definition hpsc_test_shmem :: "'k rtems \<Rightarrow> ptr \<Rightarrow> bool \<Rightarrow> bool \<Rightarrow> shm_st \<Rightarrow> 'k \<Rightarrow> (int \<times> shm_st \<times> 'k) res" where
  "hpsc_test_shmem K addr ma ba st k =
     res_bind (shmem_open K addr (upd_region addr (\<lambda>_. \<lparr>shm_data = replicate HPSC_MSG_SIZE 0, shm_status = 0\<rparr>) st) k) (\<lambda>(s, st1, k1).
       if s = NULL then Inr (1, st1, k1)
       else res_bind (shmem_do_test s ma ba st1) (\<lambda>(rc, st2).
         res_bind (shmem_close K s st2 k1) (\<lambda>(st3, k2). Inr (rc, st3, k2))))"

lemma shmem_do_test_passes:
  assumes s: "s \<noteq> NULL" "sh_obj st s = Some a" and r: "sh_mem st a = \<lparr>shm_data = replicate 64 0, shm_status = 0\<rparr>"
  shows "if ma \<and> ba then \<exists>st'. shmem_do_test s ma ba st = Inr (0, st') \<and> sh_obj st' = sh_obj st \<and>
      shm_status (sh_mem st' a) = 0 \<and> shm_data (sh_mem st' a) = take sizeof_msg test_message @ replicate (64 - sizeof_msg) 0
    else shmem_do_test s ma ba st = Inl Assert_Failed"
proof -
  have len: "sizeof_msg \<le> length test_message" "sizeof_msg \<le> 64" by (simp_all add: sizeof_msg_def test_message_def)
  have g: "shmem_get_status s st = Inr 0" using s r by (simp add: shmem_get_status_def)
  let ?st1 = "upd_region a (\<lambda>_. (sh_mem st a)\<lparr>shm_data := take sizeof_msg test_message @ replicate (64 - sizeof_msg) 0\<rparr>) st"
  have w: "ma \<Longrightarrow> shmem_write s (Some \<lparr>buf_aligned = ma, buf_bytes = test_message\<rparr>) sizeof_msg st = Inr (sizeof_msg, ?st1)"
    using shmem_write_eq [OF s, of "\<lparr>buf_aligned = ma, buf_bytes = test_message\<rparr>" sizeof_msg] r len by simp
  show ?thesis
  proof (cases "ma \<and> ba")
    case True
    then show ?thesis using s r w g len
      by (simp add: shmem_do_test_def shmem_set_new_def shmem_set_ack_def shmem_is_new_def shmem_is_ack_def shmem_get_status_def
        shmem_read_eq HPSC_SHMEM_REGION_SZ_def shmem_bits upd_region_def)
  next
    case False
    then show ?thesis using s r w g len
      by (cases ma) (simp_all add: shmem_do_test_def shmem_write_def shmem_set_new_def shmem_is_new_def shmem_read_def shmem_bits upd_region_def)
  qed
qed

theorem shmem_test_outcome:
  assumes heap: "heap_laws K live" and dom: "dom (sh_obj st) \<subseteq> live k"
  shows "if \<not> IS_ALIGNED addr then hpsc_test_shmem K addr ma ba st k = Inl Assert_Failed
    else if fst (rt_malloc K k) = NULL then \<exists>st' k'. hpsc_test_shmem K addr ma ba st k = Inr (1, st', k') \<and> live k' = live k
    else if ma \<and> ba then \<exists>st' k'. hpsc_test_shmem K addr ma ba st k = Inr (0, st', k') \<and> sh_obj st' = sh_obj st \<and> live k' = live k \<and>
      shm_data (sh_mem st' addr) = take sizeof_msg test_message @ replicate (64 - sizeof_msg) 0
    else hpsc_test_shmem K addr ma ba st k = Inl Assert_Failed"
proof -
  obtain p k1 where m: "rt_malloc K k = (p, k1)" by fastforce
  note h = heap_laws_malloc [OF heap m]
  let ?st = "upd_region addr (\<lambda>_. \<lparr>shm_data = replicate 64 0, shm_status = 0\<rparr>) st"
  let ?st1 = "?st\<lparr>sh_obj := (sh_obj st)(p \<mapsto> addr)\<rparr>"
  show ?thesis
  proof (cases "IS_ALIGNED addr \<and> p \<noteq> NULL")
    case True
    have fresh: "sh_obj st p = None" using dom h True by auto
    have free: "live (rt_free K p k1) = live k" using heap_laws_frame(1) [OF heap, of p k1] h True by auto
    have "sh_obj ?st1 p = Some addr" "sh_mem ?st1 addr = \<lparr>shm_data = replicate 64 0, shm_status = 0\<rparr>" by simp_all
    note t = shmem_do_test_passes [OF _ this, of ma ba]
    have run: "hpsc_test_shmem K addr ma ba st k = res_bind (shmem_do_test p ma ba ?st1) (\<lambda>(rc, st2).
        Inr (rc, st2\<lparr>sh_obj := (sh_obj st2)(p := None)\<rparr>, rt_free K p k1))"
      using m True by (simp add: hpsc_test_shmem_def shmem_open_def shmem_close_def)
    show ?thesis
    proof (cases "ma \<and> ba")
      case ok: True
      then obtain st' where "shmem_do_test p ma ba ?st1 = Inr (0, st')" "sh_obj st' = sh_obj ?st1"
        "shm_data (sh_mem st' addr) = take sizeof_msg test_message @ replicate (64 - sizeof_msg) 0" using t True by auto
      moreover have "(sh_obj st)(p := None) = sh_obj st" using fresh by auto
      ultimately show ?thesis using run ok True m free by simp
    next
      case False
      then have "hpsc_test_shmem K addr ma ba st k = Inl Assert_Failed" using run t True by simp
      then show ?thesis unfolding if_not_P [OF False] using True m by simp
    qed
  next
    case False
    then show ?thesis using m h by (auto simp: hpsc_test_shmem_def shmem_open_def)
  qed
qed

theorem shmem_test_outcome_witness:
  "(\<exists>st' k'. hpsc_test_shmem demo_rtems 0x40260000 True True (demo_shm\<lparr>sh_obj := Map.empty\<rparr>) demo_k0 = Inr (0, st', k') \<and>
      take 6 (shm_data (sh_mem st' 0x40260000)) = [0x54, 0x65, 0x73, 0x74, 0, 0]) \<and>
   hpsc_test_shmem demo_rtems 0x40260002 True True (demo_shm\<lparr>sh_obj := Map.empty\<rparr>) demo_k0 = Inl Assert_Failed"
proof -
  have a: "IS_ALIGNED 0x40260000" "\<not> IS_ALIGNED 0x40260002" "fst (rt_malloc demo_rtems demo_k0) \<noteq> NULL"
    "dom (sh_obj (demo_shm\<lparr>sh_obj := Map.empty\<rparr>)) \<subseteq> set (dk_live demo_k0)"
    by (simp_all add: IS_ALIGNED_def demo_rtems_def demo_k0_def)
  have "take 6 (take sizeof_msg test_message @ replicate (64 - sizeof_msg) (0 :: u8)) = [0x54, 0x65, 0x73, 0x74, 0, 0]"
    by (simp add: sizeof_msg_def test_message_def numeral_2_eq_2)
  then show ?thesis
    using shmem_test_outcome [OF demo_heap_laws a(4), of "0x40260000" True True] shmem_test_outcome [OF demo_heap_laws a(4), of "0x40260002" True True] a
    by auto
qed

end
