(* ===== verification/Command_Test.thy ===== *)
theory Command_Test
  imports Command
begin

text \<open>
  The self-test of the command queue and its handler task (\<open>lib/hpsc-test/command.c\<close>).  The test's context is
  a local object whose address goes to the callbacks, so it lies in memory as bytes: the fields that
  the callbacks use, in order.  What other tasks do while the test waits is an argument.
\<close>

subsection \<open>Model\<close>

definition CMD_TEST_TIMEOUT_TICKS :: rtems_interval where "CMD_TEST_TIMEOUT_TICKS = 100"
definition TEST_EVENT_CMD_CB :: rtems_event_set where "TEST_EVENT_CMD_CB = RTEMS_EVENT_0"
definition TEST_EVENT_CB :: rtems_event_set where "TEST_EVENT_CB = RTEMS_EVENT_1"

fun status_code :: "cmd_status \<Rightarrow> u8" where
  "status_code CMD_STATUS_SUCCESS = 0"
| "status_code CMD_STATUS_HANDLER_FAILED = 1"
| "status_code CMD_STATUS_REPLY_FAILED = 2"
| "status_code CMD_STATUS_UNKNOWN = 3"

text \<open>\<open>struct cmd_test_ctx\<close> behind its command: the task, whether the command was handled, the status.\<close>

definition cmd_test_ctx :: "rtems_id \<Rightarrow> bool \<Rightarrow> cmd_status \<Rightarrow> u8 list" where
  "cmd_test_ctx tid handled status = bytes32 tid @ [if handled then 1 else 0, status_code status]"

definition handled_cmd_cb :: "'k rtems \<Rightarrow> ptr \<Rightarrow> cmd_status \<Rightarrow> 'k world \<Rightarrow> 'k world res" where
  "handled_cmd_cb K arg status w =
     c_assert (arg \<noteq> NULL) (c_deref (w_buf w arg) (\<lambda>bs.
       Inr (w\<lparr>w_buf := (w_buf w)(arg \<mapsto> bs[4 := 1]),
              w_ker := snd (rt_event_send K (le32 (take 4 bs)) TEST_EVENT_CMD_CB (w_ker w))\<rparr>)))"

definition handled_cb :: "'k rtems \<Rightarrow> ptr \<Rightarrow> cmd_status \<Rightarrow> 'k world \<Rightarrow> 'k world res" where
  "handled_cb K arg status w =
     c_assert (arg \<noteq> NULL) (c_deref (w_buf w arg) (\<lambda>bs.
       Inr (w\<lparr>w_buf := (w_buf w)(arg \<mapsto> bs[5 := status_code status]),
              w_ker := snd (rt_event_send K (le32 (take 4 bs)) TEST_EVENT_CB (w_ker w))\<rparr>)))"

text \<open>A wait for all of the given events.\<close>

definition event_receive_all ::
  "'k sys \<Rightarrow> 'k env \<Rightarrow> rtems_event_set \<Rightarrow> rtems_interval \<Rightarrow> 'k world \<Rightarrow> 'k world res" where
  "event_receive_all sys env event_in ticks w =
     res_bind (env ticks w) (\<lambda>w1. Inr (w1\<lparr>w_ker := snd (rt_event_take_all (sys_K sys) event_in (w_ker w1))\<rparr>))"

text \<open>The labels of \<open>do_test\<close>; \<open>p\<close> is the address of the context, which is gone when the test returns.\<close>

definition test_unregister :: "ptr \<Rightarrow> int \<Rightarrow> 'k world \<Rightarrow> (int \<times> 'k world) res" where
  "test_unregister p rc w = (let w1 = cmd_handled_unregister_cb w in Inr (rc, w1\<lparr>w_buf := (w_buf w1)(p := None)\<rparr>))"

definition test_stop_task ::
  "'k sys \<Rightarrow> ('k world \<Rightarrow> 'k world res) \<Rightarrow> nat \<Rightarrow> ptr \<Rightarrow> int \<Rightarrow> 'k world \<Rightarrow> (int \<times> 'k world) res" where
  "test_stop_task sys yield fuel p rc w =
     res_bind (cmd_handle_task_destroy sys yield fuel w) (\<lambda>(sc, w').
       test_unregister p (if sc \<noteq> RTEMS_SUCCESSFUL then 1 else rc) w')"

text \<open>\<open>del\<close> is \<open>rtems_task_delete\<close>.\<close>

definition cmd_do_test ::
  "'k sys \<Rightarrow> (rtems_id \<Rightarrow> 'k \<Rightarrow> 'k) \<Rightarrow> 'k env \<Rightarrow> ('k world \<Rightarrow> 'k world res) \<Rightarrow> nat \<Rightarrow> ptr \<Rightarrow> rtems_id \<Rightarrow> 'k world \<Rightarrow>
   (int \<times> 'k world) res" where
  "cmd_do_test sys del env yield fuel p task_id w =
     (let w0 = cmd_handled_register_cb (Some Cmd_test_handled_cb) p
        (w\<lparr>w_buf := (w_buf w)(p \<mapsto> cmd_test_ctx (rt_task_self (sys_K sys) (w_ker w)) False CMD_STATUS_UNKNOWN)\<rparr>) in
      res_bind (cmd_handle_task_start sys task_id (Some Cmd_test_handler) 0 w0) (\<lambda>(sc, w1).
      if sc \<noteq> RTEMS_SUCCESSFUL then test_unregister p 1 (w1\<lparr>w_ker := del task_id (w_ker w1)\<rparr>)
      else res_bind (cmd_enqueue_cb sys (Some \<lparr>cmd_msg = replicate HPSC_MSG_SIZE 0, cmd_link = NULL\<rparr>)
          (Some Cmd_test_handled_cmd_cb) p w1) (\<lambda>(rc, w2).
        if rc \<noteq> 0 then test_stop_task sys yield fuel p rc w2
        else res_bind (event_receive_all sys env (TEST_EVENT_CMD_CB OR TEST_EVENT_CB) CMD_TEST_TIMEOUT_TICKS w2) (\<lambda>w3.
          c_deref (w_buf w3 p) (\<lambda>bs.
            test_stop_task sys yield fuel p
              (if bs ! 5 \<noteq> status_code CMD_STATUS_SUCCESS \<or> bs ! 4 = 0 then 1 else rc) w3)))))"

definition hpsc_test_command ::
  "'k sys \<Rightarrow> (rtems_id \<Rightarrow> 'k \<Rightarrow> 'k) \<Rightarrow> 'k env \<Rightarrow> ('k world \<Rightarrow> 'k world res) \<Rightarrow> nat \<Rightarrow> ptr \<Rightarrow> 'k world \<Rightarrow>
   (int \<times> 'k world) res" where
  "hpsc_test_command sys del env yield fuel p w =
     (case rt_task_create (sys_K sys) ''CMDH'' 1 (w_ker w) of (sc, task_id, k) \<Rightarrow>
        if sc \<noteq> RTEMS_SUCCESSFUL then Inl Panic
        else cmd_do_test sys del env yield fuel p task_id (w\<lparr>w_ker := k\<rparr>))"

subsection \<open>Tasks\<close>

text \<open>
  Sends to a task that exists succeed; events and switches neither make nor end tasks, and a switch
  to a task only changes which task runs.
\<close>

definition switch_laws ::
  "'k rtems \<Rightarrow> ('k \<Rightarrow> rtems_id \<Rightarrow> rtems_event_set) \<Rightarrow> ('k \<Rightarrow> rtems_id set) \<Rightarrow> (rtems_id \<Rightarrow> 'k \<Rightarrow> 'k) \<Rightarrow> bool" where
  "switch_laws K pend tasks switch \<longleftrightarrow>
     (\<forall>t e k. tasks (snd (rt_event_send K t e k)) = tasks k \<and> (t \<in> tasks k \<longrightarrow> fst (rt_event_send K t e k) = RTEMS_SUCCESSFUL)) \<and>
     (\<forall>m k. tasks (snd (rt_event_take K m k)) = tasks k) \<and>
     (\<forall>t k. tasks (switch t k) = tasks k \<and> pend (switch t k) = pend k \<and> rt_task_self K (switch t k) = t)"

text \<open>The scheduler lets the handler task \<open>t\<close> run one turn, which ends with its wait, and then goes on with the task \<open>me\<close>.\<close>

definition handler_runs ::
  "'k sys \<Rightarrow> (rtems_id \<Rightarrow> 'k \<Rightarrow> 'k) \<Rightarrow> rtems_id \<Rightarrow> rtems_id \<Rightarrow> 'k world \<Rightarrow> 'k world res" where
  "handler_runs sys switch t me w =
     res_bind (cmd_handle_task_turn CMDQ_LEN sys True (\<lambda>_ _. Inr) (\<lambda>_. Inr) 0 (w\<lparr>w_ker := switch t (w_ker w)\<rparr>))
       (\<lambda>(_, _, w'). Inr (w'\<lparr>w_ker := switch me (w_ker w')\<rparr>))"

text \<open>The callbacks of the test are called when commands are handled.\<close>

definition test_callbacks :: "'k sys \<Rightarrow> bool" where
  "test_callbacks sys \<longleftrightarrow> sys_handled sys Cmd_test_handled_cmd_cb = handled_cmd_cb (sys_K sys) \<and>
     sys_handled sys Cmd_test_handled_cb = handled_cb (sys_K sys)"

definition test_item :: "ptr \<Rightarrow> cmdq_item" where
  "test_item p = \<lparr>it_cmd = \<lparr>cmd_msg = replicate HPSC_MSG_SIZE 0, cmd_link = NULL\<rparr>, it_cb = Some Cmd_test_handled_cmd_cb, it_arg = p\<rparr>"

text \<open>A node on which the test is under way; \<open>n\<close> says how many of its commands wait in the queue.\<close>

definition test_running ::
  "'k sys \<Rightarrow> ('k \<Rightarrow> rtems_id set) \<Rightarrow> rtems_id \<Rightarrow> rtems_id \<Rightarrow> ptr \<Rightarrow> nat \<Rightarrow> bool \<Rightarrow> cmd_status \<Rightarrow> 'k world \<Rightarrow> bool" where
  "test_running sys tasks t me p n h st w \<longleftrightarrow>
     w_handler w = \<lparr>hc_tid = t, hc_cb = Some Cmd_test_handler, hc_timeout_ticks = 0, hc_running = True\<rparr> \<and>
     w_handled w = \<lparr>hd_cb = Some Cmd_test_handled_cb, hd_cb_arg = p\<rparr> \<and>
     cmdq_wf (w_cmdq w) \<and> cmdq_list (w_cmdq w) = replicate n (test_item p) \<and> w_buf w p = Some (cmd_test_ctx me h st) \<and>
     {t, me} \<subseteq> tasks (w_ker w) \<and> rt_task_self (sys_K sys) (w_ker w) = me"

lemma cmd_test_ctx_upd [simp]:
  "(cmd_test_ctx t h st)[4 := 1] = cmd_test_ctx t True st" "(cmd_test_ctx t h st)[5 := status_code st'] = cmd_test_ctx t h st'"
  "(cmd_test_ctx t h st)[5 := 0] = cmd_test_ctx t h CMD_STATUS_SUCCESS"
  "take 4 (cmd_test_ctx t h st) = bytes32 t"
  "cmd_test_ctx t h st ! 5 = status_code st" "cmd_test_ctx t h st ! 4 = (if h then 1 else 0)"
  by (simp_all add: cmd_test_ctx_def list_update_append nth_append)


subsection \<open>A turn of the handler task during the test\<close>

lemma switch_laws_send:
  assumes "switch_laws K pend tasks switch"
  shows "tasks (snd (rt_event_send K t e k)) = tasks k" and "t \<in> tasks k \<Longrightarrow> fst (rt_event_send K t e k) = RTEMS_SUCCESSFUL"
    and "tasks (snd (rt_event_take K m k)) = tasks k"
    and "tasks (switch t k) = tasks k" and "pend (switch t k) = pend k" and "rt_task_self K (switch t k) = t"
  using assms unfolding switch_laws_def by blast+

lemma send_others:
  assumes ev: "event_laws K pend"
  shows "t \<noteq> me \<Longrightarrow> pend (snd (rt_event_send K me e k)) t = pend k t" and "rt_task_self K (snd (rt_event_send K me e k)) = rt_task_self K k"
  using event_laws_send [OF ev, of me e k "fst (rt_event_send K me e k)" "snd (rt_event_send K me e k)"] by simp_all

lemma test_handle:
  assumes ev: "event_laws (sys_K sys) pend" and sw: "switch_laws (sys_K sys) pend tasks switch" and cb: "test_callbacks sys" and p: "p \<noteq> NULL"
    and w: "hc_cb (w_handler w) = Some Cmd_test_handler" "w_handled w = \<lparr>hd_cb = Some Cmd_test_handled_cb, hd_cb_arg = p\<rparr>"
      "w_buf w p = Some (cmd_test_ctx me h st)"
  shows "\<exists>k'. cmd_handle sys al env (it_cmd (test_item p)) (Some Cmd_test_handled_cmd_cb) p w =
      Inr (w\<lparr>w_buf := (w_buf w)(p \<mapsto> cmd_test_ctx me True CMD_STATUS_SUCCESS), w_ker := k'\<rparr>) \<and>
    (\<forall>t. t \<noteq> me \<longrightarrow> pend k' t = pend (w_ker w) t) \<and> rt_task_self (sys_K sys) k' = rt_task_self (sys_K sys) (w_ker w) \<and>
    tasks k' = tasks (w_ker w)"
proof -
  let ?k1 = "snd (rt_event_send (sys_K sys) me TEST_EVENT_CMD_CB (w_ker w))"
  let ?k2 = "snd (rt_event_send (sys_K sys) me TEST_EVENT_CB ?k1)"
  have "cmd_handle sys al env (it_cmd (test_item p)) (Some Cmd_test_handled_cmd_cb) p w =
      Inr (w\<lparr>w_buf := (w_buf w)(p \<mapsto> cmd_test_ctx me True CMD_STATUS_SUCCESS), w_ker := ?k2\<rparr>)"
    using cb p w by (simp add: cmd_handle_def cmd_test_handler_def cmd_handle_out_def test_callbacks_def handled_cmd_cb_def handled_cb_def)
  then show ?thesis using send_others [OF ev] switch_laws_send(1) [OF sw] by (intro exI [of _ ?k2]) simp
qed

text \<open>A turn handles the command if it waits, and ends the task exactly if its exit event is pending.\<close>

lemma handler_runs_test:
  assumes ev: "event_laws (sys_K sys) pend" and sw: "switch_laws (sys_K sys) pend tasks switch" and cb: "test_callbacks sys" and p: "p \<noteq> NULL"
    and run: "test_running sys tasks t me p n h st w" and n: "n \<le> 1" and t: "t \<noteq> me"
  shows "\<exists>q k'. handler_runs sys switch t me w = Inr (w\<lparr>w_cmdq := q,
      w_buf := (w_buf w)(p \<mapsto> (if n = 1 then cmd_test_ctx me True CMD_STATUS_SUCCESS else cmd_test_ctx me h st)),
      w_handler := (w_handler w)\<lparr>hc_running := (pend (w_ker w) t AND CMD_EVENT_EXIT = 0)\<rparr>, w_ker := k'\<rparr>) \<and>
    cmdq_wf q \<and> cmdq_list q = [] \<and> rt_task_self (sys_K sys) k' = me \<and>
    (pend (w_ker w) t AND CMD_EVENT_EXIT = 0 \<longrightarrow> tasks k' = tasks (w_ker w))"
proof -
  let ?ws = "w\<lparr>w_ker := switch t (w_ker w)\<rparr>" and ?b = "if n = 1 then cmd_test_ctx me True CMD_STATUS_SUCCESS else cmd_test_ctx me h st"
  note s = switch_laws_send [OF sw]
  have buf0: "w_buf w p = Some (cmd_test_ctx me h st)" and wf: "cmdq_wf (w_cmdq w)" "cmdq_list (w_cmdq w) = replicate n (test_item p)"
    and h: "hc_cb (w_handler w) = Some Cmd_test_handler" "hc_running (w_handler w)" "w_handled w = \<lparr>hd_cb = Some Cmd_test_handled_cb, hd_cb_arg = p\<rparr>"
    using run by (simp_all add: test_running_def)
  have flush: "\<exists>q k1. cmd_flush CMDQ_LEN sys True (\<lambda>_ _. Inr) 0 ?ws = Inr (n, ?ws\<lparr>w_cmdq := q, w_buf := (w_buf w)(p \<mapsto> ?b), w_ker := k1\<rparr>) \<and>
      cmdq_wf q \<and> cmdq_list q = [] \<and> pend k1 t = pend (w_ker w) t \<and> rt_task_self (sys_K sys) k1 = t \<and> tasks k1 = tasks (w_ker w)"
  proof (cases "n = 1")
    case True
    then have "cmdq_list (w_cmdq w) = [test_item p]" using wf by simp
    from cmd_dequeue_Cons [OF wf(1) this] obtain q where
      q: "cmd_dequeue_unsafe (w_cmdq w) = (0, Some (test_item p), q)" "cmdq_wf q" "cmdq_list q = []" by blast
    have it: "it_cb (test_item p) = Some Cmd_test_handled_cmd_cb" "it_arg (test_item p) = p" by (simp_all add: test_item_def)
    obtain k1 where k1: "cmd_handle sys True (\<lambda>_. Inr) (it_cmd (test_item p)) (Some Cmd_test_handled_cmd_cb) p (?ws\<lparr>w_cmdq := q\<rparr>) =
        Inr (?ws\<lparr>w_cmdq := q, w_buf := (w_buf w)(p \<mapsto> ?b), w_ker := k1\<rparr>)" "pend k1 t = pend (w_ker w) t"
        "rt_task_self (sys_K sys) k1 = t" "tasks k1 = tasks (w_ker w)"
      using test_handle [OF ev sw cb p, of "?ws\<lparr>w_cmdq := q\<rparr>" me h st True "\<lambda>_. Inr"] True buf0 h t s by auto
    have "cmd_flush 4 sys True (\<lambda>_ _. Inr) 0 ?ws = Inr (n, ?ws\<lparr>w_cmdq := q, w_buf := (w_buf w)(p \<mapsto> ?b), w_ker := k1\<rparr>)"
      using q k1(1) it True cmd_dequeue_Nil [OF q(2,3)] by (simp add: numeral_eq_Suc)
    then show ?thesis using q k1 by (intro exI [of _ q] exI [of _ k1]) simp
  next
    case False
    then have "n = 0" "cmdq_list (w_cmdq w) = []" using n wf by simp_all
    then have "cmd_flush 4 sys True (\<lambda>_ _. Inr) 0 ?ws = Inr (n, ?ws\<lparr>w_cmdq := w_cmdq w\<rparr>)"
      using cmd_dequeue_Nil [OF wf(1)] by (simp add: numeral_eq_Suc)
    moreover have "(w_buf w)(p \<mapsto> cmd_test_ctx me h st) = w_buf w" using buf0 by (rule fun_upd_idem)
    ultimately show ?thesis using False wf(1) \<open>cmdq_list (w_cmdq w) = []\<close> s
      by (intro exI [of _ "w_cmdq w"] exI [of _ "switch t (w_ker w)"]) simp
  qed
  then obtain q k1 where f: "cmd_flush CMDQ_LEN sys True (\<lambda>_ _. Inr) 0 ?ws = Inr (n, ?ws\<lparr>w_cmdq := q, w_buf := (w_buf w)(p \<mapsto> ?b), w_ker := k1\<rparr>)"
      "cmdq_wf q" "cmdq_list q = []" "pend k1 t = pend (w_ker w) t" "rt_task_self (sys_K sys) k1 = t" "tasks k1 = tasks (w_ker w)" by blast
  obtain e k2 where k2: "rt_event_take (sys_K sys) (CMD_EVENT_NEW OR CMD_EVENT_EXIT) k1 = (e, k2)" by fastforce
  have e: "e AND CMD_EVENT_EXIT = pend (w_ker w) t AND CMD_EVENT_EXIT"
    using event_laws_take(1) [OF ev k2] f(4,5) by (simp add: and.assoc CMD_EVENT_NEW_def CMD_EVENT_EXIT_def)
  have tk: "tasks k2 = tasks (w_ker w)" using s(3) [of "CMD_EVENT_NEW OR CMD_EVENT_EXIT" k1] k2 f(6) by simp
  have same: "(w_handler w)\<lparr>hc_running := True\<rparr> = w_handler w" using h(2) by (cases "w_handler w") simp
  have "handler_runs sys switch t me w = Inr (w\<lparr>w_cmdq := q, w_buf := (w_buf w)(p \<mapsto> ?b),
      w_handler := (w_handler w)\<lparr>hc_running := (pend (w_ker w) t AND CMD_EVENT_EXIT = 0)\<rparr>,
      w_ker := switch me (if pend (w_ker w) t AND CMD_EVENT_EXIT = 0 then k2 else rt_task_exit (sys_K sys) k2)\<rparr>)"
    using f(1) k2 e same by (simp add: handler_runs_def cmd_handle_task_turn_def event_receive_def del: CMDQ_LEN_def)
  then show ?thesis using f(2,3) s tk by (intro exI [of _ q] exI [of _ "switch me (if pend (w_ker w) t AND CMD_EVENT_EXIT = 0 then k2 else rt_task_exit (sys_K sys) k2)"]) simp
qed


subsection \<open>Properties\<close>

text \<open>What the test leaves behind: nothing.\<close>

definition test_left_nothing :: "ptr \<Rightarrow> 'k world \<Rightarrow> 'k world \<Rightarrow> bool" where
  "test_left_nothing p w w' \<longleftrightarrow> w_handler w' = cmd_handler_init \<and> w_handled w' = cmd_handled_init \<and> cmdq_wf (w_cmdq w') \<and>
     cmdq_list (w_cmdq w') = [] \<and> w_buf w' = (w_buf w)(p := None)"

text \<open>Stopping the task, whether or not it has handled the command.\<close>

lemma stop_task_outcome:
  assumes ev: "event_laws (sys_K sys) pend" and sw: "switch_laws (sys_K sys) pend tasks switch" and cb: "test_callbacks sys" and p: "p \<noteq> NULL"
    and run: "test_running sys tasks t me p n h st w" and n: "n \<le> 1" and t: "t \<noteq> me"
    and buf: "(w_buf w)(p := None) = (w_buf w0)(p := None)"
  shows "\<exists>w'. test_stop_task sys (handler_runs sys switch t me) (Suc fuel) p rc w = Inr (rc, w') \<and> test_left_nothing p w0 w'"
proof -
  obtain sc k where k: "rt_event_send (sys_K sys) t CMD_EVENT_EXIT (w_ker w) = (sc, k)" by fastforce
  have h: "w_handler w = \<lparr>hc_tid = t, hc_cb = Some Cmd_test_handler, hc_timeout_ticks = 0, hc_running = True\<rparr>" "t \<in> tasks (w_ker w)"
    using run by (simp_all add: test_running_def)
  have sc: "sc = RTEMS_SUCCESSFUL" "tasks k = tasks (w_ker w)"
    using switch_laws_send(1) [OF sw, of t CMD_EVENT_EXIT "w_ker w"] switch_laws_send(2) [OF sw h(2), of CMD_EVENT_EXIT] k by simp_all
  have ex: "pend k t AND CMD_EVENT_EXIT \<noteq> 0" "rt_task_self (sys_K sys) k = rt_task_self (sys_K sys) (w_ker w)"
    using event_laws_send [OF ev k] sc(1)
    by (simp_all add: CMD_EVENT_EXIT_def bit.conj_disj_distrib2 or_eq_0_iff)
  let ?w = "w\<lparr>w_ker := k\<rparr>"
  have run': "test_running sys tasks t me p n h st ?w" using run sc(2) ex(2) by (simp add: test_running_def)
  obtain q k' where r: "handler_runs sys switch t me ?w = Inr (?w\<lparr>w_cmdq := q,
      w_buf := (w_buf w)(p \<mapsto> (if n = 1 then cmd_test_ctx me True CMD_STATUS_SUCCESS else cmd_test_ctx me h st)),
      w_handler := (w_handler w)\<lparr>hc_running := False\<rparr>, w_ker := k'\<rparr>)" "cmdq_wf q" "cmdq_list q = []"
    using handler_runs_test [OF ev sw cb p run' n t] ex(1) by auto
  have "wait_while cond y n x = Inr x" if "cond x = Inr False" for cond y n and x :: "'a world" using that by (cases n) simp_all
  note stops = this
  have "wait_while (\<lambda>w. Inr (hc_running (w_handler w))) (handler_runs sys switch t me) (Suc fuel) ?w =
      Inr (?w\<lparr>w_cmdq := q, w_buf := (w_buf w)(p \<mapsto> (if n = 1 then cmd_test_ctx me True CMD_STATUS_SUCCESS else cmd_test_ctx me h st)),
        w_handler := (w_handler w)\<lparr>hc_running := False\<rparr>, w_ker := k'\<rparr>)"
    using r(1) h(1) by (simp add: stops)
  then show ?thesis using r(2,3) k sc(1) h(1) buf
    by (simp add: test_stop_task_def cmd_handle_task_destroy_def event_send_def cmd_handler_set_def test_unregister_def
        cmd_handled_unregister_cb_def test_left_nothing_def cmd_handler_init_def cmd_handled_init_def Let_def)
qed

text \<open>The test once its task has started and its command is queued: it waits, checks, and stops the task.\<close>

lemma test_started:
  assumes ev: "event_laws (sys_K sys) pend" and sw: "switch_laws (sys_K sys) pend tasks switch"
    and me: "me = rt_task_self (sys_K sys) k0" and idle: "\<not> hc_running (w_handler w)" and q: "cmdq_wf (w_cmdq w)" "cmdq_list (w_cmdq w) = []"
    and create: "rt_task_create (sys_K sys) ''CMDH'' 1 (w_ker w) = (RTEMS_SUCCESSFUL, t, k0)"
    and start: "rt_task_start (sys_K sys) t Cmd_handle_task 1 k0 = (RTEMS_SUCCESSFUL, k1)"
    and task: "t \<noteq> RTEMS_ID_NONE" "rt_task_self (sys_K sys) k1 = me" "{t, me} \<subseteq> tasks k1" "pend k1 t AND CMD_EVENT_EXIT = 0"
  obtains w2 where "test_running sys tasks t me p 1 False CMD_STATUS_UNKNOWN w2" and "pend (w_ker w2) t AND CMD_EVENT_EXIT = 0"
    and "(w_buf w2)(p := None) = (w_buf w)(p := None)"
    and "\<And>env yield f. hpsc_test_command sys del env yield f p w =
      res_bind (event_receive_all sys env (TEST_EVENT_CMD_CB OR TEST_EVENT_CB) CMD_TEST_TIMEOUT_TICKS w2) (\<lambda>w3.
        c_deref (w_buf w3 p) (\<lambda>bs. test_stop_task sys yield f p (if bs ! 5 \<noteq> status_code CMD_STATUS_SUCCESS \<or> bs ! 4 = 0 then 1 else 0) w3))"
proof -
  let ?c = "\<lparr>cmd_msg = replicate HPSC_MSG_SIZE 0, cmd_link = NULL\<rparr>"
  let ?w0 = "cmd_handled_register_cb (Some Cmd_test_handled_cb) p
      (w\<lparr>w_ker := k0, w_buf := (w_buf w)(p \<mapsto> cmd_test_ctx me False CMD_STATUS_UNKNOWN)\<rparr>)"
  obtain q1 where q1: "cmd_enqueue_cb_unsafe (Some ?c) (Some Cmd_test_handled_cmd_cb) p (w_cmdq w) = Inr (0, q1)" "cmdq_wf q1"
      "cmdq_list q1 = [test_item p]"
    using cmdq_enqueue_ok [OF q(1), of ?c "Some Cmd_test_handled_cmd_cb" p] q(2) by (auto simp: test_item_def)
  obtain k2 where k2: "rt_event_send (sys_K sys) t CMD_EVENT_NEW k1 = (RTEMS_SUCCESSFUL, k2)" "tasks k2 = tasks k1"
    using switch_laws_send(1) [OF sw, of t CMD_EVENT_NEW k1] switch_laws_send(2) [OF sw, of t k1 CMD_EVENT_NEW] task(3)
    by (cases "rt_event_send (sys_K sys) t CMD_EVENT_NEW k1") auto
  let ?w2 = "(cmd_handler_set t (Some Cmd_test_handler) 0 True ?w0)\<lparr>w_cmdq := q1, w_ker := k2\<rparr>"
  have k: "rt_task_self (sys_K sys) k2 = me" "pend k2 t AND CMD_EVENT_EXIT = 0"
    using event_laws_send [OF ev k2(1)] task(2,4) by (simp_all add: CMD_EVENT_NEW_def CMD_EVENT_EXIT_def bit.conj_disj_distrib2)
  show ?thesis
  proof (rule that)
    show "test_running sys tasks t me p 1 False CMD_STATUS_UNKNOWN ?w2"
      using q1 k2(2) k(1) task(3) by (simp add: test_running_def cmd_handler_set_def cmd_handled_register_cb_def)
    show "pend (w_ker ?w2) t AND CMD_EVENT_EXIT = 0" using k(2) by simp
    show "(w_buf ?w2)(p := None) = (w_buf w)(p := None)" by (simp add: cmd_handler_set_def cmd_handled_register_cb_def)
    show "hpsc_test_command sys del env yield f p w =
      res_bind (event_receive_all sys env (TEST_EVENT_CMD_CB OR TEST_EVENT_CB) CMD_TEST_TIMEOUT_TICKS ?w2) (\<lambda>w3.
        c_deref (w_buf w3 p) (\<lambda>bs. test_stop_task sys yield f p (if bs ! 5 \<noteq> status_code CMD_STATUS_SUCCESS \<or> bs ! 4 = 0 then 1 else 0) w3))"
      for env yield f
      using create start task(1) idle q1(1) k2(1) me
      by (simp add: hpsc_test_command_def cmd_do_test_def cmd_handle_task_start_def cmd_handled_register_cb_def cmd_handler_set_def
          cmd_enqueue_cb_def event_send_def Let_def)
  qed
qed

lemma test_running_take_all:
  assumes ev: "event_laws (sys_K sys) pend" and sw: "switch_laws (sys_K sys) pend tasks switch" and run: "test_running sys tasks t me p n h st w"
  shows "test_running sys tasks t me p n h st (w\<lparr>w_ker := snd (rt_event_take_all (sys_K sys) m (w_ker w))\<rparr>)"
proof -
  have "tasks (snd (rt_event_take_all (sys_K sys) m x)) = tasks x"
    "rt_task_self (sys_K sys) (snd (rt_event_take_all (sys_K sys) m x)) = rt_task_self (sys_K sys) x" for x
    using switch_laws_send(3) [OF sw, of m x] event_laws_take(3) [OF ev, of m x]
    by (cases "rt_event_take (sys_K sys) m x"; simp add: rt_event_take_all_def)+
  then show ?thesis using run by (simp add: test_running_def)
qed

text \<open>C38. The self-test of the command queue passes if the handler task runs while it waits, and fails if
  the task does not run in time or cannot be started. In every case it leaves nothing behind: the
  handler context is reset, the callbacks are unregistered, the queue is empty, and so nothing refers
  to the test's local context any more, even when the late task handles the command only while it is
  being stopped.\<close>

theorem command_test_outcome:
  assumes ev: "event_laws (sys_K sys) pend" and sw: "switch_laws (sys_K sys) pend tasks switch" and cb: "test_callbacks sys" and p: "p \<noteq> NULL"
    and me: "me = rt_task_self (sys_K sys) k0" and idle: "\<not> hc_running (w_handler w)" and q: "cmdq_wf (w_cmdq w)" "cmdq_list (w_cmdq w) = []"
    and create: "rt_task_create (sys_K sys) ''CMDH'' 1 (w_ker w) = (RTEMS_SUCCESSFUL, t, k0)"
    and start: "rt_task_start (sys_K sys) t Cmd_handle_task 1 k0 = (sc, k1)"
    and task: "t \<noteq> RTEMS_ID_NONE" "t \<noteq> me" "rt_task_self (sys_K sys) k1 = me" "{t, me} \<subseteq> tasks k1" "pend k1 t AND CMD_EVENT_EXIT = 0"
  shows "if sc \<noteq> RTEMS_SUCCESSFUL
    then \<exists>w'. hpsc_test_command sys del env yield fuel p w = Inr (1, w') \<and> test_left_nothing p w w'
    else (\<exists>w'. hpsc_test_command sys del (\<lambda>_. handler_runs sys switch t me) (handler_runs sys switch t me) (Suc fuel) p w = Inr (0, w') \<and>
        test_left_nothing p w w') \<and>
      (\<exists>w'. hpsc_test_command sys del (\<lambda>_. Inr) (handler_runs sys switch t me) (Suc fuel) p w = Inr (1, w') \<and> test_left_nothing p w w')"
proof (cases "sc = RTEMS_SUCCESSFUL")
  case False
  then show ?thesis using create start task(1) idle q me
    by (simp add: hpsc_test_command_def cmd_do_test_def cmd_handle_task_start_def cmd_handled_register_cb_def cmd_handler_set_def
        test_unregister_def cmd_handled_unregister_cb_def test_left_nothing_def cmd_handler_init_def cmd_handled_init_def Let_def)
next
  case True
  from start True have start': "rt_task_start (sys_K sys) t Cmd_handle_task 1 k0 = (RTEMS_SUCCESSFUL, k1)" by simp
  obtain w2 where run: "test_running sys tasks t me p 1 False CMD_STATUS_UNKNOWN w2" and go: "pend (w_ker w2) t AND CMD_EVENT_EXIT = 0"
    and buf: "(w_buf w2)(p := None) = (w_buf w)(p := None)"
    and to: "\<And>env yield f. hpsc_test_command sys del env yield f p w =
      res_bind (event_receive_all sys env (TEST_EVENT_CMD_CB OR TEST_EVENT_CB) CMD_TEST_TIMEOUT_TICKS w2) (\<lambda>w3.
        c_deref (w_buf w3 p) (\<lambda>bs. test_stop_task sys yield f p (if bs ! 5 \<noteq> status_code CMD_STATUS_SUCCESS \<or> bs ! 4 = 0 then 1 else 0) w3))"
    using test_started [OF ev sw me idle q create start' task(1,3-5), where p = p and del = del] by blast
  have b2: "w_buf w2 p = Some (cmd_test_ctx me False CMD_STATUS_UNKNOWN)" and hr: "(w_handler w2)\<lparr>hc_running := True\<rparr> = w_handler w2"
    using run by (simp_all add: test_running_def)
  have late: "\<exists>w'. hpsc_test_command sys del (\<lambda>_. Inr) (handler_runs sys switch t me) (Suc fuel) p w = Inr (1, w') \<and> test_left_nothing p w w'"
    using stop_task_outcome [OF ev sw cb p test_running_take_all [OF ev sw run, of "TEST_EVENT_CMD_CB OR TEST_EVENT_CB"] _ task(2), of w fuel 1] b2 buf
    by (simp add: to event_receive_all_def)
  have one: "(1 :: nat) \<le> 1" "pend (w_ker w2) t AND CMD_EVENT_EXIT = 0 \<longleftrightarrow> True" using go by simp_all
  from handler_runs_test [OF ev sw cb p run one(1) task(2), unfolded one(2)]
  obtain q3 k3 where r: "handler_runs sys switch t me w2 = Inr (w2\<lparr>w_cmdq := q3,
      w_buf := (w_buf w2)(p \<mapsto> (if (1 :: nat) = 1 then cmd_test_ctx me True CMD_STATUS_SUCCESS else cmd_test_ctx me False CMD_STATUS_UNKNOWN)),
      w_handler := (w_handler w2)\<lparr>hc_running := True\<rparr>, w_ker := k3\<rparr>)" "cmdq_wf q3" "cmdq_list q3 = []"
      "rt_task_self (sys_K sys) k3 = me" "tasks k3 = tasks (w_ker w2)" by blast
  let ?w3 = "w2\<lparr>w_cmdq := q3, w_buf := (w_buf w2)(p \<mapsto> cmd_test_ctx me True CMD_STATUS_SUCCESS),
      w_handler := (w_handler w2)\<lparr>hc_running := True\<rparr>, w_ker := k3\<rparr>"
  have "test_running sys tasks t me p 0 True CMD_STATUS_SUCCESS ?w3" using run r(2-5) hr by (simp add: test_running_def)
  from stop_task_outcome [OF ev sw cb p test_running_take_all [OF ev sw this, of "TEST_EVENT_CMD_CB OR TEST_EVENT_CB"] _ task(2), of w fuel 0]
  have "\<exists>w'. hpsc_test_command sys del (\<lambda>_. handler_runs sys switch t me) (handler_runs sys switch t me) (Suc fuel) p w = Inr (0, w') \<and>
      test_left_nothing p w w'"
    using r(1) buf by (simp add: to event_receive_all_def)
  then show ?thesis using late True by simp
qed

text \<open>A node that calls the test's callbacks.\<close>

fun demo_handled :: "cmd_handled_fn \<Rightarrow> ptr \<Rightarrow> cmd_status \<Rightarrow> demo_kernel world \<Rightarrow> demo_kernel world res" where
  "demo_handled Cmd_test_handled_cmd_cb = handled_cmd_cb demo_rtems"
| "demo_handled Cmd_test_handled_cb = handled_cb demo_rtems"
| "demo_handled _ = (\<lambda>_ _. Inr)"

definition demo_test_sys :: "demo_kernel sys" where
  "demo_test_sys = \<lparr>sys_K = demo_rtems, sys_hw = demo_hw, sys_handled = demo_handled\<rparr>"

definition demo_switch :: "rtems_id \<Rightarrow> demo_kernel \<Rightarrow> demo_kernel" where
  "demo_switch t k = k\<lparr>dk_self := t\<rparr>"

lemma demo_switch_laws: "switch_laws demo_rtems dk_pend (\<lambda>k. set (dk_tasks k)) demo_switch"
  by (auto simp: switch_laws_def demo_rtems_def demo_switch_def)

theorem command_test_outcome_witness:
  "(\<exists>w'. hpsc_test_command demo_test_sys (\<lambda>_ k. k) (\<lambda>_. handler_runs demo_test_sys demo_switch 2 1)
      (handler_runs demo_test_sys demo_switch 2 1) 1 0x440 demo_world = Inr (0, w') \<and> w_buf w' 0x440 = None) \<and>
   (\<exists>w'. hpsc_test_command demo_test_sys (\<lambda>_ k. k) (\<lambda>_. Inr)
      (handler_runs demo_test_sys demo_switch 2 1) 1 0x440 demo_world = Inr (1, w') \<and> cmdq_list (w_cmdq w') = [])"
proof -
  let ?k = "demo_k0\<lparr>dk_tasks := [2, 1, 2, 3, 4, 5, 6]\<rparr>"
  have s: "sys_K demo_test_sys = demo_rtems" "test_callbacks demo_test_sys"
    by (simp_all add: demo_test_sys_def test_callbacks_def)
  have n: "\<not> hc_running (w_handler demo_world)" "cmdq_wf (w_cmdq demo_world)" "cmdq_list (w_cmdq demo_world) = []"
    "(0x440 :: ptr) \<noteq> NULL" "1 = rt_task_self demo_rtems ?k" "(2 :: rtems_id) \<noteq> RTEMS_ID_NONE" "(2 :: rtems_id) \<noteq> 1"
    "{2, 1} \<subseteq> set (dk_tasks ?k)" "dk_pend ?k 2 AND CMD_EVENT_EXIT = 0" "rt_task_self demo_rtems ?k = 1"
    by (simp_all add: cmd_handler_init_def demo_rtems_def demo_k0_def)
  have c: "rt_task_create demo_rtems ''CMDH'' 1 (w_ker demo_world) = (RTEMS_SUCCESSFUL, 2, ?k)"
    "rt_task_start demo_rtems 2 Cmd_handle_task 1 ?k = (RTEMS_SUCCESSFUL, ?k)"
    by (simp_all add: demo_rtems_def demo_k0_def)
  have "(\<exists>w'. hpsc_test_command demo_test_sys (\<lambda>_ k. k) (\<lambda>_. handler_runs demo_test_sys demo_switch 2 1)
      (handler_runs demo_test_sys demo_switch 2 1) (Suc 0) 0x440 demo_world = Inr (0, w') \<and> test_left_nothing 0x440 demo_world w') \<and>
    (\<exists>w'. hpsc_test_command demo_test_sys (\<lambda>_ k. k) (\<lambda>_. Inr)
      (handler_runs demo_test_sys demo_switch 2 1) (Suc 0) 0x440 demo_world = Inr (1, w') \<and> test_left_nothing 0x440 demo_world w')"
    using command_test_outcome [of demo_test_sys, unfolded s(1), OF demo_event_laws demo_switch_laws s(2) n(4,5,1-3) c n(6,7,10,8,9),
        of "\<lambda>_ k. k" "\<lambda>_. Inr" Inr 0] by simp
  then show ?thesis by (auto simp: test_left_nothing_def)
qed

end
