(* ===== verification/Link_Shmem_Test.thy ===== *)
theory Link_Shmem_Test
  imports Lib_Tests Command_Test
begin

text \<open>
  The test of links over shared memory (\<open>lib/hpsc-test/link-shmem.c\<close>): a server link and a client link over
  the same two regions, a ping from the client, and a wait for the command handler.
\<close>

subsection \<open>Model\<close>

definition shmem_test_handled_cb :: "ptr \<Rightarrow> cmd_status \<Rightarrow> 'k world \<Rightarrow> 'k world res" where
  "shmem_test_handled_cb arg status w = c_deref (w_buf w arg) (\<lambda>bs. Inr (w\<lparr>w_buf := (w_buf w)(arg \<mapsto> bs[0 := status_code status])\<rparr>))"

text \<open>\<open>sp\<close> is the address of the local \<open>status\<close>; \<open>env\<close>, \<open>env'\<close> and \<open>yield\<close> are what others do during the ping and the waiting loop.\<close>

definition status_unknown :: "ptr \<Rightarrow> 'k world \<Rightarrow> bool res" where
  "status_unknown sp w = c_deref (w_buf w sp) (\<lambda>bs. Inr (bs ! 0 = status_code CMD_STATUS_UNKNOWN))"

definition shmem_link_do_test ::
  "'k sys \<Rightarrow> 'k env \<Rightarrow> 'k env \<Rightarrow> bool \<Rightarrow> ptr \<Rightarrow> ('k world \<Rightarrow> 'k world res) \<Rightarrow> nat \<Rightarrow> ptr \<Rightarrow> ptr \<Rightarrow> rtems_interval \<Rightarrow>
   rtems_interval \<Rightarrow> rtems_event_set \<Rightarrow> 'k world \<Rightarrow> (int \<times> 'k world) res" where
  "shmem_link_do_test sys env env' al rp yield fuel sp clink wticks rticks ev w =
     (let w1 = cmd_handled_register_cb (Some Link_shmem_test_handled_cb) sp
        (w\<lparr>w_buf := (w_buf w)(sp \<mapsto> [status_code CMD_STATUS_UNKNOWN])\<rparr>) in
      res_bind (hpsc_test_link_ping sys env env' al rp clink wticks rticks ev w1) (\<lambda>(rc, w2).
      res_bind (wait_while (status_unknown sp) yield fuel w2) (\<lambda>w3.
      c_deref (w_buf w3 sp) (\<lambda>bs.
        let w4 = cmd_handled_unregister_cb w3 in
        Inr (if bs ! 0 = status_code CMD_STATUS_SUCCESS then rc else 1, w4\<lparr>w_buf := (w_buf w4)(sp := None)\<rparr>)))))"

definition create_poll_task :: "'k sys \<Rightarrow> string \<Rightarrow> 'k world \<Rightarrow> (rtems_id \<times> 'k world) res" where
  "create_poll_task sys name w = (case rt_task_create (sys_K sys) name 1 (w_ker w) of (sc, t, k) \<Rightarrow>
     if sc \<noteq> RTEMS_SUCCESSFUL then Inl Panic else Inr (t, w\<lparr>w_ker := k\<rparr>))"

text \<open>\<open>a\<close> and \<open>b\<close> are the addresses of the two local regions, \<open>del\<close> is \<open>rtems_task_delete\<close>, \<open>raw\<close> the content of a new link object.\<close>

definition test_free_slink ::
  "'k sys \<Rightarrow> ('k world \<Rightarrow> 'k world res) \<Rightarrow> nat \<Rightarrow> ptr \<Rightarrow> int \<Rightarrow> 'k world \<Rightarrow> (int \<times> 'k world) res" where
  "test_free_slink sys yield fuel slink rc w =
     res_bind (link_disconnect sys yield fuel slink w) (\<lambda>(r, w'). Inr (if r \<noteq> 0 then 1 else rc, w'))"

definition delete_tasks :: "(rtems_id \<Rightarrow> 'k \<Rightarrow> 'k) \<Rightarrow> rtems_id \<Rightarrow> rtems_id \<Rightarrow> 'k world \<Rightarrow> 'k world" where
  "delete_tasks del t t' w = w\<lparr>w_ker := del t' (del t (w_ker w))\<rparr>"

definition hpsc_test_link_shmem ::
  "'k sys \<Rightarrow> (rtems_id \<Rightarrow> 'k \<Rightarrow> 'k) \<Rightarrow> 'k env \<Rightarrow> 'k env \<Rightarrow> bool \<Rightarrow> ptr \<Rightarrow> ('k world \<Rightarrow> 'k world res) \<Rightarrow> nat \<Rightarrow> ptr \<Rightarrow> link \<Rightarrow>
   ptr \<Rightarrow> ptr \<Rightarrow> rtems_interval \<Rightarrow> rtems_interval \<Rightarrow> rtems_event_set \<Rightarrow> 'k world \<Rightarrow> (int \<times> 'k world) res" where
  "hpsc_test_link_shmem sys del env env' al rp yield fuel sp raw a b wticks rticks ev w =
     (let zero = (\<lambda>_. \<lparr>shm_data = replicate HPSC_MSG_SIZE 0, shm_status = 0\<rparr>);
          w0 = w\<lparr>w_shm := upd_region b zero (upd_region a zero (w_shm w))\<rparr> in
      res_bind (create_poll_task sys ''TCSR'' w0) (\<lambda>(sr, w1).
      res_bind (create_poll_task sys ''TCSA'' w1) (\<lambda>(sa, w2).
      res_bind (link_shmem_connect sys yield fuel raw ''Shmem Link Test Server'' a b True 1 sr sa w2) (\<lambda>(slink, w3).
      if slink = NULL then Inr (1, delete_tasks del sr sa w3)
      else res_bind (create_poll_task sys ''TCCR'' w3) (\<lambda>(cr, w4).
           res_bind (create_poll_task sys ''TCCA'' w4) (\<lambda>(ca, w5).
           res_bind (link_shmem_connect sys yield fuel raw ''Shmem Link Test Client'' b a False 1 cr ca w5) (\<lambda>(clink, w6).
           if clink = NULL then test_free_slink sys yield fuel slink 1 (delete_tasks del cr ca w6)
           else res_bind (shmem_link_do_test sys env env' al rp yield fuel sp clink wticks rticks ev w6) (\<lambda>(rc, w7).
                res_bind (link_disconnect sys yield fuel clink w7) (\<lambda>(r, w8).
                  test_free_slink sys yield fuel slink (if r \<noteq> 0 then 1 else rc) w8)))))))))"

subsection \<open>The waiting loop\<close>

text \<open>The node after \<open>n\<close> slices of the others.\<close>

fun slices :: "('k world \<Rightarrow> 'k world res) \<Rightarrow> nat \<Rightarrow> 'k world \<Rightarrow> 'k world res" where
  "slices yield 0 w = Inr w"
| "slices yield (Suc n) w = res_bind (yield w) (slices yield n)"

text \<open>The loop goes on while the condition holds after each slice, and stops at the first slice after which it does not.\<close>

lemma wait_while_first:
  assumes "n \<le> fuel" and "slices yield n w = Inr v" and "cond v = Inr False"
    and "\<And>m x. m < n \<Longrightarrow> slices yield m w = Inr x \<Longrightarrow> cond x = Inr True"
  shows "wait_while cond yield fuel w = Inr v"
  using assms
proof (induction n arbitrary: fuel w)
  case 0
  then show ?case by (cases fuel) simp_all
next
  case (Suc n)
  from Suc.prems(2) obtain w1 where w1: "yield w = Inr w1" "slices yield n w1 = Inr v" by (auto simp: res_iff)
  obtain f where f: "fuel = Suc f" "n \<le> f" using Suc.prems(1) by (cases fuel) auto
  have "cond w = Inr True" using Suc.prems(4) [of 0 w] by simp
  moreover have "cond x = Inr True" if "m < n" "slices yield m w1 = Inr x" for m x
    using Suc.prems(4) [of "Suc m" x] that w1(1) by simp
  ultimately show ?case using Suc.IH [OF f(2) w1(2) Suc.prems(3)] f(1) w1(1) by simp
qed

lemma wait_while_never:
  assumes "\<And>n. \<exists>x. slices yield n w = Inr x \<and> cond x = Inr True"
  shows "wait_while cond yield fuel w = Inl Out_Of_Fuel"
  using assms
proof (induction fuel arbitrary: w)
  case 0
  from 0 [of 0] show ?case by simp
next
  case (Suc n)
  from Suc.prems [of "Suc 0"] obtain w1 where w1: "yield w = Inr w1" by (auto simp: res_iff)
  have "\<exists>x. slices yield m w1 = Inr x \<and> cond x = Inr True" for m using Suc.prems [of "Suc m"] w1 by simp
  then show ?case using Suc.IH [of w1] Suc.prems [of 0] w1 by simp
qed

subsection \<open>Properties\<close>

text \<open>\<open>status_at sp st\<close>: the local status has the value \<open>st\<close>.\<close>

definition status_at :: "ptr \<Rightarrow> cmd_status \<Rightarrow> 'k world \<Rightarrow> bool" where
  "status_at sp st w \<longleftrightarrow> w_buf w sp = Some [status_code st]"

lemma status_code_inj: "status_code a = status_code b \<longleftrightarrow> a = b"
  by (cases a; cases b) simp_all

lemma status_at_cond: "status_at sp st w \<Longrightarrow> status_unknown sp w = Inr (st = CMD_STATUS_UNKNOWN)"
  by (simp add: status_at_def status_unknown_def status_code_inj del: status_code.simps)

theorem link_shmem_test_waits:
  assumes ping: "hpsc_test_link_ping sys env env' al rp clink wticks rticks ev
      (cmd_handled_register_cb (Some Link_shmem_test_handled_cb) sp (w\<lparr>w_buf := (w_buf w)(sp \<mapsto> [status_code CMD_STATUS_UNKNOWN])\<rparr>)) = Inr (rc, w2)"
  shows "(\<forall>n v st fuel. n \<le> fuel \<and> slices yield n w2 = Inr v \<and> status_at sp st v \<and> st \<noteq> CMD_STATUS_UNKNOWN \<and>
      (\<forall>m x. m < n \<longrightarrow> slices yield m w2 = Inr x \<longrightarrow> status_at sp CMD_STATUS_UNKNOWN x) \<longrightarrow>
      shmem_link_do_test sys env env' al rp yield fuel sp clink wticks rticks ev w =
        Inr (if st = CMD_STATUS_SUCCESS then rc else 1, v\<lparr>w_handled := cmd_handled_init, w_buf := (w_buf v)(sp := None)\<rparr>)) \<and>
    ((\<forall>n. \<exists>x. slices yield n w2 = Inr x \<and> status_at sp CMD_STATUS_UNKNOWN x) \<longrightarrow>
      (\<forall>fuel. shmem_link_do_test sys env env' al rp yield fuel sp clink wticks rticks ev w = Inl Out_Of_Fuel))"
proof (intro conjI allI impI)
  fix n v st fuel
  assume a: "n \<le> fuel \<and> slices yield n w2 = Inr v \<and> status_at sp st v \<and> st \<noteq> CMD_STATUS_UNKNOWN \<and>
      (\<forall>m x. m < n \<longrightarrow> slices yield m w2 = Inr x \<longrightarrow> status_at sp CMD_STATUS_UNKNOWN x)"
  then have "status_unknown sp v = Inr False" using status_at_cond [of sp st v] by simp
  moreover have "status_unknown sp x = Inr True" if "m < n" "slices yield m w2 = Inr x" for m x
    using status_at_cond [of sp CMD_STATUS_UNKNOWN x] a that by simp
  ultimately have "wait_while (status_unknown sp) yield fuel w2 = Inr v"
    using wait_while_first [of n fuel yield w2 v "status_unknown sp"] a by blast
  moreover have "w_buf v sp = Some [status_code st]" using a by (simp add: status_at_def)
  ultimately show "shmem_link_do_test sys env env' al rp yield fuel sp clink wticks rticks ev w =
      Inr (if st = CMD_STATUS_SUCCESS then rc else 1, v\<lparr>w_handled := cmd_handled_init, w_buf := (w_buf v)(sp := None)\<rparr>)"
    using ping by (simp add: shmem_link_do_test_def Let_def status_code_inj cmd_handled_unregister_cb_def cmd_handled_init_def del: status_code.simps)
next
  fix fuel
  assume u: "\<forall>n. \<exists>x. slices yield n w2 = Inr x \<and> status_at sp CMD_STATUS_UNKNOWN x"
  have "\<exists>x. slices yield n w2 = Inr x \<and> status_unknown sp x = Inr True" for n
    using u [rule_format, of n] status_at_cond [of sp CMD_STATUS_UNKNOWN] by auto
  then have "wait_while (status_unknown sp) yield fuel w2 = Inl Out_Of_Fuel" by (rule wait_while_never)
  then show "shmem_link_do_test sys env env' al rp yield fuel sp clink wticks rticks ev w = Inl Out_Of_Fuel"
    using ping by (simp add: shmem_link_do_test_def Let_def del: status_code.simps)
qed

lemma demo_ping_quiet:
  "\<exists>w2. hpsc_test_link_ping demo_sys (\<lambda>_. Inr) (\<lambda>_. Inr) True 0x440 0x600 100 100 4
      (cmd_handled_register_cb (Some Link_shmem_test_handled_cb) 0x480 (demo_world\<lparr>w_buf := (w_buf demo_world)(0x480 \<mapsto> [3])\<rparr>)) = Inr (1, w2) \<and>
    w_buf w2 0x480 = Some [3]"
  by (simp add: hpsc_test_link_ping_def ping_msg_made link_request_def link_request_send_wait_def link_write_def link_shmem_write_def
     cmd_handled_register_cb_def shm_run_def shm_do_def shmem_write_eq shmem_set_new_def event_receive_def
     demo_world_def demo_link_shmem_def demo_rtems_def demo_k0_def demo_rctx_def Let_def)

lemma slices_idle: "slices Inr n w = Inr w"
  by (induction n) simp_all

text \<open>No acknowledgement comes: the test fails once some command has been handled, and otherwise waits forever.\<close>

theorem link_shmem_test_waits_witness:
  "(\<exists>w'. shmem_link_do_test demo_sys (\<lambda>_. Inr) (\<lambda>_. Inr) True 0x440 (\<lambda>w. Inr (w\<lparr>w_buf := (w_buf w)(0x480 \<mapsto> [0])\<rparr>)) 1 0x480 0x600
      100 100 4 demo_world = Inr (1, w') \<and> w_handled w' = cmd_handled_init) \<and>
   shmem_link_do_test demo_sys (\<lambda>_. Inr) (\<lambda>_. Inr) True 0x440 Inr 1000000 0x480 0x600 100 100 4 demo_world = Inl Out_Of_Fuel"
proof -
  let ?y = "\<lambda>w :: demo_kernel world. Inr (w\<lparr>w_buf := (w_buf w)(0x480 \<mapsto> [0])\<rparr>) :: demo_kernel world res"
  obtain w2 where w2: "hpsc_test_link_ping demo_sys (\<lambda>_. Inr) (\<lambda>_. Inr) True 0x440 0x600 100 100 4
      (cmd_handled_register_cb (Some Link_shmem_test_handled_cb) 0x480
        (demo_world\<lparr>w_buf := (w_buf demo_world)(0x480 \<mapsto> [status_code CMD_STATUS_UNKNOWN])\<rparr>)) = Inr (1, w2)" "w_buf w2 0x480 = Some [3]"
    using demo_ping_quiet by auto
  let ?v = "w2\<lparr>w_buf := (w_buf w2)(0x480 \<mapsto> [0])\<rparr>"
  have u: "status_at 0x480 CMD_STATUS_UNKNOWN w2" "status_at 0x480 CMD_STATUS_SUCCESS ?v" "slices ?y 1 w2 = Inr ?v"
    using w2(2) by (simp_all add: status_at_def)
  have "status_at 0x480 CMD_STATUS_UNKNOWN x" if "m < 1" "slices ?y m w2 = Inr x" for m x using that u(1) by simp
  then have "shmem_link_do_test demo_sys (\<lambda>_. Inr) (\<lambda>_. Inr) True 0x440 ?y 1 0x480 0x600 100 100 4 demo_world =
      Inr (1, ?v\<lparr>w_handled := cmd_handled_init, w_buf := (w_buf ?v)(0x480 := None)\<rparr>)"
    using link_shmem_test_waits [OF w2(1), of ?y, THEN conjunct1, rule_format, of 1 1 ?v CMD_STATUS_SUCCESS] u(2,3) by simp
  moreover have "\<exists>x. slices Inr n w2 = Inr x \<and> status_at 0x480 CMD_STATUS_UNKNOWN x" for n using u(1) by (simp add: slices_idle)
  then have "shmem_link_do_test demo_sys (\<lambda>_. Inr) (\<lambda>_. Inr) True 0x440 Inr 1000000 0x480 0x600 100 100 4 demo_world = Inl Out_Of_Fuel"
    using link_shmem_test_waits [OF w2(1), of Inr, THEN conjunct2] by blast
  ultimately show ?thesis by simp
qed

end
