(* ===== verification/Bus_Tests.thy ===== *)
theory Bus_Tests
  imports Platform
begin

text \<open>
  The tests of the drivers of the board support package (\<open>rtps-r52/tests/rtps-dma.c\<close>,
  \<open>rtps-r52/tests/rtps-mmu.c\<close>, \<open>rtps-r52/tests/lsio-sram.c\<close>).  The drivers are not in the repository: their
  calls are parameters, over the memory as the processor sees it and a state of the devices.  The
  labels that the tests jump to are definitions.  Console output is left out.
\<close>

subsection \<open>The drivers\<close>

text \<open>Memory by words, and the devices.\<close>

record 'd bus =
  b_mem :: "u32 \<Rightarrow> u32"
  b_dev :: 'd

type_synonym 'd bus_op = "'d bus \<Rightarrow> rtems_status_code \<times> 'd bus"

record 'd dma =
  dma_max_channels :: nat
  dma_init :: "'d bus_op"
  dma_channel_alloc :: "ptr \<Rightarrow> 'd bus_op"
  dma_copy_memory_to_memory :: "ptr \<Rightarrow> ptr \<Rightarrow> nat \<Rightarrow> 'd bus_op"
  dma_channel_is_stopped :: "'d bus \<Rightarrow> rtems_status_code \<times> bool \<times> 'd bus"
  dma_channel_is_faulted :: "'d bus \<Rightarrow> rtems_status_code \<times> bool \<times> 'd bus"
  dma_channel_free :: "'d bus_op"
  dma_uninit :: "'d bus_op"

record 'd mmu =
  mmu_init :: "'d bus_op"
  mmu_disable :: "'d bus_op"
  mmu_enable :: "'d bus_op"
  mmu_region_create :: "ptr \<Rightarrow> nat \<Rightarrow> nat \<Rightarrow> 'd bus_op"
  mmu_context_create :: "'d bus_op"
  mmu_stream_create :: "'d bus_op"
  mmu_map :: "ptr \<Rightarrow> ptr \<Rightarrow> nat \<Rightarrow> 'd bus_op"
  mmu_unmap :: "ptr \<Rightarrow> nat \<Rightarrow> 'd bus_op"
  mmu_stream_destroy :: "'d bus_op"
  mmu_context_destroy :: "'d bus_op"
  mmu_region_delete :: "'d bus_op"
  mmu_uninit :: "'d bus_op"

text \<open>\<open>sramfs_init\<close> takes the base address and whether to use the DMA engine; \<open>sramfs_load\<close> yields an address.\<close>

record 'd sramfs =
  sramfs_init :: "ptr \<Rightarrow> bool \<Rightarrow> 'd bus_op"
  sramfs_load :: "string \<Rightarrow> 'd bus \<Rightarrow> rtems_status_code \<times> ptr \<times> 'd bus"
  sramfs_load_addr :: "string \<Rightarrow> ptr \<Rightarrow> 'd bus_op"
  sramfs_uninit :: "'d bus_op"

subsection \<open>The tests\<close>

text \<open>\<open>TEST_SC_OR_SET_RC\<close> after a call that releases something.\<close>

definition TEST_SC_OR_SET_RC :: "'d bus_op \<Rightarrow> int \<times> 'd bus \<Rightarrow> int \<times> 'd bus" where
  "TEST_SC_OR_SET_RC f r = (case f (snd r) of (sc, s) \<Rightarrow> (if sc \<noteq> RTEMS_SUCCESSFUL then 1 else fst r, s))"

text \<open>\<open>TEST_SC_OR_SET_RC_GOTO\<close>: on failure go to the label with result 1, otherwise go on.\<close>

definition TEST_SC_OR_SET_RC_GOTO ::
  "'d bus_op \<Rightarrow> (int \<times> 'd bus \<Rightarrow> int \<times> 'd bus) \<Rightarrow> ('d bus \<Rightarrow> (int \<times> 'd bus) res) \<Rightarrow> 'd bus \<Rightarrow> (int \<times> 'd bus) res" where
  "TEST_SC_OR_SET_RC_GOTO f label next s = (case f s of (sc, s') \<Rightarrow> if sc \<noteq> RTEMS_SUCCESSFUL then Inr (label (1, s')) else next s')"

text \<open>The loop that fills the source buffer, and the comparison of the two buffers.\<close>

definition dma_words :: nat where "dma_words = RTPS_DMA_SIZE div 4"

definition word_addr :: "nat \<Rightarrow> nat \<Rightarrow> u32" where "word_addr base i = of_nat (base + 4 * i)"

definition src_word :: "nat \<Rightarrow> u32" where "src_word i = 0xf00d0000 OR of_nat i"

fun fill_src :: "nat \<Rightarrow> 'd bus \<Rightarrow> 'd bus" where
  "fill_src 0 s = s"
| "fill_src (Suc i) s = (let s' = fill_src i s in s'\<lparr>b_mem := (b_mem s')(word_addr RTPS_DMA_SRC_ADDR i := src_word i)\<rparr>)"

definition buffers_equal :: "'d bus \<Rightarrow> bool" where
  "buffers_equal s = (\<forall>i \<in> set [0..<dma_words]. b_mem s (word_addr RTPS_DMA_SRC_ADDR i) = b_mem s (word_addr RTPS_DMA_DST_ADDR i))"

text \<open>The loop that waits for the channel; the result says whether both queries worked, and whether a fault was reported.\<close>

fun dma_wait :: "nat \<Rightarrow> 'd dma \<Rightarrow> bool \<Rightarrow> bool \<Rightarrow> 'd bus \<Rightarrow> (bool \<times> bool \<times> 'd bus) res" where
  "dma_wait 0 D stopped faulted s = (if stopped \<or> faulted then Inr (True, faulted, s) else Inl Out_Of_Fuel)"
| "dma_wait (Suc n) D stopped faulted s =
     (if stopped \<or> faulted then Inr (True, faulted, s)
      else case dma_channel_is_stopped D s of (sc, b, s1) \<Rightarrow>
        if sc \<noteq> RTEMS_SUCCESSFUL then Inr (False, faulted, s1)
        else case dma_channel_is_faulted D s1 of (sc', f, s2) \<Rightarrow>
          if sc' \<noteq> RTEMS_SUCCESSFUL then Inr (False, faulted, s2) else dma_wait n D b f s2)"

definition dma_out_uninit :: "'d dma \<Rightarrow> int \<times> 'd bus \<Rightarrow> int \<times> 'd bus" where
  "dma_out_uninit D r = TEST_SC_OR_SET_RC (dma_uninit D) r"

definition dma_out_chan_free :: "'d dma \<Rightarrow> int \<times> 'd bus \<Rightarrow> int \<times> 'd bus" where
  "dma_out_chan_free D r = dma_out_uninit D (TEST_SC_OR_SET_RC (dma_channel_free D) r)"

definition test_rtps_dma :: "'d dma \<Rightarrow> nat \<Rightarrow> 'd bus \<Rightarrow> (int \<times> 'd bus) res" where
  "test_rtps_dma D fuel s =
     (if \<not> dma_max_channels D > 0 then Inr (1, s)
      else TEST_SC_OR_SET_RC_GOTO (dma_init D) id
       (TEST_SC_OR_SET_RC_GOTO (dma_channel_alloc D (of_nat RTPS_DMA_MCODE_ADDR)) (dma_out_uninit D)
         (\<lambda>s. TEST_SC_OR_SET_RC_GOTO
           (dma_copy_memory_to_memory D (of_nat RTPS_DMA_DST_REMAP_ADDR) (of_nat RTPS_DMA_SRC_ADDR) RTPS_DMA_SIZE)
           (dma_out_chan_free D)
           (\<lambda>s. res_bind (dma_wait fuel D False False s) (\<lambda>(ok, faulted, s).
              Inr (dma_out_chan_free D (if \<not> ok \<or> faulted \<or> \<not> buffers_equal s then 1 else 0, s))))
           (fill_src dma_words s))) s)"

definition RTPS_DMA_SIZE_12BIT :: nat where "RTPS_DMA_SIZE_12BIT = 0x1000"

definition mmu_out_uninit :: "'d mmu \<Rightarrow> int \<times> 'd bus \<Rightarrow> int \<times> 'd bus" where
  "mmu_out_uninit M r = TEST_SC_OR_SET_RC (mmu_uninit M) r"

definition mmu_out_region_delete :: "'d mmu \<Rightarrow> int \<times> 'd bus \<Rightarrow> int \<times> 'd bus" where
  "mmu_out_region_delete M r = mmu_out_uninit M (TEST_SC_OR_SET_RC (mmu_region_delete M) r)"

definition mmu_out_context_destroy :: "'d mmu \<Rightarrow> int \<times> 'd bus \<Rightarrow> int \<times> 'd bus" where
  "mmu_out_context_destroy M r = mmu_out_region_delete M (TEST_SC_OR_SET_RC (mmu_context_destroy M) r)"

definition mmu_out_stream_destroy :: "'d mmu \<Rightarrow> int \<times> 'd bus \<Rightarrow> int \<times> 'd bus" where
  "mmu_out_stream_destroy M r = mmu_out_context_destroy M (TEST_SC_OR_SET_RC (mmu_stream_destroy M) r)"

definition mmu_out_unmap1 :: "'d mmu \<Rightarrow> int \<times> 'd bus \<Rightarrow> int \<times> 'd bus" where
  "mmu_out_unmap1 M r = mmu_out_stream_destroy M (TEST_SC_OR_SET_RC (mmu_unmap M (of_nat RTPS_DMA_MCODE_ADDR) RTPS_DMA_MCODE_SIZE) r)"

definition mmu_out_unmap2 :: "'d mmu \<Rightarrow> int \<times> 'd bus \<Rightarrow> int \<times> 'd bus" where
  "mmu_out_unmap2 M r = mmu_out_unmap1 M (TEST_SC_OR_SET_RC (mmu_unmap M (of_nat RTPS_DMA_SRC_ADDR) RTPS_DMA_SIZE_12BIT) r)"

definition mmu_out_unmap3 :: "'d mmu \<Rightarrow> int \<times> 'd bus \<Rightarrow> int \<times> 'd bus" where
  "mmu_out_unmap3 M r = mmu_out_unmap2 M (TEST_SC_OR_SET_RC (mmu_unmap M (of_nat RTPS_DMA_DST_ADDR) RTPS_DMA_SIZE_12BIT) r)"

definition mmu_out_unmap4 :: "'d mmu \<Rightarrow> int \<times> 'd bus \<Rightarrow> int \<times> 'd bus" where
  "mmu_out_unmap4 M r = mmu_out_unmap3 M (TEST_SC_OR_SET_RC (mmu_unmap M (of_nat RTPS_DMA_DST_REMAP_ADDR) RTPS_DMA_SIZE_12BIT) r)"

text \<open>\<open>dma_test\<close> is the test of the DMA engine.\<close>

definition test_rtps_mmu ::
  "'d mmu \<Rightarrow> ('d bus \<Rightarrow> (int \<times> 'd bus) res) \<Rightarrow> bool \<Rightarrow> 'd bus \<Rightarrow> (int \<times> 'd bus) res" where
  "test_rtps_mmu M dma_test do_dma_test =
     TEST_SC_OR_SET_RC_GOTO (mmu_init M) id
     (TEST_SC_OR_SET_RC_GOTO (mmu_disable M) (mmu_out_uninit M)
     (TEST_SC_OR_SET_RC_GOTO (mmu_region_create M (of_nat RTPS_PT_ADDR) RTPS_PT_SIZE 0x1000) (mmu_out_uninit M)
     (TEST_SC_OR_SET_RC_GOTO (mmu_context_create M) (mmu_out_region_delete M)
     (TEST_SC_OR_SET_RC_GOTO (mmu_stream_create M) (mmu_out_context_destroy M)
     (TEST_SC_OR_SET_RC_GOTO (mmu_map M (of_nat RTPS_DMA_MCODE_ADDR) (of_nat RTPS_DMA_MCODE_ADDR) RTPS_DMA_MCODE_SIZE) (mmu_out_stream_destroy M)
     (TEST_SC_OR_SET_RC_GOTO (mmu_map M (of_nat RTPS_DMA_SRC_ADDR) (of_nat RTPS_DMA_SRC_ADDR) RTPS_DMA_SIZE_12BIT) (mmu_out_unmap1 M)
     (TEST_SC_OR_SET_RC_GOTO (mmu_map M (of_nat RTPS_DMA_DST_ADDR) (of_nat RTPS_DMA_DST_ADDR) RTPS_DMA_SIZE_12BIT) (mmu_out_unmap2 M)
     (TEST_SC_OR_SET_RC_GOTO (mmu_map M (of_nat RTPS_DMA_DST_REMAP_ADDR) (of_nat RTPS_DMA_DST_ADDR) RTPS_DMA_SIZE_12BIT) (mmu_out_unmap3 M)
     (TEST_SC_OR_SET_RC_GOTO (mmu_enable M) (mmu_out_unmap4 M)
       (\<lambda>s. res_bind (if do_dma_test then dma_test s else Inr (0, s)) (\<lambda>r. Inr (mmu_out_unmap4 M r))))))))))))"

definition HPSC_TEST_SFS_OFFSET :: nat where "HPSC_TEST_SFS_OFFSET = 0x20100"

text \<open>The base of the memory, \<open>SMC_LSIO_SRAM_BASE0\<close> of the board support package, is an argument.\<close>

definition HPSC_TEST_SFS_BASE :: "nat \<Rightarrow> nat" where "HPSC_TEST_SFS_BASE base0 = base0 + HPSC_TEST_SFS_OFFSET"

definition test_lsio_sram :: "nat \<Rightarrow> 'd sramfs \<Rightarrow> 'd bus \<Rightarrow> (int \<times> 'd bus) res" where
  "test_lsio_sram base0 F =
     TEST_SC_OR_SET_RC_GOTO (sramfs_init F (of_nat (HPSC_TEST_SFS_BASE base0)) False) id
       (\<lambda>s. case sramfs_load F ''test-data'' s of (sc, load_addr, s) \<Rightarrow>
          Inr (TEST_SC_OR_SET_RC (sramfs_uninit F)
            (if sc \<noteq> RTEMS_SUCCESSFUL then 1 else if load_addr = NULL then 1
             else if \<not> b_mem s load_addr AND 0xffffffff = 0x54545454 then 1 else 0, s)))"

definition test_lsio_sram_dma :: "nat \<Rightarrow> 'd dma \<Rightarrow> 'd sramfs \<Rightarrow> 'd bus \<Rightarrow> (int \<times> 'd bus) res" where
  "test_lsio_sram_dma base0 D F =
     (let load_addr = of_nat RTPS_DDR_ADDR__RTPS_R52_LOCKSTEP in
      TEST_SC_OR_SET_RC_GOTO (dma_init D) id
      (TEST_SC_OR_SET_RC_GOTO (sramfs_init F (of_nat (HPSC_TEST_SFS_BASE base0)) True) (TEST_SC_OR_SET_RC (dma_uninit D))
      (TEST_SC_OR_SET_RC_GOTO (sramfs_load_addr F ''test-data'' load_addr)
         (\<lambda>r. TEST_SC_OR_SET_RC (dma_uninit D) (TEST_SC_OR_SET_RC (sramfs_uninit F) r))
        (\<lambda>s. Inr (TEST_SC_OR_SET_RC (dma_uninit D) (TEST_SC_OR_SET_RC (sramfs_uninit F)
           (if \<not> b_mem s load_addr AND 0xffffffff = 0x54545454 then 1 else 0, s)))))))"


subsection \<open>The tests as nested brackets\<close>

text \<open>
  A reference for code that acquires resources one after the other and jumps to the label that releases
  those it has: each call is paired with the call that undoes it, if there is one.
\<close>

fun bracket :: "('d bus_op \<times> 'd bus_op option) list \<Rightarrow> ('d bus \<Rightarrow> (int \<times> 'd bus) res) \<Rightarrow> 'd bus \<Rightarrow> (int \<times> 'd bus) res" where
  "bracket [] body s = body s"
| "bracket ((f, g) # xs) body s = (case f s of (sc, s') \<Rightarrow>
     if sc \<noteq> RTEMS_SUCCESSFUL then Inr (1, s')
     else res_bind (bracket xs body s') (\<lambda>r. Inr (case g of None \<Rightarrow> r | Some g \<Rightarrow> TEST_SC_OR_SET_RC g r)))"

definition dma_calls :: "'d dma \<Rightarrow> ('d bus_op \<times> 'd bus_op option) list" where
  "dma_calls D = [(dma_init D, Some (dma_uninit D)), (dma_channel_alloc D (of_nat RTPS_DMA_MCODE_ADDR), Some (dma_channel_free D)),
     (\<lambda>s. dma_copy_memory_to_memory D (of_nat RTPS_DMA_DST_REMAP_ADDR) (of_nat RTPS_DMA_SRC_ADDR) RTPS_DMA_SIZE (fill_src dma_words s), None)]"

definition dma_check :: "'d dma \<Rightarrow> nat \<Rightarrow> 'd bus \<Rightarrow> (int \<times> 'd bus) res" where
  "dma_check D fuel s = res_bind (dma_wait fuel D False False s) (\<lambda>(ok, faulted, s).
     Inr (if \<not> ok \<or> faulted \<or> \<not> buffers_equal s then 1 else 0, s))"

definition mmu_calls :: "'d mmu \<Rightarrow> ('d bus_op \<times> 'd bus_op option) list" where
  "mmu_calls M = [(mmu_init M, Some (mmu_uninit M)), (mmu_disable M, None),
     (mmu_region_create M (of_nat RTPS_PT_ADDR) RTPS_PT_SIZE 0x1000, Some (mmu_region_delete M)),
     (mmu_context_create M, Some (mmu_context_destroy M)), (mmu_stream_create M, Some (mmu_stream_destroy M))] @
     map (\<lambda>(va, pa, sz). (mmu_map M (of_nat va) (of_nat pa) sz, Some (mmu_unmap M (of_nat va) sz)))
       [(RTPS_DMA_MCODE_ADDR, RTPS_DMA_MCODE_ADDR, RTPS_DMA_MCODE_SIZE), (RTPS_DMA_SRC_ADDR, RTPS_DMA_SRC_ADDR, RTPS_DMA_SIZE_12BIT),
        (RTPS_DMA_DST_ADDR, RTPS_DMA_DST_ADDR, RTPS_DMA_SIZE_12BIT), (RTPS_DMA_DST_REMAP_ADDR, RTPS_DMA_DST_ADDR, RTPS_DMA_SIZE_12BIT)] @
     [(mmu_enable M, None)]"

lemma test_rtps_dma_bracket:
  "test_rtps_dma D fuel s = (if dma_max_channels D = 0 then Inr (1, s) else bracket (dma_calls D) (dma_check D fuel) s)"
  by (auto simp: test_rtps_dma_def dma_calls_def dma_check_def TEST_SC_OR_SET_RC_GOTO_def dma_out_chan_free_def dma_out_uninit_def
      res_bind_assoc split: prod.split intro!: arg_cong2 [where f = res_bind])

lemma test_rtps_mmu_bracket:
  "test_rtps_mmu M dma_test d s = bracket (mmu_calls M) (if d then dma_test else (\<lambda>s. Inr (0, s))) s"
  by (simp add: test_rtps_mmu_def mmu_calls_def TEST_SC_OR_SET_RC_GOTO_def mmu_out_unmap4_def mmu_out_unmap3_def mmu_out_unmap2_def
      mmu_out_unmap1_def mmu_out_stream_destroy_def mmu_out_context_destroy_def mmu_out_region_delete_def mmu_out_uninit_def
      res_bind_assoc split: prod.split)


theorem bus_tests_are_brackets:
  "test_rtps_dma D fuel s = (if dma_max_channels D = 0 then Inr (1, s) else bracket (dma_calls D) (dma_check D fuel) s) \<and>
   test_rtps_mmu M dma_test d s = bracket (mmu_calls M) (if d then dma_test else (\<lambda>s. Inr (0, s))) s \<and>
   test_lsio_sram_dma base0 D F s =
     bracket [(dma_init D, Some (dma_uninit D)), (sramfs_init F (of_nat (HPSC_TEST_SFS_BASE base0)) True, Some (sramfs_uninit F)),
         (sramfs_load_addr F ''test-data'' (of_nat RTPS_DDR_ADDR__RTPS_R52_LOCKSTEP), None)]
       (\<lambda>s. Inr (if b_mem s (of_nat RTPS_DDR_ADDR__RTPS_R52_LOCKSTEP) AND 0xffffffff = 0x54545454 then 0 else 1, s)) s"
proof (intro conjI)
  show "test_lsio_sram_dma base0 D F s =
     bracket [(dma_init D, Some (dma_uninit D)), (sramfs_init F (of_nat (HPSC_TEST_SFS_BASE base0)) True, Some (sramfs_uninit F)),
         (sramfs_load_addr F ''test-data'' (of_nat RTPS_DDR_ADDR__RTPS_R52_LOCKSTEP), None)]
       (\<lambda>s. Inr (if b_mem s (of_nat RTPS_DDR_ADDR__RTPS_R52_LOCKSTEP) AND 0xffffffff = 0x54545454 then 0 else 1, s)) s"
    by (simp add: test_lsio_sram_dma_def TEST_SC_OR_SET_RC_GOTO_def Let_def split: prod.split)
qed (rule test_rtps_dma_bracket test_rtps_mmu_bracket)+

subsection \<open>What the tests leave behind\<close>

text \<open>
  \<open>held\<close> lists the resources in use, the newest first: a call that succeeds takes its resource, and the
  call that undoes it succeeds on the newest one.
\<close>

definition takes :: "('d bus \<Rightarrow> 'r list) \<Rightarrow> 'r \<Rightarrow> 'd bus_op \<Rightarrow> bool" where
  "takes held r f \<longleftrightarrow> (\<forall>s. held (snd (f s)) = (if fst (f s) = RTEMS_SUCCESSFUL then r # held s else held s))"

definition gives_back :: "('d bus \<Rightarrow> 'r list) \<Rightarrow> 'r \<Rightarrow> 'd bus_op \<Rightarrow> bool" where
  "gives_back held r g \<longleftrightarrow> (\<forall>s rs. held s = r # rs \<longrightarrow> fst (g s) = RTEMS_SUCCESSFUL \<and> held (snd (g s)) = rs)"

fun paired :: "('d bus \<Rightarrow> 'r list) \<Rightarrow> ('d bus_op \<times> 'd bus_op option) list \<Rightarrow> bool" where
  "paired held [] \<longleftrightarrow> True"
| "paired held ((f, Some g) # xs) \<longleftrightarrow> (\<exists>r. takes held r f \<and> gives_back held r g) \<and> paired held xs"
| "paired held ((f, None) # xs) \<longleftrightarrow> (\<forall>s. held (snd (f s)) = held s) \<and> paired held xs"

text \<open>The state in which the body runs, if all calls before it succeed.\<close>

fun reached :: "('d bus_op \<times> 'd bus_op option) list \<Rightarrow> 'd bus \<Rightarrow> 'd bus option" where
  "reached [] s = Some s"
| "reached ((f, g) # xs) s = (case f s of (sc, s') \<Rightarrow> if sc = RTEMS_SUCCESSFUL then reached xs s' else None)"

lemma bracket_released:
  assumes "paired held xs" and "\<And>v. reached xs s = Some v \<Longrightarrow> \<exists>rc s'. body v = Inr (rc, s') \<and> held s' = held v"
  shows "\<exists>rc s'. bracket xs body s = Inr (rc, s') \<and> held s' = held s \<and>
    (rc = 0 \<longleftrightarrow> (\<exists>v s'. reached xs s = Some v \<and> body v = Inr (0, s')))"
  using assms
proof (induction xs arbitrary: s)
  case Nil
  then show ?case by fastforce
next
  case (Cons x xs)
  obtain f g where x: "x = (f, g)" by fastforce
  obtain sc s1 where f: "f s = (sc, s1)" by fastforce
  have rest: "paired held xs" using Cons.prems(1) x by (cases g) auto
  show ?case
  proof (cases "sc = RTEMS_SUCCESSFUL")
    case False
    then have "held s1 = held s" using Cons.prems(1) x f by (cases g) (auto simp: takes_def dest: spec [of _ s])
    then show ?thesis using False x f by simp
  next
    case True
    then have re: "reached (x # xs) s = reached xs s1" using x f by simp
    obtain rc s' where b: "bracket xs body s1 = Inr (rc, s')" "held s' = held s1"
        "rc = 0 \<longleftrightarrow> (\<exists>v s'. reached xs s1 = Some v \<and> body v = Inr (0, s'))"
      using Cons.IH [OF rest, of s1] Cons.prems(2) re by auto
    show ?thesis
    proof (cases g)
      case None
      then have "held s1 = held s" using Cons.prems(1) x f by (auto dest: spec [of _ s])
      then show ?thesis using None b x f True re by simp
    next
      case (Some g')
      then obtain r where r: "takes held r f" "gives_back held r g'" using Cons.prems(1) x by auto
      have "held s1 = r # held s" using r(1) [unfolded takes_def, rule_format, of s] f True by simp
      then have "fst (g' s') = RTEMS_SUCCESSFUL" "held (snd (g' s')) = held s"
        using r(2) [unfolded gives_back_def, rule_format, of s' "held s"] b(2) by simp_all
      then have "TEST_SC_OR_SET_RC g' (rc, s') = (rc, snd (g' s'))" "held (snd (g' s')) = held s"
        by (cases "g' s'"; simp add: TEST_SC_OR_SET_RC_def)+
      then show ?thesis using Some b(1,3) x f True re by simp
    qed
  qed
qed

text \<open>The engine gets closer to its end with every query that finds it running.\<close>

definition engine_laws :: "'d dma \<Rightarrow> ('d bus \<Rightarrow> 'r list) \<Rightarrow> ('d bus \<Rightarrow> nat) \<Rightarrow> bool" where
  "engine_laws D held busy \<longleftrightarrow>
     (\<forall>s. case dma_channel_is_stopped D s of (sc, b, s') \<Rightarrow> held s' = held s \<and> (sc = RTEMS_SUCCESSFUL \<and> \<not> b \<longrightarrow> busy s' < busy s)) \<and>
     (\<forall>s. case dma_channel_is_faulted D s of (sc, b, s') \<Rightarrow> held s' = held s \<and> busy s' \<le> busy s)"

lemma dma_wait_ends:
  assumes e: "engine_laws D held busy" and n: "busy s < n"
  shows "\<exists>ok f s'. dma_wait n D False False s = Inr (ok, f, s') \<and> held s' = held s"
  using n
proof (induction n arbitrary: s)
  case 0
  then show ?case by simp
next
  case (Suc n)
  obtain sc b s1 where st: "dma_channel_is_stopped D s = (sc, b, s1)" using prod_cases3 by blast
  obtain sc' f s2 where fa: "dma_channel_is_faulted D s1 = (sc', f, s2)" using prod_cases3 by blast
  have h: "held s1 = held s" "sc = RTEMS_SUCCESSFUL \<Longrightarrow> \<not> b \<Longrightarrow> busy s1 < busy s" "held s2 = held s1" "busy s2 \<le> busy s1"
    using e [unfolded engine_laws_def, THEN conjunct1, rule_format, of s] st
      e [unfolded engine_laws_def, THEN conjunct2, rule_format, of s1] fa by simp_all
  consider "sc \<noteq> RTEMS_SUCCESSFUL" | "sc = RTEMS_SUCCESSFUL" "sc' \<noteq> RTEMS_SUCCESSFUL"
    | "sc = RTEMS_SUCCESSFUL" "sc' = RTEMS_SUCCESSFUL" "b \<or> f" | "sc = RTEMS_SUCCESSFUL" "sc' = RTEMS_SUCCESSFUL" "\<not> b" "\<not> f" by blast
  then show ?case
  proof cases
    case 3
    have "dma_wait m D x y v = Inr (True, y, v)" if "x \<or> y" for m x y and v :: "'a bus" using that by (cases m) auto
    then show ?thesis using 3 st fa h by (intro exI [of _ True] exI [of _ f] exI [of _ s2]) simp
  next
    case 4
    then have "busy s2 < n" using h Suc.prems by simp
    then show ?thesis using Suc.IH [of s2] 4 st fa h by simp
  qed (use st fa h in auto)
qed


text \<open>
  Devices of the witness: every call works, the engine is done at once, and the memory it writes is repeated
  every four kilobytes.
\<close>

definition demo_take :: "u32 \<Rightarrow> u32 list bus_op" where
  "demo_take r s = (RTEMS_SUCCESSFUL, s\<lparr>b_dev := r # b_dev s\<rparr>)"

definition demo_give :: "u32 list bus_op" where
  "demo_give s = (RTEMS_SUCCESSFUL, s\<lparr>b_dev := tl (b_dev s)\<rparr>)"

definition demo_dma :: "u32 list dma" where
  "demo_dma = \<lparr>dma_max_channels = 8, dma_init = demo_take 1, dma_channel_alloc = demo_take,
     dma_copy_memory_to_memory = (\<lambda>_ _ _ s. (RTEMS_SUCCESSFUL, s\<lparr>b_mem := (\<lambda>a. b_mem s (of_nat RTPS_DMA_SRC_ADDR + take_bit 12 a))\<rparr>)),
     dma_channel_is_stopped = (\<lambda>s. (RTEMS_SUCCESSFUL, True, s)), dma_channel_is_faulted = (\<lambda>s. (RTEMS_SUCCESSFUL, False, s)),
     dma_channel_free = demo_give, dma_uninit = demo_give\<rparr>"

definition demo_mmu :: "u32 list mmu" where
  "demo_mmu = \<lparr>mmu_init = demo_take 2, mmu_disable = (\<lambda>s. (RTEMS_SUCCESSFUL, s)), mmu_enable = (\<lambda>s. (RTEMS_SUCCESSFUL, s)),
     mmu_region_create = (\<lambda>_ _ _. demo_take 3), mmu_context_create = demo_take 4, mmu_stream_create = demo_take 5,
     mmu_map = (\<lambda>va _ _. demo_take va), mmu_unmap = (\<lambda>_ _. demo_give), mmu_stream_destroy = demo_give,
     mmu_context_destroy = demo_give, mmu_region_delete = demo_give, mmu_uninit = demo_give\<rparr>"

lemma demo_pairs: "takes b_dev r (demo_take r)" "gives_back b_dev r demo_give"
  by (simp_all add: takes_def gives_back_def demo_take_def demo_give_def)

lemma demo_paired: "paired b_dev (mmu_calls demo_mmu)" "paired b_dev (dma_calls demo_dma)"
proof -
  have "b_dev (fill_src i s) = b_dev s" for i and s :: "u32 list bus" by (induction i) (simp_all add: Let_def)
  then show "paired b_dev (dma_calls demo_dma)"
    using demo_pairs by (auto simp: dma_calls_def demo_dma_def)
  show "paired b_dev (mmu_calls demo_mmu)"
    using demo_pairs by (auto simp: mmu_calls_def demo_mmu_def)
qed

lemma word_addr_low: "take_bit 12 (word_addr b i) = of_nat ((b + 4 * i) mod 4096)"
proof -
  have "take_bit 12 (word_addr b i) = of_nat (take_bit 12 (b + 4 * i))" unfolding word_addr_def by (rule take_bit_of_nat)
  then show ?thesis by (simp only: take_bit_eq_mod) simp
qed

lemma demo_mirror: "take_bit 12 (word_addr RTPS_DMA_SRC_ADDR i) = take_bit 12 (word_addr RTPS_DMA_DST_ADDR i)"
proof -
  have "(RTPS_DMA_SRC_ADDR + 4 * i) mod 4096 = (RTPS_DMA_DST_ADDR + 4 * i) mod 4096"
    by (intro mod_add_cong) (simp_all add: RTPS_DMA_SRC_ADDR_def RTPS_DMA_DST_ADDR_def)
  then show ?thesis unfolding word_addr_low by (rule arg_cong)
qed

lemma demo_reached_mmu: "\<exists>v. reached (mmu_calls demo_mmu) s = Some v"
  by (simp add: mmu_calls_def demo_mmu_def demo_take_def)

lemma demo_reached_dma: "\<exists>u m. reached (dma_calls demo_dma) v = Some u \<and> b_mem u = (\<lambda>a. m (of_nat RTPS_DMA_SRC_ADDR + take_bit 12 a))"
  by (simp add: dma_calls_def demo_dma_def demo_take_def) (rule exI, rule refl)

lemma demo_engine: "engine_laws demo_dma b_dev (\<lambda>_. 0)" by (simp add: engine_laws_def demo_dma_def)


end
