(* ===== verification/Mbox_Test.thy ===== *)
theory Mbox_Test
  imports Link_Setup
begin

text \<open>
  The self-test of the mailbox driver (\<open>lib/drivers-selftest/hpsc-mbox-test.c\<close>): a message is sent
  over one channel to the task itself.  What interrupts do while the test waits is an argument.
\<close>

subsection \<open>Model\<close>

datatype hpsc_mbox_test_rc =
    HPSC_MBOX_TEST_SUCCESS | HPSC_MBOX_TEST_PROBE | HPSC_MBOX_TEST_REMOVE | HPSC_MBOX_TEST_CHAN_CLAIM
  | HPSC_MBOX_TEST_CHAN_RELEASE | HPSC_MBOX_TEST_CHAN_WRITE | HPSC_MBOX_TEST_CHAN_NO_RECV | HPSC_MBOX_TEST_CHAN_NO_ACK
  | HPSC_MBOX_TEST_CHAN_BAD_RECV | HPSC_MBOX_TEST_CHAN_MULTIPLE_RECV | HPSC_MBOX_TEST_CHAN_MULTIPLE_ACK

text \<open>The string with its terminating null byte.\<close>

definition TEST_MSG :: "u8 list" where
  "TEST_MSG = map (\<lambda>c. of_nat (of_char c)) ''HPSC MBOX TEST MSG'' @ [0]"

definition TEST_TIMEOUT_TICKS :: rtems_interval where "TEST_TIMEOUT_TICKS = 1000"
definition MBOX_EVENT_RECV :: rtems_event_set where "MBOX_EVENT_RECV = 1"
definition MBOX_EVENT_ACK :: rtems_event_set where "MBOX_EVENT_ACK = 2"

record hpsc_mbox_test =
  mt_instance :: nat
  mt_tid :: rtems_id
  rx_rc :: hpsc_mbox_test_rc
  ack_rc :: hpsc_mbox_test_rc

record 'k mbox_test_st =
  mt_drv :: mbox_st
  mt_ctx :: hpsc_mbox_test
  mt_ker :: 'k

definition mbox_test_addr :: ptr where "mbox_test_addr = 0x10"

text \<open>Whether \<open>strncmp\<close> finds its arguments equal; it must not read behind either of them.\<close>

fun strncmp_eq :: "nat \<Rightarrow> u8 list \<Rightarrow> u8 list \<Rightarrow> bool res" where
  "strncmp_eq 0 _ _ = Inr True"
| "strncmp_eq (Suc n) (x # xs) (y # ys) = (if x \<noteq> y then Inr False else if x = 0 then Inr True else strncmp_eq n xs ys)"
| "strncmp_eq _ _ _ = Inl Undef"

definition cb_recv :: "'k rtems \<Rightarrow> mbox_hw \<Rightarrow> 'k mbox_test_st \<Rightarrow> 'k mbox_test_st res" where
  "cb_recv K hw s =
     (let i = mt_instance (mt_ctx s);
          sent = (\<lambda>s. s\<lparr>mt_ker := snd (rt_event_send K (mt_tid (mt_ctx s)) MBOX_EVENT_RECV (mt_ker s))\<rparr>);
          rx = (\<lambda>rc s. s\<lparr>mt_ctx := (mt_ctx s)\<lparr>rx_rc := rc\<rparr>\<rparr>) in
      if rx_rc (mt_ctx s) = HPSC_MBOX_TEST_CHAN_NO_RECV
      then res_bind (hpsc_mbox_chan_read i (Some (replicate HPSC_MBOX_DATA_SIZE 0)) HPSC_MBOX_DATA_SIZE (mt_drv s)) (\<lambda>(sz, buf).
           res_bind (hpsc_mbox_chan_event_clear_rcv hw i (mt_drv s)) (\<lambda>d1.
           res_bind (hpsc_mbox_chan_event_set_ack hw i d1) (\<lambda>d2.
           res_bind (if sz = HPSC_MBOX_DATA_SIZE then strncmp_eq HPSC_MBOX_DATA_SIZE buf TEST_MSG else Inr False) (\<lambda>eq.
             Inr (sent (rx (if eq then HPSC_MBOX_TEST_SUCCESS else HPSC_MBOX_TEST_CHAN_BAD_RECV) (s\<lparr>mt_drv := d2\<rparr>)))))))
      else Inr (sent (rx HPSC_MBOX_TEST_CHAN_MULTIPLE_RECV s)))"

definition cb_ack :: "'k rtems \<Rightarrow> mbox_hw \<Rightarrow> 'k mbox_test_st \<Rightarrow> 'k mbox_test_st res" where
  "cb_ack K hw s =
     res_bind (hpsc_mbox_chan_event_clear_ack hw (mt_instance (mt_ctx s)) (mt_drv s)) (\<lambda>d.
       let rc = (if ack_rc (mt_ctx s) = HPSC_MBOX_TEST_CHAN_NO_ACK then HPSC_MBOX_TEST_SUCCESS else HPSC_MBOX_TEST_CHAN_MULTIPLE_ACK) in
       Inr (s\<lparr>mt_drv := d, mt_ctx := (mt_ctx s)\<lparr>ack_rc := rc\<rparr>,
              mt_ker := snd (rt_event_send K (mt_tid (mt_ctx s)) MBOX_EVENT_ACK (mt_ker s))\<rparr>))"

text \<open>
  The driver copies whole words, so it reads behind the 19 bytes of the message; \<open>behind\<close> is what
  follows the string in its object, \<open>[]\<close> in the code.
\<close>

definition test_loopback ::
  "'k rtems \<Rightarrow> mbox_hw \<Rightarrow> u8 list \<Rightarrow> (rtems_interval \<Rightarrow> 'k mbox_test_st \<Rightarrow> 'k mbox_test_st res) \<Rightarrow> 'k mbox_test_st \<Rightarrow>
   (hpsc_mbox_test_rc \<times> 'k mbox_test_st) res" where
  "test_loopback K hw behind wait s =
     res_bind (hpsc_mbox_chan_write (mt_instance (mt_ctx s)) (Some (TEST_MSG @ behind)) (length TEST_MSG) (mt_drv s)) (\<lambda>(sz, d1).
     res_bind (hpsc_mbox_chan_event_set_rcv hw (mt_instance (mt_ctx s)) d1) (\<lambda>d2.
       let s1 = s\<lparr>mt_drv := d2\<rparr> in
       if sz < length TEST_MSG then Inr (HPSC_MBOX_TEST_CHAN_WRITE, s1)
       else res_bind (wait TEST_TIMEOUT_TICKS s1) (\<lambda>s2.
         let s3 = s2\<lparr>mt_ker := snd (rt_event_take_all K (MBOX_EVENT_RECV OR MBOX_EVENT_ACK) (mt_ker s2))\<rparr> in
         Inr (if rx_rc (mt_ctx s3) \<noteq> HPSC_MBOX_TEST_SUCCESS then rx_rc (mt_ctx s3)
              else if ack_rc (mt_ctx s3) \<noteq> HPSC_MBOX_TEST_SUCCESS then ack_rc (mt_ctx s3)
              else HPSC_MBOX_TEST_SUCCESS, s3))))"

definition hpsc_mbox_chan_test ::
  "'k rtems \<Rightarrow> mbox_hw \<Rightarrow> u8 list \<Rightarrow> (rtems_interval \<Rightarrow> 'k mbox_test_st \<Rightarrow> 'k mbox_test_st res) \<Rightarrow>
   nat \<Rightarrow> u8 \<Rightarrow> u8 \<Rightarrow> u8 \<Rightarrow> mbox_st \<Rightarrow> 'k \<Rightarrow> (hpsc_mbox_test_rc \<times> mbox_st \<times> 'k) res" where
  "hpsc_mbox_chan_test K hw behind wait i owner src dest d k =
     (let ctx = \<lparr>mt_instance = i, mt_tid = rt_task_self K k, rx_rc = HPSC_MBOX_TEST_CHAN_NO_RECV, ack_rc = HPSC_MBOX_TEST_CHAN_NO_ACK\<rparr> in
      res_bind (hpsc_mbox_chan_claim hw (rt_int_in_progress K k) i owner src dest (Some Mbox_test_cb_recv) (Some Mbox_test_cb_ack)
          mbox_test_addr d) (\<lambda>(sc, d1).
        if sc \<noteq> RTEMS_SUCCESSFUL then Inr (HPSC_MBOX_TEST_CHAN_CLAIM, d1, k)
        else res_bind (test_loopback K hw behind wait \<lparr>mt_drv = d1, mt_ctx = ctx, mt_ker = k\<rparr>) (\<lambda>(rc, s).
             res_bind (hpsc_mbox_chan_release hw (rt_int_in_progress K (mt_ker s)) i (mt_drv s)) (\<lambda>(sc', d2).
               Inr (if sc' \<noteq> RTEMS_SUCCESSFUL then HPSC_MBOX_TEST_CHAN_RELEASE else rc, d2, mt_ker s)))))"

text \<open>\<open>raw\<close> is what the allocated block happens to contain, \<open>regs\<close> are the registers.\<close>

definition hpsc_mbox_test_block ::
  "'k rtems \<Rightarrow> mbox_hw \<Rightarrow> u8 list \<Rightarrow> (rtems_interval \<Rightarrow> 'k mbox_test_st \<Rightarrow> 'k mbox_test_st res) \<Rightarrow> (nat \<Rightarrow> hpsc_mbox_chan) \<Rightarrow>
   (u32 \<Rightarrow> hpsc_mbox_chan_base) \<Rightarrow> u32 \<Rightarrow> rtems_vector_number \<Rightarrow> nat \<Rightarrow> rtems_vector_number \<Rightarrow> nat \<Rightarrow> nat \<Rightarrow> u8 \<Rightarrow> u8 \<Rightarrow> u8 \<Rightarrow>
   'k \<Rightarrow> (hpsc_mbox_test_rc \<times> 'k) res" where
  "hpsc_mbox_test_block K hw behind wait raw regs base int_a int_idx_a int_b int_idx_b i owner src dest k =
     res_bind (hpsc_mbox_probe K raw ''HPSC TEST MAILBOX'' base int_a int_idx_a int_b int_idx_b k) (\<lambda>(sc, p, mo, k1).
       if sc \<noteq> RTEMS_SUCCESSFUL then Inr (HPSC_MBOX_TEST_PROBE, k1)
       else c_deref mo (\<lambda>mb.
         res_bind (hpsc_mbox_chan_test K hw behind wait i owner src dest \<lparr>st_mbox = mb, st_regs = regs\<rparr> k1) (\<lambda>(rc, d, k2).
         res_bind (hpsc_mbox_remove K hw p d k2) (\<lambda>(sc', d', k3).
           Inr (if sc' \<noteq> RTEMS_SUCCESSFUL then HPSC_MBOX_TEST_REMOVE else rc, k3)))))"

subsection \<open>The test on one channel\<close>

lemma strncmp_eq_null: "length xs < n \<Longrightarrow> 0 \<notin> set xs \<Longrightarrow> strncmp_eq n (xs @ 0 # ys) (xs @ 0 # zs) = Inr True"
proof (induction xs arbitrary: n)
  case Nil
  then show ?case by (cases n) simp_all
next
  case (Cons x xs)
  then show ?case by (cases n) simp_all
qed

lemma TEST_MSG_eq: "TEST_MSG = [0x48, 0x50, 0x53, 0x43, 0x20, 0x4d, 0x42, 0x4f, 0x58, 0x20, 0x54, 0x45, 0x53, 0x54, 0x20, 0x4d, 0x53, 0x47, 0]"
  by (simp add: TEST_MSG_def of_char_def)

lemma TEST_MSG_words: "length TEST_MSG = 19" "words_of_size 19 = 5"
  by (simp_all add: TEST_MSG_eq words_of_size_def)

lemma TEST_MSG_received: "strncmp_eq 64 (TEST_MSG @ rest) TEST_MSG = Inr True"
  using strncmp_eq_null [of "butlast TEST_MSG" 64 rest "[]"] by (simp add: TEST_MSG_eq)

text \<open>Interrupts that deliver the message and then its acknowledgement.\<close>

definition loops_back :: "'k rtems \<Rightarrow> mbox_hw \<Rightarrow> rtems_interval \<Rightarrow> 'k mbox_test_st \<Rightarrow> 'k mbox_test_st res" where
  "loops_back K hw ticks s = res_bind (cb_recv K hw s) (cb_ack K hw)"

lemma loopback_outcome:
  assumes hw: "mbox_hw_laws hw" and wf: "mbox_wf (st_mbox d)" and i: "i < 32"
    and base: "ch_base (chan_of d i) = Some a" and data: "length (DATA (st_regs d a)) = 16"
    and ctx: "ctx = \<lparr>mt_instance = i, mt_tid = t, rx_rc = HPSC_MBOX_TEST_CHAN_NO_RECV, ack_rc = HPSC_MBOX_TEST_CHAN_NO_ACK\<rparr>"
  shows "test_loopback K hw [] wait \<lparr>mt_drv = d, mt_ctx = ctx, mt_ker = k\<rparr> = Inl Undef"
    and "\<exists>s. test_loopback K hw (b # bs) (\<lambda>_. Inr) \<lparr>mt_drv = d, mt_ctx = ctx, mt_ker = k\<rparr> = Inr (HPSC_MBOX_TEST_CHAN_NO_RECV, s) \<and>
       st_mbox (mt_drv s) = st_mbox d \<and> mt_ker s = snd (rt_event_take_all K (MBOX_EVENT_RECV OR MBOX_EVENT_ACK) k)"
    and "\<exists>s. test_loopback K hw (b # bs) (loops_back K hw) \<lparr>mt_drv = d, mt_ctx = ctx, mt_ker = k\<rparr> = Inr (HPSC_MBOX_TEST_SUCCESS, s) \<and>
       st_mbox (mt_drv s) = st_mbox d \<and>
       mt_ker s = snd (rt_event_take_all K (MBOX_EVENT_RECV OR MBOX_EVENT_ACK) (snd (rt_event_send K t MBOX_EVENT_ACK (snd (rt_event_send K t MBOX_EVENT_RECV k)))))"
proof -
  show "test_loopback K hw [] wait \<lparr>mt_drv = d, mt_ctx = ctx, mt_ker = k\<rparr> = Inl Undef"
    using i base by (simp add: test_loopback_def ctx hpsc_mbox_chan_write_def TEST_MSG_words)
  let ?msg = "TEST_MSG @ b # bs"
  let ?d = "data_zero_loop 5 (data_copy_loop 0 5 ?msg (DATA (st_regs d a)))"
  let ?d1 = "upd_regs a (\<lambda>r. r\<lparr>DATA := data_zero_loop 5 (data_copy_loop 0 5 ?msg (DATA r))\<rparr>) d"
  let ?d2 = "upd_regs a (hw_status_set hw HPSC_MBOX_EVENT_A) ?d1"
  have w: "hpsc_mbox_chan_write i (Some ?msg) 19 d = Inr (19, ?d1)"
    using i base by (simp add: hpsc_mbox_chan_write_def Let_def TEST_MSG_words)
  have e: "hpsc_mbox_chan_event_set_rcv hw i ?d1 = Inr ?d2"
    using i base by (simp add: hpsc_mbox_chan_event_set_rcv_def chan_event_store_def)
  show "\<exists>s. test_loopback K hw (b # bs) (\<lambda>_. Inr) \<lparr>mt_drv = d, mt_ctx = ctx, mt_ker = k\<rparr> = Inr (HPSC_MBOX_TEST_CHAN_NO_RECV, s) \<and>
       st_mbox (mt_drv s) = st_mbox d \<and> mt_ker s = snd (rt_event_take_all K (MBOX_EVENT_RECV OR MBOX_EVENT_ACK) k)"
    using w e by (simp add: test_loopback_def ctx TEST_MSG_words Let_def)
  have "data_read_loop 0 16 ?d (replicate 64 0) = (16, take 20 ?msg @ replicate 44 0)"
    using data data_read_loop_spec [of 16 "replicate 64 0" 0 ?d] written_data_bytes [OF data, of 5 ?msg]
    by (simp add: overwrite_def TEST_MSG_words)
  moreover have "take 20 ?msg = TEST_MSG @ [b]" by (simp add: TEST_MSG_words)
  ultimately have r: "hpsc_mbox_chan_read i (Some (replicate 64 0)) 64 ?d2 = Inr (64, TEST_MSG @ b # replicate 44 0)"
    using i base mbox_hw_lawsD(4) [OF hw] by (simp add: hpsc_mbox_chan_read_def words_of_size_def)
  have ev: "chan_event_store f i x = Inr (upd_regs a f x)" if "st_mbox x = st_mbox d" for f x
    using i base that by (simp add: chan_event_store_def)
  show "\<exists>s. test_loopback K hw (b # bs) (loops_back K hw) \<lparr>mt_drv = d, mt_ctx = ctx, mt_ker = k\<rparr> = Inr (HPSC_MBOX_TEST_SUCCESS, s) \<and>
       st_mbox (mt_drv s) = st_mbox d \<and>
       mt_ker s = snd (rt_event_take_all K (MBOX_EVENT_RECV OR MBOX_EVENT_ACK) (snd (rt_event_send K t MBOX_EVENT_ACK (snd (rt_event_send K t MBOX_EVENT_RECV k)))))"
    using w e r
    by (simp add: test_loopback_def ctx TEST_MSG_words loops_back_def cb_recv_def cb_ack_def TEST_MSG_received ev Let_def
        HPSC_MBOX_DATA_SIZE_def hpsc_mbox_chan_event_clear_rcv_def hpsc_mbox_chan_event_set_ack_def hpsc_mbox_chan_event_clear_ack_def)
qed


text \<open>Events do not change whether an interrupt is being served.\<close>

definition event_isr_laws :: "'k rtems \<Rightarrow> bool" where
  "event_isr_laws K \<longleftrightarrow> (\<forall>t e k. rt_int_in_progress K (snd (rt_event_send K t e k)) = rt_int_in_progress K k) \<and>
     (\<forall>m k. rt_int_in_progress K (snd (rt_event_take_all K m k)) = rt_int_in_progress K k)"

subsection \<open>Properties\<close>

text \<open>C36. The self-test of a mailbox channel reports a refused claim. Once it has the channel, sending
  its 19-byte message makes the driver read 20 bytes, which is undefined behaviour for the string in
  the code. If another byte follows the string, the test succeeds when the message and its
  acknowledgement arrive, reports a missing message when nothing arrives, and releases the channel
  either way.\<close>

theorem mbox_chan_test_outcome:
  assumes hw: "mbox_hw_laws hw" and ev: "event_isr_laws K" and wf: "mbox_wf (st_mbox d)" and i: "i < HPSC_MBOX_CHANNELS"
    and free: "\<not> ch_active (chan_of d i)" and data: "length (DATA (st_regs d (chan_addr (st_mbox d) i))) = HPSC_MBOX_DATA_REGS"
    and task: "\<not> rt_int_in_progress K k"
    and claim: "hpsc_mbox_chan_claim hw False i ow sr de (Some Mbox_test_cb_recv) (Some Mbox_test_cb_ack) mbox_test_addr d = Inr (sc, d0)"
  shows "if sc \<noteq> RTEMS_SUCCESSFUL then hpsc_mbox_chan_test K hw behind wait i ow sr de d k = Inr (HPSC_MBOX_TEST_CHAN_CLAIM, d0, k)
    else hpsc_mbox_chan_test K hw [] wait i ow sr de d k = Inl Undef \<and>
      (\<exists>d' k'. hpsc_mbox_chan_test K hw (b # bs) (loops_back K hw) i ow sr de d k = Inr (HPSC_MBOX_TEST_SUCCESS, d', k') \<and>
         \<not> ch_active (chan_of d' i)) \<and>
      (\<exists>d' k'. hpsc_mbox_chan_test K hw (b # bs) (\<lambda>_. Inr) i ow sr de d k = Inr (HPSC_MBOX_TEST_CHAN_NO_RECV, d', k') \<and>
         \<not> ch_active (chan_of d' i))"
proof (cases "sc = RTEMS_SUCCESSFUL")
  case False
  then show ?thesis using claim task by (simp add: hpsc_mbox_chan_test_def Let_def)
next
  case True
  have i': "i < 32" using i by simp
  have fr: "mbox_frame i (st_mbox d) (st_regs d) (st_mbox d0) (st_regs d0)"
    using claim_frame [OF hw wf i' free, of ow sr de "Some Mbox_test_cb_recv" "Some Mbox_test_cb_ack" mbox_test_addr] claim by auto
  then have d0: "mbox_wf (st_mbox d0)" "ch_base (chan_of d0 i) = Some (chan_addr (st_mbox d0) i)"
      "length (DATA (st_regs d0 (chan_addr (st_mbox d0) i))) = 16"
    using data mbox_frame_addr [OF fr, of i] by (simp_all add: mbox_frame_def)
  let ?ctx = "\<lparr>mt_instance = i, mt_tid = rt_task_self K k, rx_rc = HPSC_MBOX_TEST_CHAN_NO_RECV, ack_rc = HPSC_MBOX_TEST_CHAN_NO_ACK\<rparr>"
  note lo = loopback_outcome [OF hw d0(1) i' d0(2,3) refl, where K = K and t = "rt_task_self K k"]
  have rel: "\<exists>d'. hpsc_mbox_chan_release hw (rt_int_in_progress K k') i x = Inr (RTEMS_SUCCESSFUL, d') \<and> \<not> ch_active (chan_of d' i)"
    if "st_mbox x = st_mbox d0" "rt_int_in_progress K k' = rt_int_in_progress K k" for x k'
    using release_frame [OF hw _ i', of x] d0(1,2) that task by auto
  have run: "hpsc_mbox_chan_test K hw behind wait i ow sr de d k =
      res_bind (test_loopback K hw behind wait \<lparr>mt_drv = d0, mt_ctx = ?ctx, mt_ker = k\<rparr>) (\<lambda>(rc, s).
         res_bind (hpsc_mbox_chan_release hw (rt_int_in_progress K (mt_ker s)) i (mt_drv s)) (\<lambda>(sc', d2).
           Inr (if sc' \<noteq> RTEMS_SUCCESSFUL then HPSC_MBOX_TEST_CHAN_RELEASE else rc, d2, mt_ker s)))" for behind wait
    using claim task True by (simp add: hpsc_mbox_chan_test_def Let_def)
  have undef: "hpsc_mbox_chan_test K hw [] wait i ow sr de d k = Inl Undef" unfolding run lo(1) by simp
  obtain s where s: "test_loopback K hw (b # bs) (loops_back K hw) \<lparr>mt_drv = d0, mt_ctx = ?ctx, mt_ker = k\<rparr> = Inr (HPSC_MBOX_TEST_SUCCESS, s)"
    "st_mbox (mt_drv s) = st_mbox d0" "rt_int_in_progress K (mt_ker s) = rt_int_in_progress K k"
    using lo(3) [where b = b and bs = bs and k = k] ev unfolding event_isr_laws_def by auto
  obtain q where q: "test_loopback K hw (b # bs) (\<lambda>_. Inr) \<lparr>mt_drv = d0, mt_ctx = ?ctx, mt_ker = k\<rparr> = Inr (HPSC_MBOX_TEST_CHAN_NO_RECV, q)"
    "st_mbox (mt_drv q) = st_mbox d0" "rt_int_in_progress K (mt_ker q) = rt_int_in_progress K k"
    using lo(2) [where b = b and bs = bs and k = k] ev unfolding event_isr_laws_def by auto
  show ?thesis using True undef rel [OF s(2,3)] rel [OF q(2,3)] s(1) q(1) by (auto simp: run)
qed

lemma demo_event_isr: "event_isr_laws demo_rtems"
  by (simp add: event_isr_laws_def rt_event_take_all_def demo_rtems_def)

text \<open>The loopback channel of a free block, with and without a byte behind the string.\<close>

theorem mbox_chan_test_outcome_witness:
  "hpsc_mbox_chan_test demo_rtems demo_hw [] (loops_back demo_rtems demo_hw) 31 0 0 0 demo_mbox demo_k0 = Inl Undef \<and>
   (\<exists>d' k'. hpsc_mbox_chan_test demo_rtems demo_hw [7] (loops_back demo_rtems demo_hw) 31 0 0 0 demo_mbox demo_k0 =
      Inr (HPSC_MBOX_TEST_SUCCESS, d', k'))"
proof -
  have c: "\<exists>d0. hpsc_mbox_chan_claim demo_hw False 31 0 0 0 (Some Mbox_test_cb_recv) (Some Mbox_test_cb_ack) mbox_test_addr demo_mbox =
      Inr (RTEMS_SUCCESSFUL, d0)"
    by (simp add: claim_free demo_mbox_chan demo_chan_def claim_status_def Let_def)
  have h: "(31 :: nat) < HPSC_MBOX_CHANNELS" "\<not> ch_active (chan_of demo_mbox 31)"
    "length (DATA (st_regs demo_mbox (chan_addr (st_mbox demo_mbox) 31))) = HPSC_MBOX_DATA_REGS" "\<not> rt_int_in_progress demo_rtems demo_k0"
    by (simp_all add: demo_mbox_chan demo_chan_def demo_regs_def demo_rtems_def demo_k0_def)
  from c obtain d0 where "hpsc_mbox_chan_claim demo_hw False 31 0 0 0 (Some Mbox_test_cb_recv) (Some Mbox_test_cb_ack) mbox_test_addr demo_mbox =
      Inr (RTEMS_SUCCESSFUL, d0)" by blast
  from mbox_chan_test_outcome [OF demo_hw_laws demo_event_isr demo_mbox_wf h this, of "[]" "loops_back demo_rtems demo_hw" 7 "[]"]
  show ?thesis by auto
qed

end
