(* ===== verification/Rtps_Tests.thy ===== *)
theory Rtps_Tests
  imports Mbox_Test Boot
begin

text \<open>
  The tests of the mailboxes on the node (\<open>rtps-r52/tests/mailbox.c\<close>).  Messages on the console are left out.
\<close>

subsection \<open>Model\<close>

text \<open>\<open>test_mbox_lsio_loopback\<close>: the self-test of a channel on the block to the control processor.\<close>

definition test_lsio_loopback ::
  "'k sys \<Rightarrow> u8 list \<Rightarrow> (rtems_interval \<Rightarrow> 'k mbox_test_st \<Rightarrow> 'k mbox_test_st res) \<Rightarrow> 'k world \<Rightarrow> (hpsc_mbox_test_rc \<times> 'k world) res" where
  "test_lsio_loopback sys behind wait w =
     res_bind (dev_get_mbox (dev_id_code DEV_ID_MBOX_LSIO) (w_devs w)) (\<lambda>m.
       c_assert (m \<noteq> NULL) (c_deref (w_mbox w m) (\<lambda>mb.
         res_bind (hpsc_mbox_chan_test (sys_K sys) (sys_hw sys) behind wait LSIO_MBOX0_CHAN__RTPS_R52_LOCKSTEP_SSW__LOOPBACK 0 0 0
             \<lparr>st_mbox = mb, st_regs = w_mreg w\<rparr> (w_ker w)) (\<lambda>(rc, d, k).
           Inr (rc, w\<lparr>w_mbox := (w_mbox w)(m \<mapsto> st_mbox d), w_mreg := st_regs d, w_ker := k\<rparr>)))))"

definition SEND_RCV_TIME_OUT :: rtems_interval where "SEND_RCV_TIME_OUT = 3567587328"

text \<open>
  \<open>test_mbox_rtps_hpps\<close>.  The buffers are local arrays: \<open>wb\<close> is what \<open>write_buf\<close> holds at first, \<open>rp\<close> the address of
  \<open>read_buf\<close> and \<open>rb\<close> what it holds.  The assert after the connection names the function \<open>link\<close>, so it always holds.
\<close>

definition test_mbox_hpps ::
  "'k sys \<Rightarrow> link \<Rightarrow> 'k env \<Rightarrow> 'k env \<Rightarrow> ('k world \<Rightarrow> 'k world res) \<Rightarrow> nat \<Rightarrow> bool \<Rightarrow> u8 list \<Rightarrow> ptr \<Rightarrow> u8 list \<Rightarrow> u32 \<Rightarrow> u32 \<Rightarrow>
   'k world \<Rightarrow> (hpsc_mbox_test_rc \<times> 'k world) res" where
  "test_mbox_hpps sys raw env env' yield fuel al wb rp rb mbox_in mbox_out w =
     (if unat mbox_in \<ge> HPSC_MBOX_CHANNELS \<or> unat mbox_out \<ge> HPSC_MBOX_CHANNELS then Inr (HPSC_MBOX_TEST_CHAN_CLAIM, w)
      else res_bind (dev_get_mbox (dev_id_code DEV_ID_MBOX_HPPS_RTPS) (w_devs w)) (\<lambda>m.
       c_assert (m \<noteq> NULL)
        (res_bind (link_mbox_connect sys raw ''TEST_LINK'' m (unat mbox_in) (unat mbox_out) 0 1 w) (\<lambda>(test_link, w1).
         res_bind (hpsc_msg_ping (Some wb) HPSC_MSG_SIZE (Some (replicate HPSC_MSG_PAYLOAD_SIZE 0)) HPSC_MSG_PAYLOAD_SIZE) (\<lambda>write_buf.
         res_bind (link_request sys env env' test_link SEND_RCV_TIME_OUT (Some \<lparr>buf_aligned = al, buf_bytes = write_buf\<rparr>) HPSC_MSG_SIZE
             SEND_RCV_TIME_OUT rp HPSC_MSG_SIZE RTEMS_EVENT_2 (w1\<lparr>w_buf := (w_buf w1)(rp \<mapsto> rb)\<rparr>)) (\<lambda>(bytes, w2).
         let rc = (if bytes = -1 then HPSC_MBOX_TEST_CHAN_WRITE else if bytes = -2 then HPSC_MBOX_TEST_CHAN_NO_RECV
                   else HPSC_MBOX_TEST_SUCCESS) in
         res_bind (link_disconnect sys yield fuel test_link w2) (\<lambda>(_, w3).
           Inr (rc, w3\<lparr>w_buf := (w_buf w3)(rp := None)\<rparr>))))))))"

subsection \<open>Properties\<close>

text \<open>The message of the test; three of its bytes are whatever the array held.\<close>

definition hpps_ping :: "u8 list \<Rightarrow> u8 list" where
  "hpps_ping wb = msg_code PING # take 3 (tl wb) @ replicate 60 0"

lemma hpps_ping_made:
  assumes "length wb = 64"
  shows "hpsc_msg_ping (Some wb) 64 (Some (replicate 60 0)) 60 = Inr (hpps_ping wb)" "length (hpps_ping wb) = 64"
  using assms msg_fill_Some [of wb 60 "replicate 60 0" PING] by (simp_all add: hpsc_msg_ping_def hpps_ping_def)

text \<open>The test with a link.\<close>

lemma mbox_hpps_connected:
  assumes dev: "dev_get_mbox (dev_id_code DEV_ID_MBOX_HPPS_RTPS) (w_devs w) = Inr m" "m \<noteq> NULL" and ij: "unat i < 32" "unat j < 32"
    and conn: "link_mbox_connect sys raw ''TEST_LINK'' m (unat i) (unat j) 0 1 w = Inr (l, w1)" and wb: "length wb = 64"
  shows "test_mbox_hpps sys raw env env' yield fuel al wb rp rb i j w =
    res_bind (link_request sys env env' l SEND_RCV_TIME_OUT (Some \<lparr>buf_aligned = al, buf_bytes = hpps_ping wb\<rparr>) 64
        SEND_RCV_TIME_OUT rp 64 RTEMS_EVENT_2 (w1\<lparr>w_buf := (w_buf w1)(rp \<mapsto> rb)\<rparr>)) (\<lambda>(bytes, w2).
      let rc = (if bytes = -1 then HPSC_MBOX_TEST_CHAN_WRITE else if bytes = -2 then HPSC_MBOX_TEST_CHAN_NO_RECV else HPSC_MBOX_TEST_SUCCESS) in
      res_bind (link_disconnect sys yield fuel l w2) (\<lambda>(_, w3). Inr (rc, w3\<lparr>w_buf := (w_buf w3)(rp := None)\<rparr>)))"
  using dev ij conn hpps_ping_made(1) [OF wb]
  by (simp add: test_mbox_hpps_def HPSC_MSG_PAYLOAD_SIZE_def HPSC_MSG_PAYLOAD_OFFSET_def)


text \<open>A node whose block to the application processors is at 0x100; the next free memory is at \<open>p\<close>, null if there is none.\<close>

definition demo_hpps_world :: "ptr \<Rightarrow> demo_kernel world" where
  "demo_hpps_world p = demo_block_world\<lparr>w_devs := devices_init\<lparr>devs_mbox := (devs_mbox devices_init)(dev_id_code DEV_ID_MBOX_HPPS_RTPS := 0x100)\<rparr>,
     w_ker := demo_k0\<lparr>dk_next := p\<rparr>\<rparr>"

lemma demo_hpps_connect:
  "link_mbox_connect demo_sys demo_link_mbox ''TEST_LINK'' 0x100 3 4 0 1 (demo_hpps_world 0) = Inr (NULL, demo_hpps_world 0)"
  by (simp add: link_mbox_connect_def w_malloc_def Let_def demo_hpps_world_def demo_rtems_def)


end
