(* ===== verification/Shell_Tests.thy ===== *)
theory Shell_Tests
  imports Boot
begin

text \<open>
  The shell commands that run the tests (\<open>rtps-r52/shell-tests.c\<close>) and the table of the shell's commands in
  \<open>rtps-r52/init.c\<close>.  The tests themselves are parameters.  Messages on the console are left out.
\<close>

subsection \<open>Arguments\<close>

text \<open>\<open>atoi\<close> of the C library: blanks, a sign, digits.\<close>

definition is_space :: "char \<Rightarrow> bool" where
  "is_space c \<longleftrightarrow> of_char c = (32 :: nat) \<or> (9 \<le> (of_char c :: nat) \<and> of_char c \<le> (13 :: nat))"

definition digit_of :: "char \<Rightarrow> int" where "digit_of c = int (of_char c) - 48"

fun digits_value :: "int \<Rightarrow> string \<Rightarrow> int" where
  "digits_value v [] = v"
| "digits_value v (c # cs) = (if 0 \<le> digit_of c \<and> digit_of c \<le> 9 then digits_value (10 * v + digit_of c) cs else v)"

fun atoi :: "string \<Rightarrow> int" where
  "atoi [] = 0"
| "atoi (c # cs) = (if is_space c then atoi cs else if c = CHR ''-'' then - digits_value 0 cs
     else if c = CHR ''+'' then digits_value 0 cs else digits_value 0 (c # cs))"

text \<open>Reading an argument: behind the last one is a null pointer, and a number that is no \<open>int\<close> is undefined behaviour.\<close>

definition atoi_arg :: "string list \<Rightarrow> nat \<Rightarrow> u32 res" where
  "atoi_arg argv n = (if n < length argv \<and> - (2 ^ 31) \<le> atoi (argv ! n) \<and> atoi (argv ! n) < 2 ^ 31
     then Inr (of_int (atoi (argv ! n))) else Inl Undef)"

subsection \<open>Commands\<close>

definition shell_test_command :: "'k tests \<Rightarrow> 'k test" where "shell_test_command ts = test_command ts"

definition shell_test_cpu_rti_timers :: "config \<Rightarrow> 'k tests \<Rightarrow> 'k test" where
  "shell_test_cpu_rti_timers c ts w = (if CONFIG_RTI_TIMER c then test_cpu_rti_timers ts w else Inr (-1, w))"

definition shell_test_lsio_sram :: "'k tests \<Rightarrow> 'k test" where "shell_test_lsio_sram ts = test_lsio_sram ts"

definition shell_test_lsio_sram_dma :: "'k tests \<Rightarrow> 'k test" where "shell_test_lsio_sram_dma ts = test_lsio_sram_dma ts"

definition shell_test_mbox_lsio_loopback :: "config \<Rightarrow> 'k tests \<Rightarrow> 'k test" where
  "shell_test_mbox_lsio_loopback c ts w = (if CONFIG_MBOX_LSIO c then test_mbox_lsio_loopback ts w else Inr (-1, w))"

definition shell_test_rtps_mmu :: "'k tests \<Rightarrow> 'k test" where "shell_test_rtps_mmu ts = test_rtps_mmu ts False"

definition shell_test_rtps_mmu_dma :: "'k tests \<Rightarrow> 'k test" where "shell_test_rtps_mmu_dma ts = test_rtps_mmu ts True"

definition shell_test_shmem :: "'k tests \<Rightarrow> 'k test" where "shell_test_shmem ts = test_shmem ts"

definition shell_test_command_server :: "'k tests \<Rightarrow> 'k test" where "shell_test_command_server ts = test_command_server ts"

definition shell_test_link_shmem :: "'k tests \<Rightarrow> 'k test" where "shell_test_link_shmem ts = test_link_shmem ts"

definition shell_test_link_mbox_trch :: "config \<Rightarrow> 'k tests \<Rightarrow> 'k test" where
  "shell_test_link_mbox_trch c ts w = (if CONFIG_LINK_MBOX_TRCH_CLIENT c then test_link_mbox_trch ts w else Inr (-1, w))"

definition shell_test_link_shmem_trch :: "config \<Rightarrow> 'k tests \<Rightarrow> 'k test" where
  "shell_test_link_shmem_trch c ts w = (if CONFIG_LINK_SHMEM_TRCH_CLIENT c then test_link_shmem_trch ts w else Inr (-1, w))"

text \<open>\<open>test\<close> is \<open>test_mbox_rtps_hpps\<close>; \<open>argc\<close> is the length of \<open>argv\<close>.\<close>

definition shell_test_mbox_rtps_hpps :: "(u32 \<Rightarrow> u32 \<Rightarrow> 'k test) \<Rightarrow> string list \<Rightarrow> 'k test" where
  "shell_test_mbox_rtps_hpps test argv w =
     (if length argv \<le> 1 then Inr (-1, w)
      else res_bind (atoi_arg argv 1) (\<lambda>mbox_in. res_bind (atoi_arg argv 2) (\<lambda>mbox_out. test mbox_in mbox_out w)))"

datatype shell_fn =
    Shutdown_rtps_r52 | Shell_test_command | Shell_test_cpu_rti_timers | Shell_test_lsio_sram | Shell_test_lsio_sram_dma
  | Shell_test_mbox_lsio_loopback | Shell_test_rtps_mmu | Shell_test_rtps_mmu_dma | Shell_test_shmem | Shell_test_command_server
  | Shell_test_link_shmem | Shell_test_link_mbox_trch | Shell_test_link_shmem_trch | Shell_test_mbox_rtps_hpps

record shell_cmd =
  sh_name :: string
  sh_usage :: string
  sh_topic :: string
  sh_command :: shell_fn

definition SHELL_TESTS_TOPIC :: string where "SHELL_TESTS_TOPIC = ''hpsc-rtps-r52-test''"

definition shutdown_rtps_r52_command :: shell_cmd where
  "shutdown_rtps_r52_command = \<lparr>sh_name = ''shutdown'', sh_usage = ''shutdown'', sh_topic = ''hpsc-rtps-r52'', sh_command = Shutdown_rtps_r52\<rparr>"

definition shell_cmd_test_command :: shell_cmd where
  "shell_cmd_test_command = \<lparr>sh_name = ''test_command'', sh_usage = ''test_command'', sh_topic = SHELL_TESTS_TOPIC, sh_command = Shell_test_command\<rparr>"

definition shell_cmd_test_cpu_rti_timers :: shell_cmd where
  "shell_cmd_test_cpu_rti_timers = \<lparr>sh_name = ''test_cpu_rti_timers'', sh_usage = ''test_cpu_rti_timers'', sh_topic = SHELL_TESTS_TOPIC,
     sh_command = Shell_test_cpu_rti_timers\<rparr>"

definition shell_cmd_test_lsio_sram :: shell_cmd where
  "shell_cmd_test_lsio_sram = \<lparr>sh_name = ''test_lsio_sram'', sh_usage = ''test_lsio_sram'', sh_topic = SHELL_TESTS_TOPIC,
     sh_command = Shell_test_lsio_sram\<rparr>"

definition shell_cmd_test_lsio_sram_dma :: shell_cmd where
  "shell_cmd_test_lsio_sram_dma = \<lparr>sh_name = ''test_lsio_sram_dma'', sh_usage = ''test_lsio_sram_dma'', sh_topic = SHELL_TESTS_TOPIC,
     sh_command = Shell_test_lsio_sram_dma\<rparr>"

definition shell_cmd_test_mbox_lsio_loopback :: shell_cmd where
  "shell_cmd_test_mbox_lsio_loopback = \<lparr>sh_name = ''test_mbox_lsio_loopback'', sh_usage = ''test_mbox_lsio_loopback'',
     sh_topic = SHELL_TESTS_TOPIC, sh_command = Shell_test_mbox_lsio_loopback\<rparr>"

definition shell_cmd_test_rtps_mmu :: shell_cmd where
  "shell_cmd_test_rtps_mmu = \<lparr>sh_name = ''test_rtps_mmu'', sh_usage = ''test_rtps_mmu'', sh_topic = SHELL_TESTS_TOPIC, sh_command = Shell_test_rtps_mmu\<rparr>"

definition shell_cmd_test_rtps_mmu_dma :: shell_cmd where
  "shell_cmd_test_rtps_mmu_dma = \<lparr>sh_name = ''test_rtps_mmu_dma'', sh_usage = ''test_rtps_mmu_dma'', sh_topic = SHELL_TESTS_TOPIC,
     sh_command = Shell_test_rtps_mmu_dma\<rparr>"

definition shell_cmd_test_shmem :: shell_cmd where
  "shell_cmd_test_shmem = \<lparr>sh_name = ''test_shmem'', sh_usage = ''test_shmem'', sh_topic = SHELL_TESTS_TOPIC, sh_command = Shell_test_shmem\<rparr>"

definition shell_cmd_test_command_server :: shell_cmd where
  "shell_cmd_test_command_server = \<lparr>sh_name = ''test_command_server'', sh_usage = ''test_command_server'', sh_topic = SHELL_TESTS_TOPIC,
     sh_command = Shell_test_command_server\<rparr>"

definition shell_cmd_test_link_shmem :: shell_cmd where
  "shell_cmd_test_link_shmem = \<lparr>sh_name = ''test_link_shmem'', sh_usage = ''test_link_shmem'', sh_topic = SHELL_TESTS_TOPIC,
     sh_command = Shell_test_link_shmem\<rparr>"

definition shell_cmd_test_link_mbox_trch :: shell_cmd where
  "shell_cmd_test_link_mbox_trch = \<lparr>sh_name = ''test_link_mbox_trch'', sh_usage = ''test_link_mbox_trch'', sh_topic = SHELL_TESTS_TOPIC,
     sh_command = Shell_test_link_mbox_trch\<rparr>"

definition shell_cmd_test_link_shmem_trch :: shell_cmd where
  "shell_cmd_test_link_shmem_trch = \<lparr>sh_name = ''test_link_shmem_trch'', sh_usage = ''test_link_shmem_trch'', sh_topic = SHELL_TESTS_TOPIC,
     sh_command = Shell_test_link_shmem_trch\<rparr>"

definition shell_cmd_test_mbox_rtps_hpps :: shell_cmd where
  "shell_cmd_test_mbox_rtps_hpps = \<lparr>sh_name = ''test_mbox_rtps_hpps'', sh_usage = ''test_mbox_rtps_hpps'', sh_topic = SHELL_TESTS_TOPIC,
     sh_command = Shell_test_mbox_rtps_hpps\<rparr>"

text \<open>The table of \<open>init.c\<close>, in which the test of the command queue is commented out.\<close>

definition CONFIGURE_SHELL_USER_COMMANDS :: "shell_cmd list" where
  "CONFIGURE_SHELL_USER_COMMANDS = [shutdown_rtps_r52_command, shell_cmd_test_cpu_rti_timers, shell_cmd_test_lsio_sram,
     shell_cmd_test_lsio_sram_dma, shell_cmd_test_mbox_lsio_loopback, shell_cmd_test_rtps_mmu, shell_cmd_test_rtps_mmu_dma,
     shell_cmd_test_shmem, shell_cmd_test_command_server, shell_cmd_test_link_shmem, shell_cmd_test_link_mbox_trch,
     shell_cmd_test_link_shmem_trch, shell_cmd_test_mbox_rtps_hpps]"

text \<open>Running a line of the shell: the command whose name is the first word.  \<open>stop\<close> is the shutdown of the node.\<close>

fun call_shell_fn ::
  "config \<Rightarrow> 'k tests \<Rightarrow> (u32 \<Rightarrow> u32 \<Rightarrow> 'k test) \<Rightarrow> 'k test \<Rightarrow> shell_fn \<Rightarrow> string list \<Rightarrow> 'k test" where
  "call_shell_fn c ts hpps stop Shutdown_rtps_r52 argv = stop"
| "call_shell_fn c ts hpps stop Shell_test_command argv = shell_test_command ts"
| "call_shell_fn c ts hpps stop Shell_test_cpu_rti_timers argv = shell_test_cpu_rti_timers c ts"
| "call_shell_fn c ts hpps stop Shell_test_lsio_sram argv = shell_test_lsio_sram ts"
| "call_shell_fn c ts hpps stop Shell_test_lsio_sram_dma argv = shell_test_lsio_sram_dma ts"
| "call_shell_fn c ts hpps stop Shell_test_mbox_lsio_loopback argv = shell_test_mbox_lsio_loopback c ts"
| "call_shell_fn c ts hpps stop Shell_test_rtps_mmu argv = shell_test_rtps_mmu ts"
| "call_shell_fn c ts hpps stop Shell_test_rtps_mmu_dma argv = shell_test_rtps_mmu_dma ts"
| "call_shell_fn c ts hpps stop Shell_test_shmem argv = shell_test_shmem ts"
| "call_shell_fn c ts hpps stop Shell_test_command_server argv = shell_test_command_server ts"
| "call_shell_fn c ts hpps stop Shell_test_link_shmem argv = shell_test_link_shmem ts"
| "call_shell_fn c ts hpps stop Shell_test_link_mbox_trch argv = shell_test_link_mbox_trch c ts"
| "call_shell_fn c ts hpps stop Shell_test_link_shmem_trch argv = shell_test_link_shmem_trch c ts"
| "call_shell_fn c ts hpps stop Shell_test_mbox_rtps_hpps argv = shell_test_mbox_rtps_hpps hpps argv"

definition run_shell :: "config \<Rightarrow> 'k tests \<Rightarrow> (u32 \<Rightarrow> u32 \<Rightarrow> 'k test) \<Rightarrow> 'k test \<Rightarrow> string list \<Rightarrow> 'k world \<Rightarrow> (int \<times> 'k world) res option" where
  "run_shell c ts hpps stop argv w = (case argv of [] \<Rightarrow> None | name # _ \<Rightarrow>
     map_option (\<lambda>cmd. call_shell_fn c ts hpps stop (sh_command cmd) argv w) (find (\<lambda>cmd. sh_name cmd = name) CONFIGURE_SHELL_USER_COMMANDS))"

subsection \<open>Numbers\<close>

fun decimal :: "nat \<Rightarrow> string" where
  "decimal n = (if n < 10 then [char_of (48 + n)] else decimal (n div 10) @ [char_of (48 + n mod 10)])"

declare decimal.simps [simp del]

lemma digit_of_char: "d < 10 \<Longrightarrow> digit_of (char_of (48 + d)) = int d"
  by (simp add: digit_of_def)

lemma digits_value_append:
  "\<forall>c \<in> set xs. 0 \<le> digit_of c \<and> digit_of c \<le> 9 \<Longrightarrow> digits_value v (xs @ ys) = digits_value (digits_value v xs) ys"
  by (induction xs arbitrary: v) simp_all

lemma decimal_digits: "\<forall>c \<in> set (decimal n). 0 \<le> digit_of c \<and> digit_of c \<le> 9"
proof (induction n rule: decimal.induct)
  case (1 n)
  show ?case
  proof (cases "n < 10")
    case False
    then show ?thesis using 1 digit_of_char [of "n mod 10"] by (subst decimal.simps) auto
  qed (subst decimal.simps, simp add: digit_of_char)
qed

lemma decimal_value: "digits_value 0 (decimal n) = int n"
proof (induction n rule: decimal.induct)
  case (1 n)
  show ?case
  proof (cases "n < 10")
    case True
    then show ?thesis by (subst decimal.simps) (simp add: digit_of_char)
  next
    case False
    have "digits_value 0 (decimal n) = digits_value (digits_value 0 (decimal (n div 10))) [char_of (48 + n mod 10)]"
      using False digits_value_append [OF decimal_digits] by (subst decimal.simps) simp
    also have "\<dots> = 10 * int (n div 10) + int (n mod 10)"
      using 1 [OF False] digit_of_char [of "n mod 10"] by simp
    also have "10 * int (n div 10) + int (n mod 10) = int n" by (metis mult_div_mod_eq of_nat_add of_nat_mult of_nat_numeral)
    finally show ?thesis .
  qed
qed

lemma atoi_decimal: "atoi (decimal n) = int n"
proof -
  have "decimal n \<noteq> []" by (subst decimal.simps) simp
  then obtain c cs where c: "decimal n = c # cs" by (cases "decimal n") auto
  have "48 \<le> int (of_char c)" "int (of_char c) \<le> 57" using decimal_digits [of n] c by (simp_all add: digit_of_def)
  then have "\<not> is_space c" "c \<noteq> CHR ''-''" "c \<noteq> CHR ''+''" by (auto simp: is_space_def)
  then show ?thesis using decimal_value [of n] c by simp
qed


subsection \<open>Properties\<close>

theorem run_shell_outcome:
  assumes i: "i < 2 ^ 31" and j: "j < 2 ^ 31" and n: "n = ''test_mbox_rtps_hpps''"
  shows "run_shell c ts hpps stop [n, decimal i, decimal j] w = Some (hpps (of_nat i) (of_nat j) w) \<and>
    run_shell c ts hpps stop [n, decimal i] w = Some (Inl Undef) \<and> run_shell c ts hpps stop [n] w = Some (Inr (-1, w)) \<and>
    run_shell c ts hpps stop (''test_command'' # argv) w = None \<and>
    (\<forall>cmd \<in> set CONFIGURE_SHELL_USER_COMMANDS. run_shell c ts hpps stop (sh_name cmd # argv) w =
      Some (call_shell_fn c ts hpps stop (sh_command cmd) (sh_name cmd # argv) w)) \<and>
    (\<not> CONFIG_LINK_MBOX_TRCH_CLIENT c \<longrightarrow> run_shell c ts hpps stop (''test_link_mbox_trch'' # argv) w = Some (Inr (-1, w)))"
proof -
  note cmds = CONFIGURE_SHELL_USER_COMMANDS_def shutdown_rtps_r52_command_def shell_cmd_test_cpu_rti_timers_def shell_cmd_test_lsio_sram_def
    shell_cmd_test_lsio_sram_dma_def shell_cmd_test_mbox_lsio_loopback_def shell_cmd_test_rtps_mmu_def shell_cmd_test_rtps_mmu_dma_def
    shell_cmd_test_shmem_def shell_cmd_test_command_server_def shell_cmd_test_link_shmem_def shell_cmd_test_link_mbox_trch_def
    shell_cmd_test_link_shmem_trch_def shell_cmd_test_mbox_rtps_hpps_def
  have num: "atoi_arg [n, decimal i] 1 = Inr (of_nat i)" "atoi_arg [n, decimal i, decimal j] 1 = Inr (of_nat i)"
    "atoi_arg [n, decimal i, decimal j] 2 = Inr (of_nat j)" "atoi_arg [n, decimal i] 2 = Inl Undef"
    using i j by (simp_all add: atoi_arg_def atoi_decimal)
  show ?thesis
  proof (intro conjI impI)
    show "run_shell c ts hpps stop [n, decimal i, decimal j] w = Some (hpps (of_nat i) (of_nat j) w)"
      using num by (simp add: run_shell_def cmds n shell_test_mbox_rtps_hpps_def)
    show "run_shell c ts hpps stop [n, decimal i] w = Some (Inl Undef)"
      using num by (simp add: run_shell_def cmds n shell_test_mbox_rtps_hpps_def)
    show "run_shell c ts hpps stop [n] w = Some (Inr (-1, w))"
      by (simp add: run_shell_def cmds n shell_test_mbox_rtps_hpps_def)
    show "run_shell c ts hpps stop (''test_command'' # argv) w = None" by (simp add: run_shell_def cmds)
    show "\<forall>cmd \<in> set CONFIGURE_SHELL_USER_COMMANDS. run_shell c ts hpps stop (sh_name cmd # argv) w =
      Some (call_shell_fn c ts hpps stop (sh_command cmd) (sh_name cmd # argv) w)"
      by (simp add: run_shell_def cmds)
    show "run_shell c ts hpps stop (''test_link_mbox_trch'' # argv) w = Some (Inr (-1, w))" if "\<not> CONFIG_LINK_MBOX_TRCH_CLIENT c"
      using that by (simp add: run_shell_def cmds shell_test_link_mbox_trch_def)
  qed
qed

theorem run_shell_outcome_witness:
  "\<forall>c ts stop (w :: nat world). run_shell c ts (\<lambda>i j w. Inr (uint i + uint j, w)) stop [''test_mbox_rtps_hpps'', ''3'', ''14''] w = Some (Inr (17, w)) \<and>
     run_shell c ts (\<lambda>i j w. Inr (uint i + uint j, w)) stop [''test_mbox_rtps_hpps'', ''3''] w = Some (Inl Undef)"
proof (intro allI)
  fix c :: config and ts stop and w :: "nat world"
  have d: "decimal 3 = ''3''" "decimal 14 = ''14''" by (simp_all add: decimal.simps char_of_def bit_0)
  have h: "(3 :: nat) < 2 ^ 31" "(14 :: nat) < 2 ^ 31" by simp_all
  show "run_shell c ts (\<lambda>i j w. Inr (uint i + uint j, w)) stop [''test_mbox_rtps_hpps'', ''3'', ''14''] w = Some (Inr (17, w)) \<and>
     run_shell c ts (\<lambda>i j w. Inr (uint i + uint j, w)) stop [''test_mbox_rtps_hpps'', ''3''] w = Some (Inl Undef)"
    using run_shell_outcome [OF h refl, of c ts "\<lambda>i j w. Inr (uint i + uint j, w)" stop w] unfolding d by simp
qed

end
