(* ===== verification/Spec2Isabelle.thy ===== *)
theory Spec2Isabelle
  imports Link_Setup_Shmem Session Mbox_Typing Boot_Links Rti_Timer_Test Link_Shmem_Test Bus_Tests Rtps_Tests Shell_Tests
begin

text \<open>
  A model of the RTEMS software of the HPSC chiplet's real-time subsystem (RTPS, two Cortex-R52
  processors), with the properties that make it correct and, where it is not, what it does instead.

  The program.  \<open>rtps-r52/init.c\<close> starts a node: it probes the mailbox blocks, RTI timers and watchdogs,
  stores them as devices, starts one task per watchdog, makes links to the other subsystems and starts
  a task that handles commands.  A link (\<open>lib/hpsc/link.c\<close>) exchanges messages of 64 bytes with one
  acknowledgement each, over two mailbox channels (\<open>link-mbox.c\<close> over \<open>lib/drivers/hpsc-mbox.c\<close>) or over two
  shared memory regions that polling tasks watch (\<open>link-shmem.c\<close> over \<open>shmem.c\<close> and \<open>shmem-poll.c\<close>).  A server
  link puts incoming messages into the command queue (\<open>command.c\<close>), whose task lets the server
  (\<open>rtps-r52/server.c\<close>) answer them over the link they came from; a client link blocks a task in
  \<open>link_request\<close> until the acknowledgement and the reply have arrived.  \<open>rtps-r52/shutdown.c\<close> takes all of this
  down again.

  How code is modelled.  A \<open>struct\<close> is a record with the source's fields, an \<open>enum\<close> a datatype, an integer
  a word of its width, a pointer a 32-bit word that indexes a map of objects; following an address
  that holds no object is \<open>Undef\<close>.  A function takes the state and returns the new one in \<open>'a res\<close> (theory
  Prelude): \<open>Inr\<close>, or \<open>Inl\<close> of a failed assert, a panic, undefined behaviour or spent fuel.  A loop over data is
  a recursive function.  A loop that waits for another task takes \<open>fuel\<close>, the number of turns it may make,
  and \<open>yield\<close>, what the others do in one turn; the theorems that such a loop ends give it a measure
  that every turn decreases and fuel for its initial value.  \<open>Out_Of_Fuel\<close> is no outcome of the program.
  A blocking call takes what happens meanwhile as an argument (\<open>env\<close>), so interrupts and other tasks
  appear as functions on the node, arbitrary unless a theorem says what they do.

  What is not in the repository is a parameter: the kernel (\<open>'k rtems\<close>), the mailbox and timer
  registers, the watchdog driver, the board's addresses (\<open>board\<close>), the DMA, MMU and SRAM drivers.  What the
  code relies on is stated as predicates named \<open>..._laws\<close> on observations of their state, which read the RTEMS Classic API guide,
  the C standard or the comments in the drivers; each property that uses laws has a witness in which
  they hold for a small concrete kernel (\<open>demo_rtems\<close>) or device.

  Vocabulary and kernel
    Prelude          results, sequencing, little-endian bytes, lists of fixed length
    Rtems            the kernel's calls, the laws, the kernel of the witnesses
    Platform         \<open>plat/mailbox-map.h\<close>, \<open>plat/mem-map.h\<close>: all constants; overlaps in the maps

  Drivers
    Mbox             \<open>lib/drivers/hpsc-mbox.c\<close>, every function: structure invariant (\<open>mbox_wf\<close>), claims and
                     releases on every branch, data and events, the interrupt handlers against a
                     reference, probe and removal
    Mbox_Typing      calls as data, and a discipline under which no sequence of them faults
    Rti_Timer        \<open>lib/drivers/hpsc-rti-timer.c\<close>, every function
    Gic, Devices     \<open>rtps-r52/gic.c\<close>; \<open>lib/hpsc/devices.c\<close> and \<open>affinity.c\<close>, the stores as instances of the
                     locale \<open>slot_store\<close>

  Messages, links and commands
    Hpsc_Msg         \<open>hpsc-msg.c\<close>
    Shmem            \<open>shmem.c\<close>: copying by words and bytes, the two flags
    Cmd_Queue        the ring buffer of \<open>command.c\<close>; it refines a first-in first-out list below capacity
                     (locale \<open>bounded_fifo\<close>), and the full test as the code has it
    Link_Store       \<open>link-store.c\<close>, a chain as a list
    World            the node: the objects by address, the static data of all files, devices, memory, kernel
    Link_Mbox, Shmem_Poll, Link_Shmem, Link
                     \<open>link-mbox.c\<close>, \<open>shmem-poll.c\<close>, \<open>link-shmem.c\<close>, \<open>link.c\<close>
    Link_Contract    the locale \<open>link_transport\<close>: what a transport promises (a write fills the outgoing
                     slot and nothing else, a read takes the incoming message and acknowledges it, the
                     acknowledgement callback marks the request); requests and callbacks are proved in it, and it is interpreted for mailbox
                     links, for shared memory links and, as \<open>any_link\<close>, for links of either kind
    Link_Requests    requests and callbacks of \<open>link.c\<close>: the acknowledged and answered request, time-outs, the
                     races between acknowledgement, reply and time-out
    Command, Polling \<open>command.c\<close>, \<open>rtps-r52/server.c\<close>: handling a command, a turn of the handler task, its
                     life; a turn and the life of a polling task
    Link_Setup, Link_Setup_Shmem
                     making and closing links, all or nothing
    Session          the calls of one direction of a shared memory link as steps of the two ends: the
                     invariant and the order of delivery over all interleavings without time-outs,
                     progress, and the interleavings that lose messages

  The node
    Watchdog_Cpu, Watchdog
                     \<open>lib/hpsc/watchdog-cpu.c\<close>, \<open>rtps-r52/watchdog.c\<close>: the kicking tasks, their creation on every
                     processor and their end
    Boot, Boot_Drivers, Boot_Links
                     \<open>rtps-r52/init.c\<close>: the model, what the drivers' entry establishes, and what a completed
                     start-up has made and stored
    Shutdown, Shutdown_Devices
                     \<open>rtps-r52/shutdown.c\<close>: disconnecting the stored links (fuel: one turn per link), and
                     the removal of the devices
    this theory      start-up followed by shutdown

  Tests that the repository ships
    Rti_Timer_Test, Mbox_Test
                     \<open>lib/drivers-selftest\<close>
    Lib_Tests, Command_Test, Link_Shmem_Test
                     \<open>lib/hpsc-test\<close>: pings, regions, the handler task, the link over two regions
    Rtps_Tests, Bus_Tests, Shell_Tests
                     \<open>rtps-r52/tests\<close> and \<open>rtps-r52/shell-tests.c\<close>: mailbox links, the DMA, MMU and SRAM
                     tests, whose jumps equal nested brackets of acquisition and release, and the
                     commands of the shell

  Not modelled.  Interrupt locks and mutexes: an operation that holds one is a single step.  Console
  output and the formatting of texts.  The static configuration of the kernel in \<open>init.c\<close> and \<open>trch/init.c\<close>,
  and the latter's greeting.  \<open>lib/hpsc-test/command-server.c\<close>, whose dummy link is a third implementation of
  the link interface; the wrappers in \<open>tests/hpsc-test-wrappers.c\<close>, which print around calls, and
  \<open>tests/rti-timer.c\<close>, which runs the modelled self-test once per processor.  The memory model: regions at
  different addresses do not overlap, accesses by devices and other subsystems happen between the
  steps of the model, and stores become visible in program order.
\<close>

section \<open>Starting and stopping the node\<close>

text \<open>C34. A node whose drivers have just been started with a mailbox in the configuration cannot be shut
  down: the part of shutdown that removes the devices runs into undefined behaviour. Without mailboxes
  it suspends all other tasks, empties the slots of all processors and frees the timers, unless the
  kernel refuses to move the caller.\<close>

theorem start_then_shutdown:
  assumes irq: "irq_laws (sys_K sys) irqs" and heap: "heap_laws (sys_K sys) live" and aff: "affinity_laws (sys_K sys) aff"
    and boot: "boot_laws (sys_K sys) live irqs aff" and isr: "isr_laws (sys_K sys)" and susp: "suspend_laws (sys_K sys) live irqs susp"
    and devs: "w_devs w = devices_init" and base: "MBOX_LSIO__BASE b \<noteq> 0" "MBOX_HPPS_RTPS__BASE b \<noteq> 0" "GIC_EDGE_TRIGGERED b = 1"
    and up: "init_extra_drivers sys c b regs w = Inr (regs', w')" and task: "\<not> rt_int_in_progress (sys_K sys) (w_ker w')"
    and N: "N = rt_cpu_count (sys_K sys)"
  shows "if CONFIG_MBOX_LSIO c \<or> CONFIG_MBOX_HPPS_RTPS c then shutdown_rest sys w' = Inl Undef
    else (\<exists>w''. shutdown_rest sys w' = Inr w'' \<and>
        set (rt_task_list (sys_K sys) (w_ker w')) - {rt_task_self (sys_K sys) (w_ker w')} \<subseteq> susp (w_ker w'') \<and>
        (\<forall>cpu < N. rtits (w_devs w'') cpu = NULL \<and> wdts (w_devs w'') cpu = NULL) \<and>
        live (w_ker w'') = live (w_ker w') - registered_rtits N w') \<or>
      shutdown_rest sys w' = Inl Panic \<and> \<not> can_pin (sys_K sys)"
proof -
  have d: "drivers_up irqs sys c b w'"
    using init_extra_drivers_ready [OF irq heap aff boot devs base refl, of c regs] up by (auto simp: stops_def)
  then have r: "mboxes_registered irqs w'" "rtits_registered sys w'"
    and cl: "mboxes_claimed w' \<longleftrightarrow> \<not> (CONFIG_MBOX_LSIO c \<or> CONFIG_MBOX_HPPS_RTPS c)"
    unfolding drivers_up_def by blast+
  have idle: "rtits_idle sys w'"
    unfolding rtits_idle_def
  proof (intro allI impI)
    fix i t assume i: "i < rt_cpu_count (sys_K sys)" "rtits (w_devs w') i \<noteq> NULL" and t: "w_rtit w' (rtits (w_devs w') i) = Some t"
    from d i have "w_rtit w' (rtits (w_devs w') i) =
        Some (hpsc_rti_timer_init (rtit_names ! i) (rtit_bases b i) (GIC_NR_SGIS + PPI_IRQ__RTI_TIMER b))"
      unfolding drivers_up_def by metis
    then show "\<not> is_started t" using t by (simp add: hpsc_rti_timer_init_def)
  qed
  show ?thesis
  proof (cases "CONFIG_MBOX_LSIO c \<or> CONFIG_MBOX_HPPS_RTPS c")
    case True
    then show ?thesis using shutdown_rest_cases [OF irq heap isr aff susp r task N] cl by simp
  next
    case False
    have "devs_mbox (w_devs w') 0 = NULL" "devs_mbox (w_devs w') 1 = NULL" "devs_mbox (w_devs w') 2 = NULL"
      using d False unfolding drivers_up_def by blast+
    moreover have "{..<3} = {0, 1, 2 :: nat}" by auto
    ultimately have "registered_mboxes 3 w' = {}" by (simp add: registered_mboxes_def)
    note none = this
    have claimed: "\<not> \<not> mboxes_claimed w'" using cl False by blast
    from shutdown_rest_cases [OF irq heap isr aff susp r task N, unfolded if_not_P [OF claimed]]
    show ?thesis
    proof (elim disjE exE conjE)
      fix w'' assume "shutdown_rest sys w' = Inr w''"
        and "set (rt_task_list (sys_K sys) (w_ker w')) - {rt_task_self (sys_K sys) (w_ker w')} \<subseteq> susp (w_ker w'')"
        and "\<forall>cpu < N. rtits (w_devs w'') cpu = NULL \<and> wdts (w_devs w'') cpu = NULL"
        and "live (w_ker w'') = live (w_ker w') - registered_mboxes 3 w' - registered_rtits N w'"
      then show ?thesis unfolding none Diff_empty if_not_P [OF False] by blast
    qed (unfold if_not_P [OF False], use idle in blast)
  qed
qed

text \<open>A node with both mailboxes.\<close>

theorem start_then_shutdown_witness:
  "\<exists>regs' w'. init_extra_drivers demo_sys demo_config demo_board (\<lambda>_. 0) fresh_world = Inr (regs', w') \<and> shutdown_rest demo_sys w' = Inl Undef"
proof -
  obtain regs' w' where up: "init_extra_drivers demo_sys demo_config demo_board (\<lambda>_. 0) fresh_world = Inr (regs', w')"
      "\<not> rt_int_in_progress (sys_K demo_sys) (w_ker w')"
    using demo_drivers_start by auto
  have b: "w_devs fresh_world = devices_init" "MBOX_LSIO__BASE demo_board \<noteq> 0" "MBOX_HPPS_RTPS__BASE demo_board \<noteq> 0"
      "GIC_EDGE_TRIGGERED demo_board = 1" and c: "CONFIG_MBOX_LSIO demo_config"
    by (simp_all add: demo_board_def demo_config_def)
  note laws = demo_irq_laws demo_heap_laws demo_affinity_laws demo_boot_laws demo_isr_laws demo_suspend_laws
  have "shutdown_rest demo_sys w' = Inl Undef"
    using start_then_shutdown [of demo_sys, unfolded demo_sys_simps(1), OF laws b up(1) up(2) [unfolded demo_sys_simps(1)] refl] c by simp
  then show ?thesis using up(1) by blast
qed

end
